(* ===== verification/Json.thy ===== *)
theory Json
  imports Prelude
begin

section \<open>JSON values\<close>

text \<open>
  The request bodies that the gateway inspects and rewrites are \<open>serde_json::Value\<close>s. That
  package is not part of the repository; its values are the JSON data model and its accessors are
  documented, so the constructors and the accessors the modelled code uses are written here.
  An object is an association list kept in key order, as the package's default map does.

  Assigning through an index, \<open>body["field"] = v\<close>, is the one accessor that can fail: it turns
  \<open>null\<close> into an object, inserts into an object, and panics on every other value. It returns
  \<open>None\<close> for the panic.
\<close>

datatype jnum = PosInt u64 | NegInt u64 | FloatNum rat

datatype json =
    JNull
  | JBool bool
  | JNum jnum
  | JStr string
  | JArr "json list"
  | JObj "(string \<times> json) list"

fun obj_insert :: "string \<Rightarrow> 'v \<Rightarrow> (string \<times> 'v) list \<Rightarrow> (string \<times> 'v) list" where
  "obj_insert k v [] = [(k, v)]"
| "obj_insert k v ((k', v') # m) =
     (if k = k' then (k, v) # m
      else if k < k' then (k, v) # (k', v') # m
      else (k', v') # obj_insert k v m)"

lemma map_of_obj_insert [simp]: "map_of (obj_insert k v m) = (map_of m)(k \<mapsto> v)"
  by (induction m) (auto simp: fun_eq_iff)

lemma keys_obj_insert: "set (map fst (obj_insert k v m)) = insert k (set (map fst m))"
proof (induction m)
  case (Cons p m)
  then show ?case by (cases p) (auto simp del: set_map)
qed simp

lemma obj_insert_sorted:
  "sorted_wrt (<) (map fst m) \<Longrightarrow> sorted_wrt (<) (map fst (obj_insert k v m))"
proof (induction m)
  case (Cons p m)
  then show ?case
    by (cases p) (auto simp: keys_obj_insert simp del: set_map)
qed simp

fun jget :: "json \<Rightarrow> string \<Rightarrow> json option" where
  "jget (JObj m) k = map_of m k"
| "jget _ k = None"

fun as_str :: "json \<Rightarrow> string option" where
  "as_str (JStr s) = Some s"
| "as_str _ = None"

fun as_bool :: "json \<Rightarrow> bool option" where
  "as_bool (JBool b) = Some b"
| "as_bool _ = None"

fun as_array :: "json \<Rightarrow> json list option" where
  "as_array (JArr xs) = Some xs"
| "as_array _ = None"

fun as_object :: "json \<Rightarrow> (string \<times> json) list option" where
  "as_object (JObj m) = Some m"
| "as_object _ = None"

fun as_u64 :: "json \<Rightarrow> u64 option" where
  "as_u64 (JNum (PosInt n)) = Some n"
| "as_u64 _ = None"

text \<open>
  \<open>Value::pointer\<close> on a path of field names. The paths in the modelled code contain no numeric
  token, so no step of theirs selects an element of an array.
\<close>

fun pointer :: "json \<Rightarrow> string list \<Rightarrow> json option" where
  "pointer v [] = Some v"
| "pointer v (k # ks) = (case jget v k of None \<Rightarrow> None | Some w \<Rightarrow> pointer w ks)"

definition str_field :: "json \<Rightarrow> string \<Rightarrow> string option" where
  "str_field v k = Option.bind (jget v k) as_str"

fun index_set :: "json \<Rightarrow> string \<Rightarrow> json \<Rightarrow> json option" where
  "index_set JNull k v = Some (JObj [(k, v)])"
| "index_set (JObj m) k v = Some (JObj (obj_insert k v m))"
| "index_set _ k v = None"

text \<open>Writing through \<open>get_mut(k)\<close>: the value at an existing key of an object is replaced.\<close>

fun obj_replace :: "string \<Rightarrow> 'v \<Rightarrow> (string \<times> 'v) list \<Rightarrow> (string \<times> 'v) list" where
  "obj_replace k v [] = []"
| "obj_replace k v ((k', v') # m) = (if k = k' then (k, v) # m else (k', v') # obj_replace k v m)"

lemma map_of_obj_replace [simp]:
  "map_of (obj_replace k v m) k' = (if k = k' \<and> map_of m k \<noteq> None then Some v else map_of m k')"
  by (induction m) auto

lemma obj_replace_id: "map_of m k = Some v \<Longrightarrow> obj_replace k v m = m"
  by (induction m) auto

fun set_field :: "json \<Rightarrow> string \<Rightarrow> json \<Rightarrow> json" where
  "set_field (JObj m) k v = JObj (obj_replace k v m)"
| "set_field j k v = j"

fun is_object :: "json \<Rightarrow> bool" where
  "is_object (JObj m) = True"
| "is_object _ = False"

lemma is_object_conv: "is_object v \<longleftrightarrow> (\<exists>m. v = JObj m)"
  by (cases v) auto

lemma as_str_Some [simp]: "as_str v = Some s \<longleftrightarrow> v = JStr s"
  by (cases v) auto

lemma as_array_Some [simp]: "as_array v = Some xs \<longleftrightarrow> v = JArr xs"
  by (cases v) auto

lemma jget_Some_object: "jget v k = Some w \<Longrightarrow> is_object v"
  by (cases v) auto

lemma index_set_get: "index_set v k w = Some v' \<Longrightarrow> jget v' k = Some w"
  by (cases v) auto

lemma index_set_other: "index_set v k w = Some v' \<Longrightarrow> k' \<noteq> k \<Longrightarrow> jget v' k' = jget v k'"
  by (cases v) auto

lemma index_set_object: "index_set v k w = Some v' \<Longrightarrow> is_object v'"
  by (cases v) auto

lemma index_set_defined: "is_object v \<Longrightarrow> index_set v k w \<noteq> None"
  by (cases v) auto

lemma set_field_get [simp]:
  "jget (set_field v k w) k' =
     (if k = k' \<and> jget v k \<noteq> None then Some w else jget v k')"
  by (cases v) auto

lemma set_field_id: "jget v k = Some w \<Longrightarrow> set_field v k w = v"
  by (cases v) (auto simp: obj_replace_id)

lemma set_field_object [simp]: "is_object (set_field v k w) = is_object v"
  by (cases v) auto

lemma str_field_set_field [simp]:
  "k \<noteq> k' \<Longrightarrow> str_field (set_field v k w) k' = str_field v k'"
  by (simp add: str_field_def)

end
