(* ===== verification/Glob.thy ===== *)
theory Glob
  imports Prelude
begin

section \<open>The domain glob (src/src/network\_acl.rs, glob\_match)\<close>

text \<open>
  The matcher of the network policy: one left-to-right scan with a single backtracking point, the
  last \<open>*\<close> seen. The loop has no obvious bound, so it is an optional result whose absence would
  be divergence; below it is shown to return on every input, and to compute the declarative glob
  semantics whenever the text holds no literal \<open>*\<close>.
\<close>

datatype glob_result = Mismatch | Consumed nat

partial_function (option) glob_loop ::
    "string \<Rightarrow> string \<Rightarrow> nat \<Rightarrow> nat \<Rightarrow> nat option \<Rightarrow> nat \<Rightarrow> glob_result option" where
  "glob_loop p t pattern_index cursor wildcard retry_position =
     (if cursor < length t then
        (if pattern_index < length p
            \<and> (p ! pattern_index = CHR ''?'' \<or> p ! pattern_index = t ! cursor)
         then glob_loop p t (Suc pattern_index) (Suc cursor) wildcard retry_position
         else if pattern_index < length p \<and> p ! pattern_index = CHR ''*''
         then glob_loop p t (Suc pattern_index) cursor (Some pattern_index) cursor
         else (case wildcard of
                 Some s \<Rightarrow> glob_loop p t (Suc s) (Suc retry_position) wildcard (Suc retry_position)
               | None \<Rightarrow> Some Mismatch))
      else Some (Consumed pattern_index))"

declare glob_loop.simps [code]

function skip_stars :: "string \<Rightarrow> nat \<Rightarrow> nat" where
  "skip_stars p i = (if i < length p \<and> p ! i = CHR ''*'' then skip_stars p (Suc i) else i)"
  by pat_completeness auto
termination
  by (relation "measure (\<lambda>(p, i). length p - i)") auto

declare skip_stars.simps [simp del]

definition accepts :: "string \<Rightarrow> glob_result \<Rightarrow> bool" where
  "accepts p r = (case r of Mismatch \<Rightarrow> False | Consumed i \<Rightarrow> skip_stars p i = length p)"

definition glob_match_inner :: "string \<Rightarrow> string \<Rightarrow> bool option" where
  "glob_match_inner p t = map_option (accepts p) (glob_loop p t 0 0 None 0)"

definition glob_match :: "string \<Rightarrow> string \<Rightarrow> bool" where
  "glob_match pattern text = (glob_match_inner (to_lower pattern) (to_lower text) = Some True)"

subsection \<open>What a glob pattern means\<close>

function glob_spec :: "string \<Rightarrow> string \<Rightarrow> bool" where
  "glob_spec [] t = (t = [])"
| "glob_spec (q # ps) [] = (q = CHR ''*'' \<and> glob_spec ps [])"
| "glob_spec (q # ps) (c # cs) =
     (if q = CHR ''*'' then glob_spec ps (c # cs) \<or> glob_spec (q # ps) cs
      else (q = CHR ''?'' \<or> q = c) \<and> glob_spec ps cs)"
  by pat_completeness auto
termination
  by (relation "measure (\<lambda>(p, t). length p + length t)") auto

lemma glob_spec_star: "glob_spec (CHR ''*'' # ps) t \<longleftrightarrow> (\<exists>k \<le> length t. glob_spec ps (drop k t))"
proof (induction t)
  case Nil
  then show ?case by simp
next
  case (Cons c cs)
  have "(\<exists>k \<le> length (c # cs). glob_spec ps (drop k (c # cs))) \<longleftrightarrow>
      glob_spec ps (c # cs) \<or> (\<exists>k \<le> length cs. glob_spec ps (drop k cs))"
    by (auto simp: ex_simps dest: Suc_le_D intro: exI [of _ 0] exI [of _ "Suc _"])
       (metis Suc_le_mono drop_Suc_Cons not0_implies_Suc drop0)
  with Cons show ?case by simp
qed

lemma glob_spec_suffix:
  assumes "m \<le> length t"
  shows "glob_spec (CHR ''*'' # ps) (drop m t) \<longleftrightarrow>
    (\<exists>k. m \<le> k \<and> k \<le> length t \<and> glob_spec ps (drop k t))" (is "?L \<longleftrightarrow> ?R")
proof
  assume ?L
  then obtain j where "j \<le> length t - m" "glob_spec ps (drop (m + j) t)"
    by (auto simp: glob_spec_star add.commute)
  with assms show ?R by (intro exI [of _ "m + j"]) auto
next
  assume ?R
  then obtain k where "m \<le> k" "k \<le> length t" "glob_spec ps (drop (k - m) (drop m t))"
    by auto
  then show ?L by (auto simp: glob_spec_star intro!: exI [of _ "k - m"])
qed

lemma glob_spec_star_free_prefix:
  "CHR ''*'' \<notin> set s \<Longrightarrow> glob_spec (s @ q) u \<Longrightarrow> length s \<le> length u \<and> glob_spec q (drop (length s) u)"
proof (induction s arbitrary: u)
  case (Cons a s)
  then show ?case by (cases u) auto
qed simp

lemma glob_spec_Nil_skip: "i \<le> length p \<Longrightarrow> glob_spec (drop i p) [] \<longleftrightarrow> skip_stars p i = length p"
proof (induction p i rule: skip_stars.induct)
  case (1 p i)
  show ?case
  proof (cases "i < length p")
    case True
    then have "drop i p = p ! i # drop (Suc i) p" by (simp add: Cons_nth_drop_Suc)
    with "1" True show ?thesis by (auto simp: skip_stars.simps [of p i])
  next
    case False
    with "1.prems" have "i = length p" by simp
    then show ?thesis by (simp add: skip_stars.simps [of p "length p"])
  qed
qed

subsection \<open>The loop returns, and returns what the pattern means\<close>

definition loop_inv :: "string \<Rightarrow> string \<Rightarrow> nat \<Rightarrow> nat \<Rightarrow> nat option \<Rightarrow> nat \<Rightarrow> bool" where
  "loop_inv p t i c w r \<longleftrightarrow> i \<le> length p \<and> c \<le> length t \<and>
     (\<forall>s. w = Some s \<longrightarrow> s < i \<and> r \<le> c \<and> c - r = i - Suc s)"

definition loop_rank :: "string \<Rightarrow> string \<Rightarrow> nat \<times> nat \<times> nat option \<times> nat \<Rightarrow> nat list" where
  "loop_rank p t = (\<lambda>(i, c, w, r).
     [length p - (case w of None \<Rightarrow> 0 | Some s \<Rightarrow> Suc s), length t - r, length t - c])"

definition loop_order :: "string \<Rightarrow> string \<Rightarrow> ((nat \<times> nat \<times> nat option \<times> nat) \<times> (nat \<times> nat \<times> nat option \<times> nat)) set" where
  "loop_order p t = measures [\<lambda>x. loop_rank p t x ! 0, \<lambda>x. loop_rank p t x ! 1, \<lambda>x. loop_rank p t x ! 2]"

lemma wf_loop_order: "wf (loop_order p t)"
  by (simp add: loop_order_def)

lemma glob_loop_returns:
  "loop_inv p t i c w r \<Longrightarrow> \<exists>res. glob_loop p t i c w r = Some res"
proof (induction "(i, c, w, r)" arbitrary: i c w r rule: wf_induct_rule [OF wf_loop_order [of p t]])
  case (1 i c w r)
  note IH = "1.hyps" and inv = "1.prems"
  consider (stop) "\<not> c < length t"
    | (lit) "c < length t" "i < length p" "p ! i = CHR ''?'' \<or> p ! i = t ! c"
    | (star) "c < length t" "i < length p" "p ! i = CHR ''*''" "p ! i \<noteq> t ! c"
    | (retry) "c < length t" "\<not> (i < length p \<and> (p ! i = CHR ''?'' \<or> p ! i = t ! c \<or> p ! i = CHR ''*''))"
    by blast
  then show ?case
  proof cases
    case stop
    then show ?thesis by (simp add: glob_loop.simps [of p t i])
  next
    case lit
    then have "\<exists>res. glob_loop p t (Suc i) (Suc c) w r = Some res"
      using inv by (intro IH) (auto simp: loop_inv_def loop_order_def loop_rank_def Suc_diff_le)
    with lit show ?thesis by (simp add: glob_loop.simps [of p t i])
  next
    case star
    then have "\<exists>res. glob_loop p t (Suc i) c (Some i) c = Some res"
      using inv by (intro IH) (auto simp: loop_inv_def loop_order_def loop_rank_def split: option.splits)
    with star show ?thesis by (simp add: glob_loop.simps [of p t i])
  next
    case retry
    show ?thesis
    proof (cases w)
      case None
      with retry show ?thesis by (auto simp: glob_loop.simps [of p t i])
    next
      case (Some s)
      then have "\<exists>res. glob_loop p t (Suc s) (Suc r) w (Suc r) = Some res"
        using inv retry by (intro IH) (auto simp: loop_inv_def loop_order_def loop_rank_def)
      with retry Some show ?thesis by (auto simp: glob_loop.simps [of p t i])
    qed
  qed
qed


text \<open>
  The pattern between the last \<open>*\<close> and the position reached is free of stars and has matched
  the text from the retry position: that is why one backtracking point is enough.
\<close>

definition segment_free :: "string \<Rightarrow> nat \<Rightarrow> nat option \<Rightarrow> bool" where
  "segment_free p i w \<longleftrightarrow> (\<forall>s j. w = Some s \<longrightarrow> s < j \<longrightarrow> j < i \<longrightarrow> p ! j \<noteq> CHR ''*'')"

definition alternatives :: "string \<Rightarrow> string \<Rightarrow> nat option \<Rightarrow> nat \<Rightarrow> bool" where
  "alternatives p t w r \<longleftrightarrow>
     (\<exists>s k. w = Some s \<and> r < k \<and> k \<le> length t \<and> glob_spec (drop (Suc s) p) (drop k t))"

lemma alternatives_None [simp]: "\<not> alternatives p t None r"
  by (simp add: alternatives_def)

lemma alternatives_past_segment:
  assumes inv: "loop_inv p t i c w r" and free: "segment_free p i w" and alt: "alternatives p t w r"
  shows "\<exists>m. c < m \<and> m \<le> length t \<and> glob_spec (drop i p) (drop m t)"
proof -
  from alt obtain s k where w: "w = Some s" and k: "r < k" "k \<le> length t"
    and spec: "glob_spec (drop (Suc s) p) (drop k t)"
    by (auto simp: alternatives_def)
  from inv w have bounds: "s < i" "r \<le> c" "c - r = i - Suc s" "i \<le> length p"
    by (auto simp: loop_inv_def)
  define seg where "seg = take (i - Suc s) (drop (Suc s) p)"
  have split: "drop (Suc s) p = seg @ drop i p"
  proof -
    from bounds have "drop i p = drop (i - Suc s) (drop (Suc s) p)" by simp
    then show ?thesis by (simp only: seg_def append_take_drop_id)
  qed
  have len: "length seg = i - Suc s" using bounds by (simp add: seg_def)
  have "CHR ''*'' \<notin> set seg"
  proof
    assume "CHR ''*'' \<in> set seg"
    then obtain j where "j < length seg" "seg ! j = CHR ''*''" by (auto simp: in_set_conv_nth)
    with free w len bounds show False by (auto simp: segment_free_def seg_def)
  qed
  with spec split have "length seg \<le> length (drop k t) \<and> glob_spec (drop i p) (drop (length seg) (drop k t))"
    by (intro glob_spec_star_free_prefix) auto
  then have "length seg \<le> length t - k \<and> glob_spec (drop i p) (drop (k + length seg) t)"
    by (simp add: add.commute)
  moreover have "c < k + length seg" using bounds k len by simp
  ultimately show ?thesis using k by (intro exI [of _ "k + length seg"]) auto
qed

lemma ex_from_split:
  fixes c n :: nat
  assumes "c \<le> n"
  shows "(\<exists>m. c \<le> m \<and> m \<le> n \<and> P m) \<longleftrightarrow> P c \<or> (\<exists>m. c < m \<and> m \<le> n \<and> P m)"
  using assms by (auto simp: le_less)

lemma glob_loop_accepts:
  assumes "loop_inv p t i c w r" and "segment_free p i w" and "CHR ''*'' \<notin> set t"
    and "glob_loop p t i c w r = Some res"
  shows "accepts p res \<longleftrightarrow> glob_spec (drop i p) (drop c t) \<or> alternatives p t w r"
  using assms
proof (induction "(i, c, w, r)" arbitrary: i c w r rule: wf_induct_rule [OF wf_loop_order [of p t]])
  case (1 i c w r)
  note IH = "1.hyps" and inv = "1.prems"(1) and free = "1.prems"(2) and lit = "1.prems"(3)
    and ret = "1.prems"(4)
  have head: "drop c t = t ! c # drop (Suc c) t" if "c < length t"
    using that by (simp add: Cons_nth_drop_Suc)
  have phead: "drop i p = p ! i # drop (Suc i) p" if "i < length p"
    using that by (simp add: Cons_nth_drop_Suc)
  have nostar: "t ! c \<noteq> CHR ''*''" if "c < length t"
    using that lit by (metis nth_mem)
  have "c = length t \<or> c < length t" using inv by (auto simp: loop_inv_def)
  then consider (stop) "c = length t"
    | (char) "c < length t" "i < length p" "p ! i = CHR ''?'' \<or> p ! i = t ! c"
    | (star) "c < length t" "i < length p" "p ! i = CHR ''*''"
    | (retry) "c < length t" "\<not> (i < length p \<and> (p ! i = CHR ''?'' \<or> p ! i = t ! c \<or> p ! i = CHR ''*''))"
    by blast
  then show ?case
  proof cases
    case stop
    with ret have "res = Consumed i" by (simp add: glob_loop.simps [of p t i])
    moreover have "\<not> alternatives p t w r"
      using alternatives_past_segment [OF inv free] stop by auto
    ultimately show ?thesis
      using stop inv by (simp add: accepts_def glob_spec_Nil_skip loop_inv_def)
  next
    case char
    have star_free: "p ! i \<noteq> CHR ''*''" using char nostar by auto
    have "accepts p res \<longleftrightarrow> glob_spec (drop (Suc i) p) (drop (Suc c) t) \<or> alternatives p t w r"
    proof (rule IH)
      show "loop_inv p t (Suc i) (Suc c) w r"
        using inv char by (auto simp: loop_inv_def Suc_diff_le)
      show "segment_free p (Suc i) w" using free star_free by (auto simp: segment_free_def less_Suc_eq)
      show "glob_loop p t (Suc i) (Suc c) w r = Some res"
        using ret char by (simp add: glob_loop.simps [of p t i])
    qed (use char lit in \<open>auto simp: loop_order_def loop_rank_def\<close>)
    with char star_free show ?thesis by (auto simp: head phead)
  next
    case star
    have "accepts p res \<longleftrightarrow> glob_spec (drop (Suc i) p) (drop c t) \<or> alternatives p t (Some i) c"
    proof (rule IH)
      show "loop_inv p t (Suc i) c (Some i) c" using inv star by (auto simp: loop_inv_def)
      show "segment_free p (Suc i) (Some i)" by (simp add: segment_free_def)
      show "glob_loop p t (Suc i) c (Some i) c = Some res"
        using ret star nostar by (auto simp: glob_loop.simps [of p t i])
      show "((Suc i, c, Some i, c), i, c, w, r) \<in> loop_order p t"
        using inv star by (auto simp: loop_inv_def loop_order_def loop_rank_def split: option.splits)
    qed (use lit in auto)
    also have "\<dots> \<longleftrightarrow> (\<exists>m. c \<le> m \<and> m \<le> length t \<and> glob_spec (drop (Suc i) p) (drop m t))"
      using star ex_from_split [of c "length t" "\<lambda>m. glob_spec (drop (Suc i) p) (drop m t)"]
      by (auto simp: alternatives_def)
    also have "\<dots> \<longleftrightarrow> glob_spec (drop i p) (drop c t)"
      using star by (simp add: phead glob_spec_suffix)
    moreover have "glob_spec (drop i p) (drop c t)" if alt: "alternatives p t w r"
    proof -
      from alternatives_past_segment [OF inv free alt] obtain m where
        m: "c < m" "m \<le> length t" "glob_spec (CHR ''*'' # drop (Suc i) p) (drop m t)"
        using star by (auto simp: phead)
      from m(3) obtain k where k: "m \<le> k" "k \<le> length t" "glob_spec (drop (Suc i) p) (drop k t)"
        unfolding glob_spec_suffix [OF m(2)] by blast
      have "glob_spec (CHR ''*'' # drop (Suc i) p) (drop c t)"
        using m(1) k star unfolding glob_spec_suffix [OF less_imp_le [OF star(1)]]
        by (intro exI [of _ k]) simp
      with star show ?thesis by (simp add: phead)
    qed
    ultimately show ?thesis by blast
  next
    case retry
    have fails: "\<not> glob_spec (drop i p) (drop c t)"
      using retry inv by (cases "i < length p") (auto simp: head phead loop_inv_def)
    show ?thesis
    proof (cases w)
      case None
      with ret retry have "res = Mismatch" by (auto simp: glob_loop.simps [of p t i])
      with None fails show ?thesis by (simp add: accepts_def)
    next
      case (Some s)
      have step: "accepts p res \<longleftrightarrow> glob_spec (drop (Suc s) p) (drop (Suc r) t) \<or> alternatives p t w (Suc r)"
      proof (rule IH)
        show "loop_inv p t (Suc s) (Suc r) w (Suc r)"
          using inv retry Some by (auto simp: loop_inv_def)
        show "segment_free p (Suc s) w" using Some by (simp add: segment_free_def)
        show "glob_loop p t (Suc s) (Suc r) w (Suc r) = Some res"
          using ret retry Some by (auto simp: glob_loop.simps [of p t i])
        show "((Suc s, Suc r, w, Suc r), i, c, w, r) \<in> loop_order p t"
          using inv retry Some by (auto simp: loop_inv_def loop_order_def loop_rank_def)
      qed (use lit in auto)
      have "Suc r \<le> length t" using inv retry Some by (auto simp: loop_inv_def)
      then have "alternatives p t w r \<longleftrightarrow>
          glob_spec (drop (Suc s) p) (drop (Suc r) t) \<or> alternatives p t w (Suc r)"
        using Some ex_from_split [of "Suc r" "length t" "\<lambda>m. glob_spec (drop (Suc s) p) (drop m t)"]
        by (auto simp: alternatives_def Suc_le_eq)
      with step fails show ?thesis by blast
    qed
  qed
qed

text \<open>The matcher returns on every pattern and text, and agrees with the semantics.\<close>

lemma glob_start: "loop_inv p t 0 0 None 0" "segment_free p 0 None"
  by (simp_all add: loop_inv_def segment_free_def)

lemma glob_match_inner_total: "glob_match_inner p t \<noteq> None"
  using glob_loop_returns [OF glob_start(1), of p t] by (auto simp: glob_match_inner_def)

lemma glob_match_inner_spec:
  assumes "CHR ''*'' \<notin> set t"
  shows "glob_match_inner p t = Some (glob_spec p t)"
proof -
  obtain res where "glob_loop p t 0 0 None 0 = Some res"
    using glob_loop_returns [OF glob_start(1)] by blast
  with glob_loop_accepts [OF glob_start assms this] show ?thesis
    by (simp add: glob_match_inner_def)
qed

lemma star_lower [simp]: "ascii_lower_char c = CHR ''*'' \<longleftrightarrow> c = CHR ''*''"
proof (cases "65 \<le> (of_char c :: nat) \<and> (of_char c :: nat) \<le> 90")
  case True
  then have "(of_char (ascii_lower_char c) :: nat) = of_char c + 32"
    by (simp add: ascii_lower_char_def)
  with True have "(of_char (ascii_lower_char c) :: nat) \<noteq> of_char (CHR ''*'')"
    and "(of_char c :: nat) \<noteq> of_char (CHR ''*'')"
    by simp_all
  then show ?thesis by metis
next
  case False
  then show ?thesis by (auto simp: ascii_lower_char_def)
qed

lemma glob_match_spec:
  assumes "CHR ''*'' \<notin> set text"
  shows "glob_match pattern text = glob_spec (to_lower pattern) (to_lower text)"
proof -
  have "CHR ''*'' \<notin> set (to_lower text)"
    using assms by (auto simp: to_lower_def) (metis star_lower)
  then show ?thesis by (simp add: glob_match_def glob_match_inner_spec)
qed

end
