(* ===== verification/Access_List.thy ===== *)
theory Access_List
  imports Prelude
begin

section \<open>Deny and allow lists\<close>

text \<open>
  Three parts of the gateway decide by a deny list and an optional allow list of patterns: the
  network policy on hosts, the permissions of a virtual key on models, and the policy rule that
  filters tools by name. They owe their callers the same contract: a denied subject is refused
  whatever the allow list says, an allow list that is present admits only what it matches, and
  nothing else is refused. What follows from the contract is proved once, for each of them.
\<close>

locale access_list =
  fixes matches :: "'p \<Rightarrow> 's \<Rightarrow> bool"
    and admits :: "'p list \<Rightarrow> 'p list option \<Rightarrow> 's \<Rightarrow> bool"
  assumes denied: "p \<in> set deny \<Longrightarrow> matches p x \<Longrightarrow> \<not> admits deny allow x"
    and only_allowed: "admits deny (Some ps) x \<Longrightarrow> \<exists>p \<in> set ps. matches p x"
    and otherwise: "(\<forall>p \<in> set deny. \<not> matches p x) \<Longrightarrow>
      (\<forall>ps. allow = Some ps \<longrightarrow> (\<exists>p \<in> set ps. matches p x)) \<Longrightarrow> admits deny allow x"
begin

lemma admits_iff:
  "admits deny allow x \<longleftrightarrow>
     (\<forall>p \<in> set deny. \<not> matches p x) \<and>
     (\<forall>ps. allow = Some ps \<longrightarrow> (\<exists>p \<in> set ps. matches p x))"
  using denied only_allowed otherwise by blast

lemma deny_antimono: "admits (d @ d') allow x \<Longrightarrow> admits d allow x"
  by (auto simp: admits_iff)

lemma allow_mono: "admits deny (Some a) x \<Longrightarrow> admits deny (Some (a @ a')) x"
  by (auto simp: admits_iff)

lemma empty_allow_refuses: "\<not> admits deny (Some []) x"
  by (simp add: admits_iff)

lemma deny_wins: "p \<in> set deny \<Longrightarrow> p \<in> set ps \<Longrightarrow> matches p x \<Longrightarrow> \<not> admits deny (Some ps) x"
  by (rule denied)

lemma order_irrelevant:
  "set d = set d' \<Longrightarrow> set a = set a' \<Longrightarrow> admits d (Some a) x = admits d' (Some a') x"
  by (simp add: admits_iff)

end

end
