(* ===== verification/Network_Acl.thy ===== *)
theory Network_Acl
  imports Glob Access_List
begin

section \<open>Network access control (src/src/network\_acl.rs)\<close>

text \<open>
  The host and destination checks that run before an upstream connection: domain deny and allow
  lists matched by a glob, private address blocking, and the binding of a presented host name to
  the actual destination of a transparent connection. The address parser of the Rust standard
  library is written out, because whether a host is an IP literal decides which checks apply.
  The URL parser and the resolver are arguments of the definitions that call them.
\<close>

subsection \<open>Addresses\<close>

datatype ip_addr =
    V4 u8 u8 u8 u8
  | V6 u16 u16 u16 u16 u16 u16 u16 u16

record socket_addr =
  sa_ip :: ip_addr
  sa_port :: u16

record trusted_endpoint =
  te_host :: string
  te_address :: ip_addr
  te_port :: u16

record network_config =
  allow_domains :: "string list"
  deny_domains :: "string list"
  trusted_private_endpoints :: "trusted_endpoint list"
  block_private_ips :: bool

datatype acl_error =
    InvalidUrl
  | NoHost
  | DeniedBy string
  | PrivateIpHost
  | PrivateName
  | NotInAllowList
  | HostMismatch
  | Unresolved
  | NotResolvedTo
  | PrivateDestination

text \<open>The standard library's digit reader: the longest run of digits, at most \<open>n\<close> of them.\<close>

definition dec_digit :: "char \<Rightarrow> nat option" where
  "dec_digit c = (let n = (of_char c :: nat) in
     if 48 \<le> n \<and> n \<le> 57 then Some (n - 48) else None)"

definition hex_digit :: "char \<Rightarrow> nat option" where
  "hex_digit c = (let n = (of_char c :: nat) in
     if 48 \<le> n \<and> n \<le> 57 then Some (n - 48)
     else if 97 \<le> n \<and> n \<le> 102 then Some (n - 87)
     else if 65 \<le> n \<and> n \<le> 70 then Some (n - 55) else None)"

fun span_digits :: "(char \<Rightarrow> nat option) \<Rightarrow> string \<Rightarrow> nat list \<times> string" where
  "span_digits d [] = ([], [])"
| "span_digits d (c # cs) =
     (case d c of None \<Rightarrow> ([], c # cs)
      | Some n \<Rightarrow> (case span_digits d cs of (ns, r) \<Rightarrow> (n # ns, r)))"

definition digits_value :: "nat \<Rightarrow> nat list \<Rightarrow> nat" where
  "digits_value radix ns = foldl (\<lambda>acc n. acc * radix + n) 0 ns"

definition read_octet :: "string \<Rightarrow> (u8 \<times> string) option" where
  "read_octet s = (case span_digits dec_digit s of (ns, r) \<Rightarrow>
     if ns = [] \<or> 3 < length ns then None
     else if hd ns = 0 \<and> 1 < length ns then None
     else if 255 < digits_value 10 ns then None
     else Some (of_nat (digits_value 10 ns), r))"

definition read_group :: "string \<Rightarrow> (u16 \<times> string) option" where
  "read_group s = (case span_digits hex_digit s of (ns, r) \<Rightarrow>
     if ns = [] \<or> 4 < length ns then None
     else Some (of_nat (digits_value 16 ns), r))"

definition read_char :: "char \<Rightarrow> string \<Rightarrow> string option" where
  "read_char c s = (case s of [] \<Rightarrow> None | d # r \<Rightarrow> if d = c then Some r else None)"

definition read_sep :: "char \<Rightarrow> nat \<Rightarrow> string \<Rightarrow> string option" where
  "read_sep c i s = (if i = 0 then Some s else read_char c s)"

fun read_octets :: "nat \<Rightarrow> nat \<Rightarrow> string \<Rightarrow> (u8 list \<times> string) option" where
  "read_octets i 0 s = Some ([], s)"
| "read_octets i (Suc n) s =
     Option.bind (read_sep CHR ''.'' i s) (\<lambda>s1.
     Option.bind (read_octet s1) (\<lambda>(o1, s2).
     map_option (\<lambda>(os, s3). (o1 # os, s3)) (read_octets (Suc i) n s2)))"

definition be16 :: "u8 \<Rightarrow> u8 \<Rightarrow> u16" where
  "be16 a b = or (push_bit 8 (ucast a)) (ucast b)"

text \<open>
  Reading groups of an IPv6 address into \<open>left\<close> remaining slots, \<open>i\<close> of them already read. A
  trailing IPv4 address takes two slots and ends the run; its presence is the flag.
\<close>

fun read_groups :: "nat \<Rightarrow> nat \<Rightarrow> string \<Rightarrow> u16 list \<times> bool \<times> string" where
  "read_groups i 0 s = ([], False, s)"
| "read_groups i (Suc left) s =
     (case (if left = 0 then None
            else Option.bind (read_sep CHR '':'' i s) (read_octets 0 4)) of
        Some (os, r) \<Rightarrow> ([be16 (os ! 0) (os ! 1), be16 (os ! 2) (os ! 3)], True, r)
      | None \<Rightarrow>
          (case Option.bind (read_sep CHR '':'' i s) read_group of
             None \<Rightarrow> ([], False, s)
           | Some (g, r) \<Rightarrow>
               (case read_groups (Suc i) left r of (gs, v4, r') \<Rightarrow> (g # gs, v4, r'))))"

definition v6_of_groups :: "u16 list \<Rightarrow> ip_addr" where
  "v6_of_groups g = V6 (g ! 0) (g ! 1) (g ! 2) (g ! 3) (g ! 4) (g ! 5) (g ! 6) (g ! 7)"

definition read_ipv6 :: "string \<Rightarrow> (ip_addr \<times> string) option" where
  "read_ipv6 s = (case read_groups 0 8 s of (head, head_v4, r) \<Rightarrow>
     if length head = 8 then Some (v6_of_groups head, r)
     else if head_v4 then None
     else Option.bind (read_char CHR '':'' r) (\<lambda>r1.
          Option.bind (read_char CHR '':'' r1) (\<lambda>r2.
          case read_groups 0 (7 - length head) r2 of (tail, _, r3) \<Rightarrow>
            Some (v6_of_groups (head @ replicate (8 - length head - length tail) 0 @ tail), r3))))"

definition parse_ip :: "string \<Rightarrow> ip_addr option" where
  "parse_ip s =
     (case (case read_octets 0 4 s of
              Some (os, r) \<Rightarrow> Some (V4 (os ! 0) (os ! 1) (os ! 2) (os ! 3), r)
            | None \<Rightarrow> read_ipv6 s) of
        Some (a, []) \<Rightarrow> Some a
      | _ \<Rightarrow> None)"

text \<open>Evaluation of the parser on concrete texts.\<close>

lemma read_octets_numeral:
  "read_octets i (numeral k) s =
     Option.bind (read_sep CHR ''.'' i s) (\<lambda>s1.
     Option.bind (read_octet s1) (\<lambda>(o1, s2).
     map_option (\<lambda>(os, s3). (o1 # os, s3)) (read_octets (Suc i) (pred_numeral k) s2)))"
  by (simp add: numeral_eq_Suc)

lemma read_groups_numeral:
  "read_groups i (numeral k) s =
     (case (if pred_numeral k = 0 then None
            else Option.bind (read_sep CHR '':'' i s) (read_octets 0 4)) of
        Some (os, r) \<Rightarrow> ([be16 (os ! 0) (os ! 1), be16 (os ! 2) (os ! 3)], True, r)
      | None \<Rightarrow>
          (case Option.bind (read_sep CHR '':'' i s) read_group of
             None \<Rightarrow> ([], False, s)
           | Some (g, r) \<Rightarrow>
               (case read_groups (Suc i) (pred_numeral k) r of (gs, v4, r') \<Rightarrow> (g # gs, v4, r'))))"
  by (simp add: numeral_eq_Suc del: read_octets.simps)

lemmas parse_ip_simps = parse_ip_def read_ipv6_def read_octets_numeral read_groups_numeral read_sep_def read_octet_def
  read_group_def dec_digit_def hex_digit_def read_char_def digits_value_def v6_of_groups_def nth_append

subsection \<open>Private ranges\<close>

fun unmap_ip :: "ip_addr \<Rightarrow> ip_addr" where
  "unmap_ip (V6 a b c d e f g h) =
     (if a = 0 \<and> b = 0 \<and> c = 0 \<and> d = 0 \<and> e = 0 \<and> f = 0xffff
      then V4 (ucast (drop_bit 8 g)) (ucast g) (ucast (drop_bit 8 h)) (ucast h)
      else V6 a b c d e f g h)"
| "unmap_ip (V4 a b c d) = V4 a b c d"

definition v4_private :: "u8 \<Rightarrow> u8 \<Rightarrow> u8 \<Rightarrow> u8 \<Rightarrow> bool" where
  "v4_private a b c d \<longleftrightarrow>
     a = 127
     \<or> (a = 10 \<or> (a = 172 \<and> 16 \<le> b \<and> b \<le> 31) \<or> (a = 192 \<and> b = 168))
     \<or> (a = 169 \<and> b = 254)
     \<or> (a = 0 \<and> b = 0 \<and> c = 0 \<and> d = 0)
     \<or> (a = 100 \<and> 64 \<le> b \<and> b \<le> 127)"

fun is_private_ip_unmapped :: "ip_addr \<Rightarrow> bool" where
  "is_private_ip_unmapped (V4 a b c d) = v4_private a b c d"
| "is_private_ip_unmapped (V6 a b c d e f g h) \<longleftrightarrow>
     (a = 0 \<and> b = 0 \<and> c = 0 \<and> d = 0 \<and> e = 0 \<and> f = 0 \<and> g = 0 \<and> h = 1)
     \<or> (a = 0 \<and> b = 0 \<and> c = 0 \<and> d = 0 \<and> e = 0 \<and> f = 0 \<and> g = 0 \<and> h = 0)
     \<or> and a 0xfe00 = 0xfc00
     \<or> and a 0xffc0 = 0xfe80"

definition is_private_ip :: "ip_addr \<Rightarrow> bool" where
  "is_private_ip ip = is_private_ip_unmapped (unmap_ip ip)"

lemma unmap_ip_idem [simp]: "unmap_ip (unmap_ip ip) = unmap_ip ip"
  by (cases ip) auto

lemma is_private_ip_unmap [simp]: "is_private_ip (unmap_ip ip) = is_private_ip ip"
  by (simp add: is_private_ip_def)

subsection \<open>The ranges that are private\<close>

text \<open>
  The reference: an IPv4 address as a number, and the blocks of the comments as prefixes of it.
\<close>

definition v4_number :: "u8 \<Rightarrow> u8 \<Rightarrow> u8 \<Rightarrow> u8 \<Rightarrow> nat" where
  "v4_number a b c d = ((unat a * 256 + unat b) * 256 + unat c) * 256 + unat d"

definition in_block :: "nat \<Rightarrow> nat \<times> nat \<Rightarrow> bool" where
  "in_block n = (\<lambda>(base, len). n div 2 ^ (32 - len) = base div 2 ^ (32 - len))"

definition private_blocks :: "(nat \<times> nat) list" where
  "private_blocks =
     [(v4_number 127 0 0 0, 8), (v4_number 10 0 0 0, 8), (v4_number 172 16 0 0, 12),
      (v4_number 192 168 0 0, 16), (v4_number 169 254 0 0, 16), (v4_number 0 0 0 0, 32),
      (v4_number 100 64 0 0, 10)]"

lemma word8_eq_iff: "(a :: u8) = b \<longleftrightarrow> unat a = unat b"
  by (simp add: word_unat_eq_iff)

lemma v4_number_shifts:
  fixes a b c d :: u8
  shows "v4_number a b c d div 16777216 = unat a"
    and "v4_number a b c d div 65536 = unat a * 256 + unat b"
    and "v4_number a b c d div 1048576 = unat a * 16 + unat b div 16"
    and "v4_number a b c d div 4194304 = unat a * 4 + unat b div 64"
proof -
  have "unat a < 256" "unat b < 256" "unat c < 256" "unat d < 256"
    using unat_bound [of a] unat_bound [of b] unat_bound [of c] unat_bound [of d] by simp_all
  then show "v4_number a b c d div 16777216 = unat a"
    and "v4_number a b c d div 65536 = unat a * 256 + unat b"
    and "v4_number a b c d div 1048576 = unat a * 16 + unat b div 16"
    and "v4_number a b c d div 4194304 = unat a * 4 + unat b div 64"
    unfolding v4_number_def by simp_all
qed

lemma two_digits:
  fixes x y u v m :: nat
  assumes "y < m" "v < m"
  shows "x * m + y = u * m + v \<longleftrightarrow> x = u \<and> y = v"
proof
  assume eq: "x * m + y = u * m + v"
  from assms have "x = (x * m + y) div m" "u = (u * m + v) div m"
    and "y = (x * m + y) mod m" "v = (u * m + v) mod m"
    by simp_all
  with eq show "x = u \<and> y = v" by simp
qed simp

lemma in_block_simps:
  fixes a b c d :: u8
  shows "in_block (v4_number a b c d) (v4_number x 0 0 0, 8) \<longleftrightarrow> a = x"
    and "in_block (v4_number a b c d) (v4_number x y 0 0, 16) \<longleftrightarrow> a = x \<and> b = y"
    and "in_block (v4_number a b c d) (v4_number x y 0 0, 12) \<longleftrightarrow>
      a = x \<and> unat b div 16 = unat y div 16"
    and "in_block (v4_number a b c d) (v4_number x y 0 0, 10) \<longleftrightarrow>
      a = x \<and> unat b div 64 = unat y div 64"
proof -
  have b: "unat b < 256" and y: "unat y < 256"
    using unat_bound [of b] unat_bound [of y] by simp_all
  show "in_block (v4_number a b c d) (v4_number x 0 0 0, 8) \<longleftrightarrow> a = x"
    by (simp add: in_block_def v4_number_shifts word8_eq_iff)
  show "in_block (v4_number a b c d) (v4_number x y 0 0, 16) \<longleftrightarrow> a = x \<and> b = y"
    using two_digits [OF b y] by (simp add: in_block_def v4_number_shifts word8_eq_iff)
  have "unat b div 16 < 16" "unat y div 16 < 16" using b y by simp_all
  from two_digits [OF this] show "in_block (v4_number a b c d) (v4_number x y 0 0, 12) \<longleftrightarrow>
      a = x \<and> unat b div 16 = unat y div 16"
    by (simp add: in_block_def v4_number_shifts word8_eq_iff)
  have "unat b div 64 < 4" "unat y div 64 < 4" using b y by simp_all
  from two_digits [OF this] show "in_block (v4_number a b c d) (v4_number x y 0 0, 10) \<longleftrightarrow>
      a = x \<and> unat b div 64 = unat y div 64"
    by (simp add: in_block_def v4_number_shifts word8_eq_iff)
qed

lemma in_block_zero:
  "in_block (v4_number a b c d) (v4_number 0 0 0 0, 32) \<longleftrightarrow> a = 0 \<and> b = 0 \<and> c = 0 \<and> d = 0"
  by (auto simp: in_block_def v4_number_def unat_eq_zero)

lemma v4_private_iff: "v4_private a b c d \<longleftrightarrow> (\<exists>blk \<in> set private_blocks. in_block (v4_number a b c d) blk)"
proof -
  have "(16 \<le> b \<and> b \<le> 31) = (unat b div 16 = 1)" "(64 \<le> b \<and> b \<le> 127) = (unat b div 64 = 1)"
    by (auto simp: word_le_nat_alt)
  then show ?thesis
    unfolding private_blocks_def v4_private_def
    by (simp only: in_block_simps in_block_zero set_simps bex_simps) auto
qed

subsection \<open>The checks\<close>

definition private_name :: "string \<Rightarrow> bool" where
  "private_name host \<longleftrightarrow>
     eq_ignore_case host ''localhost''
     \<or> (case rsplit_once CHR ''.'' host of
          Some (_, suffix) \<Rightarrow> eq_ignore_case suffix ''local'' \<or> eq_ignore_case suffix ''internal''
        | None \<Rightarrow> False)"

definition private_literal :: "string \<Rightarrow> bool" where
  "private_literal host = (case parse_ip host of Some ip \<Rightarrow> is_private_ip ip | None \<Rightarrow> False)"

definition check_host_allowed :: "network_config \<Rightarrow> string \<Rightarrow> acl_error + unit" where
  "check_host_allowed config host =
     (case find (\<lambda>pattern. glob_match pattern host) (deny_domains config) of
        Some pattern \<Rightarrow> Inl (DeniedBy pattern)
      | None \<Rightarrow>
          if block_private_ips config \<and> private_literal host then Inl PrivateIpHost
          else if block_private_ips config \<and> private_name host then Inl PrivateName
          else if allow_domains config \<noteq> []
               \<and> \<not> list_ex (\<lambda>pattern. glob_match pattern host) (allow_domains config)
          then Inl NotInAllowList
          else Inr ())"

text \<open>\<open>url_host\<close> is the URL parser: nothing for an invalid URL, and the URL's host if it has one.\<close>

definition check_url_allowed ::
    "(string \<Rightarrow> string option option) \<Rightarrow> network_config \<Rightarrow> string \<Rightarrow> acl_error + unit" where
  "check_url_allowed url_host config url =
     (case url_host url of
        None \<Rightarrow> Inl InvalidUrl
      | Some None \<Rightarrow> Inl NoHost
      | Some (Some host) \<Rightarrow> check_host_allowed config host)"

text \<open>\<open>resolve\<close> is the system resolver: nothing when the lookup fails.\<close>

definition check_host_matches_destination ::
    "(string \<Rightarrow> u16 \<Rightarrow> ip_addr list option) \<Rightarrow> string \<Rightarrow> socket_addr \<Rightarrow> acl_error + unit" where
  "check_host_matches_destination resolve host destination =
     (let dest_ip = unmap_ip (sa_ip destination) in
      case parse_ip host of
        Some host_ip \<Rightarrow> if unmap_ip host_ip \<noteq> dest_ip then Inl HostMismatch else Inr ()
      | None \<Rightarrow>
          (case resolve host (sa_port destination) of
             None \<Rightarrow> Inl Unresolved
           | Some resolved \<Rightarrow>
               if \<not> list_ex (\<lambda>a. unmap_ip a = dest_ip) resolved then Inl NotResolvedTo
               else Inr ()))"

definition trusted_destination :: "network_config \<Rightarrow> string \<Rightarrow> socket_addr \<Rightarrow> bool" where
  "trusted_destination config host destination =
     list_ex (\<lambda>endpoint. eq_ignore_case (te_host endpoint) host
         \<and> te_address endpoint = sa_ip destination
         \<and> te_port endpoint = sa_port destination)
       (trusted_private_endpoints config)"

definition check_egress_allowed ::
    "(string \<Rightarrow> u16 \<Rightarrow> ip_addr list option) \<Rightarrow> network_config \<Rightarrow> string \<Rightarrow> socket_addr \<Rightarrow> acl_error + unit" where
  "check_egress_allowed resolve config host destination =
     (case check_host_allowed config host of
        Inl e \<Rightarrow> Inl e
      | Inr _ \<Rightarrow>
          let trusted = trusted_destination config host destination in
          (case (if trusted then Inr () else check_host_matches_destination resolve host destination) of
             Inl e \<Rightarrow> Inl e
           | Inr _ \<Rightarrow>
               if block_private_ips config \<and> is_private_ip (sa_ip destination) \<and> \<not> trusted
               then Inl PrivateDestination
               else Inr ()))"

text \<open>The domain lists of a configuration are an access list for hosts that are not private.\<close>

definition host_admitted :: "string list \<Rightarrow> string list option \<Rightarrow> string \<Rightarrow> bool" where
  "host_admitted deny allow host =
     (case allow of
        Some [] \<Rightarrow> False
      | _ \<Rightarrow> check_host_allowed
              \<lparr>allow_domains = (case allow of None \<Rightarrow> [] | Some a \<Rightarrow> a), deny_domains = deny,
               trusted_private_endpoints = [], block_private_ips = False\<rparr> host = Inr ())"

interpretation hosts: access_list glob_match host_admitted
proof unfold_locales
  fix p deny x allow
  assume "p \<in> set deny" "glob_match p x"
  then show "\<not> host_admitted deny allow x"
    by (auto simp: host_admitted_def check_host_allowed_def find_None_iff
        split: option.splits list.splits)
next
  fix deny ps x
  assume "host_admitted deny (Some ps) x"
  then show "\<exists>p \<in> set ps. glob_match p x"
    by (cases ps) (auto simp: host_admitted_def check_host_allowed_def list_ex_iff
        split: option.splits if_splits)
next
  fix deny x allow
  assume "\<forall>p \<in> set deny. \<not> glob_match p x"
    and "\<forall>ps. allow = Some ps \<longrightarrow> (\<exists>p \<in> set ps. glob_match p x)"
  then show "host_admitted deny allow x"
    by (auto simp: host_admitted_def check_host_allowed_def find_None_iff list_ex_iff
        split: option.splits list.splits dest: find_SomeD)
qed

lemma check_host_allowed_ok:
  "check_host_allowed config host = Inr () \<longleftrightarrow>
     host_admitted (deny_domains config)
       (if allow_domains config = [] then None else Some (allow_domains config)) host
     \<and> (block_private_ips config \<longrightarrow> \<not> private_literal host \<and> \<not> private_name host)"
  by (auto simp: host_admitted_def check_host_allowed_def split: option.splits list.splits)

lemma check_egress_allowed_ok:
  "check_egress_allowed resolve config host destination = Inr () \<longleftrightarrow>
     check_host_allowed config host = Inr ()
     \<and> (trusted_destination config host destination
        \<or> check_host_matches_destination resolve host destination = Inr ()
          \<and> (block_private_ips config \<longrightarrow> \<not> is_private_ip (sa_ip destination)))"
  by (auto simp: check_egress_allowed_def Let_def split: sum.splits)

lemma rsplit_once_last:
  assumes "rsplit_once d (s @ [c]) = Some (a, b)" and "c \<noteq> d"
  shows "b \<noteq> [] \<and> last b = c"
  using assms by (auto simp: rsplit_once_def)

lemma last_to_lower: "b \<noteq> [] \<Longrightarrow> last (to_lower b) = ascii_lower_char (last b)"
  by (simp add: to_lower_def last_map)

lemma bracketed_not_private_name: "\<not> private_name (''['' @ s @ '']'')"
proof -
  have suffix: "\<not> eq_ignore_case b w"
    if "rsplit_once CHR ''.'' (''['' @ s @ '']'') = Some (a, b)" "w = ''local'' \<or> w = ''internal''" for a b w
  proof
    assume "eq_ignore_case b w"
    then have "last (to_lower b) = last (to_lower w)" by (simp add: eq_ignore_case_def)
    moreover have b: "b \<noteq> [] \<and> last b = CHR '']''"
      using rsplit_once_last [of "CHR ''.''" "''['' @ s" "CHR '']''" a b] that(1) by simp
    ultimately show False
      using that(2) last_to_lower [of b] b by (auto simp: to_lower_def ascii_lower_char_def)
  qed
  have "\<not> eq_ignore_case (''['' @ s @ '']'') ''localhost''"
    by (simp add: eq_ignore_case_def to_lower_def ascii_lower_char_def)
  with suffix show ?thesis by (auto simp: private_name_def split: option.splits)
qed

subsection \<open>Properties\<close>

text \<open>
  Claim C8. A transparent connection that is admitted goes to a host that no deny pattern matches
  and that an allow pattern matches if there are any; the presented host is bound to the
  destination, as the literal address or as an answer of the resolver, unless the destination is
  an exactly listed trusted endpoint; and with private blocking on, a private destination is
  reached only through such an endpoint.
\<close>

theorem egress_admission_sound:
  assumes "check_egress_allowed resolve config host destination = Inr ()"
  shows "(\<forall>p \<in> set (deny_domains config). \<not> glob_match p host)
    \<and> (allow_domains config = [] \<or> (\<exists>p \<in> set (allow_domains config). glob_match p host))
    \<and> (block_private_ips config \<and> is_private_ip (sa_ip destination) \<longrightarrow>
        (\<exists>e \<in> set (trusted_private_endpoints config).
           eq_ignore_case (te_host e) host \<and> te_address e = sa_ip destination
           \<and> te_port e = sa_port destination))
    \<and> (\<not> trusted_destination config host destination \<longrightarrow>
        (case parse_ip host of
           Some ip \<Rightarrow> unmap_ip ip = unmap_ip (sa_ip destination)
         | None \<Rightarrow> \<exists>as a. resolve host (sa_port destination) = Some as \<and> a \<in> set as
                     \<and> unmap_ip a = unmap_ip (sa_ip destination)))"
proof -
  from assms have host: "check_host_allowed config host = Inr ()"
    and dest: "trusted_destination config host destination
      \<or> check_host_matches_destination resolve host destination = Inr ()
        \<and> (block_private_ips config \<longrightarrow> \<not> is_private_ip (sa_ip destination))"
    by (simp_all add: check_egress_allowed_ok)
  from host have lists: "(\<forall>p \<in> set (deny_domains config). \<not> glob_match p host)
      \<and> (allow_domains config = [] \<or> (\<exists>p \<in> set (allow_domains config). glob_match p host))"
    by (auto simp: check_host_allowed_ok hosts.admits_iff split: if_splits)
  show ?thesis
    using lists dest
    by (auto simp: trusted_destination_def list_ex_iff check_host_matches_destination_def Let_def
        split: option.splits if_splits)
qed

definition zgx_config :: network_config where
  "zgx_config = \<lparr>allow_domains = [''zgx''], deny_domains = [],
     trusted_private_endpoints = [\<lparr>te_host = ''zgx'', te_address = V4 100 64 0 18, te_port = 8080\<rparr>],
     block_private_ips = True\<rparr>"

definition zgx_destination :: socket_addr where
  "zgx_destination = \<lparr>sa_ip = V4 100 64 0 18, sa_port = 8080\<rparr>"

lemma zgx_admitted: "check_egress_allowed (\<lambda>_ _. None) zgx_config ''zgx'' zgx_destination = Inr ()"
  by code_simp

theorem egress_admission_sound_witness:
  "check_egress_allowed (\<lambda>_ _. None) zgx_config ''zgx'' zgx_destination = Inr ()
   \<and> is_private_ip (sa_ip zgx_destination)
   \<and> (\<exists>e \<in> set (trusted_private_endpoints zgx_config). te_address e = sa_ip zgx_destination)"
proof -
  have priv: "is_private_ip (sa_ip zgx_destination)" by code_simp
  show ?thesis
    using egress_admission_sound [OF zgx_admitted] zgx_admitted priv
    by (auto simp: zgx_config_def)
qed

text \<open>
  Claim C21. The glob matcher returns on every pattern and text, and on a text without a literal
  asterisk it decides exactly the declarative meaning of the pattern: \<open>*\<close> stands for any sequence
  and \<open>?\<close> for any one character, without regard to case.
\<close>

theorem glob_match_correct:
  "glob_match_inner p t \<noteq> None
   \<and> (CHR ''*'' \<notin> set text \<longrightarrow>
       glob_match pattern text = glob_spec (to_lower pattern) (to_lower text))"
  using glob_match_inner_total glob_match_spec by auto

theorem glob_match_correct_witness:
  "CHR ''*'' \<notin> set ''api.OpenAI.com'' \<and> glob_match ''*.openai.com'' ''api.OpenAI.com''
   = glob_spec ''*.openai.com'' ''api.openai.com''"
proof -
  have lower: "to_lower ''*.openai.com'' = ''*.openai.com''"
    "to_lower ''api.OpenAI.com'' = ''api.openai.com''"
    by code_simp+
  show ?thesis
    using glob_match_correct [of "[]" "[]" "''api.OpenAI.com''" "''*.openai.com''"] lower by auto
qed

text \<open>
  A deny pattern does not cover every host it stands for: a host whose first character
  is an asterisk is consumed as a literal by the pattern's star, so the pattern
  \<open>*.evil.com\<close> does not match the host \<open>*x.evil.com\<close>, and the host passes a policy that denies
  exactly that pattern.
\<close>

theorem deny_pattern_evaded_by_literal_star:
  "glob_spec ''*.evil.com'' ''*x.evil.com''
   \<and> check_host_allowed \<lparr>allow_domains = [], deny_domains = [''*.evil.com''],
        trusted_private_endpoints = [], block_private_ips = True\<rparr> ''*x.evil.com'' = Inr ()"
proof
  show "glob_spec ''*.evil.com'' ''*x.evil.com''" by code_simp
  show "check_host_allowed \<lparr>allow_domains = [], deny_domains = [''*.evil.com''],
        trusted_private_endpoints = [], block_private_ips = True\<rparr> ''*x.evil.com'' = Inr ()"
    by code_simp
qed

text \<open>
  An address is private exactly when it lies in one of the seven IPv4 blocks that the
  comments list, and an IPv4-mapped IPv6 address is classified as the IPv4 address it carries.
\<close>

theorem private_iff_block:
  fixes a b c d :: u8
  shows "(is_private_ip (V4 a b c d) \<longleftrightarrow> (\<exists>blk \<in> set private_blocks. in_block (v4_number a b c d) blk))
    \<and> is_private_ip (V6 0 0 0 0 0 0xffff (be16 a b) (be16 c d)) = is_private_ip (V4 a b c d)"
proof (rule conjI)
  show "is_private_ip (V4 a b c d) \<longleftrightarrow> (\<exists>blk \<in> set private_blocks. in_block (v4_number a b c d) blk)"
    by (simp add: is_private_ip_def v4_private_iff)
  have hi: "ucast (drop_bit 8 (be16 x y)) = x" for x y :: u8
    by (rule bit_word_eqI) (auto simp: be16_def bit_simps dest: bit_imp_le_length)
  have lo: "ucast (be16 x y) = y" for x y :: u8
    by (rule bit_word_eqI) (auto simp: be16_def bit_simps)
  show "is_private_ip (V6 0 0 0 0 0 0xffff (be16 a b) (be16 c d)) = is_private_ip (V4 a b c d)"
    by (simp add: is_private_ip_def hi lo)
qed

text \<open>
  Private blocking has no effect on a URL whose host is an IPv6 literal: the URL
  parser's host carries the brackets, the address parser refuses them, and the check decides as
  if blocking were off, whatever address the brackets hold.
\<close>

theorem bracketed_host_not_classified:
  "check_host_allowed (config\<lparr>block_private_ips := True\<rparr>) (''['' @ s @ '']'') =
   check_host_allowed (config\<lparr>block_private_ips := False\<rparr>) (''['' @ s @ '']'')"
proof -
  have "parse_ip (''['' @ s @ '']'') = None"
    by (simp add: parse_ip_def eval_nat_numeral read_sep_def read_octet_def read_group_def
        dec_digit_def hex_digit_def read_ipv6_def read_char_def)
  then have "\<not> private_literal (''['' @ s @ '']'')" by (simp add: private_literal_def)
  moreover have "\<not> private_name (''['' @ s @ '']'')"
    by (rule bracketed_not_private_name)
  ultimately show ?thesis by (simp add: check_host_allowed_def split: option.splits)
qed

end
