(* ===== verification/Rate_Limit.thy ===== *)
theory Rate_Limit
  imports Prelude
begin

section \<open>Rate limiting of virtual keys (src/src/keys/rate\_limit.rs)\<close>

text \<open>
  Three limiters per key: requests per minute, tokens per minute and requests per day. The first
  is the token bucket of the \<open>governor\<close> package and is a type of its own with two operations, the
  arguments \<open>rpm_new\<close> and \<open>rpm_check\<close>; the other two are written in the repository and are
  modelled field by field. The clock is an argument: one reading, in seconds, per operation. The
  operations here are the sequential ones; the interleaving of their atomic accesses is the
  subject of \<open>Daily_Concurrent\<close>.
\<close>

subsection \<open>Token bucket\<close>

record token_bucket =
  tb_limit :: u32
  tb_tokens :: u32
  tb_last_refill :: u64

definition tb_new :: "u64 \<Rightarrow> u32 \<Rightarrow> token_bucket" where
  "tb_new now limit = \<lparr>tb_limit = limit, tb_tokens = limit, tb_last_refill = now\<rparr>"

definition tb_refill_if_needed :: "u64 \<Rightarrow> token_bucket \<Rightarrow> token_bucket" where
  "tb_refill_if_needed now b =
     (if tb_last_refill b + 60 \<le> now
      then b\<lparr>tb_last_refill := now, tb_tokens := tb_limit b\<rparr> else b)"

definition tb_check :: "u64 \<Rightarrow> u32 \<Rightarrow> token_bucket \<Rightarrow> bool \<times> token_bucket" where
  "tb_check now tokens b =
     (let b' = tb_refill_if_needed now b in (tokens \<le> tb_tokens b', b'))"

definition tb_consume :: "u64 \<Rightarrow> u32 \<Rightarrow> token_bucket \<Rightarrow> token_bucket" where
  "tb_consume now tokens b =
     (let b' = tb_refill_if_needed now b;
          current = tb_tokens b';
          to_consume = min tokens current
      in b'\<lparr>tb_tokens := saturating_sub current to_consume\<rparr>)"

definition tb_available :: "u64 \<Rightarrow> token_bucket \<Rightarrow> u32 \<times> token_bucket" where
  "tb_available now b = (let b' = tb_refill_if_needed now b in (tb_tokens b', b'))"

subsection \<open>Daily limiter\<close>

record daily_limiter =
  dl_limit :: u32
  dl_count :: u32
  dl_day_start :: u64

definition today_start :: "u64 \<Rightarrow> u64" where
  "today_start now = now - now mod 86400"

definition dl_new :: "u64 \<Rightarrow> u32 \<Rightarrow> daily_limiter" where
  "dl_new now limit = \<lparr>dl_limit = limit, dl_count = 0, dl_day_start = today_start now\<rparr>"

definition dl_reset_if_new_day :: "u64 \<Rightarrow> daily_limiter \<Rightarrow> daily_limiter" where
  "dl_reset_if_new_day now d =
     (let today = today_start now in
      if dl_day_start d < today then d\<lparr>dl_day_start := today, dl_count := 0\<rparr> else d)"

definition dl_check :: "u64 \<Rightarrow> daily_limiter \<Rightarrow> bool \<times> daily_limiter" where
  "dl_check now d =
     (let d' = dl_reset_if_new_day now d in
      if dl_limit d' \<le> dl_count d' then (False, d')
      else (True, d'\<lparr>dl_count := dl_count d' + 1\<rparr>))"

definition dl_remaining :: "u64 \<Rightarrow> daily_limiter \<Rightarrow> u32 \<times> daily_limiter" where
  "dl_remaining now d =
     (let d' = dl_reset_if_new_day now d in (saturating_sub (dl_limit d') (dl_count d'), d'))"

definition dl_seconds_until_reset :: "u64 \<Rightarrow> daily_limiter \<Rightarrow> u64" where
  "dl_seconds_until_reset now d = saturating_sub (dl_day_start d + 86400) now"

subsection \<open>The limiter of all keys\<close>

datatype rate_limit_error =
    RpmExceeded u32 u64
  | TpmExceeded u32 u64
  | RpdExceeded u32 u64

record 'g rate_limiter =
  rpm_limiters :: "string \<Rightarrow> 'g option"
  tpm_limiters :: "string \<Rightarrow> token_bucket option"
  rpd_limiters :: "string \<Rightarrow> daily_limiter option"

definition rl_new :: "'g rate_limiter" where
  "rl_new = \<lparr>rpm_limiters = (\<lambda>_. None), tpm_limiters = (\<lambda>_. None), rpd_limiters = (\<lambda>_. None)\<rparr>"

text \<open>\<open>entry(key).or_insert_with(f)\<close>: the limiter found, or a new one.\<close>

definition or_insert_with :: "(string \<Rightarrow> 'a option) \<Rightarrow> string \<Rightarrow> 'a \<Rightarrow> 'a" where
  "or_insert_with m k new = (case m k of Some x \<Rightarrow> x | None \<Rightarrow> new)"

definition check_rpm ::
    "(u32 \<Rightarrow> 'g) \<Rightarrow> (u64 \<Rightarrow> 'g \<Rightarrow> bool \<times> 'g) \<Rightarrow> u64 \<Rightarrow> string \<Rightarrow> u32 option \<Rightarrow>
     'g rate_limiter \<Rightarrow> (rate_limit_error + unit) \<times> 'g rate_limiter" where
  "check_rpm rpm_new rpm_check now key_id rpm_limit rl =
     (case rpm_limit of
        None \<Rightarrow> (Inr (), rl)
      | Some limit \<Rightarrow>
          if limit > 0 then
            let (ok, limiter) = rpm_check now (or_insert_with (rpm_limiters rl) key_id (rpm_new limit));
                rl' = rl\<lparr>rpm_limiters := (rpm_limiters rl)(key_id \<mapsto> limiter)\<rparr>
            in (if ok then Inr () else Inl (RpmExceeded limit 60), rl')
          else (Inr (), rl))"

definition check_rpd ::
    "u64 \<Rightarrow> string \<Rightarrow> u32 option \<Rightarrow> 'g rate_limiter \<Rightarrow>
     (rate_limit_error + unit) \<times> 'g rate_limiter" where
  "check_rpd now key_id rpd_limit rl =
     (case rpd_limit of
        None \<Rightarrow> (Inr (), rl)
      | Some limit \<Rightarrow>
          if limit > 0 then
            let (ok, limiter) = dl_check now (or_insert_with (rpd_limiters rl) key_id (dl_new now limit));
                rl' = rl\<lparr>rpd_limiters := (rpd_limiters rl)(key_id \<mapsto> limiter)\<rparr>
            in (if ok then Inr () else Inl (RpdExceeded limit (dl_seconds_until_reset now limiter)), rl')
          else (Inr (), rl))"

definition check_request ::
    "(u32 \<Rightarrow> 'g) \<Rightarrow> (u64 \<Rightarrow> 'g \<Rightarrow> bool \<times> 'g) \<Rightarrow> u64 \<Rightarrow> string \<Rightarrow> u32 option \<Rightarrow> u32 option \<Rightarrow>
     'g rate_limiter \<Rightarrow> (rate_limit_error + unit) \<times> 'g rate_limiter" where
  "check_request rpm_new rpm_check now key_id rpm_limit rpd_limit rl =
     (case check_rpm rpm_new rpm_check now key_id rpm_limit rl of
        (Inl e, rl') \<Rightarrow> (Inl e, rl')
      | (Inr _, rl') \<Rightarrow> check_rpd now key_id rpd_limit rl')"

definition check_tokens ::
    "u64 \<Rightarrow> string \<Rightarrow> u32 \<Rightarrow> u32 option \<Rightarrow> 'g rate_limiter \<Rightarrow>
     (rate_limit_error + unit) \<times> 'g rate_limiter" where
  "check_tokens now key_id tokens tpm_limit rl =
     (case tpm_limit of
        None \<Rightarrow> (Inr (), rl)
      | Some limit \<Rightarrow>
          if limit > 0 \<and> tokens > 0 then
            let (ok, limiter) = tb_check now tokens (or_insert_with (tpm_limiters rl) key_id (tb_new now limit));
                rl' = rl\<lparr>tpm_limiters := (tpm_limiters rl)(key_id \<mapsto> limiter)\<rparr>
            in (if ok then Inr () else Inl (TpmExceeded limit 60), rl')
          else (Inr (), rl))"

definition record_tokens ::
    "u64 \<Rightarrow> string \<Rightarrow> u32 \<Rightarrow> u32 option \<Rightarrow> 'g rate_limiter \<Rightarrow> 'g rate_limiter" where
  "record_tokens now key_id tokens tpm_limit rl =
     (case tpm_limit of
        None \<Rightarrow> rl
      | Some limit \<Rightarrow>
          if limit > 0 \<and> tokens > 0 then
            rl\<lparr>tpm_limiters := (tpm_limiters rl)(key_id \<mapsto>
                 tb_consume now tokens (or_insert_with (tpm_limiters rl) key_id (tb_new now limit)))\<rparr>
          else rl)"

definition clear_key :: "string \<Rightarrow> 'g rate_limiter \<Rightarrow> 'g rate_limiter" where
  "clear_key key_id rl =
     rl\<lparr>rpm_limiters := (rpm_limiters rl)(key_id := None),
        tpm_limiters := (tpm_limiters rl)(key_id := None),
        rpd_limiters := (rpd_limiters rl)(key_id := None)\<rparr>"

record rate_limit_usage =
  rpm_remaining :: bool
  tpm_remaining :: u32
  rpd_remaining :: u32

text \<open>\<open>get_usage\<close> reads through the limiters' own checks, so it changes their state.\<close>

definition get_usage ::
    "(u64 \<Rightarrow> 'g \<Rightarrow> bool \<times> 'g) \<Rightarrow> u64 \<Rightarrow> string \<Rightarrow> 'g rate_limiter \<Rightarrow>
     rate_limit_usage \<times> 'g rate_limiter" where
  "get_usage rpm_check now key_id rl =
     (let (rpm_ok, rpm') = (case rpm_limiters rl key_id of
            None \<Rightarrow> (True, rpm_limiters rl)
          | Some l \<Rightarrow> (let (ok, l') = rpm_check now l in (ok, (rpm_limiters rl)(key_id \<mapsto> l'))));
          (tpm, tpm') = (case tpm_limiters rl key_id of
            None \<Rightarrow> (- 1, tpm_limiters rl)
          | Some b \<Rightarrow> (let (n, b') = tb_available now b in (n, (tpm_limiters rl)(key_id \<mapsto> b'))));
          (rpd, rpd') = (case rpd_limiters rl key_id of
            None \<Rightarrow> (- 1, rpd_limiters rl)
          | Some d \<Rightarrow> (let (n, d') = dl_remaining now d in (n, (rpd_limiters rl)(key_id \<mapsto> d'))))
      in (\<lparr>rpm_remaining = rpm_ok, tpm_remaining = tpm, rpd_remaining = rpd\<rparr>,
          \<lparr>rpm_limiters = rpm', tpm_limiters = tpm', rpd_limiters = rpd'\<rparr>))"

subsection \<open>What a window admits\<close>

text \<open>
  Both limiters of the repository promise the same: inside one window each operation takes its
  cost from what is left and never more, the capacity does not change, and the window is not
  left by taking from it. Over any run inside the window what is left is then the difference.
\<close>

locale window_limiter =
  fixes same_window :: "u64 \<Rightarrow> 's \<Rightarrow> bool"
    and left :: "'s \<Rightarrow> nat"
    and cost :: "'c \<Rightarrow> nat"
    and take_from :: "u64 \<Rightarrow> 'c \<Rightarrow> 's \<Rightarrow> 's"
  assumes left_take: "same_window now s \<Longrightarrow> left (take_from now c s) = left s - cost c"
    and window_take: "same_window now s \<Longrightarrow> same_window now' (take_from now c s) = same_window now' s"
begin

lemma left_run:
  "(\<forall>(now, c) \<in> set xs. same_window now s) \<Longrightarrow>
   left (foldl (\<lambda>s (now, c). take_from now c s) s xs) = left s - sum_list (map (cost \<circ> snd) xs)"
proof (induction xs arbitrary: s)
  case (Cons x xs)
  obtain now c where x: "x = (now, c)" by (cases x)
  with Cons.prems have "same_window now s" and "\<forall>(n, c) \<in> set xs. same_window n s" by auto
  with Cons.IH [of "take_from now c s"] x show ?case
    by (simp add: window_take left_take)
qed simp

lemma spent_run:
  assumes "\<forall>(now, c) \<in> set xs. same_window now s"
  shows "left s - left (foldl (\<lambda>s (now, c). take_from now c s) s xs)
    = min (left s) (sum_list (map (cost \<circ> snd) xs))"
  using left_run [OF assms] by simp

end

definition dl_left :: "daily_limiter \<Rightarrow> nat" where
  "dl_left d = unat (dl_limit d) - unat (dl_count d)"

definition dl_same_day :: "u64 \<Rightarrow> daily_limiter \<Rightarrow> bool" where
  "dl_same_day now d \<longleftrightarrow> \<not> dl_day_start d < today_start now"

definition tb_left :: "token_bucket \<Rightarrow> nat" where
  "tb_left b = unat (tb_tokens b)"

definition tb_same_minute :: "u64 \<Rightarrow> token_bucket \<Rightarrow> bool" where
  "tb_same_minute now b \<longleftrightarrow> \<not> tb_last_refill b + 60 \<le> now"

lemma unat_Suc_below:
  fixes x y :: "'w::len word"
  assumes "x < y"
  shows "unat (x + 1) = Suc (unat x)"
proof -
  have "Suc (unat x) \<le> unat y" using assms by (simp add: word_less_nat_alt Suc_le_eq)
  also have "\<dots> < 2 ^ LENGTH('w)" by (rule unat_bound)
  finally show ?thesis by (simp add: unat_word_ariths)
qed

lemma dl_check_same_day:
  "dl_same_day now d \<Longrightarrow>
   dl_check now d = (if 0 < dl_left d then (True, d\<lparr>dl_count := dl_count d + 1\<rparr>) else (False, d))"
  by (auto simp: dl_check_def dl_same_day_def dl_reset_if_new_day_def dl_left_def Let_def word_le_nat_alt)

interpretation daily: window_limiter dl_same_day dl_left "\<lambda>_ :: unit. 1" "\<lambda>now _ d. snd (dl_check now d)"
proof unfold_locales
  fix now s c
  assume same: "dl_same_day now s"
  show "dl_left (snd (dl_check now s)) = dl_left s - 1"
  proof (cases "0 < dl_left s")
    case True
    then have "dl_count s < dl_limit s" by (simp add: dl_left_def word_less_nat_alt)
    with same True show ?thesis
      by (simp add: dl_check_same_day dl_left_def unat_Suc_below)
  next
    case False
    with same show ?thesis by (simp add: dl_check_same_day)
  qed
next
  fix now s now' c
  assume "dl_same_day now s"
  then show "dl_same_day now' (snd (dl_check now s)) = dl_same_day now' s"
    by (simp add: dl_check_same_day) (simp add: dl_same_day_def)
qed

interpretation bucket: window_limiter tb_same_minute tb_left unat tb_consume
proof unfold_locales
  fix now s and c :: u32
  assume "tb_same_minute now s"
  then show "tb_left (tb_consume now c s) = tb_left s - unat c"
    by (simp add: tb_consume_def tb_same_minute_def tb_refill_if_needed_def tb_left_def Let_def
        min_def word_le_nat_alt)
next
  fix now s now' and c :: u32
  assume "tb_same_minute now s"
  then show "tb_same_minute now' (tb_consume now c s) = tb_same_minute now' s"
    by (simp add: tb_consume_def tb_same_minute_def tb_refill_if_needed_def Let_def)
qed

subsection \<open>Runs of daily checks\<close>

fun dl_run :: "u64 list \<Rightarrow> daily_limiter \<Rightarrow> bool list \<times> daily_limiter" where
  "dl_run [] d = ([], d)"
| "dl_run (now # ts) d =
     (case dl_check now d of (ok, d') \<Rightarrow> (case dl_run ts d' of (oks, d'') \<Rightarrow> (ok # oks, d'')))"

lemma dl_run_grants:
  "\<forall>now \<in> set ts. dl_same_day now d \<Longrightarrow>
   length (filter (\<lambda>ok. ok) (fst (dl_run ts d))) = min (length ts) (dl_left d)"
proof (induction ts arbitrary: d)
  case (Cons now ts)
  obtain ok d' where chk: "dl_check now d = (ok, d')" by (cases "dl_check now d")
  from Cons.prems have same: "dl_same_day now d" by simp
  from daily.left_take [OF same] chk have left: "dl_left d' = dl_left d - 1" by simp
  from daily.window_take [OF same] chk Cons.prems have "\<forall>n \<in> set ts. dl_same_day n d'" by simp
  with Cons.IH [of d'] left have "length (filter (\<lambda>ok. ok) (fst (dl_run ts d'))) = min (length ts) (dl_left d - 1)"
    by simp
  moreover from same chk have "ok \<longleftrightarrow> 0 < dl_left d" by (simp add: dl_check_same_day split: if_splits)
  ultimately show ?case using chk by (cases "dl_left d") (auto simp: case_prod_beta)
qed simp

subsection \<open>Runs of the rate limiter\<close>

datatype rl_op =
    RequestOp u64 string "u32 option" "u32 option"
  | TokensOp u64 string u32 "u32 option"
  | RecordOp u64 string u32 "u32 option"
  | ClearOp string
  | UsageOp u64 string

fun rl_key :: "rl_op \<Rightarrow> string" where
  "rl_key (RequestOp now k rpm rpd) = k"
| "rl_key (TokensOp now k n tpm) = k"
| "rl_key (RecordOp now k n tpm) = k"
| "rl_key (ClearOp k) = k"
| "rl_key (UsageOp now k) = k"

fun rl_step ::
    "(u32 \<Rightarrow> 'g) \<Rightarrow> (u64 \<Rightarrow> 'g \<Rightarrow> bool \<times> 'g) \<Rightarrow> 'g rate_limiter \<Rightarrow> rl_op \<Rightarrow> 'g rate_limiter" where
  "rl_step rn rc rl (RequestOp now k rpm rpd) = snd (check_request rn rc now k rpm rpd rl)"
| "rl_step rn rc rl (TokensOp now k n tpm) = snd (check_tokens now k n tpm rl)"
| "rl_step rn rc rl (RecordOp now k n tpm) = record_tokens now k n tpm rl"
| "rl_step rn rc rl (ClearOp k) = clear_key k rl"
| "rl_step rn rc rl (UsageOp now k) = snd (get_usage rc now k rl)"

definition tb_ok :: "token_bucket \<Rightarrow> bool" where
  "tb_ok b \<longleftrightarrow> tb_tokens b \<le> tb_limit b \<and> 0 < tb_limit b"

definition dl_ok :: "daily_limiter \<Rightarrow> bool" where
  "dl_ok d \<longleftrightarrow> dl_count d \<le> dl_limit d \<and> 0 < dl_limit d \<and> dl_day_start d mod 86400 = 0"

definition rl_ok :: "'g rate_limiter \<Rightarrow> bool" where
  "rl_ok rl \<longleftrightarrow> (\<forall>k b. tpm_limiters rl k = Some b \<longrightarrow> tb_ok b)
     \<and> (\<forall>k d. rpd_limiters rl k = Some d \<longrightarrow> dl_ok d)"

lemma today_start_mod [simp]: "today_start now mod 86400 = 0"
proof -
  have "unat (now mod 86400) = unat now mod 86400" by (simp add: unat_mod)
  then have "unat (today_start now) = unat now - unat now mod 86400"
    by (simp add: today_start_def unat_sub word_le_nat_alt)
  then have "unat (today_start now) mod 86400 = 0"
    by (simp add: minus_mod_eq_mult_div)
  then show ?thesis by (simp add: word_unat_eq_iff unat_mod)
qed

lemma tb_ok_simps [simp]:
  "0 < limit \<Longrightarrow> tb_ok (tb_new now limit)"
  "tb_ok b \<Longrightarrow> tb_ok (tb_refill_if_needed now b)"
  by (simp_all add: tb_ok_def tb_new_def tb_refill_if_needed_def)

lemma tb_ok_ops [simp]:
  assumes "tb_ok b"
  shows "tb_ok (snd (tb_check now n b))" and "tb_ok (snd (tb_available now b))"
    and "tb_ok (tb_consume now n b)"
proof -
  have "tb_ok (tb_refill_if_needed now b)" using assms by simp
  moreover have "tb_ok (c\<lparr>tb_tokens := saturating_sub (tb_tokens c) x\<rparr>)" if "tb_ok c" for c x
    using that by (auto simp: tb_ok_def word_le_nat_alt)
  ultimately show "tb_ok (snd (tb_check now n b))" and "tb_ok (snd (tb_available now b))"
    and "tb_ok (tb_consume now n b)"
    by (simp_all add: tb_check_def tb_available_def tb_consume_def Let_def)
qed

lemma dl_ok_simps [simp]:
  "0 < limit \<Longrightarrow> dl_ok (dl_new now limit)"
  "dl_ok d \<Longrightarrow> dl_ok (dl_reset_if_new_day now d)"
  by (simp_all add: dl_ok_def dl_new_def dl_reset_if_new_day_def Let_def)

lemma dl_ok_ops [simp]:
  assumes "dl_ok d"
  shows "dl_ok (snd (dl_check now d))" and "dl_ok (snd (dl_remaining now d))"
proof -
  have "dl_ok (dl_reset_if_new_day now d)" using assms by simp
  then show "dl_ok (snd (dl_check now d))"
    using inc_le [of "dl_count (dl_reset_if_new_day now d)" "dl_limit (dl_reset_if_new_day now d)"]
    by (auto simp: dl_check_def Let_def dl_ok_def not_le)
  show "dl_ok (snd (dl_remaining now d))" using assms by (simp add: dl_remaining_def Let_def)
qed

lemma check_rpm_frame:
  "tpm_limiters (snd (check_rpm rn rc now k l rl)) = tpm_limiters rl"
  "rpd_limiters (snd (check_rpm rn rc now k l rl)) = rpd_limiters rl"
  "k' \<noteq> k \<Longrightarrow> rpm_limiters (snd (check_rpm rn rc now k l rl)) k' = rpm_limiters rl k'"
  by (auto simp: check_rpm_def Let_def split: option.splits prod.splits)

lemma check_rpd_frame:
  "rpm_limiters (snd (check_rpd now k l rl)) = rpm_limiters rl"
  "tpm_limiters (snd (check_rpd now k l rl)) = tpm_limiters rl"
  "k' \<noteq> k \<Longrightarrow> rpd_limiters (snd (check_rpd now k l rl)) k' = rpd_limiters rl k'"
  by (auto simp: check_rpd_def Let_def split: option.splits prod.splits)

lemma snd_check_request:
  "snd (check_request rn rc now k rpm rpd rl) =
     (case fst (check_rpm rn rc now k rpm rl) of
        Inl e \<Rightarrow> snd (check_rpm rn rc now k rpm rl)
      | Inr _ \<Rightarrow> snd (check_rpd now k rpd (snd (check_rpm rn rc now k rpm rl))))"
  by (simp add: check_request_def split: prod.splits sum.splits)

lemma check_rpd_ok:
  assumes "rl_ok rl"
  shows "rl_ok (snd (check_rpd now k l rl))"
proof -
  have "dl_ok (or_insert_with (rpd_limiters rl) k (dl_new now limit))" if "0 < limit" for limit
    using assms that by (auto simp: rl_ok_def or_insert_with_def split: option.split)
  then have "0 < limit \<Longrightarrow> dl_ok (snd (dl_check now (or_insert_with (rpd_limiters rl) k (dl_new now limit))))" for limit
    by simp
  with assms show ?thesis
    by (simp add: check_rpd_def Let_def rl_ok_def case_prod_beta split: option.split)
qed

lemma check_request_ok:
  assumes "rl_ok rl"
  shows "rl_ok (snd (check_request rn rc now k rpm rpd rl))"
proof -
  have "rl_ok (snd (check_rpm rn rc now k rpm rl))"
    using assms by (simp add: rl_ok_def check_rpm_frame)
  then show ?thesis
    by (simp add: snd_check_request check_rpd_ok split: sum.split)
qed

lemma token_ops_ok:
  assumes "rl_ok rl"
  shows "rl_ok (snd (check_tokens now k n l rl))" and "rl_ok (record_tokens now k n l rl)"
proof -
  have bucket: "tb_ok (or_insert_with (tpm_limiters rl) k (tb_new now limit))" if "0 < limit" for limit
    using assms that by (auto simp: rl_ok_def or_insert_with_def split: option.split)
  then have "0 < limit \<Longrightarrow> tb_ok (snd (tb_check now n (or_insert_with (tpm_limiters rl) k (tb_new now limit))))" for limit
    by simp
  with assms show "rl_ok (snd (check_tokens now k n l rl))"
    by (simp add: check_tokens_def Let_def rl_ok_def case_prod_beta split: option.split)
  from assms bucket show "rl_ok (record_tokens now k n l rl)"
    by (auto simp: record_tokens_def rl_ok_def split: option.splits)
qed

lemma get_usage_ok:
  assumes "rl_ok rl"
  shows "rl_ok (snd (get_usage rc now k rl))"
proof -
  have "tb_ok (snd (tb_available now b))" if "tpm_limiters rl k = Some b" for b
    using assms that by (auto simp: rl_ok_def)
  moreover have "dl_ok (snd (dl_remaining now d))" if "rpd_limiters rl k = Some d" for d
    using assms that by (auto simp: rl_ok_def)
  ultimately show ?thesis
    using assms by (simp add: get_usage_def Let_def rl_ok_def case_prod_beta split: option.split)
qed

lemma rl_step_ok: "rl_ok rl \<Longrightarrow> rl_ok (rl_step rn rc rl x)"
proof (cases x)
  case (ClearOp k)
  then show "rl_ok rl \<Longrightarrow> ?thesis" by (auto simp: clear_key_def rl_ok_def)
qed (auto simp: check_request_ok token_ops_ok get_usage_ok)

lemma rl_new_ok: "rl_ok rl_new"
  by (simp add: rl_ok_def rl_new_def)

interpretation limiter: invariant_component "rl_step rn rc" rl_new rl_ok for rn rc
  by unfold_locales (simp_all add: rl_new_ok rl_step_ok)

lemma rl_step_frame:
  assumes "k' \<noteq> rl_key x"
  shows "rpm_limiters (rl_step rn rc rl x) k' = rpm_limiters rl k'
    \<and> tpm_limiters (rl_step rn rc rl x) k' = tpm_limiters rl k'
    \<and> rpd_limiters (rl_step rn rc rl x) k' = rpd_limiters rl k'"
proof (cases x)
  case (RequestOp now k rpm rpd)
  with assms show ?thesis
    by (simp add: snd_check_request check_rpm_frame check_rpd_frame split: sum.split)
next
  case (UsageOp now k)
  with assms show ?thesis
    by (simp add: get_usage_def Let_def case_prod_beta split: option.split)
qed (use assms in \<open>simp_all add: check_tokens_def record_tokens_def clear_key_def Let_def
    case_prod_beta split: option.split\<close>)

subsection \<open>Properties\<close>

text \<open>
  Claim C31. After any sequence of operations on the rate limiter, of any keys and at any clock
  readings, no token bucket holds more than its limit, no daily counter exceeds its limit, and
  every day starts at a multiple of 86400 seconds.
\<close>

theorem limiters_within_limits:
  "(\<forall>k b. tpm_limiters (foldl (rl_step rn rc) rl_new ops) k = Some b \<longrightarrow> tb_tokens b \<le> tb_limit b)
   \<and> (\<forall>k d. rpd_limiters (foldl (rl_step rn rc) rl_new ops) k = Some d \<longrightarrow>
        dl_count d \<le> dl_limit d \<and> dl_day_start d mod 86400 = 0)"
  using limiter.run_inv [of rn rc ops] by (simp add: rl_ok_def tb_ok_def dl_ok_def)

text \<open>The minute limiter of the witnesses: a counter of the permits left, never refilled.\<close>

definition permits_new :: "u32 \<Rightarrow> nat" where
  "permits_new limit = unat limit"

definition permits_check :: "u64 \<Rightarrow> nat \<Rightarrow> bool \<times> nat" where
  "permits_check now n = (0 < n, n - 1)"

theorem limiters_within_limits_witness:
  "dl_count (the (rpd_limiters (foldl (rl_step permits_new permits_check) rl_new
      [RequestOp 100000 ''k'' None (Some 1), RequestOp 100001 ''k'' None (Some 1)]) ''k'')) \<le> 1"
proof -
  define rl where "rl = foldl (rl_step permits_new permits_check) rl_new
      [RequestOp 100000 ''k'' None (Some 1), RequestOp 100001 ''k'' None (Some 1)]"
  have "rpd_limiters rl ''k'' = Some \<lparr>dl_limit = 1, dl_count = 1, dl_day_start = 86400\<rparr>"
    unfolding rl_def by code_simp
  with limiters_within_limits [of permits_new permits_check
      "[RequestOp 100000 ''k'' None (Some 1), RequestOp 100001 ''k'' None (Some 1)]"]
  show ?thesis unfolding rl_def [symmetric] by fastforce
qed

text \<open>
  Keys are isolated: operations on other keys change none of a key's limiters.
\<close>

theorem keys_isolated:
  assumes "\<forall>x \<in> set ops. rl_key x \<noteq> k"
  shows "rpm_limiters (foldl (rl_step rn rc) rl ops) k = rpm_limiters rl k
    \<and> tpm_limiters (foldl (rl_step rn rc) rl ops) k = tpm_limiters rl k
    \<and> rpd_limiters (foldl (rl_step rn rc) rl ops) k = rpd_limiters rl k"
  using assms
proof (induction ops arbitrary: rl)
  case (Cons x ops)
  then have "k \<noteq> rl_key x" by auto
  with Cons rl_step_frame [of k x rn rc rl] show ?case by simp
qed simp

theorem keys_isolated_witness:
  "rpd_limiters (foldl (rl_step permits_new permits_check) rl_new [RequestOp 5 ''a'' (Some 1) (Some 1)]) ''b''
   = None"
  using keys_isolated [of "[RequestOp 5 ''a'' (Some 1) (Some 1)]" "''b''" permits_new permits_check rl_new]
  by (simp add: rl_new_def)

text \<open>
  The daily limiter is exact: of any sequence of requests in the day in which the
  limiter was created, the first \<open>limit\<close> are granted and no other.
\<close>

theorem daily_quota_exact:
  assumes "\<forall>now \<in> set ts. \<not> today_start start < today_start now"
  shows "length (filter (\<lambda>ok. ok) (fst (dl_run ts (dl_new start limit)))) = min (length ts) (unat limit)"
  using assms dl_run_grants [of ts "dl_new start limit"]
  by (simp add: dl_same_day_def dl_left_def dl_new_def)

theorem daily_quota_exact_witness:
  "length (filter (\<lambda>ok. ok) (fst (dl_run [100001, 100002, 100003] (dl_new 100000 2)))) = 2"
  using daily_quota_exact [of "[100001, 100002, 100003]" 100000 2] by (simp add: today_start_def)

text \<open>
  Inside the minute in which a token bucket was filled, it has given out exactly what
  was recorded, up to its limit, and a check succeeds exactly when the estimate fits what is left.
\<close>

theorem token_minute_exact:
  assumes "\<forall>(now, n) \<in> set usage. \<not> start + 60 \<le> now" and "\<not> start + 60 \<le> now"
  shows "(let b = foldl (\<lambda>b (now, n). tb_consume now n b) (tb_new start limit) usage;
              used = sum_list (map (unat \<circ> snd) usage)
          in unat (tb_tokens b) = unat limit - used
             \<and> fst (tb_check now n b) = (used + unat n \<le> unat limit \<or> n = 0))"
proof -
  define b where "b = foldl (\<lambda>b (now, n). tb_consume now n b) (tb_new start limit) usage"
  have same: "\<forall>(now, n) \<in> set usage. tb_same_minute now (tb_new start limit)"
    using assms(1) by (auto simp: tb_same_minute_def tb_new_def)
  have left: "unat (tb_tokens b) = unat limit - sum_list (map (unat \<circ> snd) usage)"
    using bucket.left_run [OF same] by (simp add: b_def tb_left_def tb_new_def)
  have "tb_last_refill b = start"
    using same unfolding b_def
  proof (induction usage rule: rev_induct)
    case (snoc x xs)
    then show ?case
      by (cases x) (simp add: tb_consume_def tb_refill_if_needed_def tb_same_minute_def tb_new_def Let_def)
  qed (simp add: tb_new_def)
  with assms(2) have "fst (tb_check now n b) = (unat n \<le> unat (tb_tokens b))"
    by (simp add: tb_check_def tb_refill_if_needed_def Let_def word_le_nat_alt)
  moreover have "n = 0 \<or> 0 < unat n" by (simp add: unat_eq_zero flip: neq0_conv)
  ultimately show ?thesis unfolding Let_def b_def [symmetric] left by auto
qed

theorem token_minute_exact_witness:
  "fst (tb_check 30 100 (foldl (\<lambda>b (now, n). tb_consume now n b) (tb_new 0 1000) [(10, 500), (20, 400)]))
   \<and> \<not> fst (tb_check 30 200 (foldl (\<lambda>b (now, n). tb_consume now n b) (tb_new 0 1000) [(10, 500), (20, 400)]))"
  using token_minute_exact [of "[(10, 500), (20, 400)]" 0 30 1000 100]
    token_minute_exact [of "[(10, 500), (20, 400)]" 0 30 1000 200]
  by (simp add: Let_def)

text \<open>
  A request that the daily limiter refuses has already spent a permit of the minute
  limiter, while a request that the minute limiter refuses leaves the daily limiter as it was.
\<close>

theorem refused_request_accounting:
  assumes "check_request rn rc now k (Some rpm) rpd rl = (Inl e, rl')" and "0 < rpm"
  shows "rpm_limiters rl' k = Some (snd (rc now (or_insert_with (rpm_limiters rl) k (rn rpm))))
    \<and> (case e of RpmExceeded _ _ \<Rightarrow> rpd_limiters rl' = rpd_limiters rl
        | RpdExceeded _ _ \<Rightarrow> fst (rc now (or_insert_with (rpm_limiters rl) k (rn rpm)))
        | TpmExceeded _ _ \<Rightarrow> False)"
proof -
  obtain ok g where g: "rc now (or_insert_with (rpm_limiters rl) k (rn rpm)) = (ok, g)"
    by (cases "rc now (or_insert_with (rpm_limiters rl) k (rn rpm))")
  have frame: "rpm_limiters (snd (check_rpd now k rpd s)) = rpm_limiters s" for s :: "'a rate_limiter"
    by (rule check_rpd_frame)
  have kind: "fst (check_rpd now k rpd s) = Inl e \<Longrightarrow> \<exists>l t. e = RpdExceeded l t" for s :: "'a rate_limiter"
    by (auto simp: check_rpd_def Let_def case_prod_beta split: option.splits if_splits)
  show ?thesis
  proof (cases ok)
    case True
    define s where "s = rl\<lparr>rpm_limiters := (rpm_limiters rl)(k \<mapsto> g)\<rparr>"
    from assms g True have rpd: "check_rpd now k rpd s = (Inl e, rl')"
      by (simp add: check_request_def check_rpm_def s_def)
    with frame [of s] kind [of s] g True show ?thesis by (auto simp: s_def)
  next
    case False
    with assms g show ?thesis by (auto simp: check_request_def check_rpm_def)
  qed
qed

definition after_one_request :: "nat rate_limiter" where
  "after_one_request = snd (check_request permits_new permits_check 100000 ''k'' (Some 5) (Some 1) rl_new)"

theorem refused_request_accounting_witness:
  "fst (check_request permits_new permits_check 100000 ''k'' (Some 5) (Some 1) after_one_request)
     = Inl (RpdExceeded 1 72800)
   \<and> rpm_limiters (snd (check_request permits_new permits_check 100000 ''k'' (Some 5) (Some 1)
       after_one_request)) ''k'' = Some 3"
proof -
  let ?r = "check_request permits_new permits_check 100000 ''k'' (Some 5) (Some 1) after_one_request"
  have e: "fst ?r = Inl (RpdExceeded 1 72800)" by code_simp
  then have r: "?r = (Inl (RpdExceeded 1 72800), snd ?r)" by (simp add: prod_eq_iff)
  have "or_insert_with (rpm_limiters after_one_request) ''k'' (permits_new 5) = 4" by code_simp
  with refused_request_accounting [OF r] e show ?thesis by (simp add: permits_check_def)
qed

text \<open>
  The limit passed with a request takes effect only when it creates the key's limiter:
  once a bucket exists, two different positive limits decide every check alike and leave the same
  state behind.
\<close>

theorem limit_fixed_at_creation:
  assumes "tpm_limiters rl k = Some b" and "0 < l" and "0 < l'"
  shows "(fst (check_tokens now k n (Some l) rl) = Inr ()) = (fst (check_tokens now k n (Some l') rl) = Inr ())
    \<and> snd (check_tokens now k n (Some l) rl) = snd (check_tokens now k n (Some l') rl)
    \<and> record_tokens now k n (Some l) rl = record_tokens now k n (Some l') rl"
  using assms by (simp add: check_tokens_def record_tokens_def or_insert_with_def case_prod_beta Let_def)

definition bucket_of_thousand :: "nat rate_limiter" where
  "bucket_of_thousand = snd (check_tokens 9 ''k'' 1 (Some 1000) rl_new)"

theorem limit_fixed_at_creation_witness:
  "fst (check_tokens 10 ''k'' 500 (Some 100) bucket_of_thousand) = Inr ()"
proof -
  have "tpm_limiters bucket_of_thousand ''k'' = Some (tb_new 9 1000)" by code_simp
  from limit_fixed_at_creation [OF this, of 100 1000 10 500]
  have "(fst (check_tokens 10 ''k'' 500 (Some 100) bucket_of_thousand) = Inr ()) =
      (fst (check_tokens 10 ''k'' 500 (Some 1000) bucket_of_thousand) = Inr ())" by simp
  moreover have "fst (check_tokens 10 ''k'' 500 (Some 1000) bucket_of_thousand) = Inr ()" by code_simp
  ultimately show ?thesis by simp
qed

end
