(* ===== verification/Daily_Concurrent.thy ===== *)
theory Daily_Concurrent
  imports Rate_Limit
begin

section \<open>Concurrent daily checks (src/src/keys/rate\_limit.rs, DailyLimiter::check)\<close>

text \<open>
  The daily limiter is shared by the request handlers without a lock. Its check is a sequence of
  atomic accesses: read the day, try to move it forward by compare-and-exchange, store zero in
  the counter if that succeeded, then load the counter and compare-and-exchange it until one
  attempt succeeds or the limit is reached. Each access is one step of the relation below; any
  number of threads interleave, and \<open>clock\<close> constrains the readings of the wall clock. The field
  \<open>admitted\<close> counts the checks that returned true and is read by no step.
\<close>

datatype check_pc =
    Idle
  | DayLoaded u64 u64
  | DayMoved
  | Looping
  | CountLoaded u32
  | Returned bool

record check_system =
  shared :: daily_limiter
  pcs :: "nat \<Rightarrow> check_pc"
  admitted :: nat

definition goto :: "nat \<Rightarrow> check_pc \<Rightarrow> check_system \<Rightarrow> check_system" where
  "goto i p s = s\<lparr>pcs := (pcs s)(i := p)\<rparr>"

inductive check_step :: "(u64 \<Rightarrow> bool) \<Rightarrow> check_system \<Rightarrow> check_system \<Rightarrow> bool"
  for clock :: "u64 \<Rightarrow> bool" where
  load_day: "pcs s i = Idle \<Longrightarrow> clock now \<Longrightarrow>
    check_step clock s (goto i (DayLoaded (today_start now) (dl_day_start (shared s))) s)"
| same_day: "pcs s i = DayLoaded today stored \<Longrightarrow> \<not> stored < today \<Longrightarrow>
    check_step clock s (goto i Looping s)"
| move_day: "pcs s i = DayLoaded today stored \<Longrightarrow> stored < today \<Longrightarrow>
    dl_day_start (shared s) = stored \<Longrightarrow>
    check_step clock s (goto i DayMoved (s\<lparr>shared := (shared s)\<lparr>dl_day_start := today\<rparr>\<rparr>))"
| lose_day: "pcs s i = DayLoaded today stored \<Longrightarrow> stored < today \<Longrightarrow>
    dl_day_start (shared s) \<noteq> stored \<Longrightarrow> check_step clock s (goto i Looping s)"
| zero: "pcs s i = DayMoved \<Longrightarrow>
    check_step clock s (goto i Looping (s\<lparr>shared := (shared s)\<lparr>dl_count := 0\<rparr>\<rparr>))"
| full: "pcs s i = Looping \<Longrightarrow> dl_limit (shared s) \<le> dl_count (shared s) \<Longrightarrow>
    check_step clock s (goto i (Returned False) s)"
| load_count: "pcs s i = Looping \<Longrightarrow> \<not> dl_limit (shared s) \<le> dl_count (shared s) \<Longrightarrow>
    check_step clock s (goto i (CountLoaded (dl_count (shared s))) s)"
| increment: "pcs s i = CountLoaded current \<Longrightarrow> dl_count (shared s) = current \<Longrightarrow>
    check_step clock s
      (goto i (Returned True) (s\<lparr>shared := (shared s)\<lparr>dl_count := current + 1\<rparr>,
                                admitted := Suc (admitted s)\<rparr>))"
| retry: "pcs s i = CountLoaded current \<Longrightarrow> dl_count (shared s) \<noteq> current \<Longrightarrow>
    check_step clock s (goto i Looping s)"
| again: "pcs s i = Returned ok \<Longrightarrow> check_step clock s (goto i Idle s)"

definition check_start :: "u32 \<Rightarrow> u32 \<Rightarrow> u64 \<Rightarrow> check_system" where
  "check_start limit count day =
     \<lparr>shared = \<lparr>dl_limit = limit, dl_count = count, dl_day_start = day\<rparr>, pcs = (\<lambda>_. Idle), admitted = 0\<rparr>"

definition check_reach :: "(u64 \<Rightarrow> bool) \<Rightarrow> check_system \<Rightarrow> check_system \<Rightarrow> bool" where
  "check_reach clock = (check_step clock)\<^sup>*\<^sup>*"

lemma goto_simps [simp]:
  "shared (goto i p s) = shared s" "admitted (goto i p s) = admitted s"
  "pcs (goto i p s) = (pcs s)(i := p)"
  by (simp_all add: goto_def)

lemma check_reach_induct [consumes 1, case_names start step]:
  assumes "check_reach clock s t" and "P s"
    and "\<And>u v. check_step clock u v \<Longrightarrow> P u \<Longrightarrow> P v"
  shows "P t"
  using assms(1) [unfolded check_reach_def] assms(2,3) by (induction rule: rtranclp_induct) auto

subsection \<open>One day\<close>

definition one_day_inv :: "u64 \<Rightarrow> u32 \<Rightarrow> u32 \<Rightarrow> check_system \<Rightarrow> bool" where
  "one_day_inv day limit count s \<longleftrightarrow>
     dl_day_start (shared s) = day \<and> dl_limit (shared s) = limit
     \<and> unat (dl_count (shared s)) = unat count + admitted s
     \<and> dl_count (shared s) \<le> max limit count
     \<and> (\<forall>i today stored. pcs s i = DayLoaded today stored \<longrightarrow> \<not> stored < today)
     \<and> (\<forall>i. pcs s i \<noteq> DayMoved)
     \<and> (\<forall>i c. pcs s i = CountLoaded c \<longrightarrow> c < limit)"

lemma one_day_step:
  assumes "check_step clock s t" and "one_day_inv day limit count s"
    and "\<And>now. clock now \<Longrightarrow> \<not> day < today_start now"
  shows "one_day_inv day limit count t"
  using assms
proof cases
  case (increment i current)
  then have "current < limit" using assms(2) by (auto simp: one_day_inv_def)
  then have "unat (current + 1) = Suc (unat current)" and "current + 1 \<le> limit"
    by (auto simp: unat_Suc_below inc_le)
  with increment assms(2) show ?thesis by (auto simp: one_day_inv_def max_def split: if_splits)
qed (auto simp: one_day_inv_def not_le split: if_splits)

subsection \<open>Into the next day\<close>

text \<open>
  The three facts about the threads the invariant needs, on their program counters alone: each
  holds readings it can have made, some thread is about to store zero, and no two are.
\<close>

definition pcs_ok :: "u64 \<Rightarrow> u64 \<Rightarrow> u32 \<Rightarrow> (nat \<Rightarrow> check_pc) \<Rightarrow> bool" where
  "pcs_ok before day limit f \<longleftrightarrow>
     (\<forall>i. case f i of CountLoaded c \<Rightarrow> c < limit
        | DayLoaded today stored \<Rightarrow> today = day \<and> (stored = before \<or> stored = day)
        | _ \<Rightarrow> True)"

definition moving :: "(nat \<Rightarrow> check_pc) \<Rightarrow> bool" where
  "moving f \<longleftrightarrow> (\<exists>i. f i = DayMoved)"

definition one_moving :: "(nat \<Rightarrow> check_pc) \<Rightarrow> bool" where
  "one_moving f \<longleftrightarrow> (\<forall>i j. f i = DayMoved \<longrightarrow> f j = DayMoved \<longrightarrow> i = j)"

definition all_early :: "u64 \<Rightarrow> u64 \<Rightarrow> (nat \<Rightarrow> check_pc) \<Rightarrow> bool" where
  "all_early before day f \<longleftrightarrow> (\<forall>i. f i = Idle \<or> f i = DayLoaded day before)"

lemma pcs_ok_upd:
  "pcs_ok before day limit f \<Longrightarrow>
   (case p of CountLoaded c \<Rightarrow> c < limit
      | DayLoaded today stored \<Rightarrow> today = day \<and> (stored = before \<or> stored = day)
      | _ \<Rightarrow> True) \<Longrightarrow> pcs_ok before day limit (f(i := p))"
  by (simp add: pcs_ok_def)

lemma moving_upd [simp]:
  "f i \<noteq> DayMoved \<Longrightarrow> p \<noteq> DayMoved \<Longrightarrow> moving (f(i := p)) = moving f"
  "f i \<noteq> DayMoved \<Longrightarrow> p \<noteq> DayMoved \<Longrightarrow> one_moving (f(i := p)) = one_moving f"
  by (auto simp: moving_def one_moving_def)

definition rollover_inv :: "u64 \<Rightarrow> u64 \<Rightarrow> u32 \<Rightarrow> check_system \<Rightarrow> bool" where
  "rollover_inv before day limit s \<longleftrightarrow>
     dl_limit (shared s) = limit \<and> dl_count (shared s) \<le> limit \<and> pcs_ok before day limit (pcs s)
     \<and> (if dl_day_start (shared s) = before
        then admitted s = 0 \<and> all_early before day (pcs s)
        else dl_day_start (shared s) = day \<and> one_moving (pcs s)
             \<and> admitted s \<le> (if moving (pcs s) then 0 else unat limit) + unat (dl_count (shared s)))"

lemma rollover_late:
  assumes "rollover_inv before day limit s" and "pcs s i \<noteq> Idle" and "pcs s i \<noteq> DayLoaded day before"
  shows "dl_day_start (shared s) \<noteq> before"
  using assms by (auto simp: rollover_inv_def all_early_def split: if_splits)

lemma pcs_okD:
  "pcs_ok before day limit f \<Longrightarrow> f i = CountLoaded c \<Longrightarrow> c < limit"
  "pcs_ok before day limit f \<Longrightarrow> f i = DayLoaded t st \<Longrightarrow> t = day \<and> (st = before \<or> st = day)"
  unfolding pcs_ok_def by (drule spec [of _ i]; simp)+

text \<open>A step that only moves a thread that is past the day check keeps the invariant.\<close>

lemma rollover_goto:
  assumes inv: "rollover_inv before day limit s" and late: "dl_day_start (shared s) \<noteq> before"
    and p: "p \<noteq> DayMoved" "pcs s i \<noteq> DayMoved" "pcs_ok before day limit ((pcs s)(i := p))"
  shows "rollover_inv before day limit (goto i p s)"
  using inv late p by (simp add: rollover_inv_def)

lemma rollover_step:
  assumes step: "check_step clock s t" and inv: "rollover_inv before day limit s"
    and clock: "\<And>now. clock now \<Longrightarrow> today_start now = day" and days: "before < day"
  shows "rollover_inv before day limit t"
proof -
  have ok: "pcs_ok before day limit (pcs s)" using inv by (simp add: rollover_inv_def)
  have late: "dl_day_start (shared s) \<noteq> before"
    if "pcs s i \<noteq> Idle" "pcs s i \<noteq> DayLoaded day before" for i
    using rollover_late [OF inv that] .
  from step show ?thesis
  proof cases
    case (load_day i now)
    have day: "dl_day_start (shared s) = before \<or> dl_day_start (shared s) = day"
      using inv by (simp add: rollover_inv_def split: if_splits)
    with load_day ok clock have "pcs_ok before day limit ((pcs s)(i := DayLoaded day (dl_day_start (shared s))))"
      by (intro pcs_ok_upd) auto
    with load_day inv clock day show ?thesis
      by (auto simp: rollover_inv_def all_early_def)
  next
    case (same_day i today stored)
    with pcs_okD(2) [OF ok, of i] days have "today = day" "stored = day" by auto
    with same_day late [of i] days show ?thesis
      by (auto intro!: rollover_goto [OF inv] pcs_ok_upd [OF ok])
  next
    case (move_day i today stored)
    with pcs_okD(2) [OF ok, of i] have today: "today = day" by auto
    with move_day have before: "dl_day_start (shared s) \<noteq> day" by auto
    then have "dl_day_start (shared s) = before" using inv by (simp add: rollover_inv_def split: if_splits)
    with inv have early: "admitted s = 0" "all_early before day (pcs s)"
      by (simp_all add: rollover_inv_def)
    then have "pcs s j \<noteq> DayMoved" for j
      unfolding all_early_def by (cases "pcs s j") (auto dest: spec [of _ j])
    then have "one_moving ((pcs s)(i := DayMoved))" "moving ((pcs s)(i := DayMoved))"
      by (auto simp: one_moving_def moving_def)
    moreover have "pcs_ok before day limit ((pcs s)(i := DayMoved))" by (rule pcs_ok_upd [OF ok]) simp
    ultimately show ?thesis
      using move_day today early inv days by (auto simp: rollover_inv_def)
  next
    case (lose_day i today stored)
    with pcs_okD(2) [OF ok, of i] have "today = day" "stored = before" by auto
    with lose_day have "dl_day_start (shared s) \<noteq> before" by simp
    with lose_day show ?thesis by (auto intro!: rollover_goto [OF inv] pcs_ok_upd [OF ok])
  next
    case (zero i)
    from zero late [of i] inv have day: "dl_day_start (shared s) = day" "day \<noteq> before"
      by (auto simp: rollover_inv_def split: if_splits)
    with zero inv have "one_moving (pcs s)" "moving (pcs s)" "admitted s \<le> unat limit"
      by (auto simp: rollover_inv_def moving_def word_le_nat_alt split: if_splits)
    moreover have "\<not> moving ((pcs s)(i := Looping))" "one_moving ((pcs s)(i := Looping))"
      using zero \<open>one_moving (pcs s)\<close> by (auto simp: moving_def one_moving_def)
    moreover have "pcs_ok before day limit ((pcs s)(i := Looping))" by (rule pcs_ok_upd [OF ok]) simp
    ultimately show ?thesis
      using zero inv day by (auto simp: rollover_inv_def)
  next
    case (increment i current)
    have "current < limit" using pcs_okD(1) [OF ok increment(2)] .
    then have "unat (current + 1) = Suc (unat current)" and "current + 1 \<le> limit"
      by (auto simp: unat_Suc_below inc_le)
    moreover have "pcs_ok before day limit ((pcs s)(i := Returned True))" by (rule pcs_ok_upd [OF ok]) simp
    ultimately show ?thesis
      using increment inv late [of i] by (auto simp: rollover_inv_def)
  next
    case (load_count i)
    have "dl_limit (shared s) = limit" using inv by (simp add: rollover_inv_def)
    with load_count have "pcs_ok before day limit ((pcs s)(i := CountLoaded (dl_count (shared s))))"
      by (intro pcs_ok_upd [OF ok]) (simp add: not_le)
    then have "rollover_inv before day limit (goto i (CountLoaded (dl_count (shared s))) s)"
      using load_count late [of i] by (intro rollover_goto [OF inv]) auto
    with load_count show ?thesis by simp
  next
    case (full i)
    with late [of i] show ?thesis by (auto intro!: rollover_goto [OF inv] pcs_ok_upd [OF ok])
  next
    case (retry i current)
    with late [of i] show ?thesis by (auto intro!: rollover_goto [OF inv] pcs_ok_upd [OF ok])
  next
    case (again i ok')
    with late [of i] show ?thesis by (auto intro!: rollover_goto [OF inv] pcs_ok_upd [OF ok])
  qed
qed

subsection \<open>Properties\<close>

text \<open>
  Claim C15. While the day does not change, any number of threads, interleaved in any way, are
  granted at most the limit: the counter is always the number of checks that were granted.
\<close>

theorem concurrent_checks_within_limit:
  assumes "check_reach clock (check_start limit 0 day) s"
    and "\<And>now. clock now \<Longrightarrow> \<not> day < today_start now"
  shows "admitted s = unat (dl_count (shared s)) \<and> admitted s \<le> unat limit"
proof -
  have "one_day_inv day limit 0 s"
    using assms(1)
  proof (induction rule: check_reach_induct)
    case start
    then show ?case by (simp add: one_day_inv_def check_start_def)
  next
    case (step u v)
    then show ?case using one_day_step assms(2) by blast
  qed
  then show ?thesis by (auto simp: one_day_inv_def word_le_nat_alt)
qed

lemma check_reach_refl: "check_reach clock s s"
  by (simp add: check_reach_def)

lemma check_reach_step: "check_reach clock s t \<Longrightarrow> check_step clock t u \<Longrightarrow> check_reach clock s u"
  unfolding check_reach_def by (rule rtranclp.rtrancl_into_rtrancl)

lemma check_reach_trans:
  "check_reach clock s t \<Longrightarrow> check_reach clock t u \<Longrightarrow> check_reach clock s u"
  unfolding check_reach_def by (rule rtranclp_trans)

text \<open>One thread's whole check, undisturbed: from loading the counter to the increment.\<close>

lemma undisturbed_increment:
  assumes "pcs s i = Looping" and "dl_count (shared s) < dl_limit (shared s)"
  shows "check_reach clock s
    (goto i (Returned True) (s\<lparr>shared := (shared s)\<lparr>dl_count := dl_count (shared s) + 1\<rparr>,
       admitted := Suc (admitted s)\<rparr>))"
proof -
  let ?u = "goto i (CountLoaded (dl_count (shared s))) s"
  have load: "check_step clock s ?u" using assms by (intro check_step.load_count) (auto simp: not_le)
  have "check_step clock ?u (goto i (Returned True)
      (?u\<lparr>shared := (shared ?u)\<lparr>dl_count := dl_count (shared s) + 1\<rparr>, admitted := Suc (admitted ?u)\<rparr>))"
    by (rule check_step.increment [of ?u i "dl_count (shared s)"]) simp_all
  from check_reach_step [OF check_reach_step [OF check_reach_refl load] this]
  show ?thesis by (simp add: goto_def)
qed

theorem concurrent_checks_within_limit_witness:
  "\<exists>s. check_reach (\<lambda>now. now = 86500) (check_start 1 0 86400) s \<and> admitted s = 1
     \<and> admitted s \<le> unat (1 :: u32)"
proof -
  let ?s0 = "check_start 1 0 86400" and ?clock = "\<lambda>now :: u64. now = 86500"
  let ?s1 = "goto 0 (DayLoaded 86400 86400) ?s0"
  let ?s2 = "goto 0 Looping ?s1"
  have s1: "check_step ?clock ?s0 ?s1"
    using check_step.load_day [of ?s0 0 ?clock 86500] by (simp add: check_start_def today_start_def)
  have s2: "check_step ?clock ?s1 ?s2" by (rule check_step.same_day [of ?s1 0 86400 86400]) simp_all
  have "check_reach ?clock ?s0 ?s2" by (rule check_reach_step [OF check_reach_step [OF check_reach_refl s1] s2])
  moreover have "check_reach ?clock ?s2
    (goto 0 (Returned True) (?s2\<lparr>shared := (shared ?s2)\<lparr>dl_count := dl_count (shared ?s2) + 1\<rparr>,
       admitted := Suc (admitted ?s2)\<rparr>))" (is "check_reach _ _ ?s3")
    by (rule undisturbed_increment) (simp_all add: check_start_def)
  ultimately have r: "check_reach ?clock ?s0 ?s3" by (rule check_reach_trans)
  moreover have "admitted ?s3 \<le> unat (1 :: u32)"
    using concurrent_checks_within_limit [OF r] by (simp add: today_start_def)
  moreover have "admitted ?s3 = 1" by (simp add: check_start_def)
  ultimately show ?thesis by blast
qed

text \<open>
  Claim C29. Across a change of day the checks of the new day are granted at most twice the limit,
  whatever the interleaving: the counter is cleared at most once.
\<close>

theorem rollover_within_twice_limit:
  assumes "check_reach clock (check_start limit count before) s"
    and "\<And>now. clock now \<Longrightarrow> today_start now = day" and "before < day" and "count \<le> limit"
  shows "admitted s \<le> 2 * unat limit"
proof -
  have "rollover_inv before day limit s"
    using assms(1)
  proof (induction rule: check_reach_induct)
    case start
    then show ?case
      using assms(4) by (simp add: rollover_inv_def check_start_def pcs_ok_def all_early_def)
  next
    case (step u v)
    then show ?case using rollover_step assms(2,3) by blast
  qed
  then show ?thesis by (auto simp: rollover_inv_def word_le_nat_alt split: if_splits)
qed

text \<open>
  The interleaving that reaches it: both threads read the day, the first moves it, the second is
  admitted against the old counter, the first clears the counter and is admitted too.
\<close>

definition rollover_state :: check_system where
  "rollover_state =
     \<lparr>shared = \<lparr>dl_limit = 1, dl_count = 1, dl_day_start = 86400\<rparr>,
      pcs = (\<lambda>_. Idle)(0 := Returned True, 1 := Returned True), admitted = 2\<rparr>"

lemma rollover_state_reached: "check_reach (\<lambda>now. now = 86500) (check_start 1 0 0) rollover_state"
proof -
  let ?clock = "\<lambda>now :: u64. now = 86500"
  let ?s0 = "check_start 1 0 0"
  let ?s1 = "goto 0 (DayLoaded 86400 0) ?s0"
  let ?s2 = "goto 1 (DayLoaded 86400 0) ?s1"
  let ?s3 = "goto 0 DayMoved (?s2\<lparr>shared := (shared ?s2)\<lparr>dl_day_start := 86400\<rparr>\<rparr>)"
  let ?s4 = "goto 1 Looping ?s3"
  let ?s5 = "goto 1 (Returned True) (?s4\<lparr>shared := (shared ?s4)\<lparr>dl_count := dl_count (shared ?s4) + 1\<rparr>,
      admitted := Suc (admitted ?s4)\<rparr>)"
  let ?s6 = "goto 0 Looping (?s5\<lparr>shared := (shared ?s5)\<lparr>dl_count := 0\<rparr>\<rparr>)"
  have "check_step ?clock ?s0 ?s1"
    using check_step.load_day [of ?s0 0 ?clock 86500] by (simp add: check_start_def today_start_def)
  note r = check_reach_step [OF check_reach_refl this]
  have "check_step ?clock ?s1 ?s2"
    using check_step.load_day [of ?s1 1 ?clock 86500] by (simp add: check_start_def today_start_def)
  note r = check_reach_step [OF r this]
  have "check_step ?clock ?s2 ?s3"
    by (rule check_step.move_day [of ?s2 0 86400 0]) (simp_all add: check_start_def)
  note r = check_reach_step [OF r this]
  have "check_step ?clock ?s3 ?s4"
    by (rule check_step.lose_day [of ?s3 1 86400 0]) (simp_all add: check_start_def)
  note r = check_reach_step [OF r this]
  have "check_reach ?clock ?s4 ?s5"
    by (rule undisturbed_increment) (simp_all add: check_start_def)
  note r = check_reach_trans [OF r this]
  have "check_step ?clock ?s5 ?s6" by (rule check_step.zero) simp
  note r = check_reach_step [OF r this]
  have "check_reach ?clock ?s6
    (goto 0 (Returned True) (?s6\<lparr>shared := (shared ?s6)\<lparr>dl_count := dl_count (shared ?s6) + 1\<rparr>,
      admitted := Suc (admitted ?s6)\<rparr>))" (is "check_reach _ _ ?s7")
    by (rule undisturbed_increment) (simp_all add: check_start_def)
  note r = check_reach_trans [OF r this]
  have "?s7 = rollover_state"
    by (simp add: rollover_state_def goto_def check_start_def fun_upd_twist)
  with r show ?thesis by simp
qed

theorem rollover_within_twice_limit_witness:
  "admitted rollover_state \<le> 2 * unat (1 :: u32)
   \<and> check_reach (\<lambda>now. now = 86500) (check_start 1 0 0) rollover_state"
  using rollover_within_twice_limit [OF rollover_state_reached, of 86400] rollover_state_reached
  by (simp add: today_start_def)

text \<open>
  The daily limit is not kept at a change of day: with a limit of one request and an
  unused limiter, two threads whose clocks both read the new day are both granted.
\<close>

theorem rollover_exceeds_limit:
  "\<exists>s. check_reach (\<lambda>now. now = 86500) (check_start 1 0 0) s
     \<and> pcs s 0 = Returned True \<and> pcs s 1 = Returned True \<and> admitted s = 2 * unat (dl_limit (shared s))"
proof (intro exI conjI)
  show "check_reach (\<lambda>now. now = 86500) (check_start 1 0 0) rollover_state"
    by (rule rollover_state_reached)
qed (simp_all add: rollover_state_def)

end
