(* ===== verification/Float64.thy ===== *)
theory Float64
  imports Prelude
begin

section \<open>Binary floating point\<close>

text \<open>
  Amounts of money are \<open>f64\<close>. A finite value is the rational number it denotes; a result is
  rounded to the nearest number with 53 significant bits, ties to even, with the exponent range
  of the format, and overflows to an infinity. The two zeros are identified: nothing in the
  modelled code distinguishes them.
\<close>

datatype f64 = Fin rat | Inf bool | NaN

fun nat_log2 :: "nat \<Rightarrow> nat" where
  "nat_log2 n = (if n < 2 then 0 else Suc (nat_log2 (n div 2)))"

declare nat_log2.simps [simp del]

definition pow2 :: "int \<Rightarrow> rat" where
  "pow2 k = (if 0 \<le> k then 2 ^ nat k else 1 / 2 ^ nat (- k))"

text \<open>The exponent of the leading binary digit of a positive rational.\<close>

definition rat_log2 :: "rat \<Rightarrow> int" where
  "rat_log2 x = (case quotient_of x of (a, b) \<Rightarrow>
     let k = int (nat_log2 (nat a)) - int (nat_log2 (nat b))
     in if pow2 k \<le> x then k else k - 1)"

definition round_even :: "rat \<Rightarrow> int" where
  "round_even x = (let f = \<lfloor>x\<rfloor>; d = x - of_int f in
     if d < 1 / 2 then f else if 1 / 2 < d then f + 1 else if even f then f else f + 1)"

definition round64 :: "rat \<Rightarrow> f64" where
  "round64 x =
     (if x = 0 then Fin 0
      else let e = max (rat_log2 \<bar>x\<bar> - 52) (- 1074);
               y = of_int (round_even (x / pow2 e)) * pow2 e
           in if 1024 \<le> rat_log2 \<bar>y\<bar> then Inf (y < 0) else Fin y)"

fun f64_add :: "f64 \<Rightarrow> f64 \<Rightarrow> f64" where
  "f64_add (Fin a) (Fin b) = round64 (a + b)"
| "f64_add (Inf s) (Inf t) = (if s = t then Inf s else NaN)"
| "f64_add (Inf s) (Fin b) = Inf s"
| "f64_add (Fin a) (Inf t) = Inf t"
| "f64_add _ _ = NaN"

text \<open>\<open>a >= b\<close> and \<open>a > b\<close>: false whenever an operand is not a number.\<close>

fun f64_ge :: "f64 \<Rightarrow> f64 \<Rightarrow> bool" where
  "f64_ge (Fin a) (Fin b) = (b \<le> a)"
| "f64_ge (Inf s) (Inf t) = (s \<longrightarrow> t)"
| "f64_ge (Inf s) (Fin b) = (\<not> s)"
| "f64_ge (Fin a) (Inf t) = t"
| "f64_ge _ _ = False"

definition f64_gt :: "f64 \<Rightarrow> f64 \<Rightarrow> bool" where
  "f64_gt a b = (f64_ge a b \<and> \<not> f64_ge b a)"

fun f64_mul :: "f64 \<Rightarrow> f64 \<Rightarrow> f64" where
  "f64_mul (Fin a) (Fin b) = round64 (a * b)"
| "f64_mul (Inf s) (Inf t) = Inf (s \<noteq> t)"
| "f64_mul (Inf s) (Fin b) = (if b = 0 then NaN else Inf (s \<noteq> (b < 0)))"
| "f64_mul (Fin a) (Inf t) = (if a = 0 then NaN else Inf (t \<noteq> (a < 0)))"
| "f64_mul _ _ = NaN"

text \<open>\<open>mul_add\<close> rounds once.\<close>

fun f64_mul_add :: "f64 \<Rightarrow> f64 \<Rightarrow> f64 \<Rightarrow> f64" where
  "f64_mul_add (Fin a) (Fin b) (Fin c) = round64 (a * b + c)"
| "f64_mul_add (Fin a) (Fin b) c = c"
| "f64_mul_add a b c = f64_add (f64_mul a b) c"

definition f64_of_u32 :: "u32 \<Rightarrow> f64" where
  "f64_of_u32 n = Fin (of_nat (unat n))"

fun f64_finite :: "f64 \<Rightarrow> bool" where
  "f64_finite (Fin a) = True"
| "f64_finite _ = False"

lemma f64_add_comm: "f64_add a b = f64_add b a"
  by (cases "(a, b)" rule: f64_add.cases) (auto simp: add.commute)

lemma f64_ge_NaN [simp]: "\<not> f64_ge NaN b" "\<not> f64_ge a NaN"
  by (cases b; simp) (cases a; simp)

lemma f64_ge_trans: "f64_ge a b \<Longrightarrow> f64_ge b c \<Longrightarrow> f64_ge a c"
  by (cases a; cases b; cases c) auto

subsection \<open>Signs and range\<close>

lemma pow2_pos: "0 < pow2 k"
  by (simp add: pow2_def)

lemma round_even_nonneg: "0 \<le> x \<Longrightarrow> 0 \<le> round_even x"
  by (auto simp: round_even_def Let_def)

lemma round64_nonneg:
  assumes "0 \<le> x" shows "f64_ge (round64 x) (Fin 0)"
proof -
  have "0 \<le> of_int (round_even (x / pow2 e)) * pow2 e" for e
    using assms pow2_pos [of e] by (intro mult_nonneg_nonneg) (auto intro: round_even_nonneg)
  then show ?thesis by (auto simp: round64_def Let_def not_less)
qed

lemma f64_nonneg_cases: "f64_ge a (Fin 0) \<longleftrightarrow> (\<exists>x \<ge> 0. a = Fin x) \<or> a = Inf False"
  by (cases a) auto

lemma f64_add_nonneg: "f64_ge a (Fin 0) \<Longrightarrow> f64_ge b (Fin 0) \<Longrightarrow> f64_ge (f64_add a b) (Fin 0)"
  by (auto simp: f64_nonneg_cases [of a] f64_nonneg_cases [of b] round64_nonneg)

lemma f64_mul_add_nonneg:
  "0 \<le> x \<Longrightarrow> 0 \<le> y \<Longrightarrow> f64_ge c (Fin 0) \<Longrightarrow> f64_ge (f64_mul_add (Fin x) (Fin y) c) (Fin 0)"
  by (auto simp: f64_nonneg_cases [of c] round64_nonneg)

lemma f64_mul_nonneg: "0 \<le> x \<Longrightarrow> 0 \<le> y \<Longrightarrow> f64_ge (f64_mul (Fin x) (Fin y)) (Fin 0)"
  by (simp add: round64_nonneg)

lemma pow2_power_int: "pow2 k = power_int 2 k"
  by (simp add: pow2_def power_int_def inverse_eq_divide power_one_over)

lemma pow2_mono: "j \<le> k \<Longrightarrow> pow2 j \<le> pow2 k"
  by (simp add: pow2_power_int power_int_increasing)

lemma pow2_add: "pow2 (j + k) = pow2 j * pow2 k"
  by (simp add: pow2_power_int power_int_add)

lemma nat_log2_bounds: "0 < n \<Longrightarrow> 2 ^ nat_log2 n \<le> n \<and> n < 2 ^ (nat_log2 n + 1)"
proof (induction n rule: nat_log2.induct)
  case (1 n)
  show ?case
  proof (cases "n < 2")
    case True
    with 1(2) show ?thesis by (simp add: nat_log2.simps)
  next
    case False
    with 1(1) have "2 ^ nat_log2 (n div 2) \<le> n div 2 \<and> n div 2 < 2 ^ (nat_log2 (n div 2) + 1)" by simp
    moreover have "2 * m \<le> n \<and> n < 4 * m" if "m \<le> n div 2 \<and> n div 2 < 2 * m" for m using that by linarith
    ultimately show ?thesis using False by (simp add: nat_log2.simps [of n])
  qed
qed

lemma pow2_rat_log2:
  assumes "0 < x" shows "pow2 (rat_log2 x) \<le> x"
proof (cases "quotient_of x")
  case (Pair a b)
  then have b: "0 < b" and x: "x = of_int a / of_int b"
    using quotient_of_denom_pos quotient_of_div by blast+
  with assms have a: "0 < a" by (simp add: zero_less_divide_iff)
  let ?la = "nat_log2 (nat a)" and ?lb = "nat_log2 (nat b)"
  have "(2::nat) ^ ?la \<le> nat a" "nat b < 2 ^ (?lb + 1)" using nat_log2_bounds [of "nat a"] nat_log2_bounds [of "nat b"] a b by auto
  then have "(2::int) ^ ?la \<le> a" "b \<le> 2 ^ (?lb + 1)" using a b by (auto simp: le_nat_iff nat_less_iff)
  then have "(2::rat) ^ ?la \<le> of_int a" "(of_int b :: rat) \<le> 2 ^ (?lb + 1)"
    by (metis of_int_le_iff of_int_numeral of_int_power)+
  then have "2 ^ ?la / 2 ^ (?lb + 1) \<le> x" unfolding x using a b by (intro frac_le) auto
  moreover have "pow2 (int ?la - int ?lb - 1) = 2 ^ ?la / 2 ^ (?lb + 1)"
    by (simp add: pow2_power_int power_int_diff)
  ultimately show ?thesis by (simp add: rat_log2_def Pair Let_def)
qed

lemma round_even_le: "of_int (round_even x) \<le> x + 1"
  by (auto simp: round_even_def Let_def) (linarith | simp add: order_trans [OF of_int_floor_le])+

lemma round64_small:
  assumes "0 \<le> x" and "x \<le> pow2 1000"
  obtains y where "round64 x = Fin y" "0 \<le> y" "y \<le> 2 * x + 1"
proof (cases "x = 0")
  case False
  with assms(1) have x: "0 < x" by simp
  define e where "e = max (rat_log2 x - 52) (- 1074)"
  define y where "y = of_int (round_even (x / pow2 e)) * pow2 e"
  have "pow2 e \<le> x + 1"
  proof (cases "- 1074 \<le> rat_log2 x - 52")
    case True
    then have "pow2 e \<le> pow2 (rat_log2 x)" by (intro pow2_mono) (simp add: e_def)
    with pow2_rat_log2 [OF x] show ?thesis by simp
  next
    case False
    then have "pow2 e \<le> pow2 0" by (intro pow2_mono) (simp add: e_def)
    with x show ?thesis by (simp add: pow2_def)
  qed
  moreover have "y \<le> (x / pow2 e + 1) * pow2 e"
    unfolding y_def using round_even_le pow2_pos [of e] by (intro mult_right_mono) auto
  moreover have "(x / pow2 e + 1) * pow2 e = x + pow2 e" using pow2_pos [of e] by (simp add: field_simps)
  ultimately have le: "y \<le> 2 * x + 1" by simp
  also have "\<dots> \<le> 2 * pow2 1000 + 1" using assms(2) by simp
  also have "\<dots> < pow2 1024" by (simp add: pow2_def)
  finally have "y < pow2 1024" .
  have nonneg: "0 \<le> y" unfolding y_def using x pow2_pos [of e]
    by (intro mult_nonneg_nonneg) (auto intro: round_even_nonneg)
  have "rat_log2 y < 1024" if "0 < y"
    using \<open>y < pow2 1024\<close> pow2_rat_log2 [OF that] pow2_mono [of 1024 "rat_log2 y"] by force
  moreover have "rat_log2 0 < 1024" by (simp add: rat_log2_def nat_log2.simps pow2_def)
  ultimately have "rat_log2 \<bar>y\<bar> < 1024" using nonneg by (cases "y = 0") auto
  with x have "round64 x = Fin y" by (simp add: round64_def Let_def e_def [symmetric] y_def [symmetric])
  with nonneg le that show ?thesis by blast
qed (use that in \<open>auto simp: round64_def\<close>)

end
