(* ===== verification/Key_Types.thy ===== *)
theory Key_Types
  imports Float64 Json Access_List
begin

section \<open>Virtual keys, their permissions and usage (src/src/keys/types.rs)\<close>

text \<open>
  The records of a virtual key and the checks on them. Instants are nanoseconds since the epoch;
  a check that reads the clock takes the reading as its first argument. The model patterns are
  matched by the \<open>glob-match\<close> package, the argument \<open>gm\<close>. Sets of patterns are lists: the code
  only asks whether some element matches.
\<close>

type_synonym instant = int

datatype budget_window = Total | Daily | Weekly | Monthly

record key_permissions =
  allowed_models :: "string list option"
  blocked_models :: "string list option"
  allowed_providers :: "string list option"
  rpm_limit :: "u32 option"
  tpm_limit :: "u32 option"
  rpd_limit :: "u32 option"
  max_budget_usd :: "f64 option"
  budget_window :: "budget_window option"
  maintenance :: bool

record key_usage =
  total_requests :: u64
  total_input_tokens :: u64
  total_output_tokens :: u64
  total_spend_usd :: f64
  window_spend_usd :: f64
  reserved_spend_usd :: f64
  window_start :: "instant option"
  last_request_at :: "instant option"

record virtual_key =
  key_id :: string
  key_hash :: string
  key_name :: "string option"
  created_at :: instant
  expires_at :: "instant option"
  valid_after :: "instant option"
  disabled :: bool
  permissions :: key_permissions
  usage :: key_usage
  metadata :: json
  owner :: "string option"
  oauth_user :: "string option"
  oauth_account :: "string option"

record key_info =
  ki_key_id :: string
  ki_key_hash :: string
  ki_name :: "string option"
  ki_created_at :: instant
  ki_expires_at :: "instant option"
  ki_disabled :: bool
  ki_permissions :: key_permissions
  ki_usage :: key_usage
  ki_owner :: "string option"
  ki_oauth_user :: "string option"
  ki_oauth_account :: "string option"

record create_key_request =
  req_name :: "string option"
  req_expires_at :: "instant option"
  req_permissions :: key_permissions
  req_metadata :: json
  req_owner :: "string option"
  req_oauth_user :: "string option"
  req_oauth_account :: "string option"

definition key_usage_default :: key_usage where
  "key_usage_default =
     \<lparr>total_requests = 0, total_input_tokens = 0, total_output_tokens = 0,
      total_spend_usd = Fin 0, window_spend_usd = Fin 0, reserved_spend_usd = Fin 0,
      window_start = None, last_request_at = None\<rparr>"

definition key_permissions_default :: key_permissions where
  "key_permissions_default =
     \<lparr>allowed_models = None, blocked_models = None, allowed_providers = None, rpm_limit = None,
      tpm_limit = None, rpd_limit = None, max_budget_usd = None, budget_window = None,
      maintenance = False\<rparr>"

definition virtual_key_new :: "instant \<Rightarrow> string \<Rightarrow> string \<Rightarrow> key_permissions \<Rightarrow> virtual_key" where
  "virtual_key_new now kid hash perms =
     \<lparr>key_id = kid, key_hash = hash, key_name = None, created_at = now, expires_at = None,
      valid_after = None, disabled = False, permissions = perms, usage = key_usage_default,
      metadata = JNull, owner = None, oauth_user = None, oauth_account = None\<rparr>"

definition is_valid :: "instant \<Rightarrow> virtual_key \<Rightarrow> bool" where
  "is_valid now k =
     (if disabled k then False
      else if (case expires_at k of Some expires \<Rightarrow> expires \<le> now | None \<Rightarrow> False) then False
      else if (case valid_after k of Some after \<Rightarrow> now < after | None \<Rightarrow> False) then False
      else True)"

definition is_over_budget :: "virtual_key \<Rightarrow> bool" where
  "is_over_budget k =
     (case max_budget_usd (permissions k) of
        Some max_budget \<Rightarrow>
          f64_ge (f64_add (window_spend_usd (usage k)) (reserved_spend_usd (usage k))) max_budget
      | None \<Rightarrow> False)"

definition to_info :: "virtual_key \<Rightarrow> key_info" where
  "to_info k =
     \<lparr>ki_key_id = key_id k, ki_key_hash = key_hash k, ki_name = key_name k,
      ki_created_at = created_at k, ki_expires_at = expires_at k, ki_disabled = disabled k,
      ki_permissions = permissions k, ki_usage = usage k, ki_owner = owner k,
      ki_oauth_user = oauth_user k, ki_oauth_account = oauth_account k\<rparr>"

definition is_model_allowed :: "(string \<Rightarrow> string \<Rightarrow> bool) \<Rightarrow> key_permissions \<Rightarrow> string \<Rightarrow> bool" where
  "is_model_allowed gm perms model =
     (if (case blocked_models perms of
            Some blocked \<Rightarrow> list_ex (\<lambda>pattern. gm pattern model) blocked | None \<Rightarrow> False)
      then False
      else (case allowed_models perms of
              Some allowed \<Rightarrow> list_ex (\<lambda>pattern. gm pattern model) allowed
            | None \<Rightarrow> True))"

definition is_provider_allowed :: "key_permissions \<Rightarrow> string \<Rightarrow> bool" where
  "is_provider_allowed perms provider =
     (case allowed_providers perms of
        Some allowed \<Rightarrow> provider \<in> set allowed \<or> to_lower provider \<in> set allowed
      | None \<Rightarrow> True)"

subsection \<open>The model lists are an access list\<close>

definition models_admitted ::
    "(string \<Rightarrow> string \<Rightarrow> bool) \<Rightarrow> string list \<Rightarrow> string list option \<Rightarrow> string \<Rightarrow> bool" where
  "models_admitted gm blocked allowed =
     is_model_allowed gm (key_permissions_default\<lparr>blocked_models := Some blocked, allowed_models := allowed\<rparr>)"

interpretation models: access_list gm "models_admitted gm" for gm
  by unfold_locales
    (auto simp: models_admitted_def is_model_allowed_def list_ex_iff split: option.splits if_splits)

lemma is_model_allowed_admitted:
  "is_model_allowed gm perms =
     models_admitted gm (case blocked_models perms of Some b \<Rightarrow> b | None \<Rightarrow> []) (allowed_models perms)"
  by (auto simp: models_admitted_def is_model_allowed_def fun_eq_iff split: option.splits)

lemma is_model_allowed_iff:
  "is_model_allowed gm perms model \<longleftrightarrow>
     (\<forall>b p. blocked_models perms = Some b \<longrightarrow> p \<in> set b \<longrightarrow> \<not> gm p model) \<and>
     (\<forall>a. allowed_models perms = Some a \<longrightarrow> (\<exists>p \<in> set a. gm p model))"
  by (cases "blocked_models perms"; cases "allowed_models perms")
    (auto simp: is_model_allowed_def list_ex_iff)

lemma is_valid_iff:
  "is_valid now k \<longleftrightarrow> \<not> disabled k
     \<and> (\<forall>e. expires_at k = Some e \<longrightarrow> now < e) \<and> (\<forall>a. valid_after k = Some a \<longrightarrow> a \<le> now)"
  by (auto simp: is_valid_def split: option.splits)

end
