(* ===== verification/Key_Gen.thy ===== *)
theory Key_Gen
  imports Prelude
begin

section \<open>Generating and recognising virtual keys (src/src/keys/generation.rs)\<close>

text \<open>
  A key is the prefix \<open>eavs-\<close> and the text encoding of 24 random bytes, six bits to a character.
  The random bytes and the digest function are arguments. The shift register of the encoder is a
  16-bit word, as in the code: its high bits hold digits that were already written out.
\<close>

definition key_prefix :: string where
  "key_prefix = ''eavs-''"

definition base62_alphabet :: string where
  "base62_alphabet = ''0123456789ABCDEFGHIJKLMNOPQRSTUVWXYZabcdefghijklmnopqrstuvwxyz''"

text \<open>The character of a six-bit value: the values above 61 wrap around.\<close>

definition char_index :: "u16 \<Rightarrow> nat" where
  "char_index v = (let index = unat (and v 0x3f) in if index < 62 then index else index mod 62)"

fun emit :: "u16 \<Rightarrow> nat \<Rightarrow> string \<times> nat" where
  "emit carry carry_bits =
     (if 6 \<le> carry_bits then
        let bits = carry_bits - 6;
            c = base62_alphabet ! char_index (drop_bit bits carry)
        in (case emit carry bits of (cs, n) \<Rightarrow> (c # cs, n))
      else ([], carry_bits))"

declare emit.simps [simp del]

fun encode_from :: "u16 \<Rightarrow> nat \<Rightarrow> u8 list \<Rightarrow> string" where
  "encode_from carry carry_bits [] =
     (if 0 < carry_bits
      then [base62_alphabet ! char_index (push_bit (6 - carry_bits) carry)] else [])"
| "encode_from carry carry_bits (byte # bytes) =
     (let carry' = or (push_bit 8 carry) (ucast byte) in
      case emit carry' (carry_bits + 8) of (cs, n) \<Rightarrow> cs @ encode_from carry' n bytes)"

definition base62_encode :: "u8 list \<Rightarrow> string" where
  "base62_encode bytes = encode_from 0 0 bytes"

definition generate_key :: "u8 list \<Rightarrow> string" where
  "generate_key random_bytes = key_prefix @ base62_encode random_bytes"

definition is_virtual_key :: "string \<Rightarrow> bool" where
  "is_virtual_key key \<longleftrightarrow> strip_prefix key_prefix key \<noteq> None \<and> 36 \<le> length key"

definition hex_chars :: string where
  "hex_chars = ''0123456789abcdef''"

definition hex_encode :: "u8 list \<Rightarrow> string" where
  "hex_encode bytes =
     concat (map (\<lambda>b. [hex_chars ! unat (drop_bit 4 b), hex_chars ! unat (and b 0xf)]) bytes)"

definition hash_key :: "(string \<Rightarrow> u8 list) \<Rightarrow> string \<Rightarrow> string" where
  "hash_key sha256 key = hex_encode (sha256 key)"

subsection \<open>Lengths and alphabet\<close>

lemma length_alphabet: "length base62_alphabet = 62"
  by (simp add: base62_alphabet_def)

lemma char_index_bound: "char_index v < 62"
  by (auto simp: char_index_def Let_def)

lemma alphabet_char: "base62_alphabet ! char_index v \<in> set base62_alphabet"
  by (rule nth_mem) (simp add: length_alphabet char_index_bound)

lemma emit_step:
  "6 \<le> n \<Longrightarrow> emit c n =
     (case emit c (n - 6) of (cs, k) \<Rightarrow> (base62_alphabet ! char_index (drop_bit (n - 6) c) # cs, k))"
  by (subst emit.simps) (simp add: Let_def)

lemma emit_stop: "n < 6 \<Longrightarrow> emit c n = ([], n)"
  by (subst emit.simps) simp

lemma emit_shape:
  "length (fst (emit c n)) = n div 6 \<and> snd (emit c n) = n mod 6
   \<and> set (fst (emit c n)) \<subseteq> set base62_alphabet"
proof (induction n rule: less_induct)
  case (less n)
  show ?case
  proof (cases "6 \<le> n")
    case True
    with less [of "n - 6"] show ?thesis
      by (auto simp: emit_step alphabet_char case_prod_beta le_div_geq le_mod_geq)
  next
    case False
    then show ?thesis by (simp add: emit_stop)
  qed
qed

lemma six_steps: "(a::nat) div 6 + (a mod 6 + b) div 6 = (a + b) div 6"
proof -
  have "a + b = 6 * (a div 6) + (a mod 6 + b)" by simp
  then have "(a + b) div 6 = (6 * (a div 6) + (a mod 6 + b)) div 6" by (rule arg_cong)
  also have "\<dots> = a div 6 + (a mod 6 + b) div 6" by (rule div_mult_self4) simp
  finally show ?thesis by simp
qed

lemma encode_from_shape:
  "length (encode_from c n bytes) = (n + 8 * length bytes + 5) div 6
   \<and> set (encode_from c n bytes) \<subseteq> set base62_alphabet" if "n < 6"
  using that
proof (induction bytes arbitrary: c n)
  case Nil
  then show ?case by (auto simp: alphabet_char)
next
  case (Cons b bytes)
  define c' where "c' = or (push_bit 8 c) (ucast b)"
  have "snd (emit c' (n + 8)) < 6" using emit_shape [of c' "n + 8"] by simp
  from Cons.IH [OF this, of c'] emit_shape [of c' "n + 8"] six_steps [of "n + 8" "8 * length bytes + 5"]
  show ?case
    by (simp add: case_prod_beta Let_def c'_def [symmetric] algebra_simps)
qed

lemma hex_encode_length: "length (hex_encode bytes) = 2 * length bytes"
  by (induction bytes) (auto simp: hex_encode_def)

subsection \<open>The register: only its low bits matter\<close>

lemma char_index_low: "char_index v = char_index (take_bit 6 v)"
proof -
  have "take_bit 6 v = and v 0x3f" for v :: u16
    by (simp add: take_bit_eq_mask mask_eq_exp_minus_1)
  then show ?thesis by (simp add: char_index_def)
qed

lemma take_bit_le_eq:
  fixes c c' :: u16
  assumes "take_bit n c = take_bit n c'" and "m \<le> n"
  shows "take_bit m c = take_bit m c'"
proof -
  have "take_bit m (take_bit n c) = take_bit m (take_bit n c')" using assms(1) by simp
  with assms(2) show ?thesis by (simp add: min_def)
qed

lemma take_bit_six_drop: "6 \<le> n \<Longrightarrow> take_bit 6 (drop_bit (n - 6) c) = drop_bit (n - 6) (take_bit n (c :: u16))"
  by (rule bit_word_eqI) (auto simp: bit_simps)

lemma emit_low:
  "take_bit n c = take_bit n c' \<Longrightarrow> emit c n = emit c' n"
proof (induction n rule: less_induct)
  case (less n)
  show ?case
  proof (cases "6 \<le> n")
    case True
    have "char_index (drop_bit (n - 6) c) = char_index (drop_bit (n - 6) c')"
      using True less.prems by (subst (1 2) char_index_low) (simp add: take_bit_six_drop)
    moreover have "take_bit (n - 6) c = take_bit (n - 6) c'"
      using less.prems by (rule take_bit_le_eq) simp
    ultimately show ?thesis using True less.IH [of "n - 6"] by (simp add: emit_step)
  next
    case False
    then show ?thesis by (simp add: emit_stop)
  qed
qed

lemma encode_from_low:
  "take_bit n c = take_bit n c' \<Longrightarrow> n < 6 \<Longrightarrow> encode_from c n bytes = encode_from c' n bytes"
proof (induction bytes arbitrary: c c' n)
  case Nil
  then have "char_index (push_bit (6 - n) c) = char_index (push_bit (6 - n) c')"
    by (subst (1 2) char_index_low) (simp add: take_bit_push_bit)
  then show ?case by simp
next
  case (Cons b bytes)
  let ?r = "or (push_bit 8 c) (ucast b)" and ?r' = "or (push_bit 8 c') (ucast b)"
  have reg: "take_bit (n + 8) ?r = take_bit (n + 8) ?r'"
    using Cons.prems(1) by (simp add: take_bit_or take_bit_push_bit)
  have "snd (emit ?r' (n + 8)) = (n + 8) mod 6" using emit_shape by blast
  moreover have "take_bit ((n + 8) mod 6) ?r = take_bit ((n + 8) mod 6) ?r'"
    by (rule take_bit_le_eq [OF reg]) simp
  ultimately show ?case
    using emit_low [OF reg] Cons.IH [of "(n + 8) mod 6" ?r ?r']
    by (simp add: Let_def case_prod_beta)
qed

subsection \<open>Reading a digest back\<close>

definition hex_digit_value :: "char \<Rightarrow> nat" where
  "hex_digit_value c = (let n = (of_char c :: nat) in if n < 58 then n - 48 else n - 87)"

fun unhex :: "string \<Rightarrow> u8 list" where
  "unhex (a # b # s) = of_nat (16 * hex_digit_value a + hex_digit_value b) # unhex s"
| "unhex _ = []"

lemma hex_digit_value_char:
  assumes "n < 16"
  shows "hex_digit_value (hex_chars ! n) = n"
proof -
  have "list_all (\<lambda>n. hex_digit_value (hex_chars ! n) = n) [0..<16]" by code_simp
  with assms show ?thesis by (simp add: list_all_iff)
qed

lemma nibbles:
  fixes b :: u8
  shows "unat (drop_bit 4 b) = unat b div 16" and "unat (and b 0xf) = unat b mod 16"
    and "unat (drop_bit 4 b) < 16" and "unat (and b 0xf) < 16"
proof -
  show hi: "unat (drop_bit 4 b) = unat b div 16"
    by (simp add: drop_bit_eq_div unat_div)
  have "and b 0xf = take_bit 4 b" by (simp add: take_bit_eq_mask mask_eq_exp_minus_1)
  then show lo: "unat (and b 0xf) = unat b mod 16" by (simp add: take_bit_eq_mod unat_mod)
  have "unat b < 256" using unat_bound [of b] by simp
  then show "unat (drop_bit 4 b) < 16" and "unat (and b 0xf) < 16" unfolding hi lo by simp_all
qed

lemma unhex_hex_encode: "unhex (hex_encode bytes) = bytes"
proof (induction bytes)
  case Nil
  then show ?case by (simp add: hex_encode_def)
next
  case (Cons b bytes)
  have "unat b div 16 < 16" using nibbles [of b] by simp
  then have "of_nat (16 * hex_digit_value (hex_chars ! (unat b div 16)) +
      hex_digit_value (hex_chars ! (unat b mod 16))) = b"
    by (simp add: hex_digit_value_char)
  with Cons show ?case by (simp add: hex_encode_def nibbles)
qed

subsection \<open>Properties\<close>

text \<open>
  Every generated key is recognised as a virtual key: 24 random bytes give the prefix
  and 32 characters of the alphabet.
\<close>

theorem generated_key_is_virtual:
  assumes "length bytes = 24"
  shows "is_virtual_key (generate_key bytes) \<and> length (generate_key bytes) = 37
    \<and> set (base62_encode bytes) \<subseteq> set base62_alphabet"
proof -
  have "length (base62_encode bytes) = 32 \<and> set (base62_encode bytes) \<subseteq> set base62_alphabet"
    using encode_from_shape [of 0 0 bytes] assms by (simp add: base62_encode_def)
  then show ?thesis by (simp add: is_virtual_key_def generate_key_def key_prefix_def strip_prefix_Some_iff)
qed

theorem generated_key_is_virtual_witness: "is_virtual_key (generate_key (replicate 24 255))"
  using generated_key_is_virtual [of "replicate 24 255"] by simp

text \<open>
  Generated keys carry less than the 192 bits of their random bytes: the six-bit values
  62 and 63 are written like 0 and 1, so a key whose first byte is 248 equals the key whose first
  byte is 0, and there are at most \<open>62 ^ 32\<close> keys, fewer than \<open>2 ^ 192\<close>.
\<close>

theorem generated_keys_collide:
  "generate_key (0xF8 # bytes) = generate_key (0 # bytes)
   \<and> card (generate_key ` {bytes. length bytes = 24}) \<le> 62 ^ 32 \<and> (62 :: nat) ^ 32 < 2 ^ 192"
proof (intro conjI)
  have "encode_from 0 0 (0xF8 # bytes) = CHR ''0'' # encode_from 0xF8 2 bytes"
    by (simp add: emit_step emit_stop char_index_def base62_alphabet_def)
  moreover have "encode_from 0 0 (0 # bytes) = CHR ''0'' # encode_from 0 2 bytes"
    by (simp add: emit_step emit_stop char_index_def base62_alphabet_def)
  moreover have "encode_from 0xF8 2 bytes = encode_from 0 2 bytes"
    by (rule encode_from_low) (simp_all add: take_bit_eq_mod)
  ultimately show "generate_key (0xF8 # bytes) = generate_key (0 # bytes)"
    by (simp add: generate_key_def base62_encode_def del: encode_from.simps)
  have codes: "base62_encode ` {bytes. length bytes = 24} \<subseteq> {s. set s \<subseteq> set base62_alphabet \<and> length s = 32}"
    using encode_from_shape [of 0 0] by (auto simp: base62_encode_def)
  have "card (base62_encode ` {bytes. length bytes = 24}) \<le>
      card {s. set s \<subseteq> set base62_alphabet \<and> length s = 32}"
    by (rule card_mono [OF finite_lists_length_eq codes]) simp
  also have "\<dots> = card (set base62_alphabet) ^ 32" by (rule card_lists_length_eq) simp
  also have "\<dots> \<le> 62 ^ 32"
    using card_length [of base62_alphabet] by (intro power_mono) (simp_all add: length_alphabet)
  finally have "card (base62_encode ` {bytes. length bytes = 24}) \<le> 62 ^ 32" .
  moreover have "generate_key ` {bytes. length bytes = 24} =
      (@) key_prefix ` base62_encode ` {bytes. length bytes = 24}"
    by (simp add: generate_key_def image_image)
  moreover have "card ((@) key_prefix ` base62_encode ` {bytes. length bytes = 24}) =
      card (base62_encode ` {bytes. length bytes = 24})"
    by (rule card_image) (simp add: inj_on_def)
  ultimately show "card (generate_key ` {bytes. length bytes = 24}) \<le> 62 ^ 32" by simp
qed simp

text \<open>
  The stored form of a digest loses nothing: it reads back to the digest, so two keys
  have the same stored hash exactly when their digests are equal.
\<close>

theorem key_hash_faithful:
  "unhex (hash_key sha256 key) = sha256 key
   \<and> (hash_key sha256 key = hash_key sha256 key') = (sha256 key = sha256 key')"
  by (metis hash_key_def unhex_hex_encode)

end
