(* ===== verification/Key_Store.thy ===== *)
theory Key_Store
  imports Key_Types Key_Gen
begin

section \<open>The key store (src/src/keys/store.rs)\<close>

text \<open>
  The store keeps every key twice: as a row of an SQLite table, the authority for authentication,
  and in a process-local cache, the authority for usage counters, which a background task writes
  back in batches. A secondary index maps the human-readable id to the hash. SQLite itself is not
  part of the repository: a row is the key it decodes to, or nothing if it does not decode, and
  whether a statement succeeds is an argument of the operation that issues it, apart from the
  primary key constraint, which makes the insertion of a hash that is already there fail.

  The usage history table is append-only and read by reports alone; it is not modelled, except
  that writing to it can fail.
\<close>

datatype store_error = DatabaseError | SerializationError

record key_store =
  rows :: "string \<Rightarrow> virtual_key option option"
  cache :: "string \<Rightarrow> virtual_key option"
  human_id_index :: "string \<Rightarrow> string option"
  pending_updates :: u64
  pending_keys :: "string set"

definition store_empty :: key_store where
  "store_empty = \<lparr>rows = (\<lambda>_. None), cache = (\<lambda>_. None), human_id_index = (\<lambda>_. None),
     pending_updates = 0, pending_keys = {}\<rparr>"

definition lookup_for_auth ::
    "(string \<Rightarrow> u8 list) \<Rightarrow> bool \<Rightarrow> string \<Rightarrow> key_store \<Rightarrow>
     (store_error + virtual_key option) \<times> key_store" where
  "lookup_for_auth sha256 db_ok token st =
     (let hash = hash_key sha256 token in
      if \<not> db_ok then (Inl DatabaseError, st)
      else (case rows st hash of
              None \<Rightarrow> (Inr None, st)
            | Some None \<Rightarrow> (Inl SerializationError, st)
            | Some (Some row) \<Rightarrow>
                let key = (case cache st hash of
                             Some cached \<Rightarrow> row\<lparr>usage := usage cached\<rparr> | None \<Rightarrow> row)
                in (Inr (Some key),
                    st\<lparr>cache := (cache st)(hash \<mapsto> key),
                       human_id_index := (human_id_index st)(key_id key \<mapsto> key_hash key)\<rparr>)))"

definition get_by_hash :: "string \<Rightarrow> key_store \<Rightarrow> virtual_key option" where
  "get_by_hash hash st = cache st hash"

definition get_by_human_id :: "string \<Rightarrow> key_store \<Rightarrow> virtual_key option" where
  "get_by_human_id human_id st = Option.bind (human_id_index st human_id) (cache st)"

definition create_key ::
    "(string \<Rightarrow> u8 list) \<Rightarrow> instant \<Rightarrow> u8 list \<Rightarrow> string \<Rightarrow> bool \<Rightarrow> create_key_request \<Rightarrow> key_store \<Rightarrow>
     (store_error + string \<times> virtual_key) \<times> key_store" where
  "create_key sha256 now random_bytes kid db_ok request st =
     (let key = generate_key random_bytes;
          hash = hash_key sha256 key;
          vk = \<lparr>key_id = kid, key_hash = hash, key_name = req_name request, created_at = now,
                expires_at = req_expires_at request, valid_after = None, disabled = False,
                permissions = req_permissions request, usage = key_usage_default,
                metadata = req_metadata request, owner = req_owner request,
                oauth_user = req_oauth_user request, oauth_account = req_oauth_account request\<rparr>
      in if \<not> db_ok \<or> rows st hash \<noteq> None then (Inl DatabaseError, st)
         else (Inr (key, vk),
               st\<lparr>rows := (rows st)(hash \<mapsto> Some vk), cache := (cache st)(hash \<mapsto> vk),
                  human_id_index := (human_id_index st)(kid \<mapsto> hash)\<rparr>))"

text \<open>Removing a key from the process: from the cache, and from the index under its id.\<close>

definition forget :: "string \<Rightarrow> key_store \<Rightarrow> key_store" where
  "forget hash st =
     (case cache st hash of
        None \<Rightarrow> st
      | Some key \<Rightarrow> st\<lparr>cache := (cache st)(hash := None),
                      human_id_index := (human_id_index st)(key_id key := None)\<rparr>)"

definition disable_key :: "bool \<Rightarrow> string \<Rightarrow> key_store \<Rightarrow> (store_error + bool) \<times> key_store" where
  "disable_key db_ok hash st =
     (if \<not> db_ok then (Inl DatabaseError, st)
      else (case rows st hash of
              None \<Rightarrow> (Inr False, st)
            | Some row \<Rightarrow>
                (Inr True,
                 forget hash (st\<lparr>rows := (rows st)(hash \<mapsto> map_option (disabled_update (\<lambda>_. True)) row)\<rparr>))))"

definition delete_key :: "bool \<Rightarrow> string \<Rightarrow> key_store \<Rightarrow> (store_error + bool) \<times> key_store" where
  "delete_key db_ok hash st =
     (if \<not> db_ok then (Inl DatabaseError, st)
      else (case rows st hash of
              None \<Rightarrow> (Inr False, st)
            | Some row \<Rightarrow> (Inr True, forget hash (st\<lparr>rows := (rows st)(hash := None)\<rparr>))))"

definition update_field ::
    "(virtual_key \<Rightarrow> virtual_key) \<Rightarrow> bool \<Rightarrow> string \<Rightarrow> key_store \<Rightarrow> (store_error + bool) \<times> key_store" where
  "update_field f db_ok hash st =
     (if \<not> db_ok then (Inl DatabaseError, st)
      else (case rows st hash of
              None \<Rightarrow> (Inr False, st)
            | Some row \<Rightarrow>
                (Inr True,
                 st\<lparr>rows := (rows st)(hash \<mapsto> map_option f row),
                    cache := (cache st)(hash := map_option f (cache st hash))\<rparr>)))"

definition update_oauth_user ::
    "bool \<Rightarrow> string \<Rightarrow> string option \<Rightarrow> key_store \<Rightarrow> (store_error + bool) \<times> key_store" where
  "update_oauth_user db_ok hash user = update_field (oauth_user_update (\<lambda>_. user)) db_ok hash"

definition update_owner ::
    "bool \<Rightarrow> string \<Rightarrow> string option \<Rightarrow> key_store \<Rightarrow> (store_error + bool) \<times> key_store" where
  "update_owner db_ok hash new_owner = update_field (owner_update (\<lambda>_. new_owner)) db_ok hash"

text \<open>
  Refreshing replaces the cache by the rows that decode and are not disabled. The index is
  filled in the order the rows arrive, so it is an argument what a shared id ends up naming.
\<close>

definition refresh_cache :: "bool \<Rightarrow> string list \<Rightarrow> key_store \<Rightarrow> (store_error + unit) \<times> key_store" where
  "refresh_cache db_ok order st =
     (if \<not> db_ok then (Inl DatabaseError, st)
      else
        let live = (\<lambda>h. case rows st h of
                       Some (Some k) \<Rightarrow> if disabled k then None else Some k | _ \<Rightarrow> None)
        in (Inr (),
            st\<lparr>cache := live,
               human_id_index := foldl (\<lambda>ix h. case live h of
                   Some k \<Rightarrow> ix(key_id k \<mapsto> key_hash k) | None \<Rightarrow> ix) (\<lambda>_. None) order\<rparr>))"

subsection \<open>Recording usage\<close>

text \<open>
  The calendar fields of an instant come from the \<open>chrono\<close> package: \<open>year_month\<close> is the number
  \<open>year * 12 + month\<close> of an instant. Its durations count whole days, rounded towards zero.
\<close>

definition trunc_div :: "int \<Rightarrow> int \<Rightarrow> int" where
  "trunc_div a b = sgn a * sgn b * (\<bar>a\<bar> div \<bar>b\<bar>)"

definition timestamp :: "instant \<Rightarrow> int" where
  "timestamp t = t div 1000000000"

definition num_days :: "int \<Rightarrow> int" where
  "num_days d = trunc_div d 86400000000000"

definition should_reset :: "(instant \<Rightarrow> int) \<Rightarrow> instant \<Rightarrow> instant option \<Rightarrow> budget_window \<Rightarrow> bool" where
  "should_reset year_month now start window =
     (case (start, window) of
        (Some s, Daily) \<Rightarrow> trunc_div (timestamp s) 86400 < trunc_div (timestamp now) 86400
      | (Some s, Weekly) \<Rightarrow> 7 \<le> num_days (now - s)
      | (Some s, Monthly) \<Rightarrow>
          if 28 \<le> num_days (now - s) then year_month s < year_month now else False
      | (None, _) \<Rightarrow> True
      | (_, Total) \<Rightarrow> False)"

definition count_usage ::
    "(instant \<Rightarrow> int) \<Rightarrow> instant \<Rightarrow> u32 \<Rightarrow> u32 \<Rightarrow> f64 \<Rightarrow> virtual_key \<Rightarrow> virtual_key" where
  "count_usage year_month now input_tokens output_tokens cost k =
     (let u = usage k;
          u1 = u\<lparr>total_requests := total_requests u + 1,
                 total_input_tokens := total_input_tokens u + ucast input_tokens,
                 total_output_tokens := total_output_tokens u + ucast output_tokens,
                 total_spend_usd := f64_add (total_spend_usd u) cost,
                 window_spend_usd := f64_add (window_spend_usd u) cost,
                 last_request_at := Some now\<rparr>;
          u2 = (case budget_window (permissions k) of
                  None \<Rightarrow> u1
                | Some window \<Rightarrow>
                    if should_reset year_month now (window_start u) window
                    then u1\<lparr>window_spend_usd := cost, window_start := Some now\<rparr> else u1)
      in k\<lparr>usage := u2\<rparr>)"

text \<open>
  \<open>history_ok\<close> is whether the history row was written; if it was not, the usage is counted but
  its synchronisation is never requested.
\<close>

definition update_usage ::
    "(instant \<Rightarrow> int) \<Rightarrow> instant \<Rightarrow> bool \<Rightarrow> string \<Rightarrow> u32 \<Rightarrow> u32 \<Rightarrow> f64 \<Rightarrow> key_store \<Rightarrow>
     (store_error + unit) \<times> key_store" where
  "update_usage year_month now history_ok hash input_tokens output_tokens cost st =
     (let st1 = st\<lparr>cache := (cache st)(hash :=
                     map_option (count_usage year_month now input_tokens output_tokens cost) (cache st hash))\<rparr>
      in if \<not> history_ok then (Inl DatabaseError, st1)
         else (Inr (), st1\<lparr>pending_updates := pending_updates st1 + 1,
                           pending_keys := insert hash (pending_keys st1)\<rparr>))"

text \<open>One batch of the background task; \<open>written\<close> says which of its updates the database took.\<close>

definition sync_keys_to_db :: "(string \<Rightarrow> bool) \<Rightarrow> key_store \<Rightarrow> key_store" where
  "sync_keys_to_db written st =
     st\<lparr>rows := (\<lambda>h. case (h \<in> pending_keys st \<and> written h, cache st h) of
                   (True, Some key) \<Rightarrow> map_option (map_option (usage_update (\<lambda>_. usage key))) (rows st h)
                 | _ \<Rightarrow> rows st h)\<rparr>"

definition background_tick :: "(string \<Rightarrow> bool) \<Rightarrow> key_store \<Rightarrow> key_store" where
  "background_tick written st =
     (if pending_keys st \<noteq> {}
      then (sync_keys_to_db written st)\<lparr>pending_updates := 0, pending_keys := {}\<rparr> else st)"

text \<open>On shutdown what is pending is written once more, and the task ends.\<close>

definition background_shutdown :: "(string \<Rightarrow> bool) \<Rightarrow> key_store \<Rightarrow> key_store" where
  "background_shutdown written st = (if pending_keys st \<noteq> {} then sync_keys_to_db written st else st)"

subsection \<open>Human-readable ids and listing\<close>

text \<open>
  \<open>candidates\<close> are the ids drawn one after the other, \<open>known\<close> is whether the query for one finds
  a row; a query that fails counts as finding none. When a hundred draws were all taken, the next
  one gets a suffix from the clock and is not looked up.
\<close>

definition generate_unique_human_id ::
    "(string \<Rightarrow> bool) \<Rightarrow> (nat \<Rightarrow> string) \<Rightarrow> nat \<Rightarrow> string" where
  "generate_unique_human_id known candidates millis =
     (case find (\<lambda>i. \<not> known i) (map candidates [0..<100]) of
        Some i \<Rightarrow> i
      | None \<Rightarrow> candidates 100 @ ''-'' @ dec (millis mod 10000))"

definition list_keys :: "virtual_key list \<Rightarrow> key_info list" where
  "list_keys cached = sort_key (\<lambda>k. - ki_created_at k) (map to_info cached)"

subsection \<open>Runs of store operations\<close>

datatype store_op =
    Lookup bool string
  | Create instant "u8 list" string bool create_key_request
  | Disable bool string
  | Delete bool string
  | SetOauthUser bool string "string option"
  | SetOwner bool string "string option"
  | Usage instant bool string u32 u32 f64
  | Tick "string \<Rightarrow> bool"

fun store_step :: "(string \<Rightarrow> u8 list) \<Rightarrow> (instant \<Rightarrow> int) \<Rightarrow> key_store \<Rightarrow> store_op \<Rightarrow> key_store" where
  "store_step sha256 ym st (Lookup db_ok token) = snd (lookup_for_auth sha256 db_ok token st)"
| "store_step sha256 ym st (Create now bytes kid db_ok req) =
     snd (create_key sha256 now bytes kid db_ok req st)"
| "store_step sha256 ym st (Disable db_ok hash) = snd (disable_key db_ok hash st)"
| "store_step sha256 ym st (Delete db_ok hash) = snd (delete_key db_ok hash st)"
| "store_step sha256 ym st (SetOauthUser db_ok hash user) = snd (update_oauth_user db_ok hash user st)"
| "store_step sha256 ym st (SetOwner db_ok hash own) = snd (update_owner db_ok hash own st)"
| "store_step sha256 ym st (Usage now history_ok hash i out cost) =
     snd (update_usage ym now history_ok hash i out cost st)"
| "store_step sha256 ym st (Tick written) = background_tick written st"

text \<open>The operations whose database writes all succeed.\<close>

fun write_succeeds :: "store_op \<Rightarrow> bool" where
  "write_succeeds (Usage now history_ok hash i out cost) = history_ok"
| "write_succeeds (Tick written) = (\<forall>h. written h)"
| "write_succeeds _ = True"

fun creates :: "(string \<Rightarrow> u8 list) \<Rightarrow> string \<Rightarrow> store_op \<Rightarrow> bool" where
  "creates sha256 hash (Create now bytes kid db_ok req) =
     (hash_key sha256 (generate_key bytes) = hash)"
| "creates sha256 hash _ = False"

subsection \<open>Invariants of the store\<close>

text \<open>
  Rows and cached keys stand under their own hash, and an index entry names a cached key with
  that id.
\<close>

definition store_wf :: "key_store \<Rightarrow> bool" where
  "store_wf st \<longleftrightarrow>
     (\<forall>h k. rows st h = Some (Some k) \<longrightarrow> key_hash k = h) \<and>
     (\<forall>h k. cache st h = Some k \<longrightarrow> key_hash k = h) \<and>
     (\<forall>h k r. cache st h = Some k \<longrightarrow> rows st h = Some (Some r) \<longrightarrow> key_id k = key_id r) \<and>
     (\<forall>h. cache st h \<noteq> None \<longrightarrow> rows st h \<noteq> None) \<and>
     (\<forall>i h. human_id_index st i = Some h \<longrightarrow> (\<exists>k. cache st h = Some k \<and> key_id k = i))"

text \<open>The row of a key is not the key of a live virtual key.\<close>

definition revoked :: "string \<Rightarrow> key_store \<Rightarrow> bool" where
  "revoked hash st \<longleftrightarrow> (\<forall>k. rows st hash = Some (Some k) \<longrightarrow> disabled k)"

text \<open>The usage of a cached key is in its row, unless its synchronisation is pending.\<close>

definition write_behind :: "key_store \<Rightarrow> bool" where
  "write_behind st \<longleftrightarrow>
     (\<forall>h k r. cache st h = Some k \<longrightarrow> rows st h = Some (Some r) \<longrightarrow> h \<notin> pending_keys st \<longrightarrow>
        usage r = usage k)"

lemmas store_ops = lookup_for_auth_def create_key_def disable_key_def delete_key_def
  update_oauth_user_def update_owner_def update_field_def forget_def update_usage_def
  background_tick_def sync_keys_to_db_def

lemma count_usage_fields [simp]:
  "key_hash (count_usage ym now i out cost k) = key_hash k"
  "key_id (count_usage ym now i out cost k) = key_id k"
  "permissions (count_usage ym now i out cost k) = permissions k"
  "disabled (count_usage ym now i out cost k) = disabled k"
  by (auto simp: count_usage_def Let_def)

lemma revoked_step:
  "\<not> creates sha256 hash x \<Longrightarrow> revoked hash st \<Longrightarrow> revoked hash (store_step sha256 ym st x)"
  by (cases x)
    (auto simp: revoked_def store_ops Let_def fun_upd_apply split: option.splits bool.splits if_splits)

lemma write_behind_step:
  "write_succeeds x \<Longrightarrow> write_behind st \<Longrightarrow> write_behind (store_step sha256 ym st x)"
  by (cases x)
    (auto simp: write_behind_def store_ops Let_def fun_upd_apply split: option.splits bool.splits if_splits)

lemma store_wf_pending [simp]:
  "store_wf (st\<lparr>pending_updates := n\<rparr>) = store_wf st"
  "store_wf (st\<lparr>pending_keys := p\<rparr>) = store_wf st"
  by (simp_all add: store_wf_def)

lemma store_wf_index:
  "store_wf st \<Longrightarrow> human_id_index st i = Some h \<Longrightarrow> cache st h = Some k \<Longrightarrow> key_id k = i"
  "store_wf st \<Longrightarrow> human_id_index st i = Some h \<Longrightarrow> cache st h \<noteq> None"
  unfolding store_wf_def by (metis option.inject, metis option.discI)

lemma store_wf_insert:
  assumes wf: "store_wf st" and fresh: "rows st (key_hash vk) = None"
  shows "store_wf (st\<lparr>rows := (rows st)(key_hash vk \<mapsto> Some vk), cache := (cache st)(key_hash vk \<mapsto> vk),
    human_id_index := (human_id_index st)(key_id vk \<mapsto> key_hash vk)\<rparr>)"
proof -
  have nocache: "cache st (key_hash vk) = None" using wf fresh by (auto simp: store_wf_def)
  have noindex: "human_id_index st i \<noteq> Some (key_hash vk)" for i
    using wf nocache by (fastforce simp: store_wf_def)
  show ?thesis using wf noindex by (auto simp: store_wf_def)
qed

lemma store_wf_forget:
  assumes wf: "store_wf st" and x: "\<And>k. x = Some (Some k) \<Longrightarrow> key_hash k = h"
  shows "store_wf (forget h (st\<lparr>rows := (rows st)(h := x)\<rparr>))"
proof (cases "cache st h")
  case None
  then have "human_id_index st i \<noteq> Some h" for i using wf by (fastforce simp: store_wf_def)
  with None wf x show ?thesis by (auto simp: store_wf_def forget_def)
next
  case (Some c)
  have "human_id_index st i = Some h \<Longrightarrow> i = key_id c" for i
    using wf Some by (fastforce simp: store_wf_def)
  with Some wf x show ?thesis by (auto simp: store_wf_def forget_def)
qed

lemma store_wf_map_cache:
  assumes wf: "store_wf st" and f: "\<And>k. key_hash (f k) = key_hash k" "\<And>k. key_id (f k) = key_id k"
  shows "store_wf (st\<lparr>cache := (cache st)(h := map_option f (cache st h))\<rparr>)"
proof (cases "cache st h")
  case None
  then have "human_id_index st i \<noteq> Some h" for i using store_wf_index(2) [OF wf, of i h] by blast
  with None wf show ?thesis by (simp add: store_wf_def)
next
  case (Some c)
  then have "human_id_index st i = Some h \<Longrightarrow> key_id c = i" for i using store_wf_index(1) [OF wf] by blast
  with Some wf f show ?thesis by (simp add: store_wf_def)
qed

lemma store_wf_map_row:
  assumes wf: "store_wf st" and row: "rows st h = Some row"
    and f: "\<And>k. key_hash (f k) = key_hash k" "\<And>k. key_id (f k) = key_id k"
  shows "store_wf (st\<lparr>rows := (rows st)(h \<mapsto> map_option f row)\<rparr>)"
  using wf row f by (cases row) (auto simp: store_wf_def)

lemma store_wf_map_key:
  assumes wf: "store_wf st" and row: "rows st h = Some row"
    and f: "\<And>k. key_hash (f k) = key_hash k" "\<And>k. key_id (f k) = key_id k"
  shows "store_wf (st\<lparr>rows := (rows st)(h \<mapsto> map_option f row),
    cache := (cache st)(h := map_option f (cache st h))\<rparr>)"
  using store_wf_map_cache [OF store_wf_map_row [OF wf row, of f], of f h] f by simp

lemma store_wf_lookup:
  assumes wf: "store_wf st" and row: "rows st h = Some (Some r)"
    and k: "key_hash k = h" "key_id k = key_id r"
  shows "store_wf (st\<lparr>cache := (cache st)(h \<mapsto> k),
    human_id_index := (human_id_index st)(key_id k \<mapsto> key_hash k)\<rparr>)"
proof -
  have "human_id_index st i = Some h \<Longrightarrow> i = key_id k" for i
    using store_wf_index [OF wf, of i h] wf row k by (fastforce simp: store_wf_def)
  with wf row k show ?thesis by (simp add: store_wf_def)
qed

lemma store_wf_rows_usage:
  assumes wf: "store_wf st"
    and same: "\<And>h. rows' h = rows st h \<or> (\<exists>u. rows' h = map_option (map_option (usage_update u)) (rows st h))"
  shows "store_wf (st\<lparr>rows := rows'\<rparr>)"
proof -
  have row: "rows' h = None \<longleftrightarrow> rows st h = None" for h using same [of h] by auto
  have key: "\<exists>r. rows st h = Some (Some r) \<and> key_hash r = key_hash k \<and> key_id r = key_id k"
    if "rows' h = Some (Some k)" for h k
    using same [of h] that by (cases "rows st h"; cases "the (rows st h)") auto
  have ids: "key_id k = key_id r" if "cache st h = Some k" "rows' h = Some (Some r)" for h k r
    using key [OF that(2)] that(1) wf unfolding store_wf_def by metis
  have hash: "key_hash k = h" if "rows' h = Some (Some k)" for h k
    using key [OF that] wf unfolding store_wf_def by metis
  show ?thesis using wf row ids hash by (simp add: store_wf_def)
qed

lemma store_wf_step:
  assumes "store_wf st"
  shows "store_wf (store_step sha256 ym st x)"
proof (cases x)
  case (Lookup db_ok token)
  show ?thesis
  proof (cases "rows st (hash_key sha256 token)")
    case None
    with Lookup assms show ?thesis by (simp add: lookup_for_auth_def Let_def)
  next
    case (Some row)
    note at_row = this
    show ?thesis
    proof (cases row)
      case None
      with at_row Lookup assms show ?thesis by (simp add: lookup_for_auth_def Let_def)
    next
      case (Some r)
      with at_row have r: "rows st (hash_key sha256 token) = Some (Some r)" by simp
      then have "key_hash r = hash_key sha256 token" using assms by (simp add: store_wf_def)
      with r Lookup assms show ?thesis
        using store_wf_lookup [OF assms r, of r]
          store_wf_lookup [OF assms r, of "r\<lparr>usage := u\<rparr>" for u]
        by (simp add: lookup_for_auth_def Let_def split: option.split)
    qed
  qed
next
  case (Create now bytes kid db_ok req)
  let ?h = "hash_key sha256 (generate_key bytes)"
  let ?vk = "\<lparr>key_id = kid, key_hash = ?h, key_name = req_name req, created_at = now,
    expires_at = req_expires_at req, valid_after = None, disabled = False,
    permissions = req_permissions req, usage = key_usage_default,
    metadata = req_metadata req, owner = req_owner req,
    oauth_user = req_oauth_user req, oauth_account = req_oauth_account req\<rparr>"
  show ?thesis
    using Create assms store_wf_insert [OF assms, of ?vk]
    by (simp add: create_key_def Let_def)
next
  case (Disable db_ok hash)
  have "store_wf (forget hash (st\<lparr>rows := (rows st)(hash \<mapsto> map_option (disabled_update (\<lambda>_. True)) row)\<rparr>))"
    if "rows st hash = Some row" for row
    by (rule store_wf_forget [OF assms]) (use that assms in \<open>auto simp: store_wf_def\<close>)
  with Disable assms show ?thesis by (simp add: disable_key_def split: option.split)
next
  case (Delete db_ok hash)
  with assms show ?thesis
    by (auto simp: delete_key_def intro!: store_wf_forget split: option.split)
next
  case (SetOauthUser db_ok hash user)
  with assms store_wf_map_key [OF assms, of hash _ "oauth_user_update (\<lambda>_. user)"] show ?thesis
    by (simp add: update_oauth_user_def update_field_def split: option.split)
next
  case (SetOwner db_ok hash own)
  with assms store_wf_map_key [OF assms, of hash _ "owner_update (\<lambda>_. own)"] show ?thesis
    by (simp add: update_owner_def update_field_def split: option.split)
next
  case (Usage now history_ok hash i out cost)
  have "store_wf (st\<lparr>cache := (cache st)(hash := map_option (count_usage ym now i out cost) (cache st hash))\<rparr>)"
    by (rule store_wf_map_cache [OF assms]) simp_all
  with Usage show ?thesis by (simp add: update_usage_def Let_def)
next
  case (Tick written)
  have "store_wf (sync_keys_to_db written st)"
    unfolding sync_keys_to_db_def
    by (rule store_wf_rows_usage [OF assms]) (auto split: option.split bool.split)
  with Tick assms show ?thesis by (simp add: background_tick_def)
qed

interpretation wf: invariant_component "store_step sha256 ym" store_empty store_wf for sha256 ym
  by unfold_locales (simp add: store_wf_def store_empty_def, rule store_wf_step)

interpretation revocation: guarded_component "store_step sha256 ym" "\<lambda>x. \<not> creates sha256 hash x" "revoked hash"
  for sha256 ym hash
  by unfold_locales (rule revoked_step)

interpretation synced: guarded_component "store_step sha256 ym" write_succeeds write_behind for sha256 ym
  by unfold_locales (rule write_behind_step)

subsection \<open>Properties\<close>


definition digest_of :: "string \<Rightarrow> u8 list" where
  "digest_of s = map (of_nat \<circ> of_char) s"

definition some_request :: create_key_request where
  "some_request = \<lparr>req_name = None, req_expires_at = None, req_permissions = key_permissions_default,
     req_metadata = JNull, req_owner = None, req_oauth_user = None, req_oauth_account = None\<rparr>"

definition one_key :: key_store where
  "one_key = store_step digest_of (\<lambda>_. 0) store_empty (Create 5 [] ''cold-lamp'' True some_request)"

definition its_hash :: string where
  "its_hash = hash_key digest_of (generate_key [])"


text \<open>
  Claim C7. Disabling a key is final: after it has succeeded, no sequence of store operations
  (lookups, usage records, owner changes, background writes, creations of other keys) makes a
  lookup of that key return one that is valid at any instant.
\<close>

theorem disabled_key_stays_refused:
  assumes "disable_key db_ok (hash_key sha256 token) st = (Inr True, st1)"
    and "\<forall>x \<in> set ops. \<not> creates sha256 (hash_key sha256 token) x"
    and "lookup_for_auth sha256 ok token (foldl (store_step sha256 ym) st1 ops) = (Inr (Some k), st2)"
  shows "\<not> is_valid now k"
proof -
  have "revoked (hash_key sha256 token) st1"
    using assms(1) by (auto simp: disable_key_def revoked_def forget_def split: if_splits option.splits)
  with assms(2) have "revoked (hash_key sha256 token) (foldl (store_step sha256 ym) st1 ops)"
    by (rule revocation.run_guarded)
  with assms(3) have "disabled k"
    by (auto simp: revoked_def lookup_for_auth_def Let_def split: if_splits option.splits)
  then show ?thesis by (simp add: is_valid_def)
qed

definition some_ops :: "store_op list" where
  "some_ops = [Lookup True (generate_key []), Usage 9 True its_hash 10 20 (Fin 1),
     SetOwner True its_hash (Some ''ops''), Tick (\<lambda>_. True)]"

theorem disabled_key_stays_refused_witness:
  "\<exists>k st2. lookup_for_auth digest_of True (generate_key [])
      (foldl (store_step digest_of (\<lambda>_. 0)) (snd (disable_key True its_hash one_key)) some_ops) = (Inr (Some k), st2) \<and>
    \<not> is_valid 7 k"
proof -
  let ?d = "disable_key True its_hash one_key"
  let ?l = "lookup_for_auth digest_of True (generate_key [])
      (foldl (store_step digest_of (\<lambda>_. 0)) (snd ?d) some_ops)"
  have "fst ?d = Inr True" by code_simp
  then have d: "disable_key True (hash_key digest_of (generate_key [])) one_key = (Inr True, snd ?d)"
    by (metis its_hash_def prod.collapse)
  have n: "\<forall>x \<in> set some_ops. \<not> creates digest_of (hash_key digest_of (generate_key [])) x"
    by (simp add: some_ops_def)
  have "case ?l of (Inr (Some k), st') \<Rightarrow> True | _ \<Rightarrow> False" by code_simp
  then obtain k st' where l: "?l = (Inr (Some k), st')"
    by (auto split: prod.splits sum.splits option.splits)
  from disabled_key_stays_refused [OF d n l] l show ?thesis by blast
qed



definition spent :: virtual_key where
  "spent = \<lparr>key_id = ''cold-lamp'', key_hash = ''h'', key_name = None, created_at = 5, expires_at = None,
     valid_after = None, disabled = False,
     permissions = key_permissions_default\<lparr>max_budget_usd := Some (Fin 10), budget_window := Some Total\<rparr>,
     usage = key_usage_default, metadata = JNull, owner = None, oauth_user = None, oauth_account = None\<rparr>"

definition spent_store :: "(string \<Rightarrow> bool) \<Rightarrow> key_store" where
  "spent_store written =
     foldl (store_step (\<lambda>_. []) (\<lambda>_. 0))
       (store_empty\<lparr>rows := [''h'' \<mapsto> Some spent], cache := [''h'' \<mapsto> spent],
          human_id_index := [''cold-lamp'' \<mapsto> ''h'']\<rparr>)
       [Usage 9 True ''h'' 10 20 (Fin 12), Tick written, Tick (\<lambda>_. True)]"

definition over_budget_now :: "key_store \<Rightarrow> bool" where
  "over_budget_now st = (case cache st ''h'' of Some k \<Rightarrow> is_over_budget k | None \<Rightarrow> False)"

definition over_budget_after_restart :: "key_store \<Rightarrow> bool" where
  "over_budget_after_restart st =
     over_budget_now (snd (refresh_cache True [''h''] (st\<lparr>cache := (\<lambda>_. None)\<rparr>)))"

text \<open>
  A batch write that fails is not retried: the background task forgets the key although
  its update failed, and no later batch writes it. A process that restarts then serves the key
  with the usage of before, so that a key whose budget was spent is no longer over budget.
\<close>

theorem failed_batch_loses_usage:
  "over_budget_now (spent_store (\<lambda>_. False)) \<and> pending_keys (spent_store (\<lambda>_. False)) = {} \<and>
   \<not> over_budget_after_restart (spent_store (\<lambda>_. False)) \<and>
   over_budget_after_restart (spent_store (\<lambda>_. True))"
proof (intro conjI)
  show "over_budget_now (spent_store (\<lambda>_. False))" by code_simp
  show "pending_keys (spent_store (\<lambda>_. False)) = {}"
    by (simp add: spent_store_def background_tick_def)
  show "\<not> over_budget_after_restart (spent_store (\<lambda>_. False))" by code_simp
  show "over_budget_after_restart (spent_store (\<lambda>_. True))" by code_simp
qed

text \<open>
  The secondary index is sound: looking a key up by its human-readable id, after any
  sequence of operations, returns a cached key that carries this id.
\<close>

theorem human_id_lookup_sound:
  assumes "get_by_human_id i (foldl (store_step sha256 ym) store_empty ops) = Some k"
  shows "key_id k = i \<and> get_by_hash (key_hash k) (foldl (store_step sha256 ym) store_empty ops) = Some k"
proof -
  let ?s = "foldl (store_step sha256 ym) store_empty ops"
  have wf: "store_wf ?s" by (rule wf.run_inv)
  from assms obtain h where h: "human_id_index ?s i = Some h" "cache ?s h = Some k"
    by (auto simp: get_by_human_id_def bind_eq_Some_conv)
  with wf have "key_hash k = h" unfolding store_wf_def by blast
  with h store_wf_index(1) [OF wf] show ?thesis by (auto simp: get_by_hash_def)
qed

theorem human_id_lookup_sound_witness:
  "\<exists>k. get_by_human_id ''cold-lamp'' (foldl (store_step digest_of (\<lambda>_. 0)) store_empty
      [Create 5 [] ''cold-lamp'' True some_request, Usage 9 True its_hash 10 20 (Fin 1)]) = Some k \<and>
    key_id k = ''cold-lamp''"
proof -
  let ?s = "foldl (store_step digest_of (\<lambda>_. 0)) store_empty
      [Create 5 [] ''cold-lamp'' True some_request, Usage 9 True its_hash 10 20 (Fin 1)]"
  have "get_by_human_id ''cold-lamp'' ?s \<noteq> None" by code_simp
  then obtain k where "get_by_human_id ''cold-lamp'' ?s = Some k" by auto
  with human_id_lookup_sound [OF this] show ?thesis by blast
qed

subsection \<open>The daily budget window\<close>

type_synonym usage_event = "instant \<times> u32 \<times> u32 \<times> f64"

fun count_event :: "(instant \<Rightarrow> int) \<Rightarrow> virtual_key \<Rightarrow> usage_event \<Rightarrow> virtual_key" where
  "count_event ym k (now, i, out, cost) = count_usage ym now i out cost k"

definition event_day :: "usage_event \<Rightarrow> int" where
  "event_day e = trunc_div (timestamp (fst e)) 86400"

definition event_cost :: "usage_event \<Rightarrow> f64" where
  "event_cost e = snd (snd (snd e))"

fun f64_sum :: "f64 list \<Rightarrow> f64" where
  "f64_sum [] = Fin 0"
| "f64_sum (c # cs) = foldl f64_add c cs"

lemma f64_sum_snoc: "xs \<noteq> [] \<Longrightarrow> f64_sum (xs @ [c]) = f64_add (f64_sum xs) c"
  by (cases xs) auto

lemma count_usage_daily:
  assumes "budget_window (permissions k) = Some Daily"
  shows "usage (count_event ym k e) =
    (let u = usage k;
         reset = (case window_start u of Some s \<Rightarrow> trunc_div (timestamp s) 86400 < event_day e | None \<Rightarrow> True)
     in u\<lparr>total_requests := total_requests u + 1,
          total_input_tokens := total_input_tokens u + ucast (fst (snd e)),
          total_output_tokens := total_output_tokens u + ucast (fst (snd (snd e))),
          total_spend_usd := f64_add (total_spend_usd u) (event_cost e),
          window_spend_usd := (if reset then event_cost e else f64_add (window_spend_usd u) (event_cost e)),
          window_start := (if reset then Some (fst e) else window_start u),
          last_request_at := Some (fst e)\<rparr>)"
  using assms
  by (cases e) (auto simp: count_usage_def should_reset_def event_day_def event_cost_def Let_def split: option.split)

lemma count_events_permissions [simp]:
  "permissions (foldl (count_event ym) k evs) = permissions k"
  by (induction evs arbitrary: k) auto

lemma daily_window_run:
  assumes "budget_window (permissions k) = Some Daily" and "window_start (usage k) = None"
    and "sorted_wrt (\<lambda>a b. event_day a \<le> event_day b) evs" and "evs \<noteq> []"
  shows "window_spend_usd (usage (foldl (count_event ym) k evs)) =
       f64_sum (map event_cost (filter (\<lambda>e. event_day e = event_day (last evs)) evs)) \<and>
     (\<exists>e \<in> set evs. window_start (usage (foldl (count_event ym) k evs)) = Some (fst e) \<and>
        event_day e = event_day (last evs))"
  using assms(3,4)
proof (induction evs rule: rev_induct)
  case (snoc e evs)
  let ?k = "foldl (count_event ym) k evs"
  have daily: "budget_window (permissions ?k) = Some Daily" using assms(1) by simp
  show ?case
  proof (cases "evs = []")
    case True
    with assms daily show ?thesis
      by (simp add: count_usage_daily Let_def)
  next
    case False
    with snoc obtain s where IH: "window_spend_usd (usage ?k) =
          f64_sum (map event_cost (filter (\<lambda>x. event_day x = event_day (last evs)) evs))"
        "s \<in> set evs" "window_start (usage ?k) = Some (fst s)" "event_day s = event_day (last evs)"
      by (auto simp: sorted_wrt_append)
    have start: "trunc_div (timestamp (fst s)) 86400 = event_day (last evs)"
      using IH(4) by (simp add: event_day_def)
    have le: "event_day x \<le> event_day (last evs)" if "x \<in> set evs" for x
    proof -
      have "sorted_wrt (\<lambda>a b. event_day a \<le> event_day b) (butlast evs @ [last evs])"
        using snoc.prems False by (simp add: sorted_wrt_append)
      moreover have "x \<in> set (butlast evs) \<or> x = last evs"
        using that False by (metis append_butlast_last_id rotate1.simps(2) set_ConsD set_rotate1)
      ultimately show ?thesis by (auto simp: sorted_wrt_append)
    qed
    have last_le: "event_day (last evs) \<le> event_day e"
      using snoc.prems(1) False by (simp add: sorted_wrt_append)
    show ?thesis
    proof (cases "event_day (last evs) < event_day e")
      case True
      then have "filter (\<lambda>x. event_day x = event_day e) evs = []" using le by (fastforce simp: filter_empty_conv)
      with True IH start show ?thesis by (simp add: count_usage_daily [OF daily] Let_def)
    next
      case same: False
      with last_le have eq: "event_day (last evs) = event_day e" by simp
      have "filter (\<lambda>x. event_day x = event_day e) evs \<noteq> []"
        using IH(2,4) eq by (auto simp: filter_empty_conv)
      then show ?thesis using IH start eq
        by (auto simp: count_usage_daily [OF daily] Let_def f64_sum_snoc)
    qed
  qed
qed simp

text \<open>
  The daily budget window is exact: when usage is recorded in the order of the clock,
  what counts against the budget after an event is the sum of the costs of the events of the
  same UTC day, in order, and of no earlier one; and the window start lies in that day.
\<close>

theorem daily_window_exact:
  assumes "budget_window (permissions k) = Some Daily" and "window_start (usage k) = None"
    and "sorted_wrt (\<lambda>a b. event_day a \<le> event_day b) evs" and "evs \<noteq> []"
  shows "window_spend_usd (usage (foldl (count_event ym) k evs)) =
       f64_sum (map event_cost (filter (\<lambda>e. event_day e = event_day (last evs)) evs)) \<and>
     (\<exists>e \<in> set evs. window_start (usage (foldl (count_event ym) k evs)) = Some (fst e) \<and>
        event_day e = event_day (last evs))"
  using daily_window_run [OF assms] .

theorem daily_window_exact_witness:
  "window_spend_usd (usage (foldl (count_event (\<lambda>_. 0)) (spent\<lparr>permissions := permissions spent\<lparr>budget_window := Some Daily\<rparr>\<rparr>)
     [(1000000000, 1, 1, Fin 5), (86400000000000, 1, 1, Fin 2), (86401000000000, 1, 1, Fin 3)])) = Fin 5"
proof -
  let ?k = "spent\<lparr>permissions := permissions spent\<lparr>budget_window := Some Daily\<rparr>\<rparr>"
  let ?evs = "[(1000000000, 1, 1, Fin 5), (86400000000000, 1, 1, Fin 2), (86401000000000, 1, 1, Fin 3)] :: usage_event list"
  have s: "sorted_wrt (\<lambda>a b. event_day a \<le> event_day b) ?evs" by code_simp
  have w: "window_start (usage ?k) = None" by (simp add: spent_def key_usage_default_def)
  have "f64_sum (map event_cost (filter (\<lambda>e. event_day e = event_day (last ?evs)) ?evs)) = Fin 5"
    by code_simp
  with daily_window_exact [OF _ w s] show ?thesis by simp
qed

end
