(* ===== verification/Key_Validation.thy ===== *)
theory Key_Validation
  imports Key_Store Rate_Limit
begin

section \<open>Admission of a virtual key (src/src/keys/validation.rs)\<close>

text \<open>
  Validation composes the key store and the rate limiter: it looks the key up, checks its
  lifetime, its permissions and its budget, and only then spends from the limiters. Recording
  usage after a request goes to both again. The validator's state is the pair of the two
  components; \<open>now\<close> is the calendar clock and \<open>secs\<close> the limiters' clock.
\<close>

datatype key_validation_error =
    NotVirtualKey
  | InvalidKey
  | KeyDisabled
  | KeyExpired
  | ModelNotAllowed string
  | ProviderNotAllowed string
  | BudgetExceeded f64 f64
  | RateLimited rate_limit_error
  | MaintenanceKey

record validated_key =
  vk_key_hash :: string
  vk_key_id :: string
  vk_name :: "string option"
  vk_permissions :: key_permissions
  vk_metadata :: json
  vk_oauth_user :: "string option"
  vk_oauth_account :: "string option"

type_synonym 'g validator = "key_store \<times> 'g rate_limiter"

definition validated_of :: "virtual_key \<Rightarrow> validated_key" where
  "validated_of key =
     \<lparr>vk_key_hash = key_hash key, vk_key_id = key_id key, vk_name = key_name key,
      vk_permissions = permissions key, vk_metadata = metadata key,
      vk_oauth_user = oauth_user key, vk_oauth_account = oauth_account key\<rparr>"

text \<open>The checks between the lookup and the limiters, which change nothing.\<close>

definition check_key ::
    "(string \<Rightarrow> string \<Rightarrow> bool) \<Rightarrow> instant \<Rightarrow> string \<Rightarrow> string \<Rightarrow> bool \<Rightarrow> virtual_key \<Rightarrow>
     key_validation_error + unit" where
  "check_key gm now model provider enforce_budget key =
     (if \<not> is_valid now key then
        if disabled key then Inl KeyDisabled
        else if (case expires_at key of Some expires \<Rightarrow> expires \<le> now | None \<Rightarrow> False) then Inl KeyExpired
        else Inl InvalidKey
      else if maintenance (permissions key) then Inl MaintenanceKey
      else if \<not> is_model_allowed gm (permissions key) model then Inl (ModelNotAllowed model)
      else if \<not> is_provider_allowed (permissions key) provider then Inl (ProviderNotAllowed provider)
      else if enforce_budget \<and> is_over_budget key then
        Inl (BudgetExceeded
               (case max_budget_usd (permissions key) of Some b \<Rightarrow> b | None \<Rightarrow> Fin 0)
               (window_spend_usd (usage key)))
      else Inr ())"

text \<open>The two limiter checks; a refused one is the validation's error.\<close>

definition check_limits ::
    "(u32 \<Rightarrow> 'g) \<Rightarrow> (u64 \<Rightarrow> 'g \<Rightarrow> bool \<times> 'g) \<Rightarrow> u64 \<Rightarrow> u32 option \<Rightarrow> virtual_key \<Rightarrow>
     'g rate_limiter \<Rightarrow> (key_validation_error + unit) \<times> 'g rate_limiter" where
  "check_limits rpm_new rpm_check secs estimated_tokens key rl =
     (case check_request rpm_new rpm_check secs (key_hash key)
             (rpm_limit (permissions key)) (rpd_limit (permissions key)) rl of
        (Inl e, rl') \<Rightarrow> (Inl (RateLimited e), rl')
      | (Inr _, rl') \<Rightarrow>
          (case estimated_tokens of
             None \<Rightarrow> (Inr (), rl')
           | Some tokens \<Rightarrow>
               (case check_tokens secs (key_hash key) tokens (tpm_limit (permissions key)) rl' of
                  (Inl e, rl'') \<Rightarrow> (Inl (RateLimited e), rl'')
                | (Inr _, rl'') \<Rightarrow> (Inr (), rl''))))"

definition validate_inner ::
    "(string \<Rightarrow> u8 list) \<Rightarrow> (string \<Rightarrow> string \<Rightarrow> bool) \<Rightarrow> (u32 \<Rightarrow> 'g) \<Rightarrow> (u64 \<Rightarrow> 'g \<Rightarrow> bool \<times> 'g) \<Rightarrow>
     instant \<Rightarrow> u64 \<Rightarrow> bool \<Rightarrow> string \<Rightarrow> string \<Rightarrow> string \<Rightarrow> u32 option \<Rightarrow> bool \<Rightarrow> 'g validator \<Rightarrow>
     (key_validation_error + validated_key) \<times> 'g validator" where
  "validate_inner sha256 gm rpm_new rpm_check now secs db_ok api_key model provider
     estimated_tokens enforce_budget v =
     (let (st, rl) = v in
      if \<not> is_virtual_key api_key then (Inl NotVirtualKey, (st, rl))
      else (case lookup_for_auth sha256 db_ok api_key st of
              (Inl _, st') \<Rightarrow> (Inl InvalidKey, (st', rl))
            | (Inr None, st') \<Rightarrow> (Inl InvalidKey, (st', rl))
            | (Inr (Some key), st') \<Rightarrow>
                (case check_key gm now model provider enforce_budget key of
                   Inl e \<Rightarrow> (Inl e, (st', rl))
                 | Inr _ \<Rightarrow>
                     (case check_limits rpm_new rpm_check secs estimated_tokens key rl of
                        (Inl e, rl') \<Rightarrow> (Inl e, (st', rl'))
                      | (Inr _, rl') \<Rightarrow> (Inr (validated_of key), (st', rl'))))))"

definition validate ::
    "(string \<Rightarrow> u8 list) \<Rightarrow> (string \<Rightarrow> string \<Rightarrow> bool) \<Rightarrow> (u32 \<Rightarrow> 'g) \<Rightarrow> (u64 \<Rightarrow> 'g \<Rightarrow> bool \<times> 'g) \<Rightarrow>
     instant \<Rightarrow> u64 \<Rightarrow> bool \<Rightarrow> string \<Rightarrow> string \<Rightarrow> string \<Rightarrow> u32 option \<Rightarrow> 'g validator \<Rightarrow>
     (key_validation_error + validated_key) \<times> 'g validator" where
  "validate sha256 gm rpm_new rpm_check now secs db_ok api_key model provider estimated_tokens v =
     validate_inner sha256 gm rpm_new rpm_check now secs db_ok api_key model provider
       estimated_tokens True v"

definition validate_skip_budget ::
    "(string \<Rightarrow> u8 list) \<Rightarrow> (string \<Rightarrow> string \<Rightarrow> bool) \<Rightarrow> (u32 \<Rightarrow> 'g) \<Rightarrow> (u64 \<Rightarrow> 'g \<Rightarrow> bool \<times> 'g) \<Rightarrow>
     instant \<Rightarrow> u64 \<Rightarrow> bool \<Rightarrow> string \<Rightarrow> string \<Rightarrow> string \<Rightarrow> 'g validator \<Rightarrow>
     (key_validation_error + validated_key) \<times> 'g validator" where
  "validate_skip_budget sha256 gm rpm_new rpm_check now secs db_ok api_key model provider v =
     validate_inner sha256 gm rpm_new rpm_check now secs db_ok api_key model provider
       (Some 0) False v"

text \<open>
  \<open>record_usage\<close> adds the two token counts as \<open>u32\<close>: the sum wraps in a release build. A failed
  store update is logged only.
\<close>

definition record_usage ::
    "(instant \<Rightarrow> int) \<Rightarrow> instant \<Rightarrow> u64 \<Rightarrow> bool \<Rightarrow> string \<Rightarrow> u32 \<Rightarrow> u32 \<Rightarrow> f64 \<Rightarrow> 'g validator \<Rightarrow> 'g validator" where
  "record_usage ym now secs history_ok hash input_tokens output_tokens cost v =
     (let (st, rl) = v;
          rl' = (case get_by_hash hash st of
                   Some key \<Rightarrow> record_tokens secs hash (input_tokens + output_tokens)
                                 (tpm_limit (permissions key)) rl
                 | None \<Rightarrow> rl)
      in (snd (update_usage ym now history_ok hash input_tokens output_tokens cost st), rl'))"

definition record_request ::
    "(instant \<Rightarrow> int) \<Rightarrow> instant \<Rightarrow> bool \<Rightarrow> string \<Rightarrow> 'g validator \<Rightarrow> 'g validator" where
  "record_request ym now history_ok hash v =
     (let (st, rl) = v in (snd (update_usage ym now history_ok hash 0 0 (Fin 0) st), rl))"

fun status_code :: "key_validation_error \<Rightarrow> u16" where
  "status_code NotVirtualKey = 401"
| "status_code InvalidKey = 401"
| "status_code KeyDisabled = 401"
| "status_code KeyExpired = 401"
| "status_code (ModelNotAllowed _) = 403"
| "status_code (ProviderNotAllowed _) = 403"
| "status_code (BudgetExceeded _ _) = 429"
| "status_code (RateLimited _) = 429"
| "status_code MaintenanceKey = 403"

fun error_code :: "key_validation_error \<Rightarrow> string" where
  "error_code NotVirtualKey = ''invalid_api_key''"
| "error_code InvalidKey = ''invalid_api_key''"
| "error_code KeyDisabled = ''key_disabled''"
| "error_code KeyExpired = ''key_expired''"
| "error_code (ModelNotAllowed _) = ''model_not_allowed''"
| "error_code (ProviderNotAllowed _) = ''provider_not_allowed''"
| "error_code (BudgetExceeded _ _) = ''budget_exceeded''"
| "error_code (RateLimited _) = ''rate_limit_exceeded''"
| "error_code MaintenanceKey = ''maintenance_key_rejected''"

subsection \<open>What a check that passes establishes\<close>

lemma check_key_Inr:
  "check_key gm now model provider enforce key = Inr u \<longleftrightarrow>
     is_valid now key \<and> \<not> maintenance (permissions key) \<and> is_model_allowed gm (permissions key) model \<and>
     is_provider_allowed (permissions key) provider \<and> \<not> (enforce \<and> is_over_budget key)"
  by (auto simp: check_key_def)

lemma check_key_Inl:
  "check_key gm now model provider enforce key = Inl e \<Longrightarrow>
     e \<noteq> NotVirtualKey \<and> (\<forall>r. e \<noteq> RateLimited r)"
  by (auto simp: check_key_def split: if_splits)

lemma check_limits_Inl: "check_limits rn rc secs est key rl = (Inl e, rl') \<Longrightarrow> \<exists>r. e = RateLimited r"
  by (auto simp: check_limits_def split: prod.splits sum.splits option.splits)

lemmas validate_cases = prod.splits sum.splits option.splits if_splits

lemma validate_inner_Inr:
  assumes "validate_inner sha256 gm rn rc now secs ok api_key model provider est enforce (st, rl) = (Inr vk, (st', rl'))"
  obtains key where "is_virtual_key api_key" "lookup_for_auth sha256 ok api_key st = (Inr (Some key), st')"
    "check_key gm now model provider enforce key = Inr ()"
    "check_limits rn rc secs est key rl = (Inr (), rl')" "vk = validated_of key"
  using assms by (auto simp: validate_inner_def Let_def split: validate_cases)

subsection \<open>Properties\<close>

lemma validated_row:
  assumes "validate_inner sha256 gm rn rc now secs ok api_key model provider est enforce (st, rl) = (Inr vk, (st', rl'))"
  shows "\<exists>row. rows st (hash_key sha256 api_key) = Some (Some row) \<and> vk_permissions vk = permissions row
    \<and> strip_prefix key_prefix api_key \<noteq> None
    \<and> \<not> disabled row \<and> (\<forall>e. expires_at row = Some e \<longrightarrow> now < e) \<and> (\<forall>a. valid_after row = Some a \<longrightarrow> a \<le> now)
    \<and> \<not> maintenance (permissions row)
    \<and> (\<forall>b p. blocked_models (permissions row) = Some b \<longrightarrow> p \<in> set b \<longrightarrow> \<not> gm p model)
    \<and> (\<forall>a. allowed_models (permissions row) = Some a \<longrightarrow> (\<exists>p \<in> set a. gm p model))
    \<and> is_provider_allowed (permissions row) provider
    \<and> (enforce \<longrightarrow> \<not> is_over_budget (row\<lparr>usage :=
          (case cache st (hash_key sha256 api_key) of Some c \<Rightarrow> usage c | None \<Rightarrow> usage row)\<rparr>))"
proof -
  from assms obtain key where k: "is_virtual_key api_key"
    "lookup_for_auth sha256 ok api_key st = (Inr (Some key), st')"
    "check_key gm now model provider enforce key = Inr ()" "vk = validated_of key"
    by (rule validate_inner_Inr)
  from k(2) obtain row where row: "rows st (hash_key sha256 api_key) = Some (Some row)"
    "key = row\<lparr>usage := (case cache st (hash_key sha256 api_key) of Some c \<Rightarrow> usage c | None \<Rightarrow> usage row)\<rparr>"
    by (auto simp: lookup_for_auth_def Let_def split: if_splits option.splits)
  from k(3) have c: "is_valid now key" "\<not> maintenance (permissions key)"
    "is_model_allowed gm (permissions key) model" "is_provider_allowed (permissions key) provider"
    "enforce \<longrightarrow> \<not> is_over_budget key"
    by (auto simp: check_key_Inr)
  from row k(1,4) c show ?thesis
    by (auto simp: validated_of_def is_valid_iff is_model_allowed_iff is_virtual_key_def)
qed

text \<open>
  Claim C3. A key that validates is entitled to the request by what the database says at that
  moment: its row decodes, the key is enabled and within its lifetime, is no maintenance key, no
  blocked pattern covers the model and an allowed one does when there is an allow list, the
  provider is allowed, and (unless the budget is not enforced) the counted spend is below the
  budget. The permissions handed to the rest of the gateway are those of the row.
\<close>

theorem validated_key_entitled:
  assumes "validate_inner sha256 gm rn rc now secs ok api_key model provider est enforce (st, rl) = (Inr vk, (st', rl'))"
  shows "\<exists>row. rows st (hash_key sha256 api_key) = Some (Some row) \<and> vk_permissions vk = permissions row
    \<and> strip_prefix key_prefix api_key \<noteq> None
    \<and> \<not> disabled row \<and> (\<forall>e. expires_at row = Some e \<longrightarrow> now < e) \<and> (\<forall>a. valid_after row = Some a \<longrightarrow> a \<le> now)
    \<and> \<not> maintenance (permissions row)
    \<and> (\<forall>b p. blocked_models (permissions row) = Some b \<longrightarrow> p \<in> set b \<longrightarrow> \<not> gm p model)
    \<and> (\<forall>a. allowed_models (permissions row) = Some a \<longrightarrow> (\<exists>p \<in> set a. gm p model))
    \<and> is_provider_allowed (permissions row) provider
    \<and> (enforce \<longrightarrow> \<not> is_over_budget (row\<lparr>usage :=
          (case cache st (hash_key sha256 api_key) of Some c \<Rightarrow> usage c | None \<Rightarrow> usage row)\<rparr>))"
  using validated_row [OF assms] .

text \<open>A limiter of requests per minute for the concrete runs: it grants everything.\<close>

definition open_new :: "u32 \<Rightarrow> unit" where "open_new limit = ()"
definition open_check :: "u64 \<Rightarrow> unit \<Rightarrow> bool \<times> unit" where "open_check now l = (True, l)"

definition long_token :: string where
  "long_token = ''eavs-0000000000000000000000000000000''"

definition spent_digest :: "string \<Rightarrow> u8 list" where
  "spent_digest token = []"

definition fresh_key :: virtual_key where
  "fresh_key = spent\<lparr>key_hash := [], permissions := (permissions spent)\<lparr>budget_window := Some Daily\<rparr>\<rparr>"

definition spent_key :: virtual_key where
  "spent_key = fresh_key\<lparr>usage := key_usage_default\<lparr>window_spend_usd := Fin 12, window_start := Some 0\<rparr>\<rparr>"

definition holding :: "virtual_key \<Rightarrow> key_store" where
  "holding k = store_empty\<lparr>rows := [[] \<mapsto> Some k]\<rparr>"

theorem validated_key_entitled_witness:
  "\<exists>vk st' rl'. validate_inner spent_digest (=) open_new open_check 5 5 True long_token ''m'' ''p'' None True
      (holding fresh_key, rl_new) = (Inr vk, (st', rl')) \<and> vk_permissions vk = permissions fresh_key"
proof -
  let ?v = "validate_inner spent_digest (=) open_new open_check 5 5 True long_token ''m'' ''p'' None True
      (holding fresh_key, rl_new)"
  have "case ?v of (Inr vk, _) \<Rightarrow> True | _ \<Rightarrow> False" by code_simp
  then obtain vk st' rl' where v: "?v = (Inr vk, (st', rl'))" by (auto split: prod.splits sum.splits)
  have "rows (holding fresh_key) (hash_key spent_digest long_token) = Some (Some fresh_key)"
    by (simp add: holding_def hash_key_def hex_encode_def spent_digest_def)
  with validated_key_entitled [OF v] v show ?thesis by auto
qed

text \<open>
  Claim C30. A refused request costs nothing: unless it was a limiter that refused, the limiters of
  every key are unchanged, and no refusal changes the database or the usage counters of a key
  that was cached.
\<close>

theorem refusal_costs_nothing:
  assumes "validate_inner sha256 gm rn rc now secs ok api_key model provider est enforce (st, rl) = (Inl e, (st', rl'))"
  shows "rows st' = rows st \<and> (rl' = rl \<or> (\<exists>r. e = RateLimited r)) \<and>
    (\<forall>h k. cache st h = Some k \<longrightarrow> (\<exists>k'. cache st' h = Some k' \<and> usage k' = usage k))"
proof -
  have "rows st' = rows st"
    using assms by (auto simp: validate_inner_def Let_def lookup_for_auth_def split: validate_cases)
  moreover have "rl' = rl \<or> (\<exists>r. e = RateLimited r)"
    using assms
    by (auto simp: validate_inner_def Let_def dest: check_limits_Inl split: validate_cases)
  moreover have "\<exists>k'. cache st' h = Some k' \<and> usage k' = usage k" if "cache st h = Some k" for h k
    using assms that
    by (auto simp: validate_inner_def Let_def lookup_for_auth_def split: validate_cases)
  ultimately show ?thesis by blast
qed

theorem refusal_costs_nothing_witness:
  "\<exists>e st' rl'. validate_inner spent_digest (=) open_new open_check 5 5 True long_token ''m'' ''p'' None True
      (holding spent_key, rl_new) = (Inl e, (st', rl')) \<and> rows st' = rows (holding spent_key)"
proof -
  let ?v = "validate_inner spent_digest (=) open_new open_check 5 5 True long_token ''m'' ''p'' None True
      (holding spent_key, rl_new)"
  have "case ?v of (Inl (BudgetExceeded l u), _) \<Rightarrow> True | _ \<Rightarrow> False" by code_simp
  then obtain e st' rl' where v: "?v = (Inl e, (st', rl'))" by (auto split: prod.splits sum.splits)
  with refusal_costs_nothing [OF v] show ?thesis by blast
qed

text \<open>
  Routing the lifecycle of an accepted job skips the budget and nothing else: it returns
  what full validation with no estimated tokens returns, whenever that is not a budget refusal.
\<close>

theorem skip_budget_only:
  assumes "validate sha256 gm rn rc now secs ok api_key model provider (Some 0) v = (r, v')"
    and "\<forall>l u. r \<noteq> Inl (BudgetExceeded l u)"
  shows "validate_skip_budget sha256 gm rn rc now secs ok api_key model provider v = (r, v')"
proof -
  have "check_key gm now model provider False key = check_key gm now model provider True key"
    if "\<forall>l u. check_key gm now model provider True key \<noteq> Inl (BudgetExceeded l u)" for key
    using that by (auto simp: check_key_def split: if_splits)
  then show ?thesis using assms
    by (auto simp: validate_def validate_skip_budget_def validate_inner_def Let_def split: validate_cases)
qed

theorem skip_budget_only_witness:
  "fst (validate_skip_budget spent_digest (=) open_new open_check 5 5 True long_token ''m'' ''p'' (holding fresh_key, rl_new))
     = Inr (validated_of fresh_key)"
proof -
  let ?v = "validate spent_digest (=) open_new open_check 5 5 True long_token ''m'' ''p'' (Some 0) (holding fresh_key, rl_new)"
  have f: "fst ?v = Inr (validated_of fresh_key)" by code_simp
  then have "?v = (Inr (validated_of fresh_key), snd ?v)" by (metis prod.collapse)
  from skip_budget_only [OF this] show ?thesis by simp
qed

subsection \<open>The gateway around the validator\<close>

text \<open>
  Outside the job routes, usage is recorded for a request only after it has been admitted: one
  step of the gateway validates a request and, when it is admitted, records what it used under the
  key it was admitted with.
\<close>

record request =
  rq_now :: instant
  rq_secs :: u64
  rq_db_ok :: bool
  rq_token :: string
  rq_model :: string
  rq_provider :: string
  rq_estimate :: "u32 option"
  rq_input :: u32
  rq_output :: u32
  rq_cost :: f64

definition admit ::
    "(string \<Rightarrow> u8 list) \<Rightarrow> (string \<Rightarrow> string \<Rightarrow> bool) \<Rightarrow> (u32 \<Rightarrow> 'g) \<Rightarrow> (u64 \<Rightarrow> 'g \<Rightarrow> bool \<times> 'g) \<Rightarrow>
     'g validator \<Rightarrow> request \<Rightarrow> (key_validation_error + validated_key) \<times> 'g validator" where
  "admit sha256 gm rn rc v r =
     validate sha256 gm rn rc (rq_now r) (rq_secs r) (rq_db_ok r) (rq_token r) (rq_model r)
       (rq_provider r) (rq_estimate r) v"

definition serve ::
    "(string \<Rightarrow> u8 list) \<Rightarrow> (string \<Rightarrow> string \<Rightarrow> bool) \<Rightarrow> (u32 \<Rightarrow> 'g) \<Rightarrow> (u64 \<Rightarrow> 'g \<Rightarrow> bool \<times> 'g) \<Rightarrow>
     (instant \<Rightarrow> int) \<Rightarrow> 'g validator \<Rightarrow> request \<Rightarrow> 'g validator" where
  "serve sha256 gm rn rc ym v r =
     (case admit sha256 gm rn rc v r of
        (Inl e, v') \<Rightarrow> v'
      | (Inr vk, v') \<Rightarrow>
          record_usage ym (rq_now r) (rq_secs r) True (vk_key_hash vk) (rq_input r) (rq_output r) (rq_cost r) v')"

text \<open>The key of a hash has counted as much as its budget allows.\<close>

definition budget_spent :: "string \<Rightarrow> key_store \<Rightarrow> bool" where
  "budget_spent h st \<longleftrightarrow>
     (\<exists>row. rows st h = Some (Some row) \<and>
        is_over_budget (row\<lparr>usage := (case cache st h of Some c \<Rightarrow> usage c | None \<Rightarrow> usage row)\<rparr>))"

lemma lookup_rows: "lookup_for_auth sha256 ok token st = (r, st') \<Longrightarrow> rows st' = rows st"
  by (auto simp: lookup_for_auth_def Let_def split: if_splits option.splits)

lemma lookup_keeps_usage:
  assumes "lookup_for_auth sha256 ok token st = (r, st')" and "rows st h = Some (Some row)"
  shows "(case cache st' h of Some c \<Rightarrow> usage c | None \<Rightarrow> usage row) =
    (case cache st h of Some c \<Rightarrow> usage c | None \<Rightarrow> usage row)"
  using assms by (auto simp: lookup_for_auth_def Let_def split: if_splits option.splits)

lemma budget_spent_lookup:
  "lookup_for_auth sha256 ok token st = (r, st') \<Longrightarrow> budget_spent h st \<Longrightarrow> budget_spent h st'"
  by (auto simp: budget_spent_def lookup_rows lookup_keeps_usage)

lemma budget_spent_usage:
  "h' \<noteq> h \<Longrightarrow> budget_spent h (snd (update_usage ym now hok h' i out cost st)) = budget_spent h st"
  by (simp add: budget_spent_def update_usage_def Let_def)

lemma budget_spent_refused:
  assumes "budget_spent (hash_key sha256 (rq_token r)) (fst v)"
  shows "\<exists>e. fst (admit sha256 gm rn rc v r) = Inl e"
proof -
  obtain res v' where Pair: "admit sha256 gm rn rc v r = (res, v')" by (rule prod.exhaust)
  obtain st rl st' rl' where v: "v = (st, rl)" "v' = (st', rl')" by (cases v; cases v') auto
  show ?thesis
  proof (cases res)
    case (Inr vk)
    with Pair v have "validate_inner sha256 gm rn rc (rq_now r) (rq_secs r) (rq_db_ok r) (rq_token r) (rq_model r)
       (rq_provider r) (rq_estimate r) True (st, rl) = (Inr vk, (st', rl'))"
      by (simp add: admit_def validate_def)
    then obtain key where "lookup_for_auth sha256 (rq_db_ok r) (rq_token r) st = (Inr (Some key), st')"
      "\<not> is_over_budget key"
      by (auto elim: validate_inner_Inr simp: check_key_Inr)
    with assms v show ?thesis
      by (auto simp: budget_spent_def lookup_for_auth_def Let_def split: if_splits option.splits)
  qed (use Pair in simp)
qed

lemma validate_inner_store:
  assumes "validate_inner sha256 gm rn rc now secs ok token model provider est enforce (st, rl) = (res, (st', rl'))"
  shows "st' = st \<or> (\<exists>r. lookup_for_auth sha256 ok token st = (r, st'))"
  using assms by (auto simp: validate_inner_def Let_def split: validate_cases)

lemma lookup_wf: "lookup_for_auth sha256 ok token st = (r, st') \<Longrightarrow> store_wf st \<Longrightarrow> store_wf st'"
  using store_wf_step [of st sha256 _ "Lookup ok token"] by simp

lemma usage_wf: "store_wf st \<Longrightarrow> store_wf (snd (update_usage ym now hok h i out cost st))"
  using store_wf_step [of st _ ym "Usage now hok h i out cost"] by simp

lemma serve_spent:
  assumes wf: "store_wf (fst v)" and spent: "budget_spent h (fst v)"
  shows "store_wf (fst (serve sha256 gm rn rc ym v r)) \<and> budget_spent h (fst (serve sha256 gm rn rc ym v r))"
proof -
  obtain st rl res st' rl' where v: "v = (st, rl)" "admit sha256 gm rn rc v r = (res, (st', rl'))"
    by (metis prod.collapse)
  then have inner: "validate_inner sha256 gm rn rc (rq_now r) (rq_secs r) (rq_db_ok r) (rq_token r) (rq_model r)
       (rq_provider r) (rq_estimate r) True (st, rl) = (res, (st', rl'))"
    by (simp add: admit_def validate_def)
  then have st': "store_wf st'" "budget_spent h st'"
    using validate_inner_store [OF inner] wf spent v lookup_wf budget_spent_lookup by auto
  show ?thesis
  proof (cases res)
    case (Inl e)
    with v st' show ?thesis by (simp add: serve_def)
  next
    case (Inr vk)
    with inner obtain key where key: "lookup_for_auth sha256 (rq_db_ok r) (rq_token r) st = (Inr (Some key), st')"
      "vk = validated_of key"
      by (auto elim: validate_inner_Inr)
    then have "key_hash key = hash_key sha256 (rq_token r)"
      using wf v by (auto simp: lookup_for_auth_def Let_def store_wf_def split: if_splits option.splits)
    moreover have "hash_key sha256 (rq_token r) \<noteq> h"
      using budget_spent_refused [of sha256 r v gm rn rc] spent v Inr by auto
    ultimately have "vk_key_hash vk \<noteq> h" using key by (simp add: validated_of_def)
    with v Inr st' show ?thesis
      by (simp add: serve_def record_usage_def usage_wf budget_spent_usage)
  qed
qed

interpretation lockout: guarded_component "serve sha256 gm rn rc ym" "\<lambda>_. True"
    "\<lambda>v. store_wf (fst v) \<and> budget_spent h (fst v)" for sha256 gm rn rc ym h
  by unfold_locales (use serve_spent in blast)


definition daily_request :: "instant \<Rightarrow> request" where
  "daily_request day =
     \<lparr>rq_now = day * 86400000000000, rq_secs = 0, rq_db_ok = True, rq_token = long_token, rq_model = ''m'',
      rq_provider = ''p'', rq_estimate = None, rq_input = 1, rq_output = 1, rq_cost = Fin 1\<rparr>"


end
