(* ===== verification/Policy.thy ===== *)
theory Policy
  imports Json Access_List
begin

section \<open>Request policy rules (src/src/policy.rs)\<close>

text \<open>
  The operator's rules are applied in order to the JSON body of a request. A rule that matches may
  deny the request, rewrite its model, filter its tools or set a field. Patterns are matched by the
  \<open>glob-match\<close> package, the argument \<open>gm\<close>. Setting a field of a body that is not an object
  panics, which is the result \<open>Panicked\<close>.
\<close>

datatype policy_rule =
    Deny "string option" "string option" "string option" "string option"
  | RewriteModel "string option" "string option" string
  | FilterTools "string option" "string option" "string list option" "string list option"
  | SetField "string option" "string option" "string option" string json

record policy_config =
  policy_enabled :: bool
  policy_rules :: "policy_rule list"

datatype policy_result = Applied json | Denied string | Panicked

definition matches_opt :: "(string \<Rightarrow> string \<Rightarrow> bool) \<Rightarrow> string option \<Rightarrow> string \<Rightarrow> bool" where
  "matches_opt gm pattern v = (case pattern of None \<Rightarrow> True | Some p \<Rightarrow> gm p v)"

definition tool_name :: "json \<Rightarrow> string" where
  "tool_name tool =
     (case Option.bind (Option.bind (jget tool ''function'') (\<lambda>f. jget f ''name'')) as_str of
        Some n \<Rightarrow> n | None \<Rightarrow> [])"

definition tool_kept ::
    "(string \<Rightarrow> string \<Rightarrow> bool) \<Rightarrow> string list option \<Rightarrow> string list option \<Rightarrow> json \<Rightarrow> bool" where
  "tool_kept gm allow deny tool =
     (let name = tool_name tool in
      if (case allow of Some ps \<Rightarrow> \<not> list_ex (\<lambda>p. gm p name) ps | None \<Rightarrow> False) then False
      else if (case deny of Some ps \<Rightarrow> list_ex (\<lambda>p. gm p name) ps | None \<Rightarrow> False) then False
      else True)"

definition filter_tools ::
    "(string \<Rightarrow> string \<Rightarrow> bool) \<Rightarrow> string list option \<Rightarrow> string list option \<Rightarrow> json \<Rightarrow> json" where
  "filter_tools gm allow deny body =
     (case Option.bind (jget body ''tools'') as_array of
        None \<Rightarrow> body
      | Some tools \<Rightarrow> set_field body ''tools'' (JArr (filter (tool_kept gm allow deny) tools)))"

text \<open>
  The loop over the rules carries the body and the model that the remaining rules are matched
  against; \<open>RewriteModel\<close> changes both, \<open>SetField\<close> only the body.
\<close>

fun apply_rules ::
    "(string \<Rightarrow> string \<Rightarrow> bool) \<Rightarrow> string \<Rightarrow> string \<Rightarrow> policy_rule list \<Rightarrow> string \<Rightarrow> json \<Rightarrow> policy_result" where
  "apply_rules gm provider path [] model body = Applied body"
| "apply_rules gm provider path (Deny p m rp reason # rules) model body =
     (if \<not> matches_opt gm p provider then apply_rules gm provider path rules model body
      else if \<not> matches_opt gm m model then apply_rules gm provider path rules model body
      else if \<not> matches_opt gm rp path then apply_rules gm provider path rules model body
      else Denied (case reason of Some r \<Rightarrow> r | None \<Rightarrow> ''Request denied by policy''))"
| "apply_rules gm provider path (RewriteModel p m to # rules) model body =
     (if \<not> matches_opt gm p provider then apply_rules gm provider path rules model body
      else if \<not> matches_opt gm m model then apply_rules gm provider path rules model body
      else (case index_set body ''model'' (JStr to) of
              None \<Rightarrow> Panicked
            | Some body' \<Rightarrow> apply_rules gm provider path rules to body'))"
| "apply_rules gm provider path (FilterTools p m allow deny # rules) model body =
     (if \<not> matches_opt gm p provider then apply_rules gm provider path rules model body
      else if \<not> matches_opt gm m model then apply_rules gm provider path rules model body
      else apply_rules gm provider path rules model (filter_tools gm allow deny body))"
| "apply_rules gm provider path (SetField p m rp field v # rules) model body =
     (if \<not> matches_opt gm p provider then apply_rules gm provider path rules model body
      else if \<not> matches_opt gm m model then apply_rules gm provider path rules model body
      else if \<not> matches_opt gm rp path then apply_rules gm provider path rules model body
      else (case index_set body field v of
              None \<Rightarrow> Panicked
            | Some body' \<Rightarrow> apply_rules gm provider path rules model body'))"

definition body_model :: "json \<Rightarrow> string" where
  "body_model body = (case str_field body ''model'' of Some m \<Rightarrow> m | None \<Rightarrow> [])"

definition policy_apply ::
    "(string \<Rightarrow> string \<Rightarrow> bool) \<Rightarrow> policy_config \<Rightarrow> string \<Rightarrow> string \<Rightarrow> json \<Rightarrow> policy_result" where
  "policy_apply gm config provider path body =
     (if \<not> policy_enabled config then Applied body
      else apply_rules gm provider path (policy_rules config) (body_model body) body)"

subsection \<open>The tool filter is an access list\<close>

definition tools_admitted ::
    "(string \<Rightarrow> string \<Rightarrow> bool) \<Rightarrow> string list \<Rightarrow> string list option \<Rightarrow> json \<Rightarrow> bool" where
  "tools_admitted gm deny allow tool = tool_kept gm allow (Some deny) tool"

interpretation tools: access_list "\<lambda>p t. gm p (tool_name t)" "tools_admitted gm" for gm
  by unfold_locales
    (auto simp: tools_admitted_def tool_kept_def list_ex_iff Let_def split: option.splits if_splits)

lemma tool_kept_admitted:
  "tool_kept gm allow deny = tools_admitted gm (case deny of Some d \<Rightarrow> d | None \<Rightarrow> []) allow"
  by (auto simp: tools_admitted_def tool_kept_def fun_eq_iff Let_def split: option.splits)

lemma tool_kept_iff:
  "tool_kept gm allow deny t \<longleftrightarrow>
     (\<forall>d p. deny = Some d \<longrightarrow> p \<in> set d \<longrightarrow> \<not> gm p (tool_name t)) \<and>
     (\<forall>a. allow = Some a \<longrightarrow> (\<exists>p \<in> set a. gm p (tool_name t)))"
  by (cases deny; cases allow) (auto simp: tool_kept_admitted tools.admits_iff)

subsection \<open>Stepping through a list of rules\<close>

text \<open>The body and the model that the rules after a prefix see.\<close>

fun rule_step ::
    "(string \<Rightarrow> string \<Rightarrow> bool) \<Rightarrow> string \<Rightarrow> string \<Rightarrow> policy_rule \<Rightarrow> string \<times> json \<Rightarrow> (string \<times> json) option" where
  "rule_step gm provider path (Deny p m rp reason) (model, body) =
     (if matches_opt gm p provider \<and> matches_opt gm m model \<and> matches_opt gm rp path
      then None else Some (model, body))"
| "rule_step gm provider path (RewriteModel p m to) (model, body) =
     (if matches_opt gm p provider \<and> matches_opt gm m model
      then map_option (Pair to) (index_set body ''model'' (JStr to)) else Some (model, body))"
| "rule_step gm provider path (FilterTools p m allow deny) (model, body) =
     (if matches_opt gm p provider \<and> matches_opt gm m model
      then Some (model, filter_tools gm allow deny body) else Some (model, body))"
| "rule_step gm provider path (SetField p m rp field v) (model, body) =
     (if matches_opt gm p provider \<and> matches_opt gm m model \<and> matches_opt gm rp path
      then map_option (Pair model) (index_set body field v) else Some (model, body))"

fun rule_steps ::
    "(string \<Rightarrow> string \<Rightarrow> bool) \<Rightarrow> string \<Rightarrow> string \<Rightarrow> policy_rule list \<Rightarrow> string \<times> json \<Rightarrow> (string \<times> json) option" where
  "rule_steps gm provider path [] s = Some s"
| "rule_steps gm provider path (r # rs) s =
     Option.bind (rule_step gm provider path r s) (rule_steps gm provider path rs)"

lemma apply_rules_Cons:
  "apply_rules gm provider path (r # rs) model body = Applied body' \<longleftrightarrow>
     (\<exists>m b. rule_step gm provider path r (model, body) = Some (m, b) \<and>
        apply_rules gm provider path rs m b = Applied body')"
  by (cases r) (auto split: option.splits)

lemma apply_rules_steps:
  "apply_rules gm provider path rules model body = Applied body' \<longleftrightarrow>
     (\<exists>m. rule_steps gm provider path rules (model, body) = Some (m, body'))"
  by (induction rules arbitrary: model body)
    (auto simp: apply_rules_Cons bind_eq_Some_conv simp del: apply_rules.simps(2-))

lemma rule_steps_append:
  "rule_steps gm provider path (rs @ rs') s =
     Option.bind (rule_steps gm provider path rs s) (rule_steps gm provider path rs')"
  by (induction rs arbitrary: s) (auto split: bind_split)

lemma filter_tools_other: "k \<noteq> ''tools'' \<Longrightarrow> jget (filter_tools gm allow deny body) k = jget body k"
  by (auto simp: filter_tools_def split: option.split)

lemma filter_tools_object [simp]: "is_object (filter_tools gm allow deny body) = is_object body"
  by (auto simp: filter_tools_def split: option.split)

lemma filter_tools_result:
  "jget (filter_tools gm allow deny body) ''tools'' = Some (JArr ts) \<Longrightarrow>
     \<exists>ts'. jget body ''tools'' = Some (JArr ts') \<and> ts = filter (tool_kept gm allow deny) ts'"
  by (auto simp: filter_tools_def bind_eq_Some_conv split: option.splits if_splits)

text \<open>The fields a rule may write.\<close>

fun writes :: "policy_rule \<Rightarrow> string \<Rightarrow> bool" where
  "writes (Deny p m rp reason) k = False"
| "writes (RewriteModel p m to) k = (k = ''model'')"
| "writes (FilterTools p m allow deny) k = (k = ''tools'')"
| "writes (SetField p m rp field v) k = (k = field)"

lemma rule_step_frame:
  "rule_step gm provider path r (model, body) = Some (m, b) \<Longrightarrow> \<not> writes r k \<Longrightarrow> jget b k = jget body k"
  by (cases r) (auto simp: filter_tools_other dest: index_set_other split: if_splits)

lemma rule_step_object:
  "rule_step gm provider path r (model, body) = Some (m, b) \<Longrightarrow> is_object body \<Longrightarrow> is_object b"
  by (cases r) (auto dest: index_set_object split: if_splits)

lemma rule_steps_frame:
  "rule_steps gm provider path rs (model, body) = Some (m, b) \<Longrightarrow> \<forall>r \<in> set rs. \<not> writes r k \<Longrightarrow>
     jget b k = jget body k"
  by (induction rs arbitrary: model body) (auto simp: bind_eq_Some_conv dest!: rule_step_frame)

lemma rule_steps_kept:
  assumes "rule_steps gm provider path rs (model, body) = Some (m, b)"
    and "\<forall>r \<in> set rs. \<forall>p mm rp v. r \<noteq> SetField p mm rp ''tools'' v"
    and "\<forall>ts t. jget body ''tools'' = Some (JArr ts) \<longrightarrow> t \<in> set ts \<longrightarrow> P t"
  shows "\<forall>ts t. jget b ''tools'' = Some (JArr ts) \<longrightarrow> t \<in> set ts \<longrightarrow> P t"
  using assms
proof (induction rs arbitrary: model body)
  case (Cons r rs)
  from Cons.prems(1) obtain m1 b1 where s: "rule_step gm provider path r (model, body) = Some (m1, b1)"
    "rule_steps gm provider path rs (m1, b1) = Some (m, b)"
    by (auto simp: bind_eq_Some_conv)
  have "\<forall>ts t. jget b1 ''tools'' = Some (JArr ts) \<longrightarrow> t \<in> set ts \<longrightarrow> P t"
  proof (cases "\<exists>p mm allow deny. r = FilterTools p mm allow deny")
    case True
    then show ?thesis using s(1) Cons.prems(3) by (auto split: if_splits dest!: filter_tools_result)
  next
    case False
    then have "\<not> writes r ''tools''" using Cons.prems(2) by (cases r) auto
    with s(1) have "jget b1 ''tools'' = jget body ''tools''" by (rule rule_step_frame)
    with Cons.prems(3) show ?thesis by simp
  qed
  with Cons.IH [OF s(2)] Cons.prems(2) show ?case by simp
qed simp

subsection \<open>Properties\<close>

lemma policy_apply_steps:
  "policy_enabled config \<Longrightarrow> policy_apply gm config provider path body = Applied body' \<longleftrightarrow>
     (\<exists>m. rule_steps gm provider path (policy_rules config) (body_model body, body) = Some (m, body'))"
  by (simp add: policy_apply_def apply_rules_steps)

text \<open>
  Claim C34. A request that passes the policy matched none of its deny rules: at each of them, the
  provider, the path or the model in force at that point of the list (the request's, or the one
  the last rewriting rule set) is outside the rule's patterns.
\<close>

theorem applied_policy_denied_nowhere:
  assumes "policy_enabled config" and "policy_rules config = pre @ Deny p m rp reason # post"
    and "policy_apply gm config provider path body = Applied body'"
  shows "\<exists>model b. rule_steps gm provider path pre (body_model body, body) = Some (model, b) \<and>
     \<not> (matches_opt gm p provider \<and> matches_opt gm m model \<and> matches_opt gm rp path)"
  using assms by (auto simp: policy_apply_steps rule_steps_append bind_eq_Some_conv split: if_splits)

definition some_policy :: policy_config where
  "some_policy = \<lparr>policy_enabled = True, policy_rules =
     [RewriteModel None (Some ''m1'') ''m2'', FilterTools None None None (Some [''shell'']),
      Deny None (Some ''m1'') None None, SetField None None None ''user'' (JStr ''x'')]\<rparr>"

definition some_tool :: "string \<Rightarrow> json" where
  "some_tool name = JObj [(''function'', JObj [(''name'', JStr name)])]"

definition some_body :: json where
  "some_body = JObj [(''model'', JStr ''m1''), (''tools'', JArr [some_tool ''shell'', some_tool ''add''])]"

definition some_applied :: json where
  "some_applied = JObj [(''model'', JStr ''m2''), (''tools'', JArr [some_tool ''add'']), (''user'', JStr ''x'')]"

theorem applied_policy_denied_nowhere_witness:
  "\<exists>model b. rule_steps (=) ''p'' ''/'' (take 2 (policy_rules some_policy)) (''m1'', some_body) = Some (model, b) \<and>
     model \<noteq> ''m1''"
proof -
  have e: "policy_enabled some_policy" by (simp add: some_policy_def)
  have r: "policy_rules some_policy = take 2 (policy_rules some_policy) @
      Deny None (Some ''m1'') None None # drop 3 (policy_rules some_policy)"
    by (simp add: some_policy_def)
  have "policy_apply (=) some_policy ''p'' ''/'' some_body = Applied some_applied" by code_simp
  from applied_policy_denied_nowhere [OF e r this] show ?thesis
    by (auto simp: matches_opt_def body_model_def str_field_def some_body_def)
qed

text \<open>
  A tool filter holds: when a rule filters the tools and no later rule sets the field
  directly, every tool of the body that leaves the policy has a name that no deny pattern covers
  and, when there is an allow list, that one of its patterns covers.
\<close>

theorem policy_tools_filtered:
  assumes "policy_enabled config" and "policy_rules config = pre @ FilterTools None None allow deny # post"
    and "\<forall>r \<in> set post. \<forall>p m rp v. r \<noteq> SetField p m rp ''tools'' v"
    and "policy_apply gm config provider path body = Applied body'"
    and "jget body' ''tools'' = Some (JArr ts)" and "t \<in> set ts"
  shows "(\<forall>d q. deny = Some d \<longrightarrow> q \<in> set d \<longrightarrow> \<not> gm q (tool_name t)) \<and>
     (\<forall>a. allow = Some a \<longrightarrow> (\<exists>q \<in> set a. gm q (tool_name t)))"
proof -
  from assms(1,2,4) obtain m model b where s: "rule_steps gm provider path post (model, filter_tools gm allow deny b) = Some (m, body')"
    by (auto simp: policy_apply_steps rule_steps_append bind_eq_Some_conv matches_opt_def)
  have "\<forall>ts t. jget (filter_tools gm allow deny b) ''tools'' = Some (JArr ts) \<longrightarrow> t \<in> set ts \<longrightarrow> tool_kept gm allow deny t"
    by (auto dest!: filter_tools_result)
  from rule_steps_kept [OF s assms(3) this] assms(5,6) have "tool_kept gm allow deny t" by blast
  then show ?thesis by (simp add: tool_kept_iff)
qed

theorem policy_tools_filtered_witness:
  "\<not> ''shell'' = tool_name (some_tool ''add'')"
proof -
  have e: "policy_enabled some_policy" by (simp add: some_policy_def)
  have r: "policy_rules some_policy = take 1 (policy_rules some_policy) @
      FilterTools None None None (Some [''shell'']) # drop 2 (policy_rules some_policy)"
    by (simp add: some_policy_def)
  have n: "\<forall>r \<in> set (drop 2 (policy_rules some_policy)). \<forall>p m rp v. r \<noteq> SetField p m rp ''tools'' v"
    by (simp add: some_policy_def)
  have a: "policy_apply (=) some_policy ''p'' ''/'' some_body = Applied some_applied" by code_simp
  have t: "jget some_applied ''tools'' = Some (JArr [some_tool ''add''])" by (simp add: some_applied_def)
  from policy_tools_filtered [OF e r n a t, of "some_tool ''add''"] show ?thesis by simp
qed

text \<open>
  The policy changes what its rules name and nothing else: a field that no rule writes is
  the request's, and the body of a request that was an object is one. An object body never makes
  the policy panic.
\<close>

theorem policy_frame:
  assumes "is_object body"
  shows "policy_apply gm config provider path body \<noteq> Panicked \<and>
    (\<forall>body'. policy_apply gm config provider path body = Applied body' \<longrightarrow>
       is_object body' \<and> (\<forall>k. (\<forall>r \<in> set (policy_rules config). \<not> writes r k) \<longrightarrow> jget body' k = jget body k))"
proof -
  have np: "apply_rules gm provider path rules model body \<noteq> Panicked" if "is_object body" for rules model body
    using that
  proof (induction rules arbitrary: model body)
    case (Cons r rules)
    from Cons.prems obtain fields where "body = JObj fields" by (auto simp: is_object_conv)
    with Cons.IH Cons.prems show ?case by (cases r) auto
  qed simp
  have obj: "is_object b" if "rule_steps gm provider path rs (model, body) = Some (m, b)" "is_object body"
    for rs model body m b
    using that by (induction rs arbitrary: model body) (auto simp: bind_eq_Some_conv dest: rule_step_object)
  show ?thesis
    using np [OF assms] obj [OF _ assms] rule_steps_frame assms
    by (cases "policy_enabled config") (auto simp: policy_apply_steps, auto simp: policy_apply_def)
qed

theorem policy_frame_witness:
  "policy_apply (=) some_policy ''p'' ''/'' some_body \<noteq> Panicked"
proof -
  have "is_object some_body" by (simp add: some_body_def)
  from policy_frame [OF this] show ?thesis by blast
qed

text \<open>
  A body that is JSON but not an object makes a rewriting rule panic: whatever non-null
  array, string, number or boolean is sent, a rule that sets the model, or any other field, for
  every request does not return.
\<close>

theorem non_object_body_panics:
  "body \<noteq> JNull \<and> \<not> is_object body \<longleftrightarrow>
     policy_apply gm \<lparr>policy_enabled = True, policy_rules = [RewriteModel None None to]\<rparr> provider path body = Panicked"
  by (cases body) (simp_all add: policy_apply_def matches_opt_def)

text \<open>
  Deny rules are matched against a model that \<open>SetField\<close> does not update: whatever
  pattern denies a model, a rule that sets the field \<open>model\<close> before it lets the denied model
  leave the policy, while the rewriting rule in its place is denied.
\<close>

theorem set_field_evades_later_deny:
  "gm pat to \<and> \<not> gm pat from \<longleftrightarrow>
     policy_apply gm \<lparr>policy_enabled = True,
       policy_rules = [SetField None None None ''model'' (JStr to), Deny None (Some pat) None None]\<rparr>
       provider path (JObj [(''model'', JStr from)]) = Applied (JObj [(''model'', JStr to)]) \<and>
     policy_apply gm \<lparr>policy_enabled = True,
       policy_rules = [RewriteModel None None to, Deny None (Some pat) None None]\<rparr>
       provider path (JObj [(''model'', JStr from)]) = Denied ''Request denied by policy''"
  by (auto simp: policy_apply_def matches_opt_def body_model_def str_field_def)

end
