(* ===== verification/Delegated_Fetch.thy ===== *)
theory Delegated_Fetch
  imports Json
begin

section \<open>Provider-delegated fetches (src/src/delegated\_fetch.rs)\<close>

text \<open>
  A request body can make the provider fetch remote content or run hosted tools, outside the
  gateway's network boundary. \<open>sanitize\<close> removes these capabilities from the places of the
  protocols that can hold them, and reports what it removed. URL parsing, used for the report
  only, is the argument \<open>url_host\<close>.

  The code recurses into the content of messages and into envelopes. The recursion is on the
  nesting of the JSON value: the definitions take the nesting depth as fuel, and \<open>sanitize\<close>
  starts with the depth of the body, which is always enough.
\<close>

record delegated_fetch_policy =
  allow_remote_content :: bool
  allowed_server_tools :: "string list"

record stripped_item =
  field_path :: string
  capability :: string
  target_host :: "string option"

definition policy_for_key_metadata :: "delegated_fetch_policy \<Rightarrow> json option \<Rightarrow> delegated_fetch_policy" where
  "policy_for_key_metadata policy metadata =
     (case metadata of
        None \<Rightarrow> policy
      | Some md \<Rightarrow> policy\<lparr>allow_remote_content :=
          (case Option.bind (pointer md [''delegated_fetch'', ''remote_content'']) as_bool of
             Some b \<Rightarrow> b | None \<Rightarrow> False)\<rparr>)"

fun depth :: "json \<Rightarrow> nat" where
  "depth (JArr xs) = Suc (fold max (map depth xs) 0)"
| "depth (JObj m) = Suc (fold max (map (depth \<circ> snd) m) 0)"
| "depth _ = 0"

subsection \<open>Remote media\<close>

definition inline_data :: "string \<Rightarrow> bool" where
  "inline_data uri =
     (let t = trim_start uri in 5 \<le> length t \<and> eq_ignore_case (take 5 t) ''data:'')"

definition reference_at :: "json \<Rightarrow> string list \<times> string \<times> string \<Rightarrow> (string \<times> string \<times> string) list" where
  "reference_at v p =
     (case p of (path, shown, cap) \<Rightarrow>
       (case Option.bind (pointer v path) as_str of
          Some uri \<Rightarrow> if \<not> inline_data uri then [(shown, cap, uri)] else []
        | None \<Rightarrow> []))"

definition typed_places :: "json \<Rightarrow> (string list \<times> string \<times> string) list" where
  "typed_places v =
     (case str_field v ''type'' of
        None \<Rightarrow> []
      | Some ty \<Rightarrow>
          if ty = ''input_file'' then [([''file_url''], ''/file_url'', ''input_file.file_url'')]
          else if ty = ''input_image'' then
            [([''image_url''], ''/image_url'', ''input_image.image_url''),
             ([''image_url'', ''url''], ''/image_url/url'', ''input_image.image_url'')]
          else if ty = ''image_url'' then
            [([''image_url'', ''url''], ''/image_url/url'', ''image_url.url''),
             ([''image_url''], ''/image_url'', ''image_url.url'')]
          else if (ty = ''image'' \<or> ty = ''document'') \<and>
             Option.bind (pointer v [''source'', ''type'']) as_str = Some ''url'' then
            [([''source'', ''url''], ''/source/url'', ''source.url'')]
          else [])"

definition untyped_places :: "(string list \<times> string \<times> string) list" where
  "untyped_places =
     [([''fileData'', ''fileUri''], ''/fileData/fileUri'', ''fileData.fileUri''),
      ([''fileData'', ''file_uri''], ''/fileData/file_uri'', ''fileData.file_uri''),
      ([''file_data'', ''file_uri''], ''/file_data/file_uri'', ''file_data.file_uri''),
      ([''file_data'', ''fileUri''], ''/file_data/fileUri'', ''file_data.fileUri'')]"

definition remote_media_references :: "json \<Rightarrow> (string \<times> string \<times> string) list" where
  "remote_media_references v = concat (map (reference_at v) (typed_places v @ untyped_places))"

text \<open>Only messages and tool results may nest content.\<close>

definition container :: "json \<Rightarrow> bool" where
  "container item =
     (case str_field item ''type'' of
        None \<Rightarrow> True | Some ty \<Rightarrow> ty = ''message'' \<or> ty = ''tool_result'')"

text \<open>
  One field of a body: if it holds an array, its items are treated one by one by \<open>f\<close>, which says
  what remains of an item (nothing, or the item, sanitised) and what was stripped.
\<close>

type_synonym 'a sanitized = "'a \<times> stripped_item list"

definition media_field ::
    "(string \<Rightarrow> json \<Rightarrow> json list sanitized) \<Rightarrow> string \<Rightarrow> string \<Rightarrow> json sanitized \<Rightarrow> json sanitized" where
  "media_field f prefix field bs =
     (case Option.bind (jget (fst bs) field) as_array of
        None \<Rightarrow> bs
      | Some items \<Rightarrow>
          let results = map (\<lambda>(index, item). f (prefix @ ''/'' @ field @ ''/'' @ dec index) item)
                (enumerate 0 items)
          in (set_field (fst bs) field (JArr (concat (map fst results))),
              snd bs @ concat (map snd results)))"

definition sanitize_media_arrays ::
    "(string \<Rightarrow> json \<Rightarrow> json list sanitized) \<Rightarrow> string \<Rightarrow> string list \<Rightarrow> json sanitized \<Rightarrow> json sanitized" where
  "sanitize_media_arrays f prefix names bs = foldl (\<lambda>bs field. media_field f prefix field bs) bs names"

fun media_item :: "(string \<Rightarrow> string option) \<Rightarrow> nat \<Rightarrow> string \<Rightarrow> json \<Rightarrow> json list sanitized" where
  "media_item url_host 0 path item = ([item], [])"
| "media_item url_host (Suc n) path item =
     (let references = remote_media_references item in
      if references = [] then
        if container item then
          (case sanitize_media_arrays (media_item url_host n) path [''content'', ''parts''] (item, []) of
             (item', stripped) \<Rightarrow> ([item'], stripped))
        else ([item], [])
      else ([], map (\<lambda>(suffix, cap, uri).
              \<lparr>field_path = path @ suffix, capability = cap, target_host = url_host uri\<rparr>) references))"

definition envelope_field ::
    "(string \<Rightarrow> json \<Rightarrow> json sanitized) \<Rightarrow> string \<Rightarrow> string \<Rightarrow> json sanitized \<Rightarrow> json sanitized" where
  "envelope_field f prefix field bs =
     (case jget (fst bs) field of
        None \<Rightarrow> bs
      | Some envelope \<Rightarrow>
          if is_object envelope then
            (case f (prefix @ ''/'' @ field) envelope of
               (envelope', stripped) \<Rightarrow> (set_field (fst bs) field envelope', snd bs @ stripped))
          else bs)"

definition media_fields :: "string list" where
  "media_fields = [''input'', ''messages'', ''contents'', ''content'', ''parts'']"

definition envelope_fields :: "string list" where
  "envelope_fields = [''item'', ''response'', ''request'', ''session'']"

fun sanitize_remote_media ::
    "(string \<Rightarrow> string option) \<Rightarrow> nat \<Rightarrow> string \<Rightarrow> json \<Rightarrow> json sanitized" where
  "sanitize_remote_media url_host 0 prefix body = (body, [])"
| "sanitize_remote_media url_host (Suc n) prefix body =
     foldl (\<lambda>bs field. envelope_field (sanitize_remote_media url_host n) prefix field bs)
       (sanitize_media_arrays (media_item url_host (Suc n)) prefix media_fields (body, []))
       envelope_fields"

subsection \<open>Provider-hosted tools\<close>

definition is_server_side_tool :: "string \<Rightarrow> bool" where
  "is_server_side_tool tool_type \<longleftrightarrow>
     \<not> eq_ignore_case tool_type ''function'' \<and> \<not> eq_ignore_case tool_type ''custom''"

definition hosted_type :: "delegated_fetch_policy \<Rightarrow> json \<Rightarrow> string option" where
  "hosted_type policy tool =
     (case str_field tool ''type'' of
        None \<Rightarrow> None
      | Some ty \<Rightarrow>
          if is_server_side_tool ty \<and> to_lower ty \<notin> set (map to_lower (allowed_server_tools policy))
          then Some ty else None)"

text \<open>The tools that remain, the (lower-case) types removed, and the report.\<close>

definition strip_server_tools_from_array ::
    "delegated_fetch_policy \<Rightarrow> string \<Rightarrow> json list \<Rightarrow> json list \<times> string list \<times> stripped_item list" where
  "strip_server_tools_from_array policy field_prefix tools =
     (filter (\<lambda>tool. hosted_type policy tool = None) tools,
      map to_lower (List.map_filter (hosted_type policy) tools),
      concat (map (\<lambda>(index, tool). case hosted_type policy tool of
          None \<Rightarrow> []
        | Some ty \<Rightarrow> [\<lparr>field_path = field_prefix @ ''/'' @ dec index,
                     capability = ''server_tool:'' @ ty, target_host = None\<rparr>]) (enumerate 0 tools)))"

definition strip_tools_of ::
    "delegated_fetch_policy \<Rightarrow> string \<Rightarrow> json \<Rightarrow> json \<times> string list \<times> stripped_item list" where
  "strip_tools_of policy field_prefix body =
     (case Option.bind (jget body ''tools'') as_array of
        None \<Rightarrow> (body, [], [])
      | Some tools \<Rightarrow>
          (case strip_server_tools_from_array policy field_prefix tools of
             (kept, removed, stripped) \<Rightarrow> (set_field body ''tools'' (JArr kept), removed, stripped)))"

definition references_removed :: "string list \<Rightarrow> json \<Rightarrow> bool" where
  "references_removed removed choice =
     (case choice of
        JStr c \<Rightarrow> to_lower c \<in> set removed
      | JObj _ \<Rightarrow> list_ex (\<lambda>field. case str_field choice field of
                     Some v \<Rightarrow> to_lower v \<in> set removed | None \<Rightarrow> False) [''type'', ''name'']
      | _ \<Rightarrow> False)"

definition normalize_tool_choice :: "string list \<Rightarrow> json \<Rightarrow> json sanitized" where
  "normalize_tool_choice removed body =
     (if removed = [] then (body, [])
      else (case jget body ''tool_choice'' of
              None \<Rightarrow> (body, [])
            | Some choice \<Rightarrow>
                let remaining_tools = (case Option.bind (jget body ''tools'') as_array of
                      Some ts \<Rightarrow> length ts | None \<Rightarrow> 0);
                    requires_missing_tool = (remaining_tools = 0 \<and>
                      as_str choice \<noteq> Some ''auto'' \<and> as_str choice \<noteq> Some ''none'')
                in if references_removed removed choice \<or> requires_missing_tool
                   then (set_field body ''tool_choice'' (JStr ''auto''),
                         [\<lparr>field_path = ''/tool_choice'', capability = ''tool_choice_normalized'',
                           target_host = None\<rparr>])
                   else (body, [])))"

definition sanitize_server_tools :: "delegated_fetch_policy \<Rightarrow> string \<Rightarrow> json \<Rightarrow> json sanitized" where
  "sanitize_server_tools policy field_prefix body =
     (case strip_tools_of policy field_prefix body of
        (body', removed, stripped) \<Rightarrow>
          (case normalize_tool_choice removed body' of
             (body'', stripped') \<Rightarrow> (body'', stripped @ stripped')))"

definition sanitize_realtime_session_update :: "delegated_fetch_policy \<Rightarrow> json \<Rightarrow> json sanitized" where
  "sanitize_realtime_session_update policy body =
     (case jget body ''session'' of
        None \<Rightarrow> (body, [])
      | Some session \<Rightarrow>
          (case sanitize_server_tools policy ''/session/tools'' session of
             (session', stripped) \<Rightarrow> (set_field body ''session'' session', stripped)))"

definition sanitize ::
    "(string \<Rightarrow> string option) \<Rightarrow> delegated_fetch_policy \<Rightarrow> json \<Rightarrow> json sanitized" where
  "sanitize url_host policy body =
     (let (body1, s1) = (if \<not> allow_remote_content policy
            then sanitize_remote_media url_host (depth body) [] body else (body, []));
          (body2, s2) = sanitize_server_tools policy ''/tools'' body1;
          (body3, s3) = (if str_field body2 ''type'' = Some ''session.update''
            then sanitize_realtime_session_update policy body2 else (body2, []))
      in (body3, s1 @ s2 @ s3))"

subsection \<open>Where media can be\<close>

text \<open>
  \<open>inside item x\<close>: \<open>x\<close> is the item or in the content of the containers inside it. \<open>media_at body x\<close>:
  \<open>x\<close> is at a place of the body, or of an envelope in it, where the protocols put media.
\<close>

inductive inside :: "json \<Rightarrow> json \<Rightarrow> bool" where
  inside_self: "inside x x"
| inside_nested: "container x \<Longrightarrow> k \<in> {''content'', ''parts''} \<Longrightarrow> jget x k = Some (JArr ys) \<Longrightarrow>
     y \<in> set ys \<Longrightarrow> inside y z \<Longrightarrow> inside x z"

inductive media_at :: "json \<Rightarrow> json \<Rightarrow> bool" where
  media_direct: "k \<in> set media_fields \<Longrightarrow> jget body k = Some (JArr xs) \<Longrightarrow> x \<in> set xs \<Longrightarrow>
     inside x y \<Longrightarrow> media_at body y"
| media_envelope: "k \<in> set envelope_fields \<Longrightarrow> jget body k = Some e \<Longrightarrow> is_object e \<Longrightarrow>
     media_at e y \<Longrightarrow> media_at body y"

inductive_cases insideE: "inside x z"
inductive_cases media_atE: "media_at body y"

subsection \<open>Sanitising one field after the other\<close>

definition kept_items :: "(string \<Rightarrow> json \<Rightarrow> json list sanitized) \<Rightarrow> string \<Rightarrow> string \<Rightarrow> json list \<Rightarrow> json list" where
  "kept_items f p k xs = concat (map fst (map (\<lambda>(i, x). f (p @ ''/'' @ k @ ''/'' @ dec i) x) (enumerate 0 xs)))"

lemma media_field_get:
  "jget (fst (media_field f p k bs)) k' =
     (if k' = k then (case jget (fst bs) k of Some (JArr xs) \<Rightarrow> Some (JArr (kept_items f p k xs)) | r \<Rightarrow> r)
      else jget (fst bs) k')"
  by (cases "jget (fst bs) k") (auto simp: media_field_def kept_items_def Let_def split: json.split)

lemma media_arrays_get:
  "distinct names \<Longrightarrow> jget (fst (sanitize_media_arrays f p names bs)) k' =
     (if k' \<in> set names then (case jget (fst bs) k' of
          Some (JArr xs) \<Rightarrow> Some (JArr (kept_items f p k' xs)) | r \<Rightarrow> r)
      else jget (fst bs) k')"
proof (induction names arbitrary: bs)
  case (Cons k names)
  have "sanitize_media_arrays f p (k # names) bs = sanitize_media_arrays f p names (media_field f p k bs)"
    by (simp add: sanitize_media_arrays_def)
  note unfold = this
  show ?case
  proof (cases "k' = k")
    case True
    with Cons unfold show ?thesis unfolding True by (simp add: media_field_get)
  next
    case False
    with Cons unfold show ?thesis by (simp add: media_field_get)
  qed
qed (simp add: sanitize_media_arrays_def)

lemma kept_itemsE:
  assumes "y \<in> set (kept_items f p k xs)"
  obtains x path where "x \<in> set xs" "y \<in> set (fst (f path x))"
proof -
  from assms obtain i x where "(i, x) \<in> set (enumerate 0 xs)" "y \<in> set (fst (f (p @ ''/'' @ k @ ''/'' @ dec i) x))"
    by (auto simp: kept_items_def)
  moreover from this(1) have "x \<in> set xs" by (auto simp: in_set_enumerate_eq)
  ultimately show thesis using that by blast
qed

lemma media_arrays_elem:
  assumes "distinct names" and "jget (fst (sanitize_media_arrays f p names (body, s))) k = Some (JArr ys)"
    and "k \<in> set names" and "y \<in> set ys"
  shows "\<exists>xs x path. jget body k = Some (JArr xs) \<and> x \<in> set xs \<and> y \<in> set (fst (f path x))"
proof (cases "jget body k")
  case None
  with assms show ?thesis by (simp add: media_arrays_get)
next
  case (Some v)
  show ?thesis
  proof (cases v)
    case (JArr xs)
    with assms Some have "y \<in> set (kept_items f p k xs)" by (simp add: media_arrays_get)
    then obtain x path where "x \<in> set xs" "y \<in> set (fst (f path x))" by (rule kept_itemsE)
    with Some JArr show ?thesis by blast
  qed (use assms Some in \<open>simp_all add: media_arrays_get\<close>)
qed

text \<open>A step that reports nothing has changed nothing.\<close>

lemma concat_empty: "concat xss = [] \<Longrightarrow> xs \<in> set xss \<Longrightarrow> xs = []"
  by auto

lemma media_field_silent:
  assumes f: "\<And>path x. snd (f path x) = [] \<Longrightarrow> fst (f path x) = [x]"
    and silent: "snd (media_field f p k (body, s)) = []"
  shows "media_field f p k (body, s) = (body, [])"
proof (cases "Option.bind (jget body k) as_array")
  case None
  with silent show ?thesis by (simp add: media_field_def)
next
  case (Some items)
  let ?g = "\<lambda>(i, x). f (p @ ''/'' @ k @ ''/'' @ dec i) x"
  have none: "s = []" "concat (map snd (map ?g (enumerate 0 items))) = []"
    using silent Some by (auto simp: media_field_def Let_def)
  have "fst (?g ix) = [snd ix]" if "ix \<in> set (enumerate 0 items)" for ix
  proof -
    have "snd (?g ix) = []" by (rule concat_empty [OF none(2)]) (use that in simp)
    then show ?thesis using f by (cases ix) simp
  qed
  then have "map fst (map ?g (enumerate 0 items)) = map (\<lambda>ix. [snd ix]) (enumerate 0 items)" by simp
  then have "concat (map fst (map ?g (enumerate 0 items))) = map snd (enumerate 0 items)"
    by (simp only: concat_map_singleton)
  then have "concat (map fst (map ?g (enumerate 0 items))) = items" by simp
  with Some none show ?thesis
    by (simp add: media_field_def Let_def bind_eq_Some_conv set_field_id del: map_map)
qed

lemma media_field_report: "\<exists>t. snd (media_field f p k bs) = snd bs @ t"
  by (auto simp: media_field_def Let_def split: option.split)

lemma media_arrays_silent:
  assumes f: "\<And>path x. snd (f path x) = [] \<Longrightarrow> fst (f path x) = [x]"
  shows "snd (sanitize_media_arrays f p names (body, s)) = [] \<Longrightarrow>
    sanitize_media_arrays f p names (body, s) = (body, []) \<and> s = []"
proof (induction names rule: rev_induct)
  case (snoc k names)
  let ?r = "sanitize_media_arrays f p names (body, s)"
  have step: "sanitize_media_arrays f p (names @ [k]) (body, s) = media_field f p k ?r"
    by (simp add: sanitize_media_arrays_def)
  from snoc.prems media_field_report [of f p k ?r] have "snd ?r = []" by (auto simp: step)
  with snoc.IH have r: "?r = (body, [])" "s = []" by auto
  with snoc.prems step media_field_silent [of f p k body "[]"] f show ?case by simp
qed (simp add: sanitize_media_arrays_def)

lemma media_item_silent: "snd (media_item uh n p item) = [] \<Longrightarrow> fst (media_item uh n p item) = [item]"
proof (induction n arbitrary: p item)
  case (Suc n)
  let ?r = "sanitize_media_arrays (media_item uh n) p [''content'', ''parts''] (item, [])"
  show ?case
  proof (cases "remote_media_references item = [] \<and> container item")
    case True
    with Suc.prems have "snd ?r = []" by (simp add: case_prod_beta)
    from media_arrays_silent [OF Suc.IH this] have "?r = (item, [])" by blast
    with True show ?thesis by simp
  next
    case False
    with Suc.prems show ?thesis by (auto simp: Let_def split: if_splits)
  qed
qed simp

lemma envelope_field_report: "\<exists>t. snd (envelope_field f p k bs) = snd bs @ t"
  by (auto simp: envelope_field_def case_prod_beta split: option.split)

lemma envelope_fields_silent:
  assumes f: "\<And>path x. snd (f path x) = [] \<Longrightarrow> fst (f path x) = x"
  shows "snd (foldl (\<lambda>bs k. envelope_field f p k bs) bs names) = [] \<Longrightarrow>
    foldl (\<lambda>bs k. envelope_field f p k bs) bs names = bs \<and> snd bs = []"
proof (induction names rule: rev_induct)
  case (snoc k names)
  let ?r = "foldl (\<lambda>bs k. envelope_field f p k bs) bs names"
  from snoc.prems envelope_field_report [of f p k ?r] have "snd ?r = []" by auto
  with snoc.IH have r: "?r = bs" "snd bs = []" by auto
  have "envelope_field f p k bs = bs"
  proof (cases "jget (fst bs) k")
    case None
    then show ?thesis by (simp add: envelope_field_def)
  next
    case (Some e)
    with snoc.prems r f [of "p @ ''/'' @ k" e] show ?thesis
      by (cases bs) (auto simp: envelope_field_def case_prod_beta set_field_id split: if_splits)
  qed
  with r show ?case by simp
qed simp

lemma remote_media_silent:
  "snd (sanitize_remote_media uh n p body) = [] \<Longrightarrow> fst (sanitize_remote_media uh n p body) = body"
proof (induction n arbitrary: p body)
  case (Suc n)
  let ?a = "sanitize_media_arrays (media_item uh (Suc n)) p media_fields (body, [])"
  have s: "snd (foldl (\<lambda>bs k. envelope_field (sanitize_remote_media uh n) p k bs) ?a envelope_fields) = []"
    using Suc.prems by simp
  from envelope_fields_silent [OF Suc.IH this] have "snd ?a = []"
    "foldl (\<lambda>bs k. envelope_field (sanitize_remote_media uh n) p k bs) ?a envelope_fields = ?a" by auto
  moreover from media_arrays_silent [OF media_item_silent this(1)] have "?a = (body, [])" by blast
  ultimately show ?case by simp
qed simp

subsection \<open>Nothing remote remains\<close>

lemma fold_max_ge: "x \<in> set xs \<Longrightarrow> (x :: nat) \<le> fold max xs a"
proof (induction xs arbitrary: a)
  case (Cons y xs)
  have le: "b \<le> fold max ys b" for b :: nat and ys
    by (induction ys arbitrary: b) (auto intro: order_trans [OF max.cobounded2])
  show ?case
  proof (cases "x = y")
    case True
    then show ?thesis using le [of "max y a" xs] by simp
  qed (use Cons in auto)
qed simp

lemma depth_elem: "x \<in> set xs \<Longrightarrow> depth x < depth (JArr xs)"
  using fold_max_ge [of "depth x" "map depth xs" 0] by simp

lemma depth_field: "jget v k = Some w \<Longrightarrow> depth w < depth v"
proof (cases v)
  case (JObj m)
  assume "jget v k = Some w"
  with JObj have "depth w \<in> set (map (depth \<circ> snd) m)" by (force dest: map_of_SomeD)
  from fold_max_ge [OF this, of 0] JObj show ?thesis by simp
qed auto

lemma depth_item: "jget v k = Some (JArr xs) \<Longrightarrow> x \<in> set xs \<Longrightarrow> Suc (depth x) < depth v"
  using depth_elem depth_field by fastforce

definition reference_fields :: "string list" where
  "reference_fields =
     [''type'', ''file_url'', ''image_url'', ''source'', ''fileData'', ''file_data'']"

lemma place_heads:
  assumes "p \<in> set (typed_places b @ untyped_places)"
  shows "\<exists>k ks. fst p = k # ks \<and> k \<in> set reference_fields"
proof -
  let ?ok = "\<lambda>p :: string list \<times> string \<times> string. fst p \<noteq> [] \<and> hd (fst p) \<in> set reference_fields"
  have "list_all ?ok (typed_places b)"
    by (simp add: typed_places_def reference_fields_def split: option.split)
  moreover have "list_all ?ok untyped_places" by (simp add: untyped_places_def reference_fields_def)
  ultimately have "?ok p" using assms by (auto simp: list_all_iff)
  then show ?thesis by (cases "fst p") auto
qed

lemma references_cong:
  assumes "\<forall>k \<in> set reference_fields. jget a k = jget b k"
  shows "remote_media_references a = remote_media_references b"
proof -
  have g: "jget a ''type'' = jget b ''type''" "jget a ''file_url'' = jget b ''file_url''"
    "jget a ''image_url'' = jget b ''image_url''" "jget a ''source'' = jget b ''source''"
    "jget a ''fileData'' = jget b ''fileData''" "jget a ''file_data'' = jget b ''file_data''"
    using assms by (simp_all add: reference_fields_def)
  then have pointer_same: "pointer a [''source'', ''type''] = pointer b [''source'', ''type'']" by simp
  have "typed_places a = typed_places b"
    unfolding typed_places_def str_field_def by (simp only: g pointer_same)
  moreover have "reference_at a p = reference_at b p" if p: "p \<in> set (typed_places b @ untyped_places)" for p
  proof -
    from place_heads [OF p] obtain k ks where "fst p = k # ks" "k \<in> set reference_fields" by blast
    moreover from this(2) have "jget a k = jget b k" using assms by blast
    ultimately show ?thesis by (simp add: reference_at_def case_prod_beta)
  qed
  ultimately show ?thesis
    unfolding remote_media_references_def by (simp cong: map_cong)
qed

lemma media_item_clean:
  "depth item < n \<Longrightarrow> y \<in> set (fst (media_item uh n p item)) \<Longrightarrow> inside y z \<Longrightarrow> remote_media_references z = []"
proof (induction n arbitrary: p item y z)
  case (Suc n)
  let ?r = "sanitize_media_arrays (media_item uh n) p [''content'', ''parts''] (item, [])"
  have refs: "remote_media_references item = []"
    using Suc.prems(2) by (auto simp: Let_def split: if_splits)
  show ?case
  proof (cases "container item")
    case False
    with Suc.prems(2) refs have "y = item" by simp
    with Suc.prems(3) False refs show ?thesis by (auto elim: insideE)
  next
    case True
    with Suc.prems(2) refs have y: "y = fst ?r" by (simp add: case_prod_beta)
    have same: "remote_media_references y = []"
      using references_cong [of y item] refs y
      by (simp add: reference_fields_def media_arrays_get)
    from Suc.prems(3) consider "z = y" | k ys x where "k \<in> {''content'', ''parts''}"
      "jget y k = Some (JArr ys)" "x \<in> set ys" "inside x z"
      by (rule insideE) blast+
    then show ?thesis
    proof cases
      case 1
      with same 1 show ?thesis by simp
    next
      case (2 k ys x)
      with y obtain xs x0 path where "jget item k = Some (JArr xs)" "x0 \<in> set xs"
        "x \<in> set (fst (media_item uh n path x0))"
        using media_arrays_elem [of "[''content'', ''parts'']" "media_item uh n" p item "[]" k ys x] by auto
      moreover from this(1,2) have "depth x0 < n" using depth_item Suc.prems(1) by fastforce
      ultimately show ?thesis using Suc.IH 2 by blast
    qed
  qed
qed simp

lemma envelope_fields_get:
  "distinct names \<Longrightarrow> jget (fst (foldl (\<lambda>bs k. envelope_field f p k bs) bs names)) k' =
     (if k' \<in> set names then (case jget (fst bs) k' of
          Some e \<Rightarrow> Some (if is_object e then fst (f (p @ ''/'' @ k') e) else e) | None \<Rightarrow> None)
      else jget (fst bs) k')"
proof (induction names rule: rev_induct)
  case (snoc k names)
  then show ?case
    by (auto simp: envelope_field_def case_prod_beta split: option.split)
qed simp

lemma remote_media_clean:
  "depth body \<le> n \<Longrightarrow> media_at (fst (sanitize_remote_media uh n p body)) y \<Longrightarrow> remote_media_references y = []"
proof (induction n arbitrary: p body y)
  case 0
  have no: "jget body k = None" for k using 0(1) depth_field [of body k] by (cases "jget body k") auto
  from 0(2) have "media_at body y" by simp
  then show ?case by (rule media_atE) (simp_all add: no)
next
  case (Suc n)
  let ?a = "sanitize_media_arrays (media_item uh (Suc n)) p media_fields (body, [])"
  let ?r = "foldl (\<lambda>bs k. envelope_field (sanitize_remote_media uh n) p k bs) ?a envelope_fields"
  have d: "distinct media_fields" "distinct envelope_fields" "set media_fields \<inter> set envelope_fields = {}"
    by (simp_all add: media_fields_def envelope_fields_def)
  from Suc.prems(2) have "media_at (fst ?r) y" by simp
  then consider k xs x where "k \<in> set media_fields" "jget (fst ?r) k = Some (JArr xs)" "x \<in> set xs" "inside x y"
    | k e where "k \<in> set envelope_fields" "jget (fst ?r) k = Some e" "is_object e" "media_at e y"
    by (rule media_atE) blast+
  then show ?case
  proof cases
    case (1 k xs x)
    then have "k \<notin> set envelope_fields" using d by blast
    with 1 have "jget (fst ?a) k = Some (JArr xs)"
      using d envelope_fields_get [OF d(2), of "sanitize_remote_media uh n" p ?a k] by auto
    with media_arrays_elem [OF d(1), of "media_item uh (Suc n)" p body "[]" k xs x] 1
    obtain xs0 x0 path where "jget body k = Some (JArr xs0)" "x0 \<in> set xs0"
      "x \<in> set (fst (media_item uh (Suc n) path x0))"
      by auto
    moreover from this(1,2) have "depth x0 < Suc n" using depth_item Suc.prems(1) by fastforce
    ultimately show ?thesis using media_item_clean 1 by blast
  next
    case (2 k e)
    then obtain e0 where e0: "jget (fst ?a) k = Some e0" "e = (if is_object e0 then fst (sanitize_remote_media uh n (p @ ''/'' @ k) e0) else e0)"
      using envelope_fields_get [OF d(2), of "sanitize_remote_media uh n" p ?a k] by (auto split: option.splits)
    with 2 have "is_object e0" by (auto split: if_splits)
    moreover have "k \<notin> set media_fields" using 2 d by blast
    then have "jget body k = Some e0"
      using e0(1) 2(1) d media_arrays_get [OF d(1), of "media_item uh (Suc n)" p "(body, [])" k] by auto
    then have "depth e0 \<le> n" using depth_field Suc.prems(1) by fastforce
    ultimately show ?thesis using Suc.IH e0(2) 2 by auto
  qed
qed

text \<open>A body without remote media is left alone.\<close>

lemma enumerate_const:
  "(\<And>x path. x \<in> set xs \<Longrightarrow> f path x = ([x], [])) \<Longrightarrow>
   map (\<lambda>(i, x). f (g i) x) (enumerate n xs) = map (\<lambda>x. ([x], [])) xs"
  by (induction xs arbitrary: n) auto

lemma media_field_id:
  assumes "\<And>xs x path. jget body k = Some (JArr xs) \<Longrightarrow> x \<in> set xs \<Longrightarrow> f path x = ([x], [])"
  shows "media_field f p k (body, s) = (body, s)"
proof (cases "Option.bind (jget body k) as_array")
  case (Some xs)
  then have k: "jget body k = Some (JArr xs)" by (auto simp: bind_eq_Some_conv)
  have "map (\<lambda>(i, x). f (p @ ''/'' @ k @ ''/'' @ dec i) x) (enumerate 0 xs) = map (\<lambda>x. ([x], [])) xs"
    by (rule enumerate_const) (use assms k in blast)
  then show ?thesis using Some k
    by (simp add: media_field_def Let_def set_field_id comp_def)
qed (simp add: media_field_def)

lemma media_arrays_id:
  assumes "\<And>k xs x path. k \<in> set names \<Longrightarrow> jget body k = Some (JArr xs) \<Longrightarrow> x \<in> set xs \<Longrightarrow> f path x = ([x], [])"
  shows "sanitize_media_arrays f p names (body, s) = (body, s)"
  using assms
proof (induction names)
  case (Cons k names)
  have "media_field f p k (body, s) = (body, s)" by (rule media_field_id) (use Cons.prems in auto)
  moreover have "sanitize_media_arrays f p names (body, s) = (body, s)"
    by (rule Cons.IH) (use Cons.prems in auto)
  ultimately show ?case by (simp add: sanitize_media_arrays_def)
qed (simp add: sanitize_media_arrays_def)

lemma media_item_id:
  "(\<And>z. inside item z \<Longrightarrow> remote_media_references z = []) \<Longrightarrow> media_item uh n p item = ([item], [])"
proof (induction n arbitrary: p item)
  case (Suc n)
  have refs: "remote_media_references item = []" by (rule Suc.prems) (rule inside_self)
  show ?case
  proof (cases "container item")
    case True
    have "sanitize_media_arrays (media_item uh n) p [''content'', ''parts''] (item, []) = (item, [])"
      by (rule media_arrays_id, rule Suc.IH, rule Suc.prems, rule inside_nested [OF True]) auto
    with refs True show ?thesis by simp
  qed (simp add: refs)
qed simp

lemma remote_media_id:
  "(\<And>y. media_at body y \<Longrightarrow> remote_media_references y = []) \<Longrightarrow> sanitize_remote_media uh n p body = (body, [])"
proof (induction n arbitrary: p body)
  case (Suc n)
  have a: "sanitize_media_arrays (media_item uh (Suc n)) p media_fields (body, []) = (body, [])"
    by (rule media_arrays_id, rule media_item_id, rule Suc.prems, rule media_direct)
  have e: "envelope_field (sanitize_remote_media uh n) p k (body, []) = (body, [])" if k: "k \<in> set envelope_fields" for k
  proof (cases "jget body k")
    case None
    then show ?thesis by (simp add: envelope_field_def)
  next
    case (Some e)
    have "sanitize_remote_media uh n (p @ ''/'' @ k) e = (e, [])" if "is_object e"
      by (rule Suc.IH, rule Suc.prems, rule media_envelope [OF k Some that])
    with Some show ?thesis by (simp add: envelope_field_def set_field_id)
  qed
  have "set ks \<subseteq> set envelope_fields \<Longrightarrow>
      foldl (\<lambda>bs k. envelope_field (sanitize_remote_media uh n) p k bs) (body, []) ks = (body, [])" for ks
    by (induction ks) (auto simp: e)
  then show ?case using a by simp
qed simp

subsection \<open>What the tool steps touch\<close>

lemma strip_tools_get:
  "strip_tools_of policy p body = (b, removed, s) \<Longrightarrow> jget b k =
     (if k = ''tools'' then (case jget body k of
          Some (JArr ts) \<Rightarrow> Some (JArr (filter (\<lambda>t. hosted_type policy t = None) ts)) | r \<Rightarrow> r)
      else jget body k)"
  by (cases "jget body ''tools''")
    (auto simp: strip_tools_of_def strip_server_tools_from_array_def split: json.splits option.splits)

lemma normalize_get:
  "k \<noteq> ''tool_choice'' \<Longrightarrow> jget (fst (normalize_tool_choice removed body)) k = jget body k"
  by (auto simp: normalize_tool_choice_def Let_def split: option.split)

lemma tools_step_get:
  "k \<noteq> ''tool_choice'' \<Longrightarrow> jget (fst (sanitize_server_tools policy p body)) k =
     (if k = ''tools'' then (case jget body k of
          Some (JArr ts) \<Rightarrow> Some (JArr (filter (\<lambda>t. hosted_type policy t = None) ts)) | r \<Rightarrow> r)
      else jget body k)"
  by (cases "strip_tools_of policy p body")
    (simp add: sanitize_server_tools_def case_prod_beta normalize_get strip_tools_get)

lemma tools_step_object [simp]: "is_object (fst (sanitize_server_tools policy p body)) = is_object body"
  by (auto simp: sanitize_server_tools_def strip_tools_of_def normalize_tool_choice_def Let_def
      case_prod_beta split: option.split)

lemma session_step_get:
  "jget (fst (sanitize_realtime_session_update policy body)) k =
     (if k = ''session'' then map_option (\<lambda>s. fst (sanitize_server_tools policy ''/session/tools'' s)) (jget body k)
      else jget body k)"
  by (auto simp: sanitize_realtime_session_update_def case_prod_beta split: option.split)

lemma media_at_tools:
  assumes "media_at (fst (sanitize_server_tools policy p body)) y"
  shows "media_at body y"
proof -
  have same: "jget (fst (sanitize_server_tools policy p body)) k = jget body k"
    if "k \<in> set media_fields \<union> set envelope_fields" for k
    using that by (auto simp: tools_step_get media_fields_def envelope_fields_def)
  from assms show ?thesis
    by (rule media_atE) (auto simp: same intro: media_direct media_envelope)
qed

lemma media_at_session:
  assumes "media_at (fst (sanitize_realtime_session_update policy body)) y"
  shows "media_at body y"
proof -
  from assms consider k xs x where "k \<in> set media_fields"
      "jget (fst (sanitize_realtime_session_update policy body)) k = Some (JArr xs)" "x \<in> set xs" "inside x y"
    | k e where "k \<in> set envelope_fields"
      "jget (fst (sanitize_realtime_session_update policy body)) k = Some e" "is_object e" "media_at e y"
    by (rule media_atE) blast+
  then show ?thesis
  proof cases
    case (1 k xs x)
    then have "k \<noteq> ''session''" by (auto simp: media_fields_def)
    with 1 show ?thesis by (auto simp: session_step_get intro: media_direct)
  next
    case (2 k e)
    show ?thesis
    proof (cases "k = ''session''")
      case True
      with 2 obtain e0 where "jget body k = Some e0" "e = fst (sanitize_server_tools policy ''/session/tools'' e0)"
        by (auto simp: session_step_get)
      with 2 media_at_tools show ?thesis by (auto intro: media_envelope)
    next
      case False
      with 2 show ?thesis by (auto simp: session_step_get intro: media_envelope)
    qed
  qed
qed

text \<open>The tools of a body that may stay, and a body all of whose tools may.\<close>

definition tools_clean :: "delegated_fetch_policy \<Rightarrow> json \<Rightarrow> bool" where
  "tools_clean policy body \<longleftrightarrow>
     (\<forall>ts t. jget body ''tools'' = Some (JArr ts) \<longrightarrow> t \<in> set ts \<longrightarrow> hosted_type policy t = None)"

lemma tools_step_clean: "tools_clean policy (fst (sanitize_server_tools policy p body))"
  by (auto simp: tools_clean_def tools_step_get split: option.splits json.splits)

lemma tools_step_id:
  assumes "tools_clean policy body"
  shows "sanitize_server_tools policy p body = (body, [])"
proof (cases "Option.bind (jget body ''tools'') as_array")
  case None
  then show ?thesis by (simp add: sanitize_server_tools_def strip_tools_of_def normalize_tool_choice_def)
next
  case (Some ts)
  then have ts: "jget body ''tools'' = Some (JArr ts)" by (auto simp: bind_eq_Some_conv)
  with assms have n: "\<forall>t \<in> set ts. hosted_type policy t = None" by (simp add: tools_clean_def)
  then have "filter (\<lambda>t. hosted_type policy t = None) ts = ts" "List.map_filter (hosted_type policy) ts = []"
    by (auto simp: List.map_filter_def filter_id_conv)
  moreover have "\<forall>ix \<in> set (enumerate 0 ts). hosted_type policy (snd ix) = None"
    using n by (auto simp: in_set_enumerate_eq)
  ultimately show ?thesis using Some ts
    by (auto simp: sanitize_server_tools_def strip_tools_of_def strip_server_tools_from_array_def
        normalize_tool_choice_def set_field_id case_prod_beta)
qed

lemma tools_step_silent:
  assumes "snd (sanitize_server_tools policy p body) = []"
  shows "fst (sanitize_server_tools policy p body) = body"
proof -
  obtain b removed s where st: "strip_tools_of policy p body = (b, removed, s)" by (cases "strip_tools_of policy p body") auto
  with assms have "s = []" by (simp add: sanitize_server_tools_def case_prod_beta)
  have "tools_clean policy body" unfolding tools_clean_def
  proof (intro allI impI)
    fix ts t assume ts: "jget body ''tools'' = Some (JArr ts)" and t: "t \<in> set ts"
    from t obtain i where "i < length ts" "ts ! i = t" by (auto simp: in_set_conv_nth)
    then have "(i, t) \<in> set (enumerate 0 ts)" by (auto simp: in_set_enumerate_eq)
    with st ts \<open>s = []\<close> show "hosted_type policy t = None"
      by (fastforce simp: strip_tools_of_def strip_server_tools_from_array_def split: option.splits)
  qed
  then show ?thesis by (simp add: tools_step_id)
qed

lemma session_step_silent:
  assumes "snd (sanitize_realtime_session_update policy body) = []"
  shows "fst (sanitize_realtime_session_update policy body) = body"
proof (cases "jget body ''session''")
  case None
  then show ?thesis by (simp add: sanitize_realtime_session_update_def)
next
  case (Some session)
  with assms tools_step_silent [of policy "''/session/tools''" session] show ?thesis
    by (simp add: sanitize_realtime_session_update_def case_prod_beta set_field_id)
qed

subsection \<open>Properties\<close>

lemma sanitize_steps:
  "sanitize uh policy body =
     (let m = (if \<not> allow_remote_content policy then sanitize_remote_media uh (depth body) [] body else (body, []));
          t = sanitize_server_tools policy ''/tools'' (fst m);
          s = (if str_field (fst t) ''type'' = Some ''session.update''
               then sanitize_realtime_session_update policy (fst t) else (fst t, []))
      in (fst s, snd m @ snd t @ snd s))"
  by (simp add: sanitize_def Let_def case_prod_beta)

lemma sanitize_media:
  assumes "\<not> allow_remote_content policy" and "media_at (fst (sanitize uh policy body)) x"
  shows "remote_media_references x = []"
proof -
  let ?m = "fst (sanitize_remote_media uh (depth body) [] body)"
  let ?t = "fst (sanitize_server_tools policy ''/tools'' ?m)"
  from assms have "media_at ?t x \<or> media_at (fst (sanitize_realtime_session_update policy ?t)) x"
    by (auto simp: sanitize_steps Let_def split: if_splits)
  then have "media_at ?t x" using media_at_session by blast
  then have "media_at ?m x" by (rule media_at_tools)
  with remote_media_clean [of body "depth body"] show ?thesis by blast
qed

lemma sanitize_type:
  "str_field (fst (sanitize uh policy body)) ''type'' =
     str_field (fst (sanitize_server_tools policy ''/tools''
       (if allow_remote_content policy then body else fst (sanitize_remote_media uh (depth body) [] body)))) ''type''"
  by (auto simp: sanitize_steps Let_def str_field_def session_step_get)

lemma envelope_fields_frame:
  "k \<notin> set names \<Longrightarrow> jget (fst (foldl (\<lambda>bs k. envelope_field f p k bs) bs names)) k = jget (fst bs) k"
  by (induction names arbitrary: bs) (auto simp: envelope_field_def case_prod_beta split: option.split)

lemma remote_media_frame:
  assumes "k \<notin> set media_fields" and "k \<notin> set envelope_fields"
  shows "jget (fst (sanitize_remote_media uh n p body)) k = jget body k"
proof (cases n)
  case (Suc m)
  have "distinct media_fields" by (simp add: media_fields_def)
  with assms Suc show ?thesis by (simp add: envelope_fields_frame media_arrays_get)
qed simp

text \<open>The sanitiser touches no other field of a body.\<close>

lemma sanitize_frame:
  assumes "k \<notin> set media_fields" and "k \<notin> set envelope_fields" and "k \<noteq> ''tools''" and "k \<noteq> ''tool_choice''"
  shows "jget (fst (sanitize uh policy body)) k = jget body k"
proof -
  have "k \<noteq> ''session''" using assms(2) by (auto simp: envelope_fields_def)
  with assms show ?thesis
    by (auto simp: sanitize_steps Let_def session_step_get tools_step_get remote_media_frame)
qed

lemma sanitize_tools: "tools_clean policy (fst (sanitize uh policy body))"
  using tools_step_clean [of policy "''/tools''"]
  by (auto simp: sanitize_steps Let_def tools_clean_def session_step_get)

lemma sanitize_session_tools:
  assumes "str_field (fst (sanitize uh policy body)) ''type'' = Some ''session.update''"
    and "jget (fst (sanitize uh policy body)) ''session'' = Some session"
  shows "tools_clean policy session"
  using assms sanitize_type [of uh policy body] tools_step_clean [of policy "''/session/tools''"]
  by (auto simp: sanitize_steps Let_def session_step_get split: if_splits)

text \<open>
  Claim C5. Without permission no remote content leaves: in the sanitised body, and in every
  envelope and every nested message or tool result of it, no item at a place where the protocols
  put media refers to anything but inline data.
\<close>

theorem no_remote_content_leaves:
  assumes "\<not> allow_remote_content policy" and "media_at (fst (sanitize url_host policy body)) x"
  shows "remote_media_references x = []"
  using assms by (rule sanitize_media)

definition no_fetch :: delegated_fetch_policy where
  "no_fetch = \<lparr>allow_remote_content = False, allowed_server_tools = [''web_search'']\<rparr>"

definition image_item :: "string \<Rightarrow> json" where
  "image_item url = JObj [(''image_url'', JObj [(''url'', JStr url)]), (''type'', JStr ''image_url'')]"

definition chat_body :: json where
  "chat_body = JObj
     [(''messages'', JArr [JObj [(''content'', JArr [image_item ''http://x/'', image_item ''data:,a''])]]),
      (''tool_choice'', JStr ''code_interpreter''),
      (''tools'', JArr [JObj [(''type'', JStr ''code_interpreter'')], JObj [(''type'', JStr ''Web_Search'')]])]"

definition chat_clean :: json where
  "chat_clean = JObj
     [(''messages'', JArr [JObj [(''content'', JArr [image_item ''data:,a''])]]),
      (''tool_choice'', JStr ''auto''),
      (''tools'', JArr [JObj [(''type'', JStr ''Web_Search'')]])]"

lemma chat_sanitized: "fst (sanitize (\<lambda>_. None) no_fetch chat_body) = chat_clean"
  by code_simp

theorem no_remote_content_leaves_witness:
  "remote_media_references (image_item ''data:,a'') = []"
proof -
  have p: "\<not> allow_remote_content no_fetch" by (simp add: no_fetch_def)
  let ?msg = "JObj [(''content'', JArr [image_item ''data:,a''])]"
  have "container ?msg" by (simp add: container_def str_field_def)
  then have "inside ?msg (image_item ''data:,a'')"
    by (rule inside_nested [where k = "''content''"]) (auto intro: inside_self)
  then have "media_at (fst (sanitize (\<lambda>_. None) no_fetch chat_body)) (image_item ''data:,a'')"
    unfolding chat_sanitized
    by (rule media_direct [where k = "''messages''" and x = ?msg and xs = "[?msg]", rotated 3])
      (auto simp: chat_clean_def media_fields_def)
  from no_remote_content_leaves [OF p this] show ?thesis .
qed

text \<open>
  Claim C22. No hosted tool leaves unless it is allowed: every tool of the sanitised body that has a
  type is a function or custom tool, or its type is on the allow list, in any letter case; and the
  same holds for the tools of the session in a realtime session update.
\<close>

theorem no_unallowed_hosted_tool_leaves:
  assumes "body' = fst (sanitize url_host policy body)"
    and "jget b ''tools'' = Some (JArr tools)" and "tool \<in> set tools" and "str_field tool ''type'' = Some ty"
    and "b = body' \<or> str_field body' ''type'' = Some ''session.update'' \<and> jget body' ''session'' = Some b"
  shows "eq_ignore_case ty ''function'' \<or> eq_ignore_case ty ''custom'' \<or>
     (\<exists>a \<in> set (allowed_server_tools policy). eq_ignore_case ty a)"
proof -
  have "tools_clean policy b" using assms(1,5) sanitize_tools sanitize_session_tools by blast
  with assms have "hosted_type policy tool = None" unfolding tools_clean_def by blast
  with assms(4) show ?thesis
    by (auto simp: hosted_type_def is_server_side_tool_def eq_ignore_case_def split: if_splits)
qed

theorem no_unallowed_hosted_tool_leaves_witness:
  "eq_ignore_case ''Web_Search'' ''function'' \<or> eq_ignore_case ''Web_Search'' ''custom'' \<or>
     (\<exists>a \<in> set (allowed_server_tools no_fetch). eq_ignore_case ''Web_Search'' a)"
proof -
  have t: "jget chat_clean ''tools'' = Some (JArr [JObj [(''type'', JStr ''Web_Search'')]])"
    by (simp add: chat_clean_def)
  show ?thesis
    by (rule no_unallowed_hosted_tool_leaves [OF chat_sanitized [symmetric] t,
          where tool = "JObj [(''type'', JStr ''Web_Search'')]"])
      (auto simp: str_field_def)
qed

text \<open>
  Sanitising is conservative: if it reports nothing, the body that leaves is the body that
  came, whatever else it holds.
\<close>

theorem unreported_body_unchanged:
  assumes "snd (sanitize url_host policy body) = []"
  shows "fst (sanitize url_host policy body) = body"
proof -
  let ?m = "if \<not> allow_remote_content policy then sanitize_remote_media url_host (depth body) [] body else (body, [])"
  let ?t = "sanitize_server_tools policy ''/tools'' (fst ?m)"
  let ?s = "if str_field (fst ?t) ''type'' = Some ''session.update''
    then sanitize_realtime_session_update policy (fst ?t) else (fst ?t, [])"
  have e: "snd ?m = []" "snd ?t = []" "snd ?s = []" using assms by (simp_all add: sanitize_steps Let_def)
  have "fst ?m = body" using e(1) remote_media_silent by auto
  moreover have "fst ?t = fst ?m" by (rule tools_step_silent [OF e(2)])
  moreover have "fst ?s = fst ?t" using e(3) session_step_silent by (auto split: if_splits)
  ultimately show ?thesis by (simp add: sanitize_steps Let_def)
qed

theorem unreported_body_unchanged_witness:
  "fst (sanitize (\<lambda>_. None) no_fetch chat_clean) = chat_clean"
proof -
  have "snd (sanitize (\<lambda>_. None) no_fetch chat_clean) = []" by code_simp
  then show ?thesis by (rule unreported_body_unchanged)
qed

text \<open>
  Sanitising once is enough: a second pass over what it returns, under the same policy,
  removes and reports nothing.
\<close>

theorem sanitize_idempotent:
  "sanitize url_host policy (fst (sanitize url_host policy body)) = (fst (sanitize url_host policy body), [])"
proof -
  let ?b = "fst (sanitize url_host policy body)"
  have m: "(if \<not> allow_remote_content policy then sanitize_remote_media url_host (depth ?b) [] ?b else (?b, [])) = (?b, [])"
    using remote_media_id [of ?b] sanitize_media by auto
  have t: "sanitize_server_tools policy ''/tools'' ?b = (?b, [])" by (rule tools_step_id [OF sanitize_tools])
  have s: "sanitize_realtime_session_update policy ?b = (?b, [])"
    if "str_field ?b ''type'' = Some ''session.update''"
    using tools_step_id [OF sanitize_session_tools [OF that]]
    by (auto simp: sanitize_realtime_session_update_def set_field_id split: option.split)
  show ?thesis
    by (subst sanitize_steps) (simp add: m t s Let_def)
qed

end
