(* ===== verification/Availability.thy ===== *)
theory Availability
  imports Json
begin

section \<open>Model availability (src/src/availability.rs and src/src/prober.rs)\<close>

text \<open>
  Models of a provider can be deactivated by an operator, by fleet maintenance or by the probe of a
  local runtime. The deactivations are kept per provider and model, in key order, with the outcome
  of the last probe of each provider, and are written to a file after a change. The file is part of
  the state here: \<open>None\<close> when there is no path, otherwise what it holds. Writing it is best
  effort, and whether it succeeds is an argument. Every operation reads the clock once.
\<close>

type_synonym time = int

record deactivation =
  da_reason :: "string option"
  da_until :: "time option"
  da_set_by :: string
  da_set_at :: time

definition expired :: "time \<Rightarrow> deactivation \<Rightarrow> bool" where
  "expired now d = (case da_until d of Some until \<Rightarrow> until \<le> now | None \<Rightarrow> False)"

record probe_status =
  ps_at :: time
  ps_ok :: bool
  ps_error :: "string option"
  ps_served :: "string list"

type_synonym 'v omap = "(string \<times> 'v) list"
type_synonym entries = "deactivation omap omap"

record persisted =
  pd_deactivations :: entries
  pd_probe :: "probe_status omap"

record availability =
  av_entries :: entries
  av_probe :: "probe_status omap"
  av_file :: "persisted option"

fun omap_remove :: "string \<Rightarrow> 'v omap \<Rightarrow> 'v omap" where
  "omap_remove k [] = []"
| "omap_remove k ((k', v) # m) = (if k = k' then omap_remove k m else (k', v) # omap_remove k m)"

lemma map_of_omap_remove [simp]: "map_of (omap_remove k m) = (map_of m)(k := None)"
  by (induction m) (auto simp: fun_eq_iff)

text \<open>The models deactivated on a provider; none when the provider has no entry.\<close>

definition slot :: "entries \<Rightarrow> string \<Rightarrow> deactivation omap" where
  "slot es provider = (case map_of es provider of Some s \<Rightarrow> s | None \<Rightarrow> [])"

definition persist :: "bool \<Rightarrow> availability \<Rightarrow> availability" where
  "persist io_ok av =
     (if io_ok \<and> av_file av \<noteq> None
      then av\<lparr>av_file := Some \<lparr>pd_deactivations = av_entries av, pd_probe = av_probe av\<rparr>\<rparr> else av)"

text \<open>Starting from what a file holds; an unreadable file is the empty state.\<close>

definition load :: "persisted option option \<Rightarrow> availability" where
  "load file =
     (case file of
        None \<Rightarrow> \<lparr>av_entries = [], av_probe = [], av_file = None\<rparr>
      | Some content \<Rightarrow>
          (let p = (case content of Some p \<Rightarrow> p | None \<Rightarrow> \<lparr>pd_deactivations = [], pd_probe = []\<rparr>)
           in \<lparr>av_entries = pd_deactivations p, av_probe = pd_probe p, av_file = Some p\<rparr>))"

definition unavailable ::
    "time \<Rightarrow> string \<Rightarrow> string \<Rightarrow> availability \<Rightarrow> (string option \<times> time option \<times> string) option" where
  "unavailable now provider model av =
     Option.bind (Option.bind (map_of (av_entries av) provider) (\<lambda>s. map_of s model))
       (\<lambda>d. if \<not> expired now d then Some (da_reason d, da_until d, da_set_by d) else None)"

definition snapshot :: "time \<Rightarrow> availability \<Rightarrow> entries" where
  "snapshot now av =
     filter (\<lambda>(p, ms). ms \<noteq> [])
       (map (\<lambda>(p, ms). (p, filter (\<lambda>(m, d). \<not> expired now d) ms)) (av_entries av))"

definition deactivate_one :: "deactivation \<Rightarrow> string \<Rightarrow> nat \<times> deactivation omap \<Rightarrow> nat \<times> deactivation omap" where
  "deactivate_one d model cs =
     (case cs of (changed, s) \<Rightarrow>
        (if map_of s model \<noteq> Some d then changed + 1 else changed, obj_insert model d s))"

definition deactivate ::
    "bool \<Rightarrow> time \<Rightarrow> string \<Rightarrow> string list \<Rightarrow> string option \<Rightarrow> time option \<Rightarrow> string \<Rightarrow> availability \<Rightarrow>
     nat \<times> availability" where
  "deactivate io_ok now provider models reason until set_by av =
     (let d = \<lparr>da_reason = reason, da_until = until, da_set_by = set_by, da_set_at = now\<rparr>;
          (changed, s) = foldl (\<lambda>cs model. deactivate_one d model cs) (0, slot (av_entries av) provider) models;
          av' = av\<lparr>av_entries := obj_insert provider s (av_entries av)\<rparr>
      in (changed, if changed > 0 then persist io_ok av' else av'))"

definition remove_one :: "string \<Rightarrow> nat \<times> deactivation omap \<Rightarrow> nat \<times> deactivation omap" where
  "remove_one model cs =
     (case cs of (changed, s) \<Rightarrow>
        (changed + (if map_of s model \<noteq> None then 1 else 0), omap_remove model s))"

definition activate ::
    "bool \<Rightarrow> string \<Rightarrow> string list option \<Rightarrow> availability \<Rightarrow> nat \<times> availability" where
  "activate io_ok provider models av =
     (case map_of (av_entries av) provider of
        None \<Rightarrow> (0, av)
      | Some s0 \<Rightarrow>
          let (changed, s) = (case models of
                Some ms \<Rightarrow> foldl (\<lambda>cs model. remove_one model cs) (0, s0) ms
              | None \<Rightarrow> (length s0, []));
              av' = av\<lparr>av_entries := (if s = [] then omap_remove provider (av_entries av)
                                     else obj_insert provider s (av_entries av))\<rparr>
          in (changed, if changed > 0 then persist io_ok av' else av'))"

definition replace_active ::
    "bool \<Rightarrow> time \<Rightarrow> string \<Rightarrow> string list \<Rightarrow> string list \<Rightarrow> string option \<Rightarrow> time option \<Rightarrow> string \<Rightarrow>
     availability \<Rightarrow> nat \<times> availability" where
  "replace_active io_ok now provider active universe reason until set_by av =
     (let deactivated = filter (\<lambda>model. model \<notin> set active) universe;
          (changed, av1) = deactivate io_ok now provider deactivated reason until set_by av
      in (case map_of (av_entries av1) provider of
            None \<Rightarrow> (changed, av1)
          | Some s0 \<Rightarrow>
              let (activated, s) = foldl (\<lambda>cs model. remove_one model cs) (0, s0) active;
                  av2 = av1\<lparr>av_entries := obj_insert provider s (av_entries av1)\<rparr>
              in (changed + activated, if activated > 0 then persist io_ok av2 else av2)))"

definition probe_name :: string where
  "probe_name = ''probe''"

definition probe_deactivate ::
    "time \<Rightarrow> string \<Rightarrow> string list \<Rightarrow> string \<Rightarrow> nat \<times> deactivation omap \<Rightarrow> nat \<times> deactivation omap" where
  "probe_deactivate now reason served model cs =
     (case cs of (deactivated, s) \<Rightarrow>
        if model \<in> set served then (deactivated, s)
        else
          let probe_managed = (case map_of s model of None \<Rightarrow> True | Some e \<Rightarrow> da_set_by e = probe_name);
              d = \<lparr>da_reason = Some reason, da_until = None, da_set_by = probe_name, da_set_at = now\<rparr>
          in if probe_managed \<and> map_of s model \<noteq> Some d
             then (deactivated + 1, obj_insert model d s) else (deactivated, s))"

definition probe_reactivate :: "string \<Rightarrow> nat \<times> deactivation omap \<Rightarrow> nat \<times> deactivation omap" where
  "probe_reactivate model cs =
     (case cs of (reactivated, s) \<Rightarrow>
        (reactivated + (case map_of s model of
             Some e \<Rightarrow> if da_set_by e = probe_name then 1 else 0 | None \<Rightarrow> 0),
         omap_remove model s))"

definition probe_reason :: "string option \<Rightarrow> string" where
  "probe_reason error =
     (case error of
        None \<Rightarrow> ''Not served by the runtime (availability probe)''
      | Some e \<Rightarrow> ''Runtime did not answer its model list: '' @ e)"

text \<open>
  Folding one probe result into the store. The state is written only when another task changed it
  between the update and the comparison: \<open>meanwhile\<close> is what others did to it in between.
\<close>

definition apply_probe ::
    "bool \<Rightarrow> time \<Rightarrow> (availability \<Rightarrow> availability) \<Rightarrow> string \<Rightarrow> string list \<Rightarrow> string list \<Rightarrow> string option \<Rightarrow>
     availability \<Rightarrow> (nat \<times> nat) \<times> availability" where
  "apply_probe io_ok now meanwhile provider served universe error av =
     (let (deactivated, s1) = foldl (\<lambda>cs model. probe_deactivate now (probe_reason error) served model cs)
            (0, slot (av_entries av) provider) universe;
          (reactivated, s2) = foldl (\<lambda>cs model. probe_reactivate model cs) (0, s1) served;
          entries' = (if s2 = [] then omap_remove provider (av_entries av)
                      else obj_insert provider s2 (av_entries av));
          status = \<lparr>ps_at = now, ps_ok = (error = None), ps_error = error, ps_served = served\<rparr>;
          av' = av\<lparr>av_entries := entries', av_probe := obj_insert provider status (av_probe av)\<rparr>;
          current = meanwhile av'
      in ((deactivated, reactivated),
          if (av_entries current, av_probe current) \<noteq> (av_entries av', av_probe av')
          then persist io_ok current else current))"

definition last_served :: "string \<Rightarrow> availability \<Rightarrow> string list" where
  "last_served provider av = (case map_of (av_probe av) provider of Some s \<Rightarrow> ps_served s | None \<Rightarrow> [])"

text \<open>The models a probe is about (prober.rs).\<close>

definition probe_universe :: "availability \<Rightarrow> string \<Rightarrow> string list \<Rightarrow> string list \<Rightarrow> string list" where
  "probe_universe av provider configured served =
     (if configured \<noteq> [] then configured
      else sort (remdups (last_served provider av @ served)))"

definition probe_round ::
    "bool \<Rightarrow> time \<Rightarrow> (availability \<Rightarrow> availability) \<Rightarrow> string \<Rightarrow> string list \<Rightarrow> (string + string list) \<Rightarrow>
     availability \<Rightarrow> (nat \<times> nat) \<times> availability" where
  "probe_round io_ok now meanwhile provider configured served av =
     (let universe = probe_universe av provider configured
            (case served of Inr ms \<Rightarrow> ms | Inl _ \<Rightarrow> [])
      in (case served of
            Inr ms \<Rightarrow> apply_probe io_ok now meanwhile provider ms universe None av
          | Inl e \<Rightarrow> apply_probe io_ok now meanwhile provider [] universe (Some e) av))"

subsection \<open>What each operation does to the deactivation of a model\<close>

definition entry :: "availability \<Rightarrow> string \<Rightarrow> string \<Rightarrow> deactivation option" where
  "entry av provider model = Option.bind (map_of (av_entries av) provider) (\<lambda>s. map_of s model)"

lemma unavailable_entry:
  "unavailable now provider model av =
     Option.bind (entry av provider model)
       (\<lambda>d. if \<not> expired now d then Some (da_reason d, da_until d, da_set_by d) else None)"
  by (simp add: unavailable_def entry_def)

lemma unavailable_None_iff:
  "unavailable now provider model av = None \<longleftrightarrow> (\<forall>d. entry av provider model = Some d \<longrightarrow> expired now d)"
  by (auto simp: unavailable_entry split: bind_splits)

lemma entry_slot: "entry av provider model = map_of (slot (av_entries av) provider) model"
  by (simp add: entry_def slot_def split: option.split)

lemma entry_persist [simp]: "entry (persist io_ok av) = entry av"
  by (simp add: persist_def entry_def fun_eq_iff)

lemma entry_insert [simp]:
  "entry (av\<lparr>av_entries := obj_insert p s (av_entries av)\<rparr>) p' m = (if p' = p then map_of s m else entry av p' m)"
  by (simp add: entry_def)

lemma entry_remove [simp]:
  "entry (av\<lparr>av_entries := omap_remove p (av_entries av)\<rparr>) p' m = (if p' = p then None else entry av p' m)"
  by (simp add: entry_def)

lemma deactivate_fold:
  "map_of (snd (foldl (\<lambda>cs model. deactivate_one d model cs) (n, s) ms)) m =
     (if m \<in> set ms then Some d else map_of s m)"
  by (induction ms arbitrary: n s) (simp_all add: deactivate_one_def)

lemma deactivate_count_mono: "n \<le> fst (foldl (\<lambda>cs model. deactivate_one d model cs) (n, s) ms)"
proof (induction ms arbitrary: n s)
  case (Cons k ms)
  show ?case
    using Cons.IH [of n "obj_insert k d s"] Cons.IH [of "Suc n" "obj_insert k d s"]
    by (cases "map_of s k = Some d") (simp_all add: deactivate_one_def)
qed simp

lemma deactivate_unchanged:
  "fst (foldl (\<lambda>cs model. deactivate_one d model cs) (n, s) ms) = n \<Longrightarrow> m \<in> set ms \<Longrightarrow> map_of s m = Some d"
proof (induction ms arbitrary: s)
  case (Cons k ms)
  have k: "map_of s k = Some d"
  proof (rule ccontr)
    assume "map_of s k \<noteq> Some d"
    with Cons.prems(1) deactivate_count_mono [of "Suc n" d "obj_insert k d s" ms] show False
      by (simp add: deactivate_one_def)
  qed
  with Cons.prems(1) have "fst (foldl (\<lambda>cs model. deactivate_one d model cs) (n, obj_insert k d s) ms) = n"
    by (simp add: deactivate_one_def)
  from Cons.IH [OF this] Cons.prems(2) k show ?case by (cases "m = k") auto
qed simp

lemma remove_fold:
  "map_of (snd (foldl (\<lambda>cs model. remove_one model cs) (n, s) ms)) m =
     (if m \<in> set ms then None else map_of s m)"
  by (induction ms arbitrary: n s) (simp_all add: remove_one_def)

lemma remove_count_mono: "n \<le> fst (foldl (\<lambda>cs model. remove_one model cs) (n, s) ms)"
proof (induction ms arbitrary: n s)
  case (Cons k ms)
  show ?case
    using Cons.IH [of n "omap_remove k s"] Cons.IH [of "Suc n" "omap_remove k s"]
    by (cases "map_of s k") (simp_all add: remove_one_def)
qed simp

lemma remove_unchanged:
  "fst (foldl (\<lambda>cs model. remove_one model cs) (n, s) ms) = n \<Longrightarrow> m \<in> set ms \<Longrightarrow> map_of s m = None"
proof (induction ms arbitrary: s)
  case (Cons k ms)
  have k: "map_of s k = None"
  proof (rule ccontr)
    assume "map_of s k \<noteq> None"
    with Cons.prems(1) remove_count_mono [of "Suc n" "omap_remove k s" ms] show False
      by (simp add: remove_one_def)
  qed
  with Cons.prems(1) have "fst (foldl (\<lambda>cs model. remove_one model cs) (n, omap_remove k s) ms) = n"
    by (simp add: remove_one_def)
  from Cons.IH [OF this] Cons.prems(2) k show ?case by (cases "m = k") auto
qed simp

lemma entry_deactivate:
  "entry (snd (deactivate io_ok now p ms reason until by av)) p' m =
     (if p' = p \<and> m \<in> set ms
      then Some \<lparr>da_reason = reason, da_until = until, da_set_by = by, da_set_at = now\<rparr> else entry av p' m)"
  by (auto simp: deactivate_def Let_def case_prod_beta deactivate_fold entry_slot [symmetric])

lemma entry_activate:
  "entry (snd (activate io_ok p models av)) p' m =
     (if p' = p \<and> (case models of None \<Rightarrow> True | Some ms \<Rightarrow> m \<in> set ms) then None else entry av p' m)"
proof (cases "map_of (av_entries av) p")
  case None
  then show ?thesis by (auto simp: activate_def entry_def)
next
  case (Some s)
  then have s: "entry av p = map_of s" by (simp add: entry_def fun_eq_iff)
  show ?thesis
  proof (cases models)
    case None
    with Some show ?thesis by (simp add: activate_def Let_def)
  next
    case (Some ms)
    let ?f = "foldl (\<lambda>cs model. remove_one model cs) (0, s) ms"
    have "snd ?f = [] \<Longrightarrow> (if m \<in> set ms then None else map_of s m) = None"
      using remove_fold [of 0 s ms m] by simp
    with Some \<open>map_of (av_entries av) p = Some s\<close> s show ?thesis
      by (auto simp: activate_def Let_def case_prod_beta remove_fold split: if_splits)
  qed
qed

lemma entry_replace_active:
  "entry (snd (replace_active io_ok now p active universe reason until by av)) p' m =
     (if p' = p \<and> m \<in> set active then None
      else if p' = p \<and> m \<in> set universe
      then Some \<lparr>da_reason = reason, da_until = until, da_set_by = by, da_set_at = now\<rparr>
      else entry av p' m)"
proof -
  let ?d = "deactivate io_ok now p (filter (\<lambda>model. model \<notin> set active) universe) reason until by av"
  have e: "entry (snd ?d) p' m' = (if p' = p \<and> m' \<in> set universe - set active
      then Some \<lparr>da_reason = reason, da_until = until, da_set_by = by, da_set_at = now\<rparr> else entry av p' m')" for p' m'
    by (auto simp: entry_deactivate)
  have "map_of (av_entries (snd ?d)) p \<noteq> None"
    by (auto simp: deactivate_def Let_def case_prod_beta persist_def)
  then obtain s where s: "map_of (av_entries (snd ?d)) p = Some s" by auto
  then have "entry (snd ?d) p = map_of s" by (simp add: entry_def fun_eq_iff)
  then have ms: "map_of s m' = (if m' \<in> set universe - set active
      then Some \<lparr>da_reason = reason, da_until = until, da_set_by = by, da_set_at = now\<rparr> else entry av p m')" for m'
    using e [of p m'] by simp
  show ?thesis using s e [of p' m]
    by (auto simp: replace_active_def Let_def case_prod_beta remove_fold ms)
qed

lemma probe_deactivate_fold:
  "map_of (snd (foldl (\<lambda>cs model. probe_deactivate now r served model cs) (n, s) ms)) m =
     (if m \<in> set ms \<and> m \<notin> set served \<and> (\<forall>e. map_of s m = Some e \<longrightarrow> da_set_by e = probe_name)
      then Some \<lparr>da_reason = Some r, da_until = None, da_set_by = probe_name, da_set_at = now\<rparr> else map_of s m)"
  by (induction ms arbitrary: n s)
    (auto simp: probe_deactivate_def Let_def split: option.splits if_splits)

lemma probe_reactivate_fold:
  "map_of (snd (foldl (\<lambda>cs model. probe_reactivate model cs) (n, s) ms)) m =
     (if m \<in> set ms then None else map_of s m)"
  by (induction ms arbitrary: n s) (simp_all add: probe_reactivate_def)

lemma entry_probe_field [simp]: "entry (av\<lparr>av_probe := x\<rparr>) = entry av"
  by (simp add: entry_def fun_eq_iff)

lemma entry_apply_probe:
  "entry (snd (apply_probe io_ok now (\<lambda>av. av) p served universe error av)) p' m =
     (if p' = p \<and> m \<in> set served then None
      else if p' = p \<and> m \<in> set universe \<and> (\<forall>e. entry av p m = Some e \<longrightarrow> da_set_by e = probe_name)
      then Some \<lparr>da_reason = Some (probe_reason error), da_until = None, da_set_by = probe_name, da_set_at = now\<rparr>
      else entry av p' m)"
proof -
  let ?s1 = "foldl (\<lambda>cs model. probe_deactivate now (probe_reason error) served model cs) (0, slot (av_entries av) p) universe"
  let ?s2 = "foldl (\<lambda>cs model. probe_reactivate model cs) (0, snd ?s1) served"
  have ms: "map_of (snd ?s2) m = (if m \<in> set served then None
      else if m \<in> set universe \<and> (\<forall>e. entry av p m = Some e \<longrightarrow> da_set_by e = probe_name)
      then Some \<lparr>da_reason = Some (probe_reason error), da_until = None, da_set_by = probe_name, da_set_at = now\<rparr>
      else entry av p m)" for m
    by (auto simp: probe_reactivate_fold probe_deactivate_fold entry_slot)
  have "entry (snd (apply_probe io_ok now (\<lambda>av. av) p served universe error av)) p' m =
      (if p' = p then map_of (snd ?s2) m else entry av p' m)"
    by (simp add: apply_probe_def Let_def case_prod_beta entry_def)
  then show ?thesis by (auto simp: ms)
qed

subsection \<open>Restarting\<close>

datatype admin_op =
    Deactivate time string "string list" "string option" "time option" string
  | Activate string "string list option"
  | ReplaceActive time string "string list" "string list" "string option" "time option" string

fun admin_step :: "availability \<Rightarrow> bool \<times> admin_op \<Rightarrow> availability" where
  "admin_step av (io_ok, Deactivate now p ms reason until by) = snd (deactivate io_ok now p ms reason until by av)"
| "admin_step av (io_ok, Activate p ms) = snd (activate io_ok p ms av)"
| "admin_step av (io_ok, ReplaceActive now p active universe reason until by) =
     snd (replace_active io_ok now p active universe reason until by av)"

text \<open>What the file holds answers like the memory.\<close>

definition restarted :: "availability \<Rightarrow> availability" where
  "restarted av = load (map_option Some (av_file av))"

definition in_sync :: "availability \<Rightarrow> bool" where
  "in_sync av \<longleftrightarrow> av_file av \<noteq> None \<and> entry (restarted av) = entry av"

lemma in_sync_persist:
  "av_file av \<noteq> None \<Longrightarrow> in_sync (persist True av)"
  by (auto simp: in_sync_def restarted_def persist_def load_def entry_def fun_eq_iff)

lemma persist_file: "av_file (persist io_ok av) \<noteq> None \<longleftrightarrow> av_file av \<noteq> None"
  by (simp add: persist_def)

lemma in_sync_same:
  "in_sync av \<Longrightarrow> av_file av' = av_file av \<Longrightarrow> entry av' = entry av \<Longrightarrow> in_sync av'"
  by (simp add: in_sync_def restarted_def)

lemma deactivate_sync:
  assumes "in_sync av"
  shows "in_sync (snd (deactivate True now p ms reason until by av))"
proof -
  let ?d = "\<lparr>da_reason = reason, da_until = until, da_set_by = by, da_set_at = now\<rparr>"
  let ?f = "foldl (\<lambda>cs model. deactivate_one ?d model cs) (0, slot (av_entries av) p) ms"
  let ?av = "av\<lparr>av_entries := obj_insert p (snd ?f) (av_entries av)\<rparr>"
  have has_file: "av_file av \<noteq> None" using assms by (simp add: in_sync_def)
  have r: "snd (deactivate True now p ms reason until by av) = (if 0 < fst ?f then persist True ?av else ?av)"
    by (simp add: deactivate_def Let_def case_prod_beta)
  show ?thesis
  proof (cases "0 < fst ?f")
    case True
    with has_file show ?thesis by (simp add: r in_sync_persist)
  next
    case False
    then have "\<forall>m \<in> set ms. map_of (slot (av_entries av) p) m = Some ?d"
      using deactivate_unchanged [of ?d 0 "slot (av_entries av) p" ms] by auto
    then have "entry ?av = entry av"
      by (auto simp: fun_eq_iff deactivate_fold entry_slot [symmetric])
    with False assms show ?thesis by (simp add: r in_sync_same)
  qed
qed

lemma remove_sync:
  assumes "in_sync av" and "map_of (av_entries av) p = Some s0"
    and "r = foldl (\<lambda>cs model. remove_one model cs) (0, s0) ms"
    and "av' = av\<lparr>av_entries := obj_insert p (snd r) (av_entries av)\<rparr> \<or>
      snd r = [] \<and> av' = av\<lparr>av_entries := omap_remove p (av_entries av)\<rparr>"
  shows "in_sync (if fst r > 0 then persist True av' else av')"
proof (cases "fst r > 0")
  case True
  have "av_file av' \<noteq> None" using assms(1,4) by (auto simp: in_sync_def)
  with True show ?thesis by (simp add: in_sync_persist)
next
  case False
  have e: "entry av p = map_of s0" using assms(2) by (simp add: entry_def fun_eq_iff)
  have "map_of (snd r) m = map_of s0 m" for m
    using False remove_unchanged [of 0 s0 ms m] by (auto simp: assms(3) remove_fold)
  with e assms(4) have "entry av' = entry av" by (auto simp: fun_eq_iff)
  moreover have "av_file av' = av_file av" using assms(4) by auto
  ultimately show ?thesis using False assms(1) by (simp add: in_sync_same)
qed

lemma activate_sync:
  assumes "in_sync av"
  shows "in_sync (snd (activate True p models av))"
proof (cases "map_of (av_entries av) p")
  case None
  with assms show ?thesis by (simp add: activate_def)
next
  case (Some s0)
  show ?thesis
  proof (cases models)
    case None
    have "entry (av\<lparr>av_entries := omap_remove p (av_entries av)\<rparr>) = entry av" if "s0 = []"
      using Some that by (auto simp: fun_eq_iff entry_def)
    then have "in_sync (av\<lparr>av_entries := omap_remove p (av_entries av)\<rparr>)" if "s0 = []"
      using that in_sync_same [OF assms] by simp
    moreover have "in_sync (persist True (av\<lparr>av_entries := omap_remove p (av_entries av)\<rparr>))"
      by (rule in_sync_persist) (use assms in \<open>simp add: in_sync_def\<close>)
    ultimately show ?thesis using Some None by (simp add: activate_def Let_def)
  next
    case models: (Some ms)
    let ?r = "foldl (\<lambda>cs model. remove_one model cs) (0, s0) ms"
    show ?thesis
      using remove_sync [OF assms Some refl, of "if snd ?r = [] then av\<lparr>av_entries := omap_remove p (av_entries av)\<rparr>
          else av\<lparr>av_entries := obj_insert p (snd ?r) (av_entries av)\<rparr>" ms] Some models
      by (auto simp: activate_def Let_def case_prod_beta split: if_splits)
  qed
qed

lemma replace_active_sync:
  assumes "in_sync av"
  shows "in_sync (snd (replace_active True now p active universe reason until by av))"
proof -
  let ?d = "deactivate True now p (filter (\<lambda>model. model \<notin> set active) universe) reason until by av"
  have d: "in_sync (snd ?d)" by (rule deactivate_sync [OF assms])
  show ?thesis
  proof (cases "map_of (av_entries (snd ?d)) p")
    case None
    with d show ?thesis by (simp add: replace_active_def Let_def case_prod_beta)
  next
    case (Some s0)
    show ?thesis
      using remove_sync [OF d Some refl, of _ active] Some
      by (simp add: replace_active_def Let_def case_prod_beta)
  qed
qed

interpretation admin: guarded_component admin_step "\<lambda>x. fst x" in_sync
proof unfold_locales
  fix x :: "bool \<times> admin_op" and s assume "fst x" "in_sync s"
  then show "in_sync (admin_step s x)"
    by (cases x; cases "snd x") (auto intro: deactivate_sync activate_sync replace_active_sync)
qed

subsection \<open>Properties\<close>

text \<open>
  An announced loadout holds: until its time to live has passed, a model configured on the
  provider is unavailable exactly when the runtime did not announce it; a model announced is
  available whoever deactivated it; and every other model keeps its state.
\<close>

theorem announced_loadout_holds:
  assumes "\<forall>u. until = Some u \<longrightarrow> now' < u"
  shows "let av' = snd (replace_active io_ok now provider active universe reason until set_by av) in
     (\<forall>m \<in> set universe. unavailable now' provider m av' = None \<longleftrightarrow> m \<in> set active) \<and>
     (\<forall>m \<in> set active. unavailable now' provider m av' = None) \<and>
     (\<forall>p m. p \<noteq> provider \<or> m \<notin> set active \<union> set universe \<longrightarrow> unavailable now' p m av' = unavailable now' p m av)"
  using assms by (auto simp: Let_def unavailable_entry entry_replace_active expired_def split: option.splits)

definition no_state :: availability where
  "no_state = load (Some None)"

theorem announced_loadout_holds_witness:
  "unavailable 50 ''rtx'' ''kimi''
     (snd (replace_active True 9 ''rtx'' [''qwen''] [''qwen'', ''kimi''] None (Some 100) ''fleet'' no_state)) \<noteq> None"
proof -
  have t: "\<forall>u. Some 100 = Some u \<longrightarrow> (50::time) < u" by simp
  from announced_loadout_holds [OF t, of True 9 "''rtx''" "[''qwen'']" "[''qwen'', ''kimi'']" None "''fleet''" no_state]
  show ?thesis by (simp add: Let_def)
qed

text \<open>
  One probe: a model of the universe that the runtime does not serve is unavailable from
  then on, a deactivation that is not the probe's own is not overwritten, and models that are
  neither served nor in the universe, and those of other providers, are untouched. (Other tasks
  doing nothing in between.)
\<close>

theorem probe_effect:
  assumes "m \<notin> set served"
  shows "let av' = snd (apply_probe io_ok now (\<lambda>av. av) provider served universe error av) in
     (\<forall>d. entry av provider m = Some d \<longrightarrow> da_set_by d \<noteq> probe_name \<longrightarrow> entry av' provider m = Some d) \<and>
     (m \<in> set universe \<longrightarrow> (\<forall>d. entry av provider m = Some d \<longrightarrow> da_set_by d = probe_name) \<longrightarrow>
        unavailable now' provider m av' = Some (Some (probe_reason error), None, probe_name)) \<and>
     (m \<notin> set universe \<longrightarrow> entry av' provider m = entry av provider m) \<and>
     (\<forall>p k. p \<noteq> provider \<longrightarrow> entry av' p k = entry av p k)"
  using assms by (auto simp: Let_def unavailable_entry entry_apply_probe expired_def)

theorem probe_effect_witness:
  "unavailable 7 ''rtx'' ''kimi''
     (snd (apply_probe True 5 (\<lambda>av. av) ''rtx'' [''qwen''] [''qwen'', ''kimi''] None no_state))
   = Some (Some (probe_reason None), None, probe_name)"
proof -
  have "''kimi'' \<notin> set [''qwen'']" by simp
  from probe_effect [OF this, of True 5 "''rtx''" "[''qwen'', ''kimi'']" None no_state 7] show ?thesis
    by (simp add: Let_def no_state_def load_def entry_def)
qed

text \<open>
  A probe resurrects what an operator disabled: whoever deactivated a model, and until
  whenever, it is available as soon as one probe finds the runtime serving it.
\<close>

theorem probe_overrides_operator:
  "unavailable now' provider m
     (snd (apply_probe io_ok now (\<lambda>av. av) provider (m # served) universe error
        (snd (deactivate io_ok t provider [m] reason until ''operator'' av)))) = None"
  by (simp add: unavailable_entry entry_apply_probe)



text \<open>
  A probe is not written to the file: unless another task changes the state in the
  instant between the probe's update and its comparison, what the probe found is lost at the next
  restart.
\<close>

theorem probe_not_persisted:
  "av_file (snd (apply_probe io_ok now (\<lambda>av. av) provider served universe error av)) = av_file av"
  by (simp add: apply_probe_def Let_def case_prod_beta)

end
