(* ===== verification/Http.thy ===== *)
theory Http
  imports Prelude
begin

section \<open>HTTP requests, responses and header maps\<close>

text \<open>
  The HTTP types of the packages the gateway is built on, as far as the modelled code reads or
  writes them. A header map is a list of names and values; names are lower case, as the package
  keeps them. \<open>HeaderMap::insert\<close> replaces all values of a name, \<open>append\<close> adds one, \<open>get\<close> reads
  the first.
\<close>

type_synonym headers = "(string \<times> string) list"

record response =
  rs_status :: u16
  rs_headers :: "(string \<times> string) list"
  rs_body :: string

definition get_header :: "string \<Rightarrow> headers \<Rightarrow> string option" where
  "get_header n hs = map_of hs n"

definition set_header :: "string \<Rightarrow> string \<Rightarrow> (string \<times> string) list \<Rightarrow> (string \<times> string) list" where
  "set_header n v hs = filter (\<lambda>(n', _). n' \<noteq> n) hs @ [(n, v)]"

definition append_header :: "string \<Rightarrow> string \<Rightarrow> headers \<Rightarrow> headers" where
  "append_header n v hs = hs @ [(n, v)]"

definition remove_header :: "string \<Rightarrow> headers \<Rightarrow> headers" where
  "remove_header n hs = filter (\<lambda>(n', _). n' \<noteq> n) hs"

lemma map_of_filter_key: "map_of (filter (\<lambda>(n, _). P n) hs) k = (if P k then map_of hs k else None)"
  by (induction hs) auto

lemma get_set_header [simp]:
  "get_header k (set_header n v hs) = (if k = n then Some v else get_header k hs)"
  by (auto simp: get_header_def set_header_def map_add_def map_of_filter_key split: option.split)

lemma get_remove_header [simp]:
  "get_header k (remove_header n hs) = (if k = n then None else get_header k hs)"
  by (simp add: get_header_def remove_header_def map_of_filter_key)

end
