(* ===== verification/Pools.thy ===== *)
theory Pools
  imports Availability Key_Types Key_Gen Http
begin

section \<open>Pools of models (src/src/pools.rs)\<close>

text \<open>
  A pool is a list of members, each a concrete model of a provider or all models of a provider. A
  request that names a pool goes to the first usable member, and on a retryable failure to the
  next. The definitions follow the request: which pool it asks for, what is known about the
  providers, which members are candidates, and the dispatch loop with its cooldowns and its memory
  of conversations. Instants are nanoseconds; the time elapsed since
  an instant is never negative, which a comparison with a positive bound does not see.

  The ordinary proxy handler that answers a single member's request is the argument \<open>handler\<close>; the
  resolution of a provider name is the argument \<open>resolve\<close>. Other requests run at the same time:
  \<open>others\<close> is what they do to the shared cooldowns and conversations before and during each attempt.
\<close>

definition reserved :: string where "reserved = ''auto''"
definition cooldown_ns :: int where "cooldown_ns = 30 * 1000000000"
definition sticky_ttl_ns :: int where "sticky_ttl_ns = 60 * 60 * 1000000000"
definition sticky_max :: nat where "sticky_max = 10000"
definition max_attempts :: nat where "max_attempts = 4"
definition probe_freshness :: int where "probe_freshness = 3"

subsection \<open>Members and the pool a request asks for\<close>

datatype member = AnyOf string | Exact string string

definition member_of :: "string \<Rightarrow> member option" where
  "member_of spec =
     (case split_once (CHR ''/'') spec of
        None \<Rightarrow> None
      | Some (provider, model) \<Rightarrow>
          if provider = [] \<or> model = [] then None
          else if model = ''*'' then Some (AnyOf provider)
          else Some (Exact provider model))"

definition member_provider :: "string \<Rightarrow> string option" where
  "member_provider spec = map_option (case_member (\<lambda>p. p) (\<lambda>p m. p)) (member_of spec)"

definition auto_prefix :: string where "auto_prefix = ''auto/''"

definition requested :: "string option \<Rightarrow> string \<Rightarrow> string option" where
  "requested pinned model =
     (case pinned of
        Some provider \<Rightarrow>
          if \<not> eq_ignore_case provider reserved then None
          else if model = [] \<or> model = ''unknown'' \<or> model = reserved then Some reserved
          else Some (case strip_prefix auto_prefix model of Some n \<Rightarrow> n | None \<Rightarrow> model)
      | None \<Rightarrow>
          if model = reserved then Some reserved
          else (case strip_prefix auto_prefix model of
                  Some n \<Rightarrow> if n \<noteq> [] then Some n else None | None \<Rightarrow> None))"

subsection \<open>What is known about the providers\<close>

record route =
  r_provider :: string
  r_model :: string

definition route_label :: "route \<Rightarrow> string" where
  "route_label r = r_provider r @ ''/'' @ r_model r"

record provider_view =
  pv_name :: string
  pv_configured :: "string list"
  pv_served :: "string list option"
  pv_unavailable :: "string set"

text \<open>What the resolution of a provider name returns of its configuration.\<close>

record resolved_provider =
  rp_name :: string
  rp_models :: "string list"
  rp_probe :: "(bool \<times> int) option"

definition probe_served :: "time \<Rightarrow> availability \<Rightarrow> resolved_provider \<Rightarrow> string list option" where
  "probe_served now av rp =
     (case rp_probe rp of
        None \<Rightarrow> None
      | Some (enabled, interval) \<Rightarrow>
          if \<not> enabled then None
          else Some (case map_of (av_probe av) (rp_name rp) of
                 None \<Rightarrow> []
               | Some status \<Rightarrow>
                   if ps_ok status \<and> 0 \<le> now - ps_at status \<and>
                      now - ps_at status \<le> interval * probe_freshness
                   then ps_served status else []))"

definition view_of ::
    "time \<Rightarrow> availability \<Rightarrow> string list \<Rightarrow> string \<Rightarrow> resolved_provider \<Rightarrow> provider_view" where
  "view_of now av members name rp =
     (let served = probe_served now av rp;
          models = rp_models rp @ (case served of Some ms \<Rightarrow> ms | None \<Rightarrow> []) @
            concat (map (\<lambda>spec. case member_of spec of
                Some (Exact p m) \<Rightarrow> if p = name then [m] else [] | _ \<Rightarrow> []) members)
      in \<lparr>pv_name = rp_name rp, pv_configured = rp_models rp, pv_served = served,
          pv_unavailable = {m \<in> set models. unavailable now (rp_name rp) m av \<noteq> None}\<rparr>)"

definition view_step ::
    "(string \<Rightarrow> resolved_provider option) \<Rightarrow> time \<Rightarrow> availability \<Rightarrow> string list \<Rightarrow>
     (string \<Rightarrow> provider_view option) \<Rightarrow> string \<Rightarrow> (string \<Rightarrow> provider_view option)" where
  "view_step resolve now av members views spec =
     (case member_provider spec of
        None \<Rightarrow> views
      | Some name \<Rightarrow>
          if views name \<noteq> None \<or> eq_ignore_case name reserved then views
          else (case resolve name of
                  None \<Rightarrow> views
                | Some rp \<Rightarrow>
                    if eq_ignore_case (rp_name rp) name
                    then views(name \<mapsto> view_of now av members name rp) else views))"

definition view ::
    "(string \<Rightarrow> resolved_provider option) \<Rightarrow> time \<Rightarrow> availability \<Rightarrow> string list \<Rightarrow>
     (string \<Rightarrow> provider_view option)" where
  "view resolve now av members = foldl (view_step resolve now av members) (\<lambda>_. None) members"

subsection \<open>Candidates\<close>

definition member_models :: "(string \<Rightarrow> provider_view option) \<Rightarrow> member \<Rightarrow> (provider_view \<times> string list) option" where
  "member_models providers m =
     (case m of
        AnyOf provider \<Rightarrow>
          (case providers provider of
             None \<Rightarrow> None
           | Some v \<Rightarrow> Some (v, case pv_served v of Some ms \<Rightarrow> ms | None \<Rightarrow> pv_configured v))
      | Exact provider model \<Rightarrow>
          (case providers provider of
             None \<Rightarrow> None
           | Some v \<Rightarrow>
               if (case pv_served v of Some served \<Rightarrow> \<not> list_ex (\<lambda>s. s = model) served | None \<Rightarrow> False)
               then None else Some (v, [model])))"

definition add_model ::
    "(route \<Rightarrow> bool) \<Rightarrow> provider_view \<Rightarrow> route list \<Rightarrow> string \<Rightarrow> route list" where
  "add_model usable v out model =
     (if model \<in> pv_unavailable v then out
      else let r = \<lparr>r_provider = pv_name v, r_model = model\<rparr>
           in if r \<notin> set out \<and> usable r then out @ [r] else out)"

definition add_member ::
    "(string \<Rightarrow> provider_view option) \<Rightarrow> (route \<Rightarrow> bool) \<Rightarrow> route list \<Rightarrow> string \<Rightarrow> route list" where
  "add_member providers usable out spec =
     (case Option.bind (member_of spec) (member_models providers) of
        None \<Rightarrow> out
      | Some (v, models) \<Rightarrow> foldl (add_model usable v) out models)"

definition candidates ::
    "string list \<Rightarrow> (string \<Rightarrow> provider_view option) \<Rightarrow> (route \<Rightarrow> bool) \<Rightarrow> route list" where
  "candidates members providers usable = foldl (add_member providers usable) [] members"

definition pick :: "route list \<Rightarrow> route option \<Rightarrow> route option" where
  "pick cands sticky =
     (case Option.bind sticky (\<lambda>r. find (\<lambda>c. c = r) cands) of
        Some r \<Rightarrow> Some r
      | None \<Rightarrow> (case cands of [] \<Rightarrow> None | c # _ \<Rightarrow> Some c))"

definition retryable :: "u16 \<Rightarrow> bool" where
  "retryable status \<longleftrightarrow> status \<in> {404, 408, 429, 500, 502, 503, 504}"

definition permits :: "(string \<Rightarrow> string \<Rightarrow> bool) \<Rightarrow> key_permissions option \<Rightarrow> route \<Rightarrow> bool" where
  "permits gm scope r =
     (case scope of
        None \<Rightarrow> True
      | Some perms \<Rightarrow> is_provider_allowed perms (r_provider r) \<and> is_model_allowed gm perms (r_model r))"

subsection \<open>Cooldowns and conversations\<close>

record pool_runtime =
  cooldown :: "route \<Rightarrow> int option"
  sticky :: "(string \<times> (route \<times> int)) list"

definition runtime_empty :: pool_runtime where
  "runtime_empty = \<lparr>cooldown = (\<lambda>_. None), sticky = []\<rparr>"

text \<open>
  \<open>cooling\<close> first drops the cooldowns that are over and then looks the route up.
\<close>

definition retain_cooldowns :: "int \<Rightarrow> pool_runtime \<Rightarrow> pool_runtime" where
  "retain_cooldowns now rt =
     rt\<lparr>cooldown := (\<lambda>r. case cooldown rt r of Some until \<Rightarrow> if now < until then Some until else None | None \<Rightarrow> None)\<rparr>"

definition cooling :: "int \<Rightarrow> route \<Rightarrow> pool_runtime \<Rightarrow> bool \<times> pool_runtime" where
  "cooling now r rt = (let rt' = retain_cooldowns now rt in (cooldown rt' r \<noteq> None, rt'))"

lemma cooling_retained:
  "now \<le> now' \<Longrightarrow> fst (cooling now' r (retain_cooldowns now rt)) = fst (cooling now' r rt)"
  by (auto simp: cooling_def retain_cooldowns_def Let_def split: option.splits)

definition cool :: "int \<Rightarrow> route \<Rightarrow> pool_runtime \<Rightarrow> pool_runtime" where
  "cool now r rt = rt\<lparr>cooldown := (cooldown rt)(r \<mapsto> now + cooldown_ns)\<rparr>"

definition sticky_route :: "int \<Rightarrow> string \<Rightarrow> pool_runtime \<Rightarrow> route option" where
  "sticky_route now key rt =
     (case map_of (sticky rt) key of
        Some (r, seen) \<Rightarrow> if now - seen < sticky_ttl_ns then Some r else None
      | None \<Rightarrow> None)"

definition remember :: "int \<Rightarrow> string \<Rightarrow> route \<Rightarrow> pool_runtime \<Rightarrow> pool_runtime" where
  "remember now key r rt =
     (let s = sticky rt;
          s1 = (if sticky_max \<le> length s
                then let live = filter (\<lambda>(_, _, seen). now - seen < sticky_ttl_ns) s
                     in if sticky_max \<le> length live then [] else live
                else s)
      in rt\<lparr>sticky := obj_insert key (r, now) s1\<rparr>)"

subsection \<open>Dispatch\<close>

record member_req =
  mr_uri :: string
  mr_headers :: "(string \<times> string) list"
  mr_body :: json

definition member_uri :: "string \<Rightarrow> string \<Rightarrow> string" where
  "member_uri path_and_query provider =
     (case strip_prefix ''/auto/'' path_and_query of
        Some rest \<Rightarrow> ''/'' @ provider @ ''/'' @ rest | None \<Rightarrow> path_and_query)"

text \<open>Header names are lower case, as the HTTP package keeps them.\<close>

definition member_request ::
    "string \<Rightarrow> (string \<times> string) list \<Rightarrow> route \<Rightarrow> json \<Rightarrow> member_req" where
  "member_request uri headers r body =
     \<lparr>mr_uri = member_uri uri (r_provider r),
      mr_headers = filter (\<lambda>(n, _). n \<noteq> ''x-provider'' \<and> n \<noteq> ''content-length'') headers,
      mr_body = body\<rparr>"

text \<open>\<open>valid_header\<close> is the HTTP package's test of a header value.\<close>

definition annotate :: "(string \<Rightarrow> bool) \<Rightarrow> string \<Rightarrow> route \<Rightarrow> response \<Rightarrow> response" where
  "annotate valid_header pool r resp =
     (let hs = rs_headers resp;
          hs1 = (if valid_header pool then set_header ''x-eavs-pool'' pool hs else hs);
          hs2 = (if valid_header (route_label r) then set_header ''x-eavs-route'' (route_label r) hs1 else hs1)
      in resp\<lparr>rs_headers := hs2\<rparr>)"

record plan =
  pl_name :: string
  pl_members :: "string list"
  pl_scope :: "key_permissions option"
  pl_views :: "string \<Rightarrow> provider_view option"
  pl_sticky_key :: "string option"
  pl_sticky :: "route option"

datatype dispatch_result = Answered response | NoAvailableModel string | DispatchPanic

text \<open>
  The state of the loop: the next attempt, the routes excluded, the last failure and the body,
  whose model each attempt overwrites. The result comes with the requests sent, in order, each
  with the status it got, and the shared state left behind.
  Cooldowns that are over are kept here, where the code drops them while it looks:
  by \<open>cooling_retained\<close> no later look sees a difference. Attempt \<open>n\<close> reads the clock and lets other
  requests act twice: before it chooses (index \<open>2 * n\<close>) and when its response is there (\<open>2 * n + 1\<close>).
\<close>

definition usable_route ::
    "(string \<Rightarrow> string \<Rightarrow> bool) \<Rightarrow> plan \<Rightarrow> int \<Rightarrow> pool_runtime \<Rightarrow> route list \<Rightarrow> route \<Rightarrow> bool" where
  "usable_route gm pl now rt excluded r \<longleftrightarrow>
     permits gm (pl_scope pl) r \<and> \<not> fst (cooling now r rt) \<and> r \<notin> set excluded"

definition finish ::
    "(string \<Rightarrow> bool) \<Rightarrow> plan \<Rightarrow> (response \<times> route) option \<Rightarrow> dispatch_result" where
  "finish valid_header pl prev =
     (case prev of
        Some (resp, r) \<Rightarrow> Answered (annotate valid_header (pl_name pl) r resp)
      | None \<Rightarrow> NoAvailableModel (pl_name pl))"

definition is_success :: "u16 \<Rightarrow> bool" where
  "is_success status \<longleftrightarrow> 200 \<le> status \<and> status < 300"

function dispatch_from ::
    "(string \<Rightarrow> string \<Rightarrow> bool) \<Rightarrow> (string \<Rightarrow> bool) \<Rightarrow> (nat \<Rightarrow> int) \<Rightarrow> (nat \<Rightarrow> pool_runtime \<Rightarrow> pool_runtime) \<Rightarrow>
     (nat \<Rightarrow> string \<Rightarrow> member_req \<Rightarrow> response) \<Rightarrow> string \<Rightarrow> (string \<times> string) list \<Rightarrow> plan \<Rightarrow>
     nat \<Rightarrow> route list \<Rightarrow> (response \<times> route) option \<Rightarrow> json \<Rightarrow> pool_runtime \<Rightarrow>
     dispatch_result \<times> (route \<times> member_req \<times> u16) list \<times> pool_runtime" where
  "dispatch_from gm vh clock others handler uri headers pl attempt excluded prev body rt0 =
     (if max_attempts \<le> attempt then (finish vh pl prev, [], rt0)
      else
        let rt = others (2 * attempt) rt0; now = clock (2 * attempt);
            cands = candidates (pl_members pl) (pl_views pl) (usable_route gm pl now rt excluded)
        in (case pick cands (pl_sticky pl) of
              None \<Rightarrow> (finish vh pl prev, [], rt)
            | Some r \<Rightarrow>
                (case index_set body ''model'' (JStr (r_model r)) of
                   None \<Rightarrow> (DispatchPanic, [], rt)
                 | Some body' \<Rightarrow>
                     let req = member_request uri headers r body';
                         resp = handler attempt (r_provider r) req;
                         status = rs_status resp;
                         rt1 = others (2 * attempt + 1) rt; now1 = clock (2 * attempt + 1)
                     in if retryable status \<and> attempt + 1 < max_attempts
                        then (case dispatch_from gm vh clock others handler uri headers pl (attempt + 1)
                                   (r # excluded) (Some (resp, r)) body' (cool now1 r rt1) of
                                (res, calls, rt') \<Rightarrow> (res, (r, req, status) # calls, rt'))
                        else (Answered (annotate vh (pl_name pl) r resp), [(r, req, status)],
                              if is_success status
                              then (case pl_sticky_key pl of Some key \<Rightarrow> remember now1 key r rt1 | None \<Rightarrow> rt1)
                              else if retryable status then cool now1 r rt1 else rt1))))"
  by pat_completeness auto
termination
  by (relation "measure (\<lambda>(gm, vh, clock, others, handler, uri, headers, pl, attempt, _). max_attempts - attempt)")
    (auto simp: max_attempts_def)

declare dispatch_from.simps [simp del]

definition dispatch where
  "dispatch gm vh clock others handler uri headers pl body rt =
     dispatch_from gm vh clock others handler uri headers pl 0 [] None body rt"

subsection \<open>The entry points\<close>

datatype serve_decision =
    PassThrough
  | UnknownPool string
  | BadPoolRequest
  | ServePool string "string list" json

text \<open>
  The decision before dispatch. \<open>parsed\<close> is the body as JSON, if it is JSON; \<open>encoded\<close> is whether
  the body is compressed.
\<close>

definition serve_decide ::
    "(string \<Rightarrow> string list option) \<Rightarrow> string option \<Rightarrow> string option \<Rightarrow> bool \<Rightarrow> json option \<Rightarrow> serve_decision" where
  "serve_decide pools path_provider header_provider encoded parsed =
     (let pinned = (case path_provider of Some p \<Rightarrow> Some p | None \<Rightarrow> header_provider)
      in if encoded \<and> path_provider = None then PassThrough
         else
           let body = (case parsed of Some j \<Rightarrow> j | None \<Rightarrow> JNull);
               model = (case str_field body ''model'' of Some m \<Rightarrow> m | None \<Rightarrow> [])
           in (case requested pinned model of
                 None \<Rightarrow> PassThrough
               | Some name \<Rightarrow>
                   (case pools name of
                      None \<Rightarrow> UnknownPool name
                    | Some members \<Rightarrow>
                        if body = JNull \<or> encoded then BadPoolRequest else ServePool name members body)))"

definition bearer :: "string option \<Rightarrow> string option" where
  "bearer authorization = Option.bind authorization (strip_prefix ''Bearer '')"

definition conversation_key :: "(string \<Rightarrow> u8 list) \<Rightarrow> string option \<Rightarrow> string \<Rightarrow> string \<Rightarrow> string" where
  "conversation_key sha256 caller name session =
     hex_encode (sha256 ((case caller of Some c \<Rightarrow> c | None \<Rightarrow> []) @ [CHR 0x00] @ name @ [CHR 0x00] @ session))"

record pool_status =
  pst_name :: string
  pst_members :: "string list"
  pst_candidates :: "string list"
  pst_pick :: "string option"

definition pool_status_of ::
    "(string \<Rightarrow> string \<Rightarrow> bool) \<Rightarrow> key_permissions \<Rightarrow> int \<Rightarrow> pool_runtime \<Rightarrow>
     (string list \<Rightarrow> string \<Rightarrow> provider_view option) \<Rightarrow> string \<times> string list \<Rightarrow> pool_status" where
  "pool_status_of gm perms now rt views pool =
     (let cands = candidates (snd pool) (views (snd pool))
            (\<lambda>r. permits gm (Some perms) r \<and> \<not> fst (cooling now r rt))
      in \<lparr>pst_name = fst pool, pst_members = snd pool, pst_candidates = map route_label cands,
          pst_pick = (case cands of [] \<Rightarrow> None | c # _ \<Rightarrow> Some (route_label c))\<rparr>)"

subsection \<open>Candidates, exactly\<close>

text \<open>The routes a member offers, given what is known about the providers.\<close>

definition offers :: "(string \<Rightarrow> provider_view option) \<Rightarrow> string \<Rightarrow> route \<Rightarrow> bool" where
  "offers providers spec r \<longleftrightarrow>
     (\<exists>v. r_provider r = pv_name v \<and> r_model r \<notin> pv_unavailable v \<and>
        ((\<exists>p. member_of spec = Some (AnyOf p) \<and> providers p = Some v \<and>
            r_model r \<in> set (case pv_served v of Some ms \<Rightarrow> ms | None \<Rightarrow> pv_configured v)) \<or>
         (\<exists>p. member_of spec = Some (Exact p (r_model r)) \<and> providers p = Some v \<and>
            (\<forall>ms. pv_served v = Some ms \<longrightarrow> r_model r \<in> set ms))))"

lemma add_model_set:
  "set (add_model usable v out m) =
     set out \<union> {r. r = \<lparr>r_provider = pv_name v, r_model = m\<rparr> \<and> m \<notin> pv_unavailable v \<and> usable r}"
  by (auto simp: add_model_def Let_def)

lemma add_model_distinct: "distinct out \<Longrightarrow> distinct (add_model usable v out m)"
  by (auto simp: add_model_def Let_def)

lemma add_models_set:
  "set (foldl (add_model usable v) out ms) =
     set out \<union> {r. r_provider r = pv_name v \<and> r_model r \<in> set ms \<and> r_model r \<notin> pv_unavailable v \<and> usable r}"
proof (induction ms arbitrary: out)
  case (Cons m ms)
  then show ?case by (auto simp: add_model_set)
qed simp

lemma add_models_distinct: "distinct out \<Longrightarrow> distinct (foldl (add_model usable v) out ms)"
  by (induction ms arbitrary: out) (auto intro: add_model_distinct)

lemma member_models_offers:
  "(\<exists>v ms. Option.bind (member_of spec) (member_models providers) = Some (v, ms) \<and> r_provider r = pv_name v \<and>
      r_model r \<in> set ms \<and> r_model r \<notin> pv_unavailable v) \<longleftrightarrow> offers providers spec r"
proof (cases "member_of spec")
  case None
  then show ?thesis by (simp add: offers_def)
next
  case (Some m)
  then show ?thesis
    by (cases m) (auto simp: offers_def member_models_def list_ex_iff split: option.splits if_splits)
qed

lemma add_member_set:
  "set (add_member providers usable out spec) = set out \<union> {r. offers providers spec r \<and> usable r}"
  unfolding member_models_offers [symmetric]
  by (cases "Option.bind (member_of spec) (member_models providers)")
    (auto simp: add_member_def add_models_set)

lemma add_member_distinct: "distinct out \<Longrightarrow> distinct (add_member providers usable out spec)"
  by (auto simp: add_member_def split: option.split intro: add_models_distinct)

lemma candidates_iff:
  "r \<in> set (candidates members providers usable) \<longleftrightarrow> usable r \<and> (\<exists>spec \<in> set members. offers providers spec r)"
proof -
  have "set (foldl (add_member providers usable) out ms) =
      set out \<union> {r. usable r \<and> (\<exists>spec \<in> set ms. offers providers spec r)}" for out ms
    by (induction ms arbitrary: out) (auto simp: add_member_set)
  then show ?thesis by (simp add: candidates_def)
qed

lemma candidates_distinct: "distinct (candidates members providers usable)"
proof -
  have "distinct out \<Longrightarrow> distinct (foldl (add_member providers usable) out ms)" for out ms
    by (induction ms arbitrary: out) (auto intro: add_member_distinct)
  then show ?thesis by (simp add: candidates_def)
qed

lemma pick_candidate: "pick cands st = Some r \<Longrightarrow> r \<in> set cands"
  by (auto simp: pick_def bind_eq_Some_conv dest: find_SomeD split: option.splits list.splits bind_splits)

lemma pick_None: "pick cands st = None \<longleftrightarrow> cands = []"
  by (auto simp: pick_def find_None_iff split: option.splits list.splits bind_splits)

lemma view_of_unavailable:
  assumes "m \<notin> pv_unavailable (view_of now av members p rp)"
    and "m \<in> set (rp_models rp) \<or> (\<exists>ms. probe_served now av rp = Some ms \<and> m \<in> set ms) \<or>
      (\<exists>spec \<in> set members. member_of spec = Some (Exact p m))"
  shows "unavailable now (rp_name rp) m av = None"
proof -
  have "m \<in> set (concat (map (\<lambda>spec. case member_of spec of
      Some (Exact p' m) \<Rightarrow> if p' = p then [m] else [] | _ \<Rightarrow> []) members))"
    if "spec \<in> set members" "member_of spec = Some (Exact p m)" for spec
    using that by (force simp: image_iff)
  with assms show ?thesis
    by (cases "unavailable now (rp_name rp) m av") (auto simp: view_of_def Let_def)
qed

lemma view_entry:
  assumes "view resolve now av members p = Some v"
  shows "\<exists>rp. resolve p = Some rp \<and> eq_ignore_case (rp_name rp) p \<and> v = view_of now av members p rp"
proof -
  have "foldl (view_step resolve now av members) views ms p = Some v \<Longrightarrow>
      (\<forall>p v. views p = Some v \<longrightarrow>
         (\<exists>rp. resolve p = Some rp \<and> eq_ignore_case (rp_name rp) p \<and> v = view_of now av members p rp)) \<Longrightarrow>
      \<exists>rp. resolve p = Some rp \<and> eq_ignore_case (rp_name rp) p \<and> v = view_of now av members p rp" for views ms
  proof (induction ms arbitrary: views)
    case (Cons m ms)
    show ?case
      by (rule Cons.IH [of "view_step resolve now av members views m"])
        (use Cons.prems in \<open>auto simp: view_step_def split: option.splits if_splits\<close>)
  qed simp
  from this [of "\<lambda>_. None" members] assms show ?thesis by (simp add: view_def)
qed

lemma add_model_prefix: "\<exists>rest. add_model usable v out m = out @ rest"
  by (auto simp: add_model_def Let_def)

lemma add_models_prefix: "\<exists>rest. foldl (add_model usable v) out ms = out @ rest"
proof (induction ms arbitrary: out)
  case (Cons m ms)
  from add_model_prefix obtain rest where "add_model usable v out m = out @ rest" by blast
  with Cons [of "out @ rest"] show ?case by auto
qed simp

lemma candidates_prefix:
  "\<exists>rest. candidates (ms @ ms') providers usable = candidates ms providers usable @ rest"
proof -
  have member: "\<exists>rest. add_member providers usable out spec = out @ rest" for out spec
    using add_models_prefix by (auto simp: add_member_def split: option.split)
  have "\<exists>rest. foldl (add_member providers usable) out ms' = out @ rest" for out
  proof (induction ms' arbitrary: out)
    case (Cons m ms)
    from member obtain rest where "add_member providers usable out m = out @ rest" by blast
    with Cons [of "out @ rest"] show ?case by auto
  qed simp
  then show ?thesis by (simp add: candidates_def)
qed

lemma candidates_filter:
  "candidates members providers (\<lambda>r. P r \<and> Q r) = filter Q (candidates members providers P)"
proof -
  have model: "add_model (\<lambda>r. P r \<and> Q r) v (filter Q out) m = filter Q (add_model P v out m)" for v out m
    by (auto simp: add_model_def Let_def)
  have models: "foldl (add_model (\<lambda>r. P r \<and> Q r) v) (filter Q out) ms = filter Q (foldl (add_model P v) out ms)" for v out ms
    by (induction ms arbitrary: out) (simp_all add: model)
  have member: "add_member providers (\<lambda>r. P r \<and> Q r) (filter Q out) spec = filter Q (add_member providers P out spec)" for out spec
    by (simp add: add_member_def models split: option.split)
  have "foldl (add_member providers (\<lambda>r. P r \<and> Q r)) (filter Q out) ms = filter Q (foldl (add_member providers P) out ms)" for out ms
    by (induction ms arbitrary: out) (simp_all add: member)
  from this [of "[]"] show ?thesis by (simp add: candidates_def)
qed

subsection \<open>Properties of the selection\<close>

text \<open>
  The candidates of a pool are exactly the routes that some member offers and that are
  usable, none twice; and earlier members come first: adding members at the end of a pool changes
  nothing about the candidates before them.
\<close>

theorem pool_candidates_exact:
  "distinct (candidates members providers usable) \<and>
   set (candidates members providers usable) = {r. usable r \<and> (\<exists>spec \<in> set members. offers providers spec r)} \<and>
   (\<exists>rest. candidates (members @ members') providers usable = candidates members providers usable @ rest)"
  using candidates_distinct candidates_prefix by (auto simp: candidates_iff)

text \<open>A pool for the concrete runs: a probed runtime and a hosted provider behind it.\<close>

definition rtx :: resolved_provider where
  "rtx = \<lparr>rp_name = ''rtx'', rp_models = [], rp_probe = Some (True, 60)\<rparr>"

definition hosted :: resolved_provider where
  "hosted = \<lparr>rp_name = ''hosted'', rp_models = [''big''], rp_probe = None\<rparr>"

definition some_resolve :: "string \<Rightarrow> resolved_provider option" where
  "some_resolve n = (if n = ''rtx'' then Some rtx else if n = ''hosted'' then Some hosted else None)"

definition some_members :: "string list" where
  "some_members = [''rtx/*'', ''hosted/big'']"

definition some_availability :: availability where
  "some_availability = snd (apply_probe True 100 (\<lambda>av. av) ''rtx'' [''qwen''] [''qwen'', ''kimi''] None no_state)"

definition some_views :: "string \<Rightarrow> provider_view option" where
  "some_views = view some_resolve 150 some_availability some_members"

definition rtx_route :: route where "rtx_route = \<lparr>r_provider = ''rtx'', r_model = ''qwen''\<rparr>"
definition hosted_route :: route where "hosted_route = \<lparr>r_provider = ''hosted'', r_model = ''big''\<rparr>"

lemma pool_candidates_exact_witness:
  "candidates some_members some_views (\<lambda>_. True) = [rtx_route, hosted_route]"
  by code_simp

text \<open>
  A pool never sends a request to a model that is deactivated, nor to a model a probed
  runtime does not serve: of the knowledge gathered from the availability store, every candidate
  belongs to a provider of exactly a member's name, is not unavailable, and, where the provider is
  probed, is in the list of a successful probe not older than three intervals.
\<close>

theorem candidate_available:
  assumes "r \<in> set (candidates members (view resolve now av members) usable)"
  shows "usable r \<and> unavailable now (r_provider r) (r_model r) av = None \<and>
    (\<exists>p rp. resolve p = Some rp \<and> eq_ignore_case (rp_name rp) p \<and> rp_name rp = r_provider r \<and>
       (\<forall>i. rp_probe rp = Some (True, i) \<longrightarrow>
          (\<exists>status. map_of (av_probe av) (r_provider r) = Some status \<and> ps_ok status \<and>
             0 \<le> now - ps_at status \<and> now - ps_at status \<le> i * probe_freshness \<and> r_model r \<in> set (ps_served status))))"
proof -
  from assms obtain spec where u: "usable r" and spec: "spec \<in> set members" "offers (view resolve now av members) spec r"
    by (auto simp: candidates_iff)
  from spec(2) obtain v p where v: "r_provider r = pv_name v" "r_model r \<notin> pv_unavailable v"
    "view resolve now av members p = Some v"
    "member_of spec = Some (AnyOf p) \<and> r_model r \<in> set (case pv_served v of Some ms \<Rightarrow> ms | None \<Rightarrow> pv_configured v) \<or>
     member_of spec = Some (Exact p (r_model r)) \<and> (\<forall>ms. pv_served v = Some ms \<longrightarrow> r_model r \<in> set ms)"
    unfolding offers_def by blast
  from view_entry [OF v(3)] obtain rp where rp: "resolve p = Some rp" "eq_ignore_case (rp_name rp) p"
    "v = view_of now av members p rp" by blast
  have "unavailable now (rp_name rp) (r_model r) av = None"
  proof (rule view_of_unavailable)
    show "r_model r \<notin> pv_unavailable (view_of now av members p rp)" using v(2) rp(3) by simp
    have "pv_served v = probe_served now av rp" "pv_configured v = rp_models rp"
      using rp(3) by (simp_all add: view_of_def Let_def)
    then show "r_model r \<in> set (rp_models rp) \<or> (\<exists>ms. probe_served now av rp = Some ms \<and> r_model r \<in> set ms) \<or>
        (\<exists>spec \<in> set members. member_of spec = Some (Exact p (r_model r)))"
      using v(4) spec(1) by (auto split: option.splits)
  qed
  moreover have "\<exists>status. map_of (av_probe av) (rp_name rp) = Some status \<and> ps_ok status \<and>
      0 \<le> now - ps_at status \<and> now - ps_at status \<le> i * probe_freshness \<and> r_model r \<in> set (ps_served status)"
    if "rp_probe rp = Some (True, i)" for i
    using v(4) rp(3) that
    by (auto simp: view_of_def Let_def probe_served_def split: option.splits if_splits)
  ultimately show ?thesis using u rp v(1) by (auto simp: view_of_def Let_def)
qed

theorem candidate_available_witness:
  "unavailable 150 ''rtx'' ''qwen'' some_availability = None"
proof -
  have "rtx_route \<in> set (candidates some_members (view some_resolve 150 some_availability some_members) (\<lambda>_. True))"
    unfolding some_views_def [symmetric] pool_candidates_exact_witness by simp
  from candidate_available [OF this] show ?thesis by (simp add: rtx_route_def)
qed

subsection \<open>Properties of the dispatch loop\<close>

lemma dispatch_step:
  assumes "attempt < max_attempts"
    and "rt = others (2 * attempt) start" and "now = clock (2 * attempt)"
    and "cands = candidates (pl_members pl) (pl_views pl) (usable_route gm pl now rt excluded)"
  shows "dispatch_from gm vh clock others handler uri headers pl attempt excluded prev body start =
     (case pick cands (pl_sticky pl) of
        None \<Rightarrow> (finish vh pl prev, [], rt)
      | Some r \<Rightarrow>
          (case index_set body ''model'' (JStr (r_model r)) of
             None \<Rightarrow> (DispatchPanic, [], rt)
           | Some body' \<Rightarrow>
               let req = member_request uri headers r body';
                   resp = handler attempt (r_provider r) req;
                   status = rs_status resp;
                   rt1 = others (2 * attempt + 1) rt; now1 = clock (2 * attempt + 1)
               in if retryable status \<and> attempt + 1 < max_attempts
                  then (case dispatch_from gm vh clock others handler uri headers pl (attempt + 1)
                             (r # excluded) (Some (resp, r)) body' (cool now1 r rt1) of
                          (res, calls, rt') \<Rightarrow> (res, (r, req, status) # calls, rt'))
                  else (Answered (annotate vh (pl_name pl) r resp), [(r, req, status)],
                        if is_success status
                        then (case pl_sticky_key pl of Some key \<Rightarrow> remember now1 key r rt1 | None \<Rightarrow> rt1)
                        else if retryable status then cool now1 r rt1 else rt1)))"
proof -
  have "(max_attempts \<le> attempt) = False" using assms(1) by simp
  then show ?thesis by (subst dispatch_from.simps) (simp only: Let_def assms(2-4) if_False)
qed

text \<open>What holds of every list of requests the loop sends.\<close>

definition calls_ok ::
    "(string \<Rightarrow> string \<Rightarrow> bool) \<Rightarrow> plan \<Rightarrow> nat \<Rightarrow> route list \<Rightarrow> (route \<times> member_req \<times> u16) list \<Rightarrow> bool" where
  "calls_ok gm pl attempt excluded calls \<longleftrightarrow>
     length calls \<le> max_attempts - attempt \<and> distinct (map fst calls) \<and> set (map fst calls) \<inter> set excluded = {} \<and>
     (\<forall>(r, req, status) \<in> set calls.
        permits gm (pl_scope pl) r \<and> (\<exists>spec \<in> set (pl_members pl). offers (pl_views pl) spec r) \<and>
        str_field (mr_body req) ''model'' = Some (r_model r)) \<and>
     (\<forall>(r, req, status) \<in> set (butlast calls). retryable status)"

lemma dispatch_calls:
  "attempt \<le> max_attempts \<Longrightarrow>
   dispatch_from gm vh clock others handler uri headers pl attempt excluded prev body rt0 = (res, calls, rt') \<Longrightarrow>
   calls_ok gm pl attempt excluded calls"
proof (induction "max_attempts - attempt" arbitrary: attempt excluded prev body rt0 res calls rt')
  case 0
  then show ?case by (subst (asm) dispatch_from.simps) (simp add: calls_ok_def)
next
  case (Suc n)
  then have lt: "attempt < max_attempts" by simp
  let ?rt = "others (2 * attempt) rt0" and ?now = "clock (2 * attempt)"
  let ?rt1 = "others (2 * attempt + 1) ?rt" and ?now1 = "clock (2 * attempt + 1)"
  let ?c = "candidates (pl_members pl) (pl_views pl) (usable_route gm pl ?now ?rt excluded)"
  note step = dispatch_step [OF lt refl refl refl, of gm vh clock others handler uri headers pl excluded prev body rt0]
  show ?case
  proof (cases "pick ?c (pl_sticky pl)")
    case None
    with Suc.prems(2) step show ?thesis by (auto simp: calls_ok_def)
  next
    case (Some r)
    then have r: "r \<notin> set excluded" "permits gm (pl_scope pl) r"
      "\<exists>spec \<in> set (pl_members pl). offers (pl_views pl) spec r"
      using pick_candidate [OF Some] by (auto simp: candidates_iff usable_route_def)
    show ?thesis
    proof (cases "index_set body ''model'' (JStr (r_model r))")
      case None
      with Suc.prems(2) step Some show ?thesis by (auto simp: calls_ok_def)
    next
      case body': (Some body')
      let ?req = "member_request uri headers r body'"
      let ?resp = "handler attempt (r_provider r) ?req"
      have m: "str_field (mr_body ?req) ''model'' = Some (r_model r)"
        using index_set_get [OF body'] by (simp add: member_request_def str_field_def)
      show ?thesis
      proof (cases "retryable (rs_status ?resp) \<and> attempt + 1 < max_attempts")
        case True
        obtain res1 calls1 rt1 where rec: "dispatch_from gm vh clock others handler uri headers pl (attempt + 1)
             (r # excluded) (Some (?resp, r)) body' (cool ?now1 r ?rt1) = (res1, calls1, rt1)"
          by (metis prod.exhaust)
        have "calls_ok gm pl (attempt + 1) (r # excluded) calls1"
          by (rule Suc.hyps(1) [OF _ _ rec]) (use Suc.hyps(2) lt in auto)
        moreover have "calls = (r, ?req, rs_status ?resp) # calls1"
          using Suc.prems(2) step Some body' True rec by (simp add: Let_def)
        ultimately show ?thesis using r m lt True by (auto simp: calls_ok_def)
      next
        case False
        then have "calls = [(r, ?req, rs_status ?resp)]"
          using Suc.prems(2) step Some body' by (auto simp: Let_def)
        with r m lt show ?thesis by (simp add: calls_ok_def)
      qed
    qed
  qed
qed

text \<open>
  Claim C23. The dispatch of a pool request ends after at most four requests to members, whatever
  other requests do meanwhile; no member gets it twice; each request goes to a route a member
  offers and the caller's key permits, and names that route's model in its body; and a further
  member is tried only after a retryable failure.
\<close>

theorem dispatch_bounded:
  assumes "dispatch gm vh clock others handler uri headers pl body rt = (res, calls, rt')"
  shows "length calls \<le> 4 \<and> distinct (map fst calls) \<and>
    (\<forall>(r, req, status) \<in> set calls.
       (\<exists>spec \<in> set (pl_members pl). offers (pl_views pl) spec r) \<and> permits gm (pl_scope pl) r \<and>
       str_field (mr_body req) ''model'' = Some (r_model r)) \<and>
    (\<forall>(r, req, status) \<in> set (butlast calls). status \<in> {404, 408, 429, 500, 502, 503, 504})"
  using dispatch_calls [of 0 gm vh clock others handler uri headers pl "[]" None body rt res calls rt'] assms
  by (auto simp: dispatch_def calls_ok_def max_attempts_def retryable_def)

definition some_plan :: plan where
  "some_plan = \<lparr>pl_name = ''auto'', pl_members = some_members, pl_scope = None, pl_views = some_views,
     pl_sticky_key = None, pl_sticky = None\<rparr>"

definition failing_rtx :: "nat \<Rightarrow> string \<Rightarrow> member_req \<Rightarrow> response" where
  "failing_rtx attempt provider req =
     \<lparr>rs_status = (if provider = ''rtx'' then 503 else 200), rs_headers = [], rs_body = provider\<rparr>"

definition some_dispatch :: "dispatch_result \<times> (route \<times> member_req \<times> u16) list \<times> pool_runtime" where
  "some_dispatch = dispatch (\<lambda>_ _. False) (\<lambda>_. True) (\<lambda>_. 7) (\<lambda>_ rt. rt) failing_rtx ''/auto/v1/x'' [] some_plan
     (JObj [(''model'', JStr ''auto'')]) runtime_empty"

theorem dispatch_bounded_witness:
  "map fst (fst (snd some_dispatch)) = [rtx_route, hosted_route] \<and> distinct (map fst (fst (snd some_dispatch)))"
proof -
  have calls: "map fst (fst (snd some_dispatch)) = [rtx_route, hosted_route]" by code_simp
  obtain res sent rt' where d: "some_dispatch = (res, sent, rt')" by (metis prod.exhaust)
  from dispatch_bounded [OF d [unfolded some_dispatch_def]] have "distinct (map fst sent)" by blast
  then have "distinct (map fst (fst (snd some_dispatch)))" unfolding d fst_conv snd_conv .
  with calls show ?thesis by (rule conjI)
qed

subsection \<open>Failover in the order of the pool\<close>

text \<open>The routes tried of a list: up to and including the first that does not fail retryably.\<close>

fun tried :: "(route \<Rightarrow> bool) \<Rightarrow> route list \<Rightarrow> route list" where
  "tried fails [] = []"
| "tried fails (r # rs) = r # (if fails r then tried fails rs else [])"

lemma cooling_cool:
  "fst (cooling now r' (cool now r rt)) = (r' = r \<or> fst (cooling now r' rt))"
  by (auto simp: cooling_def cool_def retain_cooldowns_def cooldown_ns_def Let_def split: option.split)

lemma candidates_excluding:
  "candidates members views (usable_route gm pl now (cool now r rt) (r # excluded)) =
     filter (\<lambda>c. c \<noteq> r) (candidates members views (usable_route gm pl now rt excluded))"
proof -
  have "usable_route gm pl now (cool now r rt) (r # excluded) =
      (\<lambda>c. usable_route gm pl now rt excluded c \<and> c \<noteq> r)"
    by (auto simp: usable_route_def cooling_cool fun_eq_iff)
  then show ?thesis by (simp only: candidates_filter)
qed

lemma dispatch_order:
  assumes "attempt \<le> max_attempts" and "is_object body" and "pl_sticky pl = None"
    and "cands = candidates (pl_members pl) (pl_views pl) (usable_route gm pl now rt excluded)"
    and body_free: "\<And>n req r. str_field (mr_body req) ''model'' = Some (r_model r) \<Longrightarrow>
      retryable (rs_status (handler n (r_provider r) req)) = fails r"
    and "dispatch_from gm vh (\<lambda>_. now) (\<lambda>_ rt. rt) handler uri headers pl attempt excluded prev body rt = (res, calls, rt')"
  shows "map fst calls = tried fails (take (max_attempts - attempt) cands) \<and>
    (res = NoAvailableModel (pl_name pl) \<longleftrightarrow> cands = [] \<and> prev = None \<or> attempt = max_attempts \<and> prev = None)"
  using assms(1,2,4,6)
proof (induction "max_attempts - attempt" arbitrary: attempt excluded prev body rt res calls rt' cands)
  case 0
  then have "dispatch_from gm vh (\<lambda>_. now) (\<lambda>_ rt. rt) handler uri headers pl attempt excluded prev body rt =
      (finish vh pl prev, [], rt)"
    by (subst dispatch_from.simps) simp
  with 0 show ?case by (auto simp: finish_def split: option.splits)
next
  case (Suc n)
  then have lt: "attempt < max_attempts" by simp
  note step = dispatch_step [where clock = "\<lambda>_. now" and others = "\<lambda>_ rt. rt" and attempt = attempt and rt = rt
      and start = rt and now = now and cands = cands and gm = gm and pl = pl and excluded = excluded and vh = vh
      and handler = handler and uri = uri and headers = headers and prev = prev and body = body,
      OF lt refl refl Suc.prems(3)]
  show ?case
  proof (cases cands)
    case Nil
    then have "pick cands (pl_sticky pl) = None" by (simp add: pick_None)
    with Suc.prems(4) step Nil lt show ?thesis by (auto simp: finish_def split: option.splits)
  next
    case (Cons r cs)
    then have p: "pick cands (pl_sticky pl) = Some r" using assms(3) by (simp add: pick_def)
    obtain body' where body': "index_set body ''model'' (JStr (r_model r)) = Some body'"
      using index_set_defined [OF Suc.prems(2)] by (metis option.exhaust)
    let ?req = "member_request uri headers r body'"
    have st: "retryable (rs_status (handler attempt (r_provider r) ?req)) = fails r"
      by (rule body_free) (use index_set_get [OF body'] in \<open>simp add: member_request_def str_field_def\<close>)
    have take: "take (max_attempts - attempt) (r # cs) = r # take (max_attempts - Suc attempt) cs"
      using lt by (simp add: take_Cons')
    show ?thesis
    proof (cases "fails r \<and> attempt + 1 < max_attempts")
      case True
      let ?prev = "Some (handler attempt (r_provider r) ?req, r)"
      obtain res1 calls1 rt1 where rec: "dispatch_from gm vh (\<lambda>_. now) (\<lambda>_ rt. rt) handler uri headers pl (attempt + 1)
           (r # excluded) ?prev body' (cool now r rt) = (res1, calls1, rt1)"
        by (metis prod.exhaust)
      have "distinct cands" unfolding Suc.prems(3) by (rule candidates_distinct)
      then have cs: "cs = candidates (pl_members pl) (pl_views pl) (usable_route gm pl now (cool now r rt) (r # excluded))"
        unfolding candidates_excluding Suc.prems(3) [symmetric] Cons by (auto intro!: filter_True [symmetric])
      have "map fst calls1 = tried fails (take (max_attempts - (attempt + 1)) cs) \<and>
          (res1 = NoAvailableModel (pl_name pl) \<longleftrightarrow> cs = [] \<and> ?prev = None \<or> attempt + 1 = max_attempts \<and> ?prev = None)"
        by (rule Suc.hyps(1) [OF _ _ _ cs rec])
          (use Suc.hyps(2) lt index_set_object [OF body'] in auto)
      moreover have "calls = (r, ?req, rs_status (handler attempt (r_provider r) ?req)) # calls1" "res = res1"
        using Suc.prems(4) step p body' rec True st by (auto simp: Let_def)
      ultimately show ?thesis using True Cons lt by (simp add: take)
    next
      case False
      then have "calls = [(r, ?req, rs_status (handler attempt (r_provider r) ?req))]"
        "res = Answered (annotate vh (pl_name pl) r (handler attempt (r_provider r) ?req))"
        using Suc.prems(4) step p body' st by (auto simp: Let_def)
      moreover have "fails r \<Longrightarrow> max_attempts - (attempt + 1) = 0" using False lt by simp
      ultimately show ?thesis using Cons lt by (simp add: take)
    qed
  qed
qed



datatype runtime_op = CoolOp int route | RememberOp int string route | CoolingOp int route

fun runtime_step :: "pool_runtime \<Rightarrow> runtime_op \<Rightarrow> pool_runtime" where
  "runtime_step rt (CoolOp now r) = cool now r rt"
| "runtime_step rt (RememberOp now key r) = remember now key r rt"
| "runtime_step rt (CoolingOp now r) = snd (cooling now r rt)"

lemma length_obj_insert: "length (obj_insert k v m) \<le> Suc (length m)"
  by (induction m) auto

lemma remember_bounded: "length (sticky (remember now key r rt)) \<le> sticky_max"
proof -
  have "length (obj_insert key (r, now) s) \<le> sticky_max" if "length s < sticky_max" for s
    using that length_obj_insert [of key "(r, now)" s] by simp
  moreover have "0 < sticky_max" by (simp add: sticky_max_def)
  ultimately show ?thesis by (auto simp: remember_def Let_def not_le)
qed

interpretation runtime: invariant_component runtime_step runtime_empty "\<lambda>rt. length (sticky rt) \<le> sticky_max"
proof unfold_locales
  show "length (sticky runtime_empty) \<le> sticky_max" by (simp add: runtime_empty_def)
next
  fix rt :: pool_runtime and x assume "length (sticky rt) \<le> sticky_max"
  then show "length (sticky (runtime_step rt x)) \<le> sticky_max"
    using remember_bounded by (cases x) (auto simp: cool_def cooling_def retain_cooldowns_def Let_def)
qed

text \<open>
  The memory of conversations is bounded: whatever members are cooled down and whatever
  conversations are remembered, at any readings of the clock, at most ten thousand are kept.
\<close>

theorem conversations_bounded:
  "length (sticky (foldl runtime_step runtime_empty ops)) \<le> 10000"
  using runtime.run_inv [of ops] by (simp add: sticky_max_def)

text \<open>
  A request pinned to a pool whose body is a JSON array (or a string, a number or a
  boolean) passes the entry checks, which refuse \<open>null\<close> only, and then makes the dispatch panic as
  soon as a member is available.
\<close>

theorem pool_panics_on_non_object:
  assumes "body \<noteq> JNull" and "\<not> is_object body"
    and "candidates (pl_members pl) (pl_views pl) (usable_route gm pl (clock 0) (others 0 rt) []) \<noteq> []"
  shows "(pools ''auto'' = Some members \<longrightarrow>
      serve_decide pools (Some ''auto'') header_provider False (Some body) = ServePool ''auto'' members body) \<and>
   fst (dispatch gm vh clock others handler uri headers pl body rt) = DispatchPanic"
proof -
  let ?c = "candidates (pl_members pl) (pl_views pl) (usable_route gm pl (clock 0) (others 0 rt) [])"
  have "str_field body ''model'' = None" using assms(2) by (cases body) (auto simp: str_field_def)
  then have "serve_decide pools (Some ''auto'') header_provider False (Some body) = ServePool ''auto'' members body"
    if "pools ''auto'' = Some members"
    using assms(1) that by (simp add: serve_decide_def requested_def reserved_def Let_def)
  moreover have "index_set body ''model'' v = None" for v using assms(1,2) by (cases body) auto
  moreover obtain r where "pick ?c (pl_sticky pl) = Some r"
    using assms(3) pick_None [of ?c "pl_sticky pl"] by blast
  ultimately show ?thesis
    using dispatch_step [of 0 "others 0 rt" others rt "clock 0" clock ?c pl gm "[]" vh handler uri headers None body]
    by (simp add: dispatch_def max_attempts_def)
qed

theorem pool_panics_on_non_object_witness:
  "fst (dispatch (\<lambda>_ _. False) (\<lambda>_. True) (\<lambda>_. 7) (\<lambda>_ rt. rt) failing_rtx ''/auto/v1/x'' [] some_plan
     (JArr []) runtime_empty) = DispatchPanic"
proof -
  have c: "candidates (pl_members some_plan) (pl_views some_plan)
      (usable_route (\<lambda>_ _. False) some_plan 7 runtime_empty []) \<noteq> []"
    by code_simp
  have b: "JArr [] \<noteq> JNull" "\<not> is_object (JArr [])" by simp_all
  show ?thesis
    by (rule pool_panics_on_non_object [OF b, where clock = "\<lambda>_. 7" and others = "\<lambda>_ rt. rt", OF c, THEN conjunct2])
qed

end
