(* ===== verification/Reasoning_Effort.thy ===== *)
theory Reasoning_Effort
  imports Json Http
begin

section \<open>Reasoning effort and learned upstream behaviour (src/src/reasoning_effort.rs)\<close>

text \<open>
  Clients ask for a level of reasoning; some upstreams accept only a few levels, or demand
  adaptive thinking. The gateway rewrites what it knows will be refused, and when an upstream
  refuses a request with an error it understands, it learns the requirement, adjusts the request
  and sends it once more; that part of src/src/proxy.rs is in the theory \<open>Adjustment_Retry\<close>.

  A body is a list of bytes; \<open>parse\<close> and \<open>render\<close> are the JSON package's reader and writer.
\<close>

subsection \<open>The ladder of levels\<close>

definition ladder :: "string list" where
  "ladder = [''none'', ''minimal'', ''low'', ''medium'', ''high'', ''xhigh'', ''max'']"

definition rank :: "string \<Rightarrow> nat option" where
  "rank level =
     (let l = to_lower (trim level);
          l' = (if l = ''off'' then ''none'' else l)
      in position (\<lambda>known. known = l') ladder)"

definition ranked_levels :: "string list \<Rightarrow> (nat \<times> string) list" where
  "ranked_levels supported =
     sort_key fst (List.map_filter (\<lambda>v. map_option (\<lambda>r. (r, v)) (rank v)) supported)"

definition choose_effort :: "string \<Rightarrow> string list \<Rightarrow> string option" where
  "choose_effort requested supported =
     (if supported = [] \<or> list_ex (\<lambda>v. eq_ignore_case v (trim requested)) supported then None
      else (case rank requested of
              None \<Rightarrow> None
            | Some wanted \<Rightarrow>
                (let ranked = ranked_levels supported
                 in map_option snd
                      (case find (\<lambda>(r, _). wanted \<le> r) ranked of
                         Some p \<Rightarrow> Some p
                       | None \<Rightarrow> (if ranked = [] then None else Some (last ranked))))))"

subsection \<open>Rewriting the effort of a body\<close>

text \<open>Where the body carries its effort: the path that \<open>effort_slot\<close> borrows.\<close>

definition effort_slot :: "json \<Rightarrow> string list option" where
  "effort_slot body =
     (if jget body ''reasoning_effort'' \<noteq> None then Some [''reasoning_effort'']
      else if pointer body [''reasoning'', ''effort''] \<noteq> None then Some [''reasoning'', ''effort'']
      else None)"

definition effort_requested :: "json \<Rightarrow> string option" where
  "effort_requested body =
     Option.bind
       (case jget body ''reasoning_effort'' of
          Some v \<Rightarrow> Some v | None \<Rightarrow> pointer body [''reasoning'', ''effort'']) as_str"

fun set_path :: "json \<Rightarrow> string list \<Rightarrow> json \<Rightarrow> json" where
  "set_path body [] v = v"
| "set_path body (k # ks) v =
     (case jget body k of None \<Rightarrow> body | Some inner \<Rightarrow> set_field body k (set_path inner ks v))"

definition rewrite_effort :: "json \<Rightarrow> string list \<Rightarrow> (json \<times> string \<times> string) option" where
  "rewrite_effort body supported =
     (case effort_requested body of
        None \<Rightarrow> None
      | Some old \<Rightarrow>
          (case choose_effort old supported of
             None \<Rightarrow> None
           | Some new \<Rightarrow>
               (case effort_slot body of
                  None \<Rightarrow> None
                | Some path \<Rightarrow> Some (set_path body path (JStr new), old, new))))"

definition rewrite_bytes ::
    "(string \<Rightarrow> json option) \<Rightarrow> (json \<Rightarrow> string) \<Rightarrow> string \<Rightarrow> string list \<Rightarrow> (string \<times> string \<times> string) option" where
  "rewrite_bytes parse render body supported =
     (case parse body of
        None \<Rightarrow> None
      | Some j \<Rightarrow>
          (case rewrite_effort j supported of
             None \<Rightarrow> None | Some (j', old, new) \<Rightarrow> Some (render j', old, new)))"

subsection \<open>Adaptive thinking\<close>

definition requires_adaptive :: "string \<Rightarrow> bool" where
  "requires_adaptive error_body \<longleftrightarrow>
     (let lower = to_lower error_body
      in contains_str ''thinking.type.enabled'' lower \<and> contains_str ''thinking.type.adaptive'' lower)"

definition uses_enabled_thinking :: "json \<Rightarrow> bool" where
  "uses_enabled_thinking body \<longleftrightarrow>
     Option.bind (pointer body [''thinking'', ''type'']) as_str = Some ''enabled''"

definition effort_for_budget :: "u64 option \<Rightarrow> string" where
  "effort_for_budget budget =
     (case budget of
        None \<Rightarrow> ''high''
      | Some n \<Rightarrow> if n \<le> 4096 then ''low'' else if n \<le> 12288 then ''medium'' else ''high'')"

text \<open>
  \<open>to_adaptive\<close> works in place: the thinking object is already replaced when it finds that
  \<open>output_config\<close> is not an object and gives up. The first component is the body it leaves.
\<close>

definition entry_or :: "string \<Rightarrow> json \<Rightarrow> (string \<times> json) list \<Rightarrow> (string \<times> json) list" where
  "entry_or k v m = (if map_of m k = None then obj_insert k v m else m)"

definition to_adaptive :: "json \<Rightarrow> json \<times> (string \<times> string) option" where
  "to_adaptive body =
     (if \<not> uses_enabled_thinking body then (body, None)
      else
        let budget = Option.bind (pointer body [''thinking'', ''budget_tokens'']) as_u64;
            display = pointer body [''thinking'', ''display'']
        in (case as_object body of
              None \<Rightarrow> (body, None)
            | Some m \<Rightarrow>
                let t0 = [(''type'', JStr ''adaptive'')];
                    t1 = (case display of Some d \<Rightarrow> obj_insert ''display'' d t0 | None \<Rightarrow> t0);
                    m1 = entry_or ''output_config'' (JObj []) (obj_insert ''thinking'' (JObj t1) m)
                in (case Option.bind (map_of m1 ''output_config'') as_object of
                      None \<Rightarrow> (JObj m1, None)
                    | Some config \<Rightarrow>
                        let config1 = entry_or ''effort'' (JStr (effort_for_budget budget)) config;
                            effort = (case Option.bind (map_of config1 ''effort'') as_str of
                                        Some e \<Rightarrow> e | None \<Rightarrow> [])
                        in (JObj (obj_replace ''output_config'' (JObj config1) m1),
                            Some (''enabled'', ''adaptive('' @ effort @ '')'')))))"

definition to_adaptive_bytes ::
    "(string \<Rightarrow> json option) \<Rightarrow> (json \<Rightarrow> string) \<Rightarrow> string \<Rightarrow> (string \<times> string \<times> string) option" where
  "to_adaptive_bytes parse render body =
     (case parse body of
        None \<Rightarrow> None
      | Some j \<Rightarrow>
          (case to_adaptive j of
             (j', Some (old, new)) \<Rightarrow> Some (render j', old, new) | (_, None) \<Rightarrow> None))"

subsection \<open>What was learned\<close>

text \<open>
  Facts per provider and model, with the file they are kept in: \<open>None\<close> when there is no path to
  write to, else the snapshot last written. \<open>unset\<close> is the default value of the kind of fact.
\<close>

type_synonym 'a learned_map = "(string \<times> (string \<times> 'a) list) list"

record 'a learned =
  l_path :: bool
  l_entries :: "'a learned_map"
  l_file :: "'a learned_map option"

definition learned_load :: "bool \<Rightarrow> 'a learned_map option \<Rightarrow> 'a learned" where
  "learned_load path file =
     \<lparr>l_path = path, l_entries = (if path then case file of Some m \<Rightarrow> m | None \<Rightarrow> [] else []), l_file = file\<rparr>"

definition learned_get :: "'a learned \<Rightarrow> string \<Rightarrow> string \<Rightarrow> 'a option" where
  "learned_get l provider model = Option.bind (map_of (l_entries l) provider) (\<lambda>ms. map_of ms model)"

definition learn :: "'a \<Rightarrow> bool \<Rightarrow> string \<Rightarrow> string \<Rightarrow> 'a \<Rightarrow> 'a learned \<Rightarrow> 'a learned" where
  "learn unset written provider model v l =
     (let models = (case map_of (l_entries l) provider of Some ms \<Rightarrow> ms | None \<Rightarrow> []);
          slot = (case map_of models model of Some x \<Rightarrow> x | None \<Rightarrow> unset);
          stored = (\<lambda>x. obj_insert provider (obj_insert model x models) (l_entries l))
      in if slot = v then l\<lparr>l_entries := stored slot\<rparr>
         else let l' = l\<lparr>l_entries := stored v\<rparr>
              in if l_path l \<and> written then l'\<lparr>l_file := Some (l_entries l')\<rparr> else l')"

subsection \<open>The level chosen is the nearest\<close>

lemma set_ranked_levels:
  "set (ranked_levels supported) = {(r, v). v \<in> set supported \<and> rank v = Some r}"
  by (force simp: ranked_levels_def List.map_filter_def)

lemma sorted_ranked_levels: "sorted (map fst (ranked_levels supported))"
  by (simp add: ranked_levels_def)

lemma find_sorted_least:
  fixes w :: nat
  shows "sorted (map fst xs) \<Longrightarrow> find (\<lambda>(r, _). w \<le> r) xs = Some (r, v) \<Longrightarrow>
    w \<le> r \<and> (\<forall>(q, u) \<in> set xs. w \<le> q \<longrightarrow> r \<le> q)"
  by (induction xs) (auto split: if_splits)

lemma last_sorted_greatest:
  fixes xs :: "(nat \<times> 'b) list"
  shows "sorted (map fst xs) \<Longrightarrow> (q, u) \<in> set xs \<Longrightarrow> q \<le> fst (last xs)"
  by (induction xs) (auto split: if_splits)

text \<open>A supported level \<open>v\<close> nearest to rank \<open>w\<close>: the least at or above it, else the greatest.\<close>

definition nearest_level :: "string list \<Rightarrow> nat \<Rightarrow> string \<Rightarrow> bool" where
  "nearest_level supported w v \<longleftrightarrow>
     v \<in> set supported \<and>
     (\<exists>r. rank v = Some r \<and>
        (if \<exists>u \<in> set supported. \<exists>q. rank u = Some q \<and> w \<le> q
         then w \<le> r \<and> (\<forall>u \<in> set supported. \<forall>q. rank u = Some q \<longrightarrow> w \<le> q \<longrightarrow> r \<le> q)
         else \<forall>u \<in> set supported. \<forall>q. rank u = Some q \<longrightarrow> q \<le> r))"

lemma chosen_from_ranked:
  assumes "rank requested = Some w" and "ranked_levels supported \<noteq> []"
  obtains r v where "(case find (\<lambda>(r, _). w \<le> r) (ranked_levels supported) of
      Some p \<Rightarrow> Some p | None \<Rightarrow> Some (last (ranked_levels supported))) = Some (r, v)"
    and "nearest_level supported w v"
proof -
  let ?ranked = "ranked_levels supported"
  note in_ranked = set_ranked_levels [of supported] and sorted = sorted_ranked_levels [of supported]
  show thesis
  proof (cases "find (\<lambda>(r, _). w \<le> r) ?ranked")
    case None
    obtain r v where l: "last ?ranked = (r, v)" by (metis prod.exhaust)
    have none: "q < w" if "u \<in> set supported" "rank u = Some q" for u q
      using None that in_ranked by (force simp: find_None_iff)
    have "(r, v) \<in> set ?ranked" using last_in_set [OF assms(2)] l by simp
    then have "nearest_level supported w v"
      using none last_sorted_greatest [OF sorted] l in_ranked by (fastforce simp: nearest_level_def)
    with None l show thesis by (intro that [of r v]) auto
  next
    case (Some p)
    obtain r v where p: "p = (r, v)" by (metis prod.exhaust)
    have "(r, v) \<in> set ?ranked" using find_SomeD [OF Some] p by simp
    then have "nearest_level supported w v"
      using find_sorted_least [OF sorted Some [unfolded p]] in_ranked by (fastforce simp: nearest_level_def)
    with Some p show thesis by (intro that [of r v]) auto
  qed
qed

text \<open>
  The level sent instead of a requested one is the nearest the model supports: the
  lowest supported level at or above the request, or else the highest supported level. The
  request is left alone exactly when the level is supported, is unknown, or no supported level is
  on the ladder.
\<close>

theorem chosen_effort_nearest:
  "case choose_effort requested supported of
     Some v \<Rightarrow> \<not> (\<exists>u \<in> set supported. eq_ignore_case u (trim requested)) \<and>
       (\<exists>w. rank requested = Some w \<and> nearest_level supported w v)
   | None \<Rightarrow> (\<exists>u \<in> set supported. eq_ignore_case u (trim requested)) \<or> rank requested = None \<or>
       (\<forall>u \<in> set supported. rank u = None)"
proof (cases "supported = [] \<or> (\<exists>u \<in> set supported. eq_ignore_case u (trim requested)) \<or> rank requested = None")
  case True
  then show ?thesis by (auto simp: choose_effort_def list_ex_iff split: option.split)
next
  case False
  then obtain w where w: "rank requested = Some w" by auto
  have unsupported: "\<not> list_ex (\<lambda>u. eq_ignore_case u (trim requested)) supported"
    using False by (simp add: list_ex_iff)
  show ?thesis
  proof (cases "ranked_levels supported = []")
    case True
    then have "rank u = None" if "u \<in> set supported" for u
      using that set_ranked_levels [of supported] by (cases "rank u") auto
    with True w False unsupported show ?thesis by (simp add: choose_effort_def)
  next
    case ne: False
    from chosen_from_ranked [OF w ne] obtain r v where
      "(case find (\<lambda>(r, _). w \<le> r) (ranked_levels supported) of
         Some p \<Rightarrow> Some p | None \<Rightarrow> Some (last (ranked_levels supported))) = Some (r, v)"
      and near: "nearest_level supported w v" by metis
    with w ne False unsupported have "choose_effort requested supported = Some v"
      by (simp add: choose_effort_def Let_def)
    with near w unsupported show ?thesis by (simp add: list_ex_iff)
  qed
qed

theorem chosen_effort_nearest_witness:
  "choose_effort ''High'' [''low'', ''xhigh'', ''off''] = Some ''xhigh'' \<and>
   rank ''xhigh'' = Some 5 \<and> \<not> (\<exists>u \<in> set [''low'', ''xhigh'', ''off'']. eq_ignore_case u (trim ''High''))"
proof -
  have chosen: "choose_effort ''High'' [''low'', ''xhigh'', ''off''] = Some ''xhigh''" by code_simp
  moreover have "rank ''xhigh'' = Some 5" by code_simp
  moreover have "\<not> (\<exists>u \<in> set [''low'', ''xhigh'', ''off'']. eq_ignore_case u (trim ''High''))"
    using chosen_effort_nearest [where requested = "''High''" and supported = "[''low'', ''xhigh'', ''off'']"] unfolding chosen option.case
    by (rule conjunct1)
  ultimately show ?thesis by blast
qed

subsection \<open>Rewriting is stable\<close>

lemma effort_slot_requested: "effort_requested body = Some old \<Longrightarrow> effort_slot body \<noteq> None"
  by (auto simp: effort_requested_def effort_slot_def split: option.splits)

lemma jget_set_path_other: "k \<noteq> k' \<Longrightarrow> jget (set_path body (k # ks) v) k' = jget body k'"
  by (simp split: option.split)

lemma effort_requested_set:
  assumes "effort_slot body = Some path"
  shows "effort_requested (set_path body path (JStr new)) = Some new"
proof (cases "jget body ''reasoning_effort''")
  case None
  with assms obtain inner prev where "path = [''reasoning'', ''effort'']"
    "jget body ''reasoning'' = Some inner" "jget inner ''effort'' = Some prev"
    by (auto simp: effort_slot_def split: if_splits option.splits)
  with None show ?thesis by (simp add: effort_requested_def)
next
  case (Some v)
  with assms have "path = [''reasoning_effort'']" by (simp add: effort_slot_def)
  with Some show ?thesis by (simp add: effort_requested_def)
qed

lemma effort_slot_frame:
  assumes "effort_slot body = Some path" and "k \<noteq> ''reasoning_effort''" and "k \<noteq> ''reasoning''"
  shows "jget (set_path body path v) k = jget body k"
proof -
  from assms(1) obtain k0 ks where "path = k0 # ks" "k0 = ''reasoning_effort'' \<or> k0 = ''reasoning''"
    by (auto simp: effort_slot_def split: if_splits)
  with assms(2,3) show ?thesis by (auto simp: jget_set_path_other simp del: set_path.simps)
qed

lemma chosen_supported: "choose_effort requested supported = Some v \<Longrightarrow> v \<in> set supported"
  using chosen_from_ranked [of requested _ supported]
  by (force simp: choose_effort_def Let_def nearest_level_def split: if_splits option.splits)

text \<open>
  A rewritten request asks for the level it was rewritten to, which the model supports;
  a second rewrite finds nothing to do; and no field but the effort has changed. (The supported
  levels are free of surrounding blanks.)
\<close>

theorem rewritten_effort_stable:
  assumes "rewrite_effort body supported = Some (body', old, new)"
    and "\<forall>v \<in> set supported. trim v = v"
  shows "effort_requested body = Some old \<and> effort_requested body' = Some new \<and> new \<in> set supported \<and>
    rewrite_effort body' supported = None \<and>
    (\<forall>k. k \<noteq> ''reasoning_effort'' \<and> k \<noteq> ''reasoning'' \<longrightarrow> jget body' k = jget body k)"
proof -
  from assms(1) obtain path where
    f: "effort_requested body = Some old" and c: "choose_effort old supported = Some new"
    and p: "effort_slot body = Some path" and b: "body' = set_path body path (JStr new)"
    by (auto simp: rewrite_effort_def split: option.splits)
  have new: "new \<in> set supported" by (rule chosen_supported [OF c])
  have r: "effort_requested body' = Some new" unfolding b by (rule effort_requested_set [OF p])
  have "choose_effort new supported = None"
    using new assms(2) by (auto simp: choose_effort_def list_ex_iff)
  then have "rewrite_effort body' supported = None" by (simp add: rewrite_effort_def r)
  with f r new effort_slot_frame [OF p] b show ?thesis by simp
qed

theorem rewritten_effort_stable_witness:
  "rewrite_effort (JObj [(''model'', JStr ''m''), (''reasoning'', JObj [(''effort'', JStr ''low'')])]) [''high'']
     = Some (JObj [(''model'', JStr ''m''), (''reasoning'', JObj [(''effort'', JStr ''high'')])], ''low'', ''high'') \<and>
   rewrite_effort (JObj [(''model'', JStr ''m''), (''reasoning'', JObj [(''effort'', JStr ''high'')])]) [''high''] = None"
proof -
  have r: "rewrite_effort (JObj [(''model'', JStr ''m''), (''reasoning'', JObj [(''effort'', JStr ''low'')])]) [''high'']
     = Some (JObj [(''model'', JStr ''m''), (''reasoning'', JObj [(''effort'', JStr ''high'')])], ''low'', ''high'')"
    by code_simp
  have "\<forall>v \<in> set [''high'']. trim v = v" by code_simp
  from rewritten_effort_stable [OF r this] r show ?thesis by blast
qed

subsection \<open>Conversion to adaptive thinking\<close>

lemma map_of_entry_or:
  "map_of (entry_or k v m) k' = (if k' = k \<and> map_of m k = None then Some v else map_of m k')"
  by (auto simp: entry_or_def)

lemma to_adaptive_effect:
  assumes "to_adaptive body = (body', Some (old, new))"
  shows "uses_enabled_thinking body \<and> \<not> uses_enabled_thinking body' \<and>
    pointer body' [''thinking'', ''type''] = Some (JStr ''adaptive'') \<and>
    pointer body' [''thinking'', ''display''] = pointer body [''thinking'', ''display''] \<and>
    pointer body' [''output_config'', ''effort''] =
      (case pointer body [''output_config'', ''effort''] of
         Some e \<Rightarrow> Some e
       | None \<Rightarrow> Some (JStr (effort_for_budget
           (Option.bind (pointer body [''thinking'', ''budget_tokens'']) as_u64)))) \<and>
    (\<forall>k. k \<noteq> ''effort'' \<longrightarrow>
       pointer body' [''output_config'', k] = pointer body [''output_config'', k]) \<and>
    (\<forall>k. k \<noteq> ''thinking'' \<and> k \<noteq> ''output_config'' \<longrightarrow> jget body' k = jget body k)"
proof -
  let ?budget = "Option.bind (pointer body [''thinking'', ''budget_tokens'']) as_u64"
  let ?t0 = "[(''type'', JStr ''adaptive'')]"
  have used: "uses_enabled_thinking body" using assms by (auto simp: to_adaptive_def split: if_splits)
  with assms obtain m where m: "body = JObj m"
    by (cases body) (auto simp: to_adaptive_def)
  let ?display = "pointer body [''thinking'', ''display'']"
  let ?t1 = "case ?display of Some d \<Rightarrow> obj_insert ''display'' d ?t0 | None \<Rightarrow> ?t0"
  let ?m1 = "entry_or ''output_config'' (JObj []) (obj_insert ''thinking'' (JObj ?t1) m)"
  from assms used m obtain config where
    config: "map_of ?m1 ''output_config'' = Some (JObj config)"
    and body': "body' = JObj (obj_replace ''output_config''
        (JObj (entry_or ''effort'' (JStr (effort_for_budget ?budget)) config)) ?m1)"
    by (auto simp: to_adaptive_def Let_def bind_eq_Some_conv split: option.splits elim: as_object.elims)
  have config': "pointer body [''output_config'', k] = map_of config k" for k
    using config m by (cases "map_of config k") (auto simp: map_of_entry_or split: if_splits option.splits)
  have thinking: "jget body' ''thinking'' = Some (JObj ?t1)"
    by (simp add: body' map_of_entry_or)
  have t1: "map_of ?t1 ''type'' = Some (JStr ''adaptive'')" "map_of ?t1 ''display'' = ?display"
    by (auto split: option.split)
  have out: "pointer body' [''output_config'', k] =
      map_of (entry_or ''effort'' (JStr (effort_for_budget ?budget)) config) k" for k
    using config by (auto simp: body' split: option.split)
  show ?thesis
    using used thinking t1 out config' m body'
    by (auto simp: uses_enabled_thinking_def map_of_entry_or split: option.split)
qed

lemma to_adaptive_converts:
  "to_adaptive body = (body', Some (old, new)) \<Longrightarrow> uses_enabled_thinking body \<and> \<not> uses_enabled_thinking body'"
  using to_adaptive_effect by blast

text \<open>
  A body converted to adaptive thinking no longer uses enabled thinking; the display
  option, an effort the client set itself and the rest of the output configuration are kept, a
  missing effort is derived from the thinking budget, and every other field is unchanged.
\<close>

theorem adaptive_conversion_exact:
  assumes "to_adaptive body = (body', Some (old, new))"
  shows "uses_enabled_thinking body \<and> \<not> uses_enabled_thinking body' \<and>
    pointer body' [''thinking'', ''type''] = Some (JStr ''adaptive'') \<and>
    pointer body' [''thinking'', ''display''] = pointer body [''thinking'', ''display''] \<and>
    pointer body' [''output_config'', ''effort''] =
      (case pointer body [''output_config'', ''effort''] of
         Some e \<Rightarrow> Some e
       | None \<Rightarrow> Some (JStr (effort_for_budget
           (Option.bind (pointer body [''thinking'', ''budget_tokens'']) as_u64)))) \<and>
    (\<forall>k. k \<noteq> ''effort'' \<longrightarrow>
       pointer body' [''output_config'', k] = pointer body [''output_config'', k]) \<and>
    (\<forall>k. k \<noteq> ''thinking'' \<and> k \<noteq> ''output_config'' \<longrightarrow> jget body' k = jget body k)"
  using to_adaptive_effect [OF assms] .

theorem adaptive_conversion_exact_witness:
  "to_adaptive (JObj [(''model'', JStr ''m''),
       (''thinking'', JObj [(''budget_tokens'', JNum (PosInt 9000)), (''type'', JStr ''enabled'')])]) =
     (JObj [(''model'', JStr ''m''), (''output_config'', JObj [(''effort'', JStr ''medium'')]),
        (''thinking'', JObj [(''type'', JStr ''adaptive'')])], Some (''enabled'', ''adaptive(medium)'')) \<and>
   \<not> uses_enabled_thinking (JObj [(''model'', JStr ''m''), (''output_config'', JObj [(''effort'', JStr ''medium'')]),
        (''thinking'', JObj [(''type'', JStr ''adaptive'')])])"
proof -
  have a: "to_adaptive (JObj [(''model'', JStr ''m''),
       (''thinking'', JObj [(''budget_tokens'', JNum (PosInt 9000)), (''type'', JStr ''enabled'')])]) =
     (JObj [(''model'', JStr ''m''), (''output_config'', JObj [(''effort'', JStr ''medium'')]),
        (''thinking'', JObj [(''type'', JStr ''adaptive'')])], Some (''enabled'', ''adaptive(medium)''))"
    by code_simp
  from adaptive_conversion_exact [OF a] a show ?thesis by blast
qed

end
