(* ===== verification/Adjustment_Retry.thy ===== *)
theory Adjustment_Retry
  imports Reasoning_Effort
begin

section \<open>Known adjustments and the one retry (src/src/proxy.rs)\<close>

text \<open>
  What the proxy does with the facts of \<open>Reasoning_Effort\<close>: it adjusts a request to what is known
  of the model, sends it, and if the upstream answers with a 400 that demands adaptive thinking, it
  learns that, converts the body and sends it once more.

  Arguments: \<open>upstream n\<close> answers the \<open>n\<close>-th send (or fails to), \<open>arrived\<close> is whether the error body
  arrived completely and in time, \<open>written\<close> whether the file of learned facts could be written,
  \<open>published\<close> the efforts of the public model catalog, \<open>resolve\<close> the models configured for a
  provider name and \<open>vh\<close> the HTTP package's test of a header value.
\<close>

record model_entry =
  me_id :: string
  me_efforts :: "string list"
  me_force_adaptive :: "json option"

record upstream_state =
  us_efforts :: "string list learned"
  us_adaptive :: "bool learned"

record up_request =
  ur_method :: string
  ur_url :: string
  ur_headers :: headers
  ur_body :: string

type_synonym adjustment = "string \<times> string \<times> string"

definition first_of :: "'a option list \<Rightarrow> 'a option" where
  "first_of xs = find_map (\<lambda>x. x) xs"

definition reasoning_efforts_for ::
    "(string \<Rightarrow> string \<Rightarrow> string list option) \<Rightarrow> upstream_state \<Rightarrow> model_entry list \<Rightarrow> string \<Rightarrow> string \<Rightarrow> string list option" where
  "reasoning_efforts_for published st models provider model =
     first_of
       [map_option me_efforts (find (\<lambda>e. me_id e = model \<and> me_efforts e \<noteq> []) models),
        learned_get (us_efforts st) provider model,
        Option.bind (published provider model) (\<lambda>es. if es \<noteq> [] then Some es else None)]"

definition requires_adaptive_thinking ::
    "upstream_state \<Rightarrow> model_entry list \<Rightarrow> string \<Rightarrow> string \<Rightarrow> bool" where
  "requires_adaptive_thinking st models provider model =
     (case first_of
        [Option.bind (find (\<lambda>e. me_id e = model) models) (\<lambda>e. Option.bind (me_force_adaptive e) as_bool),
         learned_get (us_adaptive st) provider model] of
        Some b \<Rightarrow> b | None \<Rightarrow> False)"

definition apply_known_adjustments ::
    "(string \<Rightarrow> json option) \<Rightarrow> (json \<Rightarrow> string) \<Rightarrow> (string \<Rightarrow> string \<Rightarrow> string list option) \<Rightarrow> upstream_state \<Rightarrow>
     model_entry list \<Rightarrow> string \<Rightarrow> string \<Rightarrow> string \<Rightarrow> string \<times> adjustment list" where
  "apply_known_adjustments parse render published st models provider model body =
     (let (body1, adj1) =
            (case Option.bind (reasoning_efforts_for published st models provider model)
                    (rewrite_bytes parse render body) of
               Some (b, old, new) \<Rightarrow> (b, [(''x-eavs-reasoning-effort'', old, new)])
             | None \<Rightarrow> (body, []))
      in if requires_adaptive_thinking st models provider model
         then (case to_adaptive_bytes parse render body1 of
                 Some (b, old, new) \<Rightarrow> (b, adj1 @ [(''x-eavs-thinking'', old, new)])
               | None \<Rightarrow> (body1, adj1))
         else (body1, adj1))"

definition adjustable :: "(string \<Rightarrow> json option) \<Rightarrow> string \<Rightarrow> bool" where
  "adjustable parse body =
     (case parse body of
        None \<Rightarrow> False | Some j \<Rightarrow> effort_requested j \<noteq> None \<or> uses_enabled_thinking j)"

definition effort_levels_unknown ::
    "(string \<Rightarrow> json option) \<Rightarrow> (string \<Rightarrow> string \<Rightarrow> string list option) \<Rightarrow> (string \<Rightarrow> model_entry list option) \<Rightarrow>
     upstream_state \<Rightarrow> string \<Rightarrow> string \<Rightarrow> string \<Rightarrow> bool" where
  "effort_levels_unknown parse published resolve st provider model body \<longleftrightarrow>
     Option.bind (parse body) effort_requested \<noteq> None \<and>
     (case resolve provider of
        None \<Rightarrow> False
      | Some models \<Rightarrow> reasoning_efforts_for published st models provider model = None)"

definition effort_hint :: "string \<Rightarrow> string \<Rightarrow> string" where
  "effort_hint provider model =
     ''reasoning effort levels for this model are unknown; if the effort was rejected, run: eavs models efforts '' @
     provider @ '' '' @ model"

definition learn_from_upstream_error where
  "learn_from_upstream_error parse render vh published resolve arrived written provider model (resp :: response) body (st :: upstream_state) =
     (if rs_status resp \<noteq> 400 then (None, resp, st)
      else
        let text = (if arrived then rs_body resp else [])
        in if requires_adaptive text
           then
             let st' = st\<lparr>us_adaptive := learn False written provider model True (us_adaptive st)\<rparr>
             in (case to_adaptive_bytes parse render body of
                   Some (b, old, new) \<Rightarrow> (Some (b, (''x-eavs-thinking'', old, new)), resp\<lparr>rs_body := []\<rparr>, st')
                 | None \<Rightarrow> (None, resp\<lparr>rs_body := text\<rparr>, st'))
           else
             let resp' =
               (if effort_levels_unknown parse published resolve st provider model body \<and>
                   vh (effort_hint provider model)
                then resp\<lparr>rs_headers := set_header ''x-eavs-hint'' (effort_hint provider model) (rs_headers resp)\<rparr>
                else resp)
             in (None, resp'\<lparr>rs_body := text\<rparr>, st))"

fun record_adjustment :: "adjustment list \<Rightarrow> adjustment \<Rightarrow> adjustment list" where
  "record_adjustment [] (h, old, new) = [(h, old, new)]"
| "record_adjustment ((h', old', new') # as) (h, old, new) =
     (if h' = h then (h', old', new) # as else (h', old', new') # record_adjustment as (h, old, new))"

definition report_adjustments :: "(string \<Rightarrow> bool) \<Rightarrow> adjustment list \<Rightarrow> headers \<Rightarrow> headers" where
  "report_adjustments vh adjustments hs =
     foldl (\<lambda>hs (h, old, new).
        if vh (old @ ''->'' @ new) then set_header h (old @ ''->'' @ new) hs else hs) hs adjustments"

text \<open>The result, the requests sent in order, and the facts afterwards.\<close>

definition send_with_adjustment_retry where
  "send_with_adjustment_retry parse render vh published resolve upstream arrived written provider model
       (request :: up_request) capable adjustments st =
     (case upstream (0 :: nat) request of
        Inl (e :: string) \<Rightarrow> (Inl e :: string + response, [request], st)
      | Inr resp \<Rightarrow>
          if capable \<and> adjustable parse (ur_body request)
          then
            (case learn_from_upstream_error parse render vh published resolve arrived written provider model
                    resp (ur_body request) st of
               (None, resp', st') \<Rightarrow>
                 (Inr (resp'\<lparr>rs_headers := report_adjustments vh adjustments (rs_headers resp')\<rparr>), [request], st')
             | (Some (b, adj), resp', st') \<Rightarrow>
                 let again = request\<lparr>ur_body := b\<rparr>; adjusted = record_adjustment adjustments adj
                 in (case upstream 1 again of
                       Inl e \<Rightarrow> (Inl e, [request, again], st')
                     | Inr resp2 \<Rightarrow>
                         (Inr (resp2\<lparr>rs_headers := report_adjustments vh adjusted (rs_headers resp2)\<rparr>),
                          [request, again], st')))
          else (Inr (resp\<lparr>rs_headers := report_adjustments vh adjustments (rs_headers resp)\<rparr>), [request], st))"

subsection \<open>At most one retry\<close>

lemma requires_adaptive_Nil [simp]: "\<not> requires_adaptive []"
  by (simp add: requires_adaptive_def to_lower_def)

lemma learn_error_cases:
  assumes "learn_from_upstream_error parse render vh published resolve arrived written provider model resp body st =
      (retry, resp', st')"
  shows "rs_status resp' = rs_status resp \<and>
    (case retry of
       Some (b, adj) \<Rightarrow> rs_status resp = 400 \<and> arrived \<and> requires_adaptive (rs_body resp) \<and>
         (\<exists>old new. adj = (''x-eavs-thinking'', old, new) \<and> to_adaptive_bytes parse render body = Some (b, old, new)) \<and>
         st' = st\<lparr>us_adaptive := learn False written provider model True (us_adaptive st)\<rparr>
     | None \<Rightarrow> (rs_status resp = 400 \<and> \<not> arrived \<or> rs_body resp' = rs_body resp) \<and>
         (\<forall>h. h \<noteq> ''x-eavs-hint'' \<longrightarrow> get_header h (rs_headers resp') = get_header h (rs_headers resp)))"
  using assms
  by (auto simp: learn_from_upstream_error_def Let_def split: if_splits option.splits)

lemma report_frame:
  "h \<notin> fst ` set adjustments \<Longrightarrow> get_header h (report_adjustments vh adjustments hs) = get_header h hs"
proof -
  have "h \<notin> fst ` set adjustments \<Longrightarrow> get_header h
      (foldl (\<lambda>hs (h, old, new). if vh (old @ ''->'' @ new) then set_header h (old @ ''->'' @ new) hs else hs)
        hs adjustments) = get_header h hs" for hs
    by (induction adjustments arbitrary: hs) (auto split: prod.split)
  then show "h \<notin> fst ` set adjustments \<Longrightarrow> ?thesis" by (simp add: report_adjustments_def)
qed

lemma to_adaptive_bytes_Some:
  "to_adaptive_bytes parse render body = Some (b, old, new) \<longleftrightarrow>
     (\<exists>j j'. parse body = Some j \<and> to_adaptive j = (j', Some (old, new)) \<and> b = render j')"
  by (auto simp: to_adaptive_bytes_def split: option.splits prod.splits)

lemma send_cases:
  assumes "send_with_adjustment_retry parse render vh published resolve upstream arrived written provider model
      request capable adjustments st = (res, sent, st')"
  shows "sent = [request] \<or>
    (\<exists>resp resp' b old new.
       sent = [request, request\<lparr>ur_body := b\<rparr>] \<and> upstream 0 request = Inr resp \<and> capable \<and>
       learn_from_upstream_error parse render vh published resolve arrived written provider model
         resp (ur_body request) st = (Some (b, (''x-eavs-thinking'', old, new)), resp', st'))"
proof (cases "upstream 0 request")
  case (Inl e)
  with assms show ?thesis by (simp add: send_with_adjustment_retry_def)
next
  case (Inr resp)
  obtain retry resp' st1 where l: "learn_from_upstream_error parse render vh published resolve arrived written
      provider model resp (ur_body request) st = (retry, resp', st1)" by (metis prod.exhaust)
  show ?thesis
  proof (cases "capable \<and> adjustable parse (ur_body request)")
    case False
    with assms Inr show ?thesis by (auto simp: send_with_adjustment_retry_def)
  next
    case True
    show ?thesis
    proof (cases retry)
      case None
      with assms Inr True l show ?thesis by (simp add: send_with_adjustment_retry_def)
    next
      case (Some r)
      with l learn_error_cases [OF l] obtain b old new where
        r: "retry = Some (b, (''x-eavs-thinking'', old, new))" by (cases r) auto
      with assms Inr True l have "sent = [request, request\<lparr>ur_body := b\<rparr>] \<and> st' = st1"
        by (cases "upstream 1 (request\<lparr>ur_body := b\<rparr>)") (simp_all add: send_with_adjustment_retry_def Let_def)
      with Inr True l r show ?thesis by blast
    qed
  qed
qed

lemma send_single:
  assumes "send_with_adjustment_retry parse render vh published resolve upstream arrived written provider model
      request capable adjustments st = (res, [request], st')"
    and "upstream 0 request = Inr resp" and "rs_status resp = 400 \<longrightarrow> arrived"
  shows "\<exists>resp'. res = Inr resp' \<and> rs_status resp' = rs_status resp \<and> rs_body resp' = rs_body resp \<and>
    (\<forall>h. h \<noteq> ''x-eavs-hint'' \<and> h \<notin> fst ` set adjustments \<longrightarrow>
       get_header h (rs_headers resp') = get_header h (rs_headers resp))"
proof -
  obtain retry resp1 st1 where l: "learn_from_upstream_error parse render vh published resolve arrived written
      provider model resp (ur_body request) st = (retry, resp1, st1)" by (metis prod.exhaust)
  show ?thesis
  proof (cases "capable \<and> adjustable parse (ur_body request)")
    case False
    with assms show ?thesis by (auto simp: send_with_adjustment_retry_def report_frame)
  next
    case True
    have "retry = None"
    proof (cases retry)
      case (Some r)
      with assms(1,2) True l show ?thesis
        by (cases r; cases "upstream 1 (request\<lparr>ur_body := fst r\<rparr>)")
          (auto simp: send_with_adjustment_retry_def Let_def)
    qed simp
    with assms True l learn_error_cases [OF l] show ?thesis
      by (auto simp: send_with_adjustment_retry_def report_frame)
  qed
qed


definition adaptive_error :: string where
  "adaptive_error = ''\"thinking.type.enabled\" is not supported for this model. Use \"thinking.type.adaptive\".''"

definition thinking_body :: json where
  "thinking_body = JObj [(''model'', JStr ''m''), (''thinking'', JObj [(''type'', JStr ''enabled'')])]"

definition adaptive_body :: json where
  "adaptive_body = JObj [(''model'', JStr ''m''), (''output_config'', JObj [(''effort'', JStr ''high'')]),
     (''thinking'', JObj [(''type'', JStr ''adaptive'')])]"

definition some_parse :: "string \<Rightarrow> json option" where
  "some_parse s = (if s = ''t'' then Some thinking_body else if s = ''a'' then Some adaptive_body else None)"

definition some_render :: "json \<Rightarrow> string" where
  "some_render j = (if j = thinking_body then ''t'' else ''a'')"

definition some_request :: up_request where
  "some_request = \<lparr>ur_method = ''POST'', ur_url = ''u'', ur_headers = [], ur_body = ''t''\<rparr>"

definition some_upstream :: "nat \<Rightarrow> up_request \<Rightarrow> string + response" where
  "some_upstream n req =
     Inr (if ur_body req = ''t'' then \<lparr>rs_status = 400, rs_headers = [], rs_body = adaptive_error\<rparr>
          else \<lparr>rs_status = 200, rs_headers = [], rs_body = ''ok''\<rparr>)"

definition no_facts :: upstream_state where
  "no_facts = \<lparr>us_efforts = learned_load True None, us_adaptive = learned_load True None\<rparr>"

definition some_send :: "(string + response) \<times> up_request list \<times> upstream_state" where
  "some_send = send_with_adjustment_retry some_parse some_render (\<lambda>_. True) (\<lambda>_ _. None) (\<lambda>_. None) some_upstream
     True True ''p'' ''m'' some_request True [] no_facts"


subsection \<open>A requirement is learned once\<close>

lemma learned_get_learn:
  "learned_get (learn unset written provider model v l) p m =
     (if p = provider \<and> m = model then Some v else learned_get l p m)"
  by (auto simp: learn_def learned_get_def Let_def split: option.split)

lemma learn_new_written:
  assumes "l_path l" and "learned_get l provider model \<noteq> Some v" and "unset \<noteq> v"
  shows "learned_get (learned_load True (l_file (learn unset True provider model v l))) p m =
    learned_get (learn unset True provider model v l) p m"
  using assms
  by (auto simp: learn_def learned_get_def learned_load_def Let_def split: option.split)

lemma known_adjustments_converted:
  assumes "\<And>s j j' n. parse s = Some j \<Longrightarrow> to_adaptive j = (j', Some n) \<Longrightarrow> parse (render j') = Some j'" and "requires_adaptive_thinking st models provider model"
    and "apply_known_adjustments parse render published st models provider model body = (b, adj)"
  shows "to_adaptive_bytes parse render b = None"
proof -
  have twice: "to_adaptive_bytes parse render b' = None"
    if "to_adaptive_bytes parse render body1 = Some (b', old, new)" for b' old new body1
  proof -
    from that obtain j j' where "parse body1 = Some j" "to_adaptive j = (j', Some (old, new))" "b' = render j'"
      unfolding to_adaptive_bytes_Some by blast
    then have "\<not> uses_enabled_thinking j'" and "parse b' = Some j'"
      using to_adaptive_converts assms(1) by blast+
    moreover from this(1) have "to_adaptive j' = (j', None)" by (simp add: to_adaptive_def)
    ultimately show ?thesis by (simp add: to_adaptive_bytes_def)
  qed
  have "to_adaptive_bytes parse render b = None \<or>
      (\<exists>body1 old new. to_adaptive_bytes parse render body1 = Some (b, old, new))"
    using assms(2,3)
    by (auto simp: apply_known_adjustments_def Let_def split: prod.splits option.splits)
  with twice show ?thesis by blast
qed

text \<open>
  A requirement for adaptive thinking is learned once: after a retry every later request
  for the model that goes through the known adjustments is sent once only, unless the
  configuration says otherwise for the model; and if the file could be written, the same holds
  after a restart. (A converted body that is written and read again is the same.)
\<close>

theorem requirement_learned_once:
  assumes "\<And>s j j' n. parse s = Some j \<Longrightarrow> to_adaptive j = (j', Some n) \<Longrightarrow> parse (render j') = Some j'"
    and "send_with_adjustment_retry parse render vh published resolve upstream arrived written provider model
      request capable adjustments st = (res, [request, again], st')"
    and "\<And>e. find (\<lambda>e. me_id e = model) models = Some e \<Longrightarrow> me_force_adaptive e = None"
    and "st'' = st' \<or> l_path (us_adaptive st) \<and> written \<and> learned_get (us_adaptive st) provider model = None \<and>
      us_adaptive st'' = learned_load True (l_file (us_adaptive st'))"
    and "apply_known_adjustments parse render published st'' models provider model body = (ur_body request2, adj)"
    and "send_with_adjustment_retry parse render vh published resolve upstream2 arrived2 written2 provider model
      request2 capable2 adj st'' = (res2, sent2, st2)"
  shows "sent2 = [request2]"
proof -
  from send_cases [OF assms(2)] obtain resp resp' b old new where
    "learn_from_upstream_error parse render vh published resolve arrived written provider model
       resp (ur_body request) st = (Some (b, (''x-eavs-thinking'', old, new)), resp', st')" by auto
  from learn_error_cases [OF this]
  have st': "us_adaptive st' = learn False written provider model True (us_adaptive st)" by simp
  have "learned_get (us_adaptive st'') provider model = Some True"
    using assms(4)
  proof
    assume "st'' = st'"
    then show ?thesis by (simp add: st' learned_get_learn)
  next
    assume "l_path (us_adaptive st) \<and> written \<and> learned_get (us_adaptive st) provider model = None \<and>
      us_adaptive st'' = learned_load True (l_file (us_adaptive st'))"
    then show ?thesis by (simp add: st' learn_new_written learned_get_learn)
  qed
  then have "requires_adaptive_thinking st'' models provider model"
    using assms(3)
    by (cases "find (\<lambda>e. me_id e = model) models")
      (auto simp: requires_adaptive_thinking_def first_of_def)
  from known_adjustments_converted [OF assms(1) this assms(5)]
  have none: "to_adaptive_bytes parse render (ur_body request2) = None" .
  from send_cases [OF assms(6)] show ?thesis
  proof
    assume "\<exists>resp resp' b old new.
       sent2 = [request2, request2\<lparr>ur_body := b\<rparr>] \<and> upstream2 0 request2 = Inr resp \<and> capable2 \<and>
       learn_from_upstream_error parse render vh published resolve arrived2 written2 provider model
         resp (ur_body request2) st'' = (Some (b, (''x-eavs-thinking'', old, new)), resp', st2)"
    then obtain resp resp' b adj2 where "learn_from_upstream_error parse render vh published resolve arrived2
        written2 provider model resp (ur_body request2) st'' = (Some (b, adj2), resp', st2)" by blast
    from learn_error_cases [OF this] none show ?thesis by auto
  qed
qed

theorem requirement_learned_once_witness:
  "fst (snd some_send) = [some_request, some_request\<lparr>ur_body := ''a''\<rparr>] \<and>
   apply_known_adjustments some_parse some_render (\<lambda>_ _. None) (snd (snd some_send)) [] ''p'' ''m'' ''t'' =
     (''a'', [(''x-eavs-thinking'', ''enabled'', ''adaptive(high)'')]) \<and>
   fst (snd (send_with_adjustment_retry some_parse some_render (\<lambda>_. True) (\<lambda>_ _. None) (\<lambda>_. None) some_upstream
      True True ''p'' ''m'' (some_request\<lparr>ur_body := ''a''\<rparr>) True
      [(''x-eavs-thinking'', ''enabled'', ''adaptive(high)'')] (snd (snd some_send)))) =
     [some_request\<lparr>ur_body := ''a''\<rparr>]"
proof -
  have law: "some_parse (some_render j') = Some j'"
    if p: "some_parse s = Some j" and c: "to_adaptive j = (j', Some n)" for s j j' n
  proof -
    have "\<not> uses_enabled_thinking adaptive_body" by code_simp
    with p c have "j = thinking_body" by (auto simp: some_parse_def to_adaptive_def split: if_splits)
    moreover have "fst (to_adaptive thinking_body) = adaptive_body" by code_simp
    ultimately have "j' = adaptive_body" using c by simp
    moreover have "some_parse (some_render adaptive_body) = Some adaptive_body" by code_simp
    ultimately show ?thesis by simp
  qed
  let ?again = "some_request\<lparr>ur_body := ''a''\<rparr>"
  let ?adj = "[(''x-eavs-thinking'', ''enabled'', ''adaptive(high)'')]"
  obtain res sent st' where s: "some_send = (res, sent, st')" by (metis prod.exhaust)
  have sent: "fst (snd some_send) = [some_request, ?again]" by code_simp
  then have "sent = [some_request, ?again]" unfolding s fst_conv snd_conv .
  from s [unfolded this] have first: "some_send = (res, [some_request, ?again], st')" .
  have "apply_known_adjustments some_parse some_render (\<lambda>_ _. None) (snd (snd some_send)) [] ''p'' ''m'' ''t'' =
      (''a'', ?adj)" by code_simp
  then have known: "apply_known_adjustments some_parse some_render (\<lambda>_ _. None) st' [] ''p'' ''m'' ''t'' =
      (ur_body ?again, ?adj)" by (simp add: s)
  obtain res2 sent2 st2 where second: "send_with_adjustment_retry some_parse some_render (\<lambda>_. True) (\<lambda>_ _. None)
      (\<lambda>_. None) some_upstream True True ''p'' ''m'' ?again True ?adj st' = (res2, sent2, st2)"
    by (metis prod.exhaust)
  have "sent2 = [?again]"
    by (rule requirement_learned_once [OF law first [unfolded some_send_def] _ _ known second]) simp_all
  with sent known second show ?thesis by (simp add: s)
qed

end
