(* ===== verification/Conversations.thy ===== *)
theory Conversations
  imports Prelude "HOL-Library.Sublist"
begin

section \<open>Conversations and injected messages (src/src/state.rs)\<close>

text \<open>
  An operator or a plugin can inject messages into a conversation. They go to the WebSocket sessions
  of the conversation, or wait in the store for its next request. Entries of the store expire and
  are evicted. Instants are nanoseconds. The concurrent map of the package has an arbitrary order
  of iteration; here it is the order of insertion, which matters only for entries that were last
  used at the same instant.
\<close>

record injection =
  in_role :: string
  in_content :: string

record conversation_metadata =
  cm_tags :: "string list"
  cm_provider :: "string option"
  cm_model :: "string option"
  cm_request_count :: u64

record conversation_entry =
  ce_injections :: "injection list"
  ce_metadata :: conversation_metadata
  ce_created :: int
  ce_accessed :: int

record conversation_store =
  cs_entries :: "(string \<times> conversation_entry) list"
  cs_max_conversations :: nat
  cs_ttl_secs :: nat
  cs_created :: u64
  cs_expired :: u64
  cs_evicted :: u64

definition store_new :: "nat \<Rightarrow> nat \<Rightarrow> conversation_store" where
  "store_new max_conversations ttl =
     \<lparr>cs_entries = [], cs_max_conversations = max_conversations, cs_ttl_secs = ttl,
      cs_created = 0, cs_expired = 0, cs_evicted = 0\<rparr>"

definition metadata_default :: conversation_metadata where
  "metadata_default = \<lparr>cm_tags = [], cm_provider = None, cm_model = None, cm_request_count = 0\<rparr>"

definition modify_entry :: "string \<Rightarrow> ('v \<Rightarrow> 'v) \<Rightarrow> (string \<times> 'v) list \<Rightarrow> (string \<times> 'v) list" where
  "modify_entry k f m = map (\<lambda>(k', v). (k', if k' = k then f v else v)) m"

definition new_entry :: "int \<Rightarrow> injection list \<Rightarrow> conversation_entry" where
  "new_entry now injections =
     \<lparr>ce_injections = injections, ce_metadata = metadata_default, ce_created = now, ce_accessed = now\<rparr>"

definition get_or_create :: "int \<Rightarrow> string \<Rightarrow> conversation_store \<Rightarrow> conversation_store" where
  "get_or_create now c st =
     (if map_of (cs_entries st) c \<noteq> None
      then st\<lparr>cs_entries := modify_entry c (\<lambda>e. e\<lparr>ce_accessed := now\<rparr>) (cs_entries st)\<rparr>
      else st\<lparr>cs_entries := cs_entries st @ [(c, new_entry now [])], cs_created := cs_created st + 1\<rparr>)"

definition conv_get :: "int \<Rightarrow> string \<Rightarrow> conversation_store \<Rightarrow> conversation_entry option \<times> conversation_store" where
  "conv_get now c st =
     (map_option (\<lambda>e. e\<lparr>ce_accessed := now\<rparr>) (map_of (cs_entries st) c),
      st\<lparr>cs_entries := modify_entry c (\<lambda>e. e\<lparr>ce_accessed := now\<rparr>) (cs_entries st)\<rparr>)"

definition maybe_evict :: "conversation_store \<Rightarrow> conversation_store" where
  "maybe_evict st =
     (let n = length (cs_entries st); limit = cs_max_conversations st
      in if limit = 0 \<or> n \<le> limit then st
         else let victims = map fst (take (n - limit) (sort_key (\<lambda>(_, e). ce_accessed e) (cs_entries st)))
              in st\<lparr>cs_entries := filter (\<lambda>(k, _). k \<notin> set victims) (cs_entries st),
                    cs_evicted := cs_evicted st + of_nat (n - limit)\<rparr>)"

definition add_injections :: "int \<Rightarrow> string \<Rightarrow> injection list \<Rightarrow> conversation_store \<Rightarrow> conversation_store" where
  "add_injections now c injections st =
     maybe_evict
       (if map_of (cs_entries st) c \<noteq> None
        then st\<lparr>cs_entries := modify_entry c
               (\<lambda>e. e\<lparr>ce_injections := ce_injections e @ injections, ce_accessed := now\<rparr>) (cs_entries st)\<rparr>
        else st\<lparr>cs_entries := cs_entries st @ [(c, new_entry now injections)],
                cs_created := cs_created st + 1\<rparr>)"

definition take_injections :: "int \<Rightarrow> string \<Rightarrow> conversation_store \<Rightarrow> injection list \<times> conversation_store" where
  "take_injections now c st =
     (case map_of (cs_entries st) c of
        None \<Rightarrow> ([], st)
      | Some e \<Rightarrow>
          (ce_injections e,
           st\<lparr>cs_entries := modify_entry c
                (\<lambda>e. e\<lparr>ce_injections := [], ce_accessed := now,
                     ce_metadata := (ce_metadata e)
                       \<lparr>cm_request_count := cm_request_count (ce_metadata e) + 1\<rparr>\<rparr>) (cs_entries st)\<rparr>))"

definition update_metadata ::
    "int \<Rightarrow> string \<Rightarrow> (conversation_metadata \<Rightarrow> conversation_metadata) \<Rightarrow> conversation_store \<Rightarrow> conversation_store" where
  "update_metadata now c f st =
     st\<lparr>cs_entries := modify_entry c
          (\<lambda>e. e\<lparr>ce_metadata := f (ce_metadata e), ce_accessed := now\<rparr>) (cs_entries st)\<rparr>"

definition conv_clear :: "string \<Rightarrow> conversation_store \<Rightarrow> conversation_store" where
  "conv_clear c st = st\<lparr>cs_entries := filter (\<lambda>(k, _). k \<noteq> c) (cs_entries st)\<rparr>"

text \<open>\<open>duration_since\<close> is zero, not negative, for an instant in the future.\<close>

definition conv_cleanup :: "int \<Rightarrow> conversation_store \<Rightarrow> conversation_store" where
  "conv_cleanup now st =
     (if cs_ttl_secs st = 0 then st
      else
        let fresh = (\<lambda>e. max 0 (now - ce_accessed e) \<le> int (cs_ttl_secs st) * 1000000000);
            kept = filter (\<lambda>(_, e). fresh e) (cs_entries st);
            expired = length (cs_entries st) - length kept
        in st\<lparr>cs_entries := kept, cs_expired := cs_expired st + of_nat expired\<rparr>)"

definition list_conversations :: "conversation_store \<Rightarrow> string list" where
  "list_conversations st = map fst (cs_entries st)"

subsection \<open>WebSocket sessions\<close>

text \<open>
  A session is its token; its channel is known by the token. \<open>receiving\<close> says whether the receiving
  end of a channel still exists. Delivery returns whether any session received the messages, the
  sessions that did, and the sessions left.
\<close>

record ws_sessions =
  wm_sessions :: "(string \<times> u64 list) list"
  wm_next_id :: u64

definition ws_register :: "string \<Rightarrow> ws_sessions \<Rightarrow> u64 \<times> ws_sessions" where
  "ws_register c w =
     (wm_next_id w,
      w\<lparr>wm_next_id := wm_next_id w + 1,
        wm_sessions := (if map_of (wm_sessions w) c \<noteq> None
                        then modify_entry c (\<lambda>ids. ids @ [wm_next_id w]) (wm_sessions w)
                        else wm_sessions w @ [(c, [wm_next_id w])])\<rparr>)"

definition drop_if_empty :: "string \<Rightarrow> (string \<times> u64 list) list \<Rightarrow> (string \<times> u64 list) list" where
  "drop_if_empty c m = (if map_of m c = Some [] then filter (\<lambda>(k, _). k \<noteq> c) m else m)"

definition ws_unregister :: "string \<Rightarrow> u64 \<Rightarrow> ws_sessions \<Rightarrow> ws_sessions" where
  "ws_unregister c token w =
     w\<lparr>wm_sessions := drop_if_empty c (modify_entry c (filter (\<lambda>i. i \<noteq> token)) (wm_sessions w))\<rparr>"

definition deliver_injections ::
    "(u64 \<Rightarrow> bool) \<Rightarrow> string \<Rightarrow> ws_sessions \<Rightarrow> bool \<times> u64 list \<times> ws_sessions" where
  "deliver_injections receiving c w =
     (case map_of (wm_sessions w) c of
        None \<Rightarrow> (False, [], w)
      | Some ids \<Rightarrow>
          let live = filter receiving ids
          in (live \<noteq> [], live,
              w\<lparr>wm_sessions := drop_if_empty c (modify_entry c (\<lambda>_. live) (wm_sessions w))\<rparr>))"

subsection \<open>The handlers (src/src/api.rs, src/src/plugins.rs)\<close>

definition max_injection_content_length :: nat where "max_injection_content_length = 1024 * 1024"
definition max_injection_messages :: nat where "max_injection_messages = 100"

definition valid_injection_roles :: "string list" where
  "valid_injection_roles = [''system'', ''user'', ''assistant'']"

datatype injection_error = TooManyMessages | InvalidRole | ContentTooLarge

definition check_injection :: "injection \<Rightarrow> injection_error option" where
  "check_injection i =
     (if in_role i \<notin> set valid_injection_roles then Some InvalidRole
      else if length (in_content i) > max_injection_content_length then Some ContentTooLarge
      else None)"

definition validate_injection_payload :: "injection list \<Rightarrow> injection_error option" where
  "validate_injection_payload messages =
     (if length messages > max_injection_messages then Some TooManyMessages
      else find_map check_injection messages)"

text \<open>The messages a session receives, the store and the sessions afterwards.\<close>

definition inject ::
    "(u64 \<Rightarrow> bool) \<Rightarrow> int \<Rightarrow> string \<Rightarrow> injection list \<Rightarrow> conversation_store \<times> ws_sessions \<Rightarrow>
     u64 list \<times> conversation_store \<times> ws_sessions" where
  "inject receiving now c messages s =
     (let (st, w) = s; (delivered, live, w') = deliver_injections receiving c w
      in (live, if delivered then st else add_injections now c messages st, w'))"

definition inject_handler ::
    "(u64 \<Rightarrow> bool) \<Rightarrow> int \<Rightarrow> string \<Rightarrow> injection list \<Rightarrow> conversation_store \<times> ws_sessions \<Rightarrow>
     (injection_error + u64 list) \<times> conversation_store \<times> ws_sessions" where
  "inject_handler receiving now c messages s =
     (case validate_injection_payload messages of
        Some e \<Rightarrow> (Inl e, s)
      | None \<Rightarrow> (case inject receiving now c messages s of (live, s') \<Rightarrow> (Inr live, s')))"

datatype plugin_command = PluginInject string "injection list" | PluginClear string

definition handle_plugin_command ::
    "(u64 \<Rightarrow> bool) \<Rightarrow> int \<Rightarrow> plugin_command \<Rightarrow> conversation_store \<times> ws_sessions \<Rightarrow>
     u64 list \<times> conversation_store \<times> ws_sessions" where
  "handle_plugin_command receiving now cmd s =
     (case cmd of
        PluginInject c messages \<Rightarrow> inject receiving now c messages s
      | PluginClear c \<Rightarrow> ([], conv_clear c (fst s), snd s))"

definition update_conversation_handler ::
    "int \<Rightarrow> string \<Rightarrow> string option \<Rightarrow> string option \<Rightarrow> string list option \<Rightarrow> conversation_store \<Rightarrow> conversation_store" where
  "update_conversation_handler now c provider model tags st =
     update_metadata now c
       (\<lambda>m. m\<lparr>cm_provider := (case provider of Some p \<Rightarrow> Some p | None \<Rightarrow> cm_provider m),
              cm_model := (case model of Some x \<Rightarrow> Some x | None \<Rightarrow> cm_model m),
              cm_tags := (case tags of Some ts \<Rightarrow> ts | None \<Rightarrow> cm_tags m)\<rparr>)
       (get_or_create now c st)"

subsection \<open>Capacity\<close>

lemma map_fst_modify [simp]: "map fst (modify_entry k f m) = map fst m"
  by (induction m) (auto simp: modify_entry_def)

lemma length_modify [simp]: "length (modify_entry k f m) = length m"
  by (simp add: modify_entry_def)

lemma map_of_modify [simp]:
  "map_of (modify_entry k f m) k' = (if k' = k then map_option f (map_of m k) else map_of m k')"
  by (induction m) (auto simp: modify_entry_def)

lemma map_of_filter_keys [simp]:
  "map_of (filter (\<lambda>(k, _). P k) m) k' = (if P k' then map_of m k' else None)"
  by (induction m) auto

lemma map_of_append_new: "map_of m k = None \<Longrightarrow> map_of (m @ [(k, v)]) k' = (if k' = k then Some v else map_of m k')"
  by (auto simp: map_add_def split: option.split)

lemma length_remove_keys:
  assumes "distinct (map fst m)" and "distinct ks" and "set ks \<subseteq> set (map fst m)"
  shows "length (filter (\<lambda>(k, _). k \<notin> set ks) m) + length ks = length m"
proof -
  let ?r = "filter (\<lambda>(k, _). k \<notin> set ks) m"
  have keys: "set (map fst ?r) = set (map fst m) - set ks" by force
  have "distinct (map fst ?r)" using assms(1) by (simp add: distinct_map_filter)
  then have "length ?r = card (set (map fst m) - set ks)"
    using distinct_card [of "map fst ?r"] keys by (metis length_map)
  also have "\<dots> = length m - length ks"
    using assms distinct_card [of ks] distinct_card [of "map fst m"] by (simp add: card_Diff_subset)
  finally show ?thesis
    using card_mono [OF _ assms(3)] assms distinct_card [of ks] distinct_card [of "map fst m"] by simp
qed

definition conv_wf :: "conversation_store \<Rightarrow> bool" where
  "conv_wf st \<longleftrightarrow> distinct (map fst (cs_entries st))"

definition conv_bounded :: "conversation_store \<Rightarrow> bool" where
  "conv_bounded st \<longleftrightarrow> cs_max_conversations st = 0 \<or> length (cs_entries st) \<le> cs_max_conversations st"

lemma evict_wf: "conv_wf st \<Longrightarrow> conv_wf (maybe_evict st)"
  by (simp add: conv_wf_def maybe_evict_def Let_def distinct_map_filter)

lemma evict_bounded:
  assumes "conv_wf st"
  shows "conv_bounded (maybe_evict st)"
proof -
  let ?m = "cs_entries st" and ?limit = "cs_max_conversations st"
  let ?sorted = "sort_key (\<lambda>(_, e). ce_accessed e) ?m"
  let ?victims = "map fst (take (length ?m - ?limit) ?sorted)"
  have "distinct (map fst ?sorted)"
    using assms by (simp add: conv_wf_def distinct_map)
  then have "distinct ?victims" by (simp add: distinct_take flip: take_map)
  moreover have "set ?victims \<subseteq> set (map fst ?m)"
    using set_take_subset [of "length ?m - ?limit" ?sorted] by auto
  ultimately have "length (filter (\<lambda>(k, _). k \<notin> set ?victims) ?m) + length ?victims = length ?m"
    using assms unfolding conv_wf_def by (intro length_remove_keys)
  then show ?thesis by (auto simp: conv_bounded_def maybe_evict_def Let_def)
qed

subsection \<open>Runs of operations\<close>

datatype conv_op =
    GetOp int string
  | CreateOp int string
  | AddOp int string "injection list"
  | TakeOp int string
  | MetadataOp int string "string option" "string option" "string list option"
  | ClearOp string
  | CleanupOp int

fun conv_step :: "conversation_store \<Rightarrow> conv_op \<Rightarrow> conversation_store" where
  "conv_step st (GetOp now c) = snd (conv_get now c st)"
| "conv_step st (CreateOp now c) = get_or_create now c st"
| "conv_step st (AddOp now c msgs) = add_injections now c msgs st"
| "conv_step st (TakeOp now c) = snd (take_injections now c st)"
| "conv_step st (MetadataOp now c p m ts) = update_conversation_handler now c p m ts st"
| "conv_step st (ClearOp c) = conv_clear c st"
| "conv_step st (CleanupOp now) = conv_cleanup now st"

text \<open>The operations that create entries without evicting any.\<close>

fun creates :: "conv_op \<Rightarrow> bool" where
  "creates (CreateOp now c) = True"
| "creates (MetadataOp now c p m ts) = True"
| "creates _ = False"

lemma conv_wf_step: "conv_wf st \<Longrightarrow> conv_wf (conv_step st x)"
proof (cases x)
  case (AddOp now c msgs)
  then show "conv_wf st \<Longrightarrow> ?thesis"
    by (auto simp: add_injections_def conv_wf_def map_of_eq_None_iff intro!: evict_wf [unfolded conv_wf_def])
qed (auto simp: conv_wf_def conv_get_def get_or_create_def take_injections_def update_conversation_handler_def
    update_metadata_def conv_clear_def conv_cleanup_def Let_def map_of_eq_None_iff distinct_map_filter
    split: option.split)

lemma conv_bounded_step:
  assumes "conv_wf st" and "conv_bounded st" and "\<not> creates x"
  shows "conv_bounded (conv_step st x)"
proof (cases x)
  case (AddOp now c msgs)
  have "conv_wf (st\<lparr>cs_entries := modify_entry c f (cs_entries st)\<rparr>)" for f
    using assms(1) by (simp add: conv_wf_def)
  moreover have "conv_wf (st\<lparr>cs_entries := cs_entries st @ [(c, e)], cs_created := n\<rparr>)"
    if "map_of (cs_entries st) c = None" for e n
    using assms(1) that by (simp add: conv_wf_def map_of_eq_None_iff)
  ultimately show ?thesis using AddOp by (auto simp: add_injections_def intro!: evict_bounded)
next
  case (ClearOp c)
  then show ?thesis
    using assms(2) le_trans [OF length_filter_le] by (auto simp: conv_bounded_def conv_clear_def)
next
  case (CleanupOp now)
  then show ?thesis
    using assms(2) le_trans [OF length_filter_le] by (auto simp: conv_bounded_def conv_cleanup_def Let_def)
qed (use assms in \<open>auto simp: conv_bounded_def conv_get_def take_injections_def split: option.split\<close>)

interpretation conversations: guarded_component conv_step "\<lambda>x. \<not> creates x" "\<lambda>st. conv_wf st \<and> conv_bounded st"
  by unfold_locales (simp add: conv_wf_step conv_bounded_step)

text \<open>
  A store that only queues, delivers and removes injections never holds more
  conversations than its capacity.
\<close>

theorem conversation_capacity:
  assumes "\<forall>x \<in> set ops. \<not> creates x"
  shows "let st = foldl conv_step (store_new limit ttl) ops
    in limit \<noteq> 0 \<longrightarrow> length (list_conversations st) \<le> limit \<and> distinct (list_conversations st)"
proof -
  have keep: "cs_max_conversations (foldl conv_step st ops) = cs_max_conversations st" for st
  proof (induction ops arbitrary: st)
    case (Cons x xs)
    have "cs_max_conversations (conv_step st x) = cs_max_conversations st"
      by (cases x) (auto simp: conv_get_def get_or_create_def add_injections_def maybe_evict_def take_injections_def
          update_conversation_handler_def update_metadata_def conv_clear_def conv_cleanup_def Let_def
          split: option.split)
    with Cons show ?case by simp
  qed simp
  have "conv_wf (foldl conv_step (store_new limit ttl) ops) \<and> conv_bounded (foldl conv_step (store_new limit ttl) ops)"
    by (rule conversations.run_guarded) (use assms in \<open>simp_all add: conv_wf_def conv_bounded_def store_new_def\<close>)
  with keep [of "store_new limit ttl"] show ?thesis
    by (auto simp: conv_wf_def conv_bounded_def list_conversations_def store_new_def Let_def)
qed

theorem conversation_capacity_witness:
  "list_conversations (foldl conv_step (store_new 2 60)
     [AddOp 1 ''a'' [], AddOp 2 ''b'' [], TakeOp 3 ''a'', AddOp 4 ''c'' []]) = [''a'', ''c''] \<and>
   length (list_conversations (foldl conv_step (store_new 2 60)
     [AddOp 1 ''a'' [], AddOp 2 ''b'' [], TakeOp 3 ''a'', AddOp 4 ''c'' []])) \<le> 2"
proof -
  let ?ops = "[AddOp 1 ''a'' [], AddOp 2 ''b'' [], TakeOp 3 ''a'', AddOp 4 ''c'' []]"
  have "\<forall>x \<in> set ?ops. \<not> creates x" by simp
  from conversation_capacity [OF this, of 2 60]
  have "length (list_conversations (foldl conv_step (store_new 2 60) ?ops)) \<le> 2" unfolding Let_def by simp
  moreover have "list_conversations (foldl conv_step (store_new 2 60) ?ops) = [''a'', ''c'']" by code_simp
  ultimately show ?thesis by blast
qed

text \<open>
  Registering conversations, as each captured request and each metadata update does, never
  evicts: any number of distinct conversations is kept, whatever the capacity.
\<close>

theorem creation_ignores_capacity:
  "distinct cs \<Longrightarrow>
   list_conversations (foldl conv_step (store_new limit ttl) (map (CreateOp now) cs)) = cs"
proof -
  have "distinct (list_conversations st @ cs) \<Longrightarrow>
      list_conversations (foldl conv_step st (map (CreateOp now) cs)) = list_conversations st @ cs" for st
  proof (induction cs arbitrary: st)
    case (Cons c cs)
    then have "map_of (cs_entries st) c = None" by (simp add: map_of_eq_None_iff list_conversations_def)
    then have "list_conversations (get_or_create now c st) = list_conversations st @ [c]"
      by (simp add: list_conversations_def get_or_create_def)
    with Cons show ?case by simp
  qed simp
  then show "distinct cs \<Longrightarrow> ?thesis" by (simp add: list_conversations_def store_new_def)
qed

theorem creation_ignores_capacity_witness:
  "list_conversations (foldl conv_step (store_new 1 60) (map (CreateOp 7) [''a'', ''b'', ''c''])) = [''a'', ''b'', ''c'']"
  by (rule creation_ignores_capacity) simp

subsection \<open>Delivery of injections\<close>

definition pending :: "conversation_store \<Rightarrow> string \<Rightarrow> injection list" where
  "pending st c = (case map_of (cs_entries st) c of None \<Rightarrow> [] | Some e \<Rightarrow> ce_injections e)"

text \<open>What one operation queues for a conversation, and what a run delivers to it.\<close>

fun queued :: "string \<Rightarrow> conv_op \<Rightarrow> injection list" where
  "queued c (AddOp now c' msgs) = (if c' = c then msgs else [])"
| "queued c _ = []"

fun delivered_by :: "conversation_store \<Rightarrow> string \<Rightarrow> conv_op \<Rightarrow> injection list" where
  "delivered_by st c (TakeOp now c') = (if c' = c then fst (take_injections now c' st) else [])"
| "delivered_by st c _ = []"

fun delivered :: "conversation_store \<Rightarrow> string \<Rightarrow> conv_op list \<Rightarrow> injection list" where
  "delivered st c [] = []"
| "delivered st c (x # xs) = delivered_by st c x @ delivered (conv_step st x) c xs"

text \<open>Operations that can lose what is queued: clearing and expiry, and eviction under a capacity.\<close>

fun discards :: "conv_op \<Rightarrow> bool" where
  "discards (ClearOp c) = True"
| "discards (CleanupOp now) = True"
| "discards _ = False"

lemma map_of_filter_distinct:
  assumes "distinct (map fst m)"
  shows "map_of (filter P m) k = (case map_of m k of Some v \<Rightarrow> if P (k, v) then Some v else None | None \<Rightarrow> None)"
  using assms
proof (induction m)
  case (Cons p m)
  obtain k' v where p: "p = (k', v)" by (metis prod.exhaust)
  have "map_of m k' = None" using Cons.prems p by (simp add: map_of_eq_None_iff)
  with Cons p show ?case by (auto split: option.split)
qed simp

lemma pending_evict: "pending (maybe_evict st) c = pending st c \<or> pending (maybe_evict st) c = []"
  by (simp add: maybe_evict_def pending_def Let_def)

lemma evict_unlimited: "cs_max_conversations st = 0 \<Longrightarrow> maybe_evict st = st"
  by (simp add: maybe_evict_def Let_def)

lemma pending_add:
  assumes "added = add_injections now c' msgs st"
  shows "pending added c = pending st c @ queued c (AddOp now c' msgs) \<or> pending added c = []"
    and "cs_max_conversations st = 0 \<Longrightarrow> pending added c = pending st c @ queued c (AddOp now c' msgs)"
proof -
  obtain st1 where add: "added = maybe_evict st1"
    and st1: "pending st1 c = pending st c @ queued c (AddOp now c' msgs)"
      "cs_max_conversations st1 = cs_max_conversations st"
  proof (cases "map_of (cs_entries st) c'")
    case None
    with assms show thesis
      by (intro that [of "st\<lparr>cs_entries := cs_entries st @ [(c', new_entry now msgs)], cs_created := cs_created st + 1\<rparr>"])
        (auto simp: add_injections_def pending_def map_of_append_new new_entry_def simp del: map_of_append)
  next
    case (Some e)
    with assms show thesis
      by (intro that [of "st\<lparr>cs_entries := modify_entry c'
          (\<lambda>e. e\<lparr>ce_injections := ce_injections e @ msgs, ce_accessed := now\<rparr>) (cs_entries st)\<rparr>"])
        (auto simp: add_injections_def pending_def split: option.split)
  qed
  from pending_evict [of st1 c] st1(1) add
  show "pending added c = pending st c @ queued c (AddOp now c' msgs) \<or> pending added c = []" by auto
  show "pending added c = pending st c @ queued c (AddOp now c' msgs)" if "cs_max_conversations st = 0"
    using that st1 add by (simp add: evict_unlimited)
qed

lemma pending_create: "pending (get_or_create now c' st) c = pending st c"
  by (auto simp: get_or_create_def pending_def map_of_append_new new_entry_def simp del: map_of_append
      split: option.split)

lemma pending_metadata: "pending (update_metadata now c' f st) c = pending st c"
  by (auto simp: update_metadata_def pending_def split: option.split)

lemma pending_take:
  "pending (snd (take_injections now c' st)) c = (if c' = c then [] else pending st c)"
  "fst (take_injections now c' st) = pending st c'"
  by (auto simp: take_injections_def pending_def split: option.split)

lemma pending_get: "pending (snd (conv_get now c' st)) c = pending st c"
  by (auto simp: conv_get_def pending_def split: option.split)

lemma pending_discard:
  "conv_wf st \<Longrightarrow> discards x \<Longrightarrow> pending (conv_step st x) c = pending st c \<or> pending (conv_step st x) c = []"
  by (cases x)
    (auto simp: conv_clear_def conv_cleanup_def pending_def conv_wf_def map_of_filter_distinct Let_def
      split: option.split)

lemma delivery_step:
  assumes "conv_wf st"
  shows "subseq (delivered_by st c x @ pending (conv_step st x) c) (pending st c @ queued c x)"
    and "cs_max_conversations st = 0 \<Longrightarrow> \<not> discards x \<Longrightarrow>
      delivered_by st c x @ pending (conv_step st x) c = pending st c @ queued c x"
proof -
  show "subseq (delivered_by st c x @ pending (conv_step st x) c) (pending st c @ queued c x)"
  proof (cases "discards x")
    case True
    then have "delivered_by st c x = []" "queued c x = []" by (cases x; simp)+
    with pending_discard [OF assms True, of c] show ?thesis by auto
  next
    case False
    show ?thesis
    proof (cases x)
      case (AddOp now c' msgs)
      with pending_add(1) [OF refl, of now c' msgs st c] show ?thesis by auto
    qed (use False in \<open>auto simp: pending_create pending_metadata pending_take pending_get
        update_conversation_handler_def\<close>)
  qed
  show "delivered_by st c x @ pending (conv_step st x) c = pending st c @ queued c x"
    if "cs_max_conversations st = 0" "\<not> discards x"
  proof (cases x)
    case (AddOp now c' msgs)
    with that pending_add(2) [OF refl, of st now c' msgs c] show ?thesis by simp
  qed (use that in \<open>auto simp: pending_create pending_metadata pending_take pending_get
      update_conversation_handler_def\<close>)
qed

lemma max_conversations_step: "cs_max_conversations (conv_step st x) = cs_max_conversations st"
  by (cases x) (auto simp: conv_get_def get_or_create_def add_injections_def maybe_evict_def take_injections_def
      update_conversation_handler_def update_metadata_def conv_clear_def conv_cleanup_def Let_def
      split: option.split)

lemma delivery_run:
  assumes "conv_wf st"
  shows "subseq (delivered st c ops @ pending (foldl conv_step st ops) c) (pending st c @ concat (map (queued c) ops))"
    and "cs_max_conversations st = 0 \<Longrightarrow> \<forall>x \<in> set ops. \<not> discards x \<Longrightarrow>
      delivered st c ops @ pending (foldl conv_step st ops) c = pending st c @ concat (map (queued c) ops)"
proof -
  show "subseq (delivered st c ops @ pending (foldl conv_step st ops) c) (pending st c @ concat (map (queued c) ops))"
    using assms
  proof (induction ops arbitrary: st)
    case (Cons x xs)
    let ?st = "conv_step st x" and ?rest = "concat (map (queued c) xs)"
    have "subseq (delivered_by st c x @ (delivered ?st c xs @ pending (foldl conv_step ?st xs) c))
        (delivered_by st c x @ (pending ?st c @ ?rest))"
      by (rule list_emb_append_mono) (use Cons conv_wf_step in auto)
    also have "subseq \<dots> ((pending st c @ queued c x) @ ?rest)"
      using list_emb_append_mono [OF delivery_step(1) [OF Cons.prems], of ?rest ?rest] by simp
    finally show ?case by simp
  qed simp
  show "delivered st c ops @ pending (foldl conv_step st ops) c = pending st c @ concat (map (queued c) ops)"
    if "cs_max_conversations st = 0" "\<forall>x \<in> set ops. \<not> discards x"
    using assms that
  proof (induction ops arbitrary: st)
    case (Cons x xs)
    then show ?case
      using delivery_step(2) [of st x c] conv_wf_step [of st x] by (simp add: max_conversations_step)
  qed simp
qed

text \<open>
  Claim C28. Whatever operations run, the messages delivered to a conversation and those still queued
  for it are, in this order, a selection of the messages queued for it: none is delivered twice,
  out of order or to another conversation. Without a capacity and without clearing and expiry
  none is lost.
\<close>

theorem injections_delivered_once:
  "subseq (delivered (store_new limit ttl) c ops @ pending (foldl conv_step (store_new limit ttl) ops) c)
     (concat (map (queued c) ops)) \<and>
   (limit = 0 \<and> (\<forall>x \<in> set ops. \<not> discards x) \<longrightarrow>
     delivered (store_new limit ttl) c ops @ pending (foldl conv_step (store_new limit ttl) ops) c =
       concat (map (queued c) ops))"
  using delivery_run [where st = "store_new limit ttl" and c = c and ops = ops]
  by (simp add: conv_wf_def store_new_def pending_def)

definition hello :: injection where "hello = \<lparr>in_role = ''system'', in_content = ''hello''\<rparr>"
definition bye :: injection where "bye = \<lparr>in_role = ''user'', in_content = ''bye''\<rparr>"

definition some_ops :: "conv_op list" where
  "some_ops = [AddOp 1 ''a'' [hello], AddOp 2 ''b'' [bye], TakeOp 3 ''a'', AddOp 4 ''a'' [bye]]"

theorem injections_delivered_once_witness:
  "delivered (store_new 0 60) ''a'' some_ops = [hello] \<and>
   delivered (store_new 0 60) ''a'' some_ops @ pending (foldl conv_step (store_new 0 60) some_ops) ''a'' = [hello, bye]"
proof -
  have d: "delivered (store_new 0 60) ''a'' some_ops = [hello]" by code_simp
  have q: "concat (map (queued ''a'') some_ops) = [hello, bye]" by code_simp
  have "\<forall>x \<in> set some_ops. \<not> discards x" by code_simp
  then have "delivered (store_new 0 60) ''a'' some_ops @ pending (foldl conv_step (store_new 0 60) some_ops) ''a''
      = concat (map (queued ''a'') some_ops)"
    using injections_delivered_once [where limit = 0 and ttl = 60 and c = "''a''" and ops = some_ops] by blast
  with d q show ?thesis by simp
qed

end
