(* ===== verification/Provider_Routing.thy ===== *)
theory Provider_Routing
  imports Adjustment_Retry
begin

section \<open>Which provider a request goes to (src/src/provider.rs, config.rs, state.rs, proxy.rs)\<close>

text \<open>
  The type of a provider and its names, the guesses of a provider from a host or a model name, the
  lookup of a configured provider, and the choice the proxy makes from the path, the headers, the
  run-time default and the model.
\<close>

datatype provider_type =
    OpenAI | Anthropic | Google | Azure | Mistral | Groq | Cerebras | XAI | OpenRouter | Bedrock
  | OpenAICompatible | OpenAICodex | OpenAIResponses | GithubCopilot | GoogleVertex | OpenCode
  | OpenCodeGo | TypeSafe | ElevenLabs | Cohere | Voyage | Fal | Replicate | Mock

definition provider_type_names :: "(string list \<times> provider_type) list" where
  "provider_type_names =
     [([''openai''], OpenAI), ([''anthropic'', ''claude''], Anthropic), ([''google'', ''gemini''], Google),
      ([''azure'', ''azure-openai''], Azure), ([''mistral''], Mistral), ([''groq''], Groq),
      ([''cerebras''], Cerebras), ([''xai'', ''grok''], XAI), ([''openrouter''], OpenRouter),
      ([''bedrock'', ''aws-bedrock''], Bedrock),
      ([''ollama'', ''vllm'', ''lmstudio'', ''openai-compatible'', ''compatible'',
        ''openai-completions'', ''chat-completions''], OpenAICompatible),
      ([''openai-codex'', ''codex'', ''chatgpt''], OpenAICodex),
      ([''openai-responses'', ''responses''], OpenAIResponses),
      ([''github-copilot'', ''copilot''], GithubCopilot), ([''google-vertex'', ''vertex''], GoogleVertex),
      ([''opencode'', ''opencode-zen''], OpenCode), ([''opencode-go''], OpenCodeGo),
      ([''typesafe'', ''typesafe-ai''], TypeSafe), ([''elevenlabs''], ElevenLabs), ([''cohere''], Cohere),
      ([''voyage'', ''voyageai''], Voyage), ([''fal'', ''fal-ai''], Fal), ([''replicate''], Replicate),
      ([''mock'', ''echo'', ''benchmark''], Mock)]"

definition try_from_str :: "string \<Rightarrow> provider_type option" where
  "try_from_str s =
     map_option snd (find (\<lambda>(names, _). to_lower s \<in> set names) provider_type_names)"

definition type_from_str :: "string \<Rightarrow> provider_type" where
  "type_from_str s = (case try_from_str s of Some t \<Rightarrow> t | None \<Rightarrow> OpenAI)"

subsection \<open>Guessing a provider\<close>

text \<open>The tests of the two functions, in their order; the first that succeeds decides.\<close>

definition host_tests :: "(string list \<times> string) list" where
  "host_tests =
     [([''openai.com'', ''chatgpt.com''], ''openai''),
      ([''anthropic.com'', ''claude.ai''], ''anthropic''),
      ([''aiplatform.googleapis.com''], ''google-vertex''),
      ([''generativelanguage.googleapis.com'', ''gemini.google.com'', ''aistudio.google.com''], ''google''),
      ([''githubcopilot.com'', ''copilot-api.''], ''github-copilot''),
      ([''mistral.ai''], ''mistral''),
      ([''groq.com''], ''groq''),
      ([''cerebras.ai''], ''cerebras''),
      ([''x.ai''], ''xai''),
      ([''openrouter.ai''], ''openrouter''),
      ([''together.xyz''], ''together''),
      ([''cohere.ai'', ''cohere.com''], ''cohere''),
      ([''perplexity.ai''], ''perplexity''),
      ([''deepseek.com''], ''deepseek''),
      ([''fireworks.ai''], ''fireworks''),
      ([''ai21.com''], ''ai21''),
      ([''replicate.com''], ''replicate'')]"

definition detect_provider_from_host :: "string \<Rightarrow> string option" where
  "detect_provider_from_host host =
     (let h = to_lower host
      in map_option snd (find (\<lambda>(texts, _). list_ex (\<lambda>t. contains_str t h) texts) host_tests))"

datatype model_test = Starts string | Contains string | Is string

fun model_matches :: "string \<Rightarrow> model_test \<Rightarrow> bool" where
  "model_matches m (Starts p) = starts_with p m"
| "model_matches m (Contains p) = contains_str p m"
| "model_matches m (Is p) = (m = p)"

definition model_tests :: "(model_test list \<times> string option) list" where
  "model_tests =
     [([Starts ''claude''], Some ''anthropic''),
      ([Contains ''codex'', Starts ''gpt-5''], Some ''openai-codex''),
      ([Starts ''gpt-'', Starts ''o1'', Starts ''o3'', Starts ''o4'', Starts ''chatgpt'', Starts ''text-embedding'',
        Starts ''text-davinci'', Starts ''davinci'', Starts ''dall-e'', Starts ''whisper'', Starts ''tts-''],
       Some ''openai''),
      ([Starts ''gemini'', Starts ''models/gemini''], Some ''google''),
      ([Starts ''mistral'', Starts ''codestral'', Starts ''pixtral'', Starts ''ministral''], Some ''mistral''),
      ([Starts ''groq/''], Some ''groq''),
      ([Starts ''grok''], Some ''xai''),
      ([Starts ''command'', Starts ''cohere/''], Some ''cohere''),
      ([Starts ''meta/'', Starts ''llama-''], None),
      ([Contains ''anthropic.claude'', Contains ''amazon.titan'', Contains ''ai21.j2'', Contains ''cohere.command'',
        Contains ''meta.llama'', Contains ''stability.''], Some ''bedrock''),
      ([Starts ''openrouter/''], Some ''openrouter''),
      ([Starts ''pplx-'', Starts ''sonar''], Some ''perplexity''),
      ([Starts ''deepseek''], Some ''deepseek''),
      ([Starts ''mock/'', Starts ''mock-'', Is ''mock''], Some ''mock'')]"

definition detect_provider_from_model :: "string \<Rightarrow> string option" where
  "detect_provider_from_model model =
     (let m = to_lower model
      in Option.bind (find (\<lambda>(tests, _). list_ex (model_matches m) tests) model_tests) snd)"

subsection \<open>Looking a provider up\<close>

text \<open>
  The configured providers, in the order in which their map is iterated, and the providers of the
  run-time store, with their configurations when these decode.
\<close>

record provider_config =
  pc_type :: string
  pc_models :: "model_entry list"

record provider_tables =
  file_providers :: "(string \<times> provider_config) list"
  stored_providers :: "(string \<times> provider_config option) list option"

definition provider_type_of :: "provider_config \<Rightarrow> provider_type" where
  "provider_type_of pc = type_from_str (pc_type pc)"

definition config_resolve_provider :: "(string \<times> 'p) list \<Rightarrow> string \<Rightarrow> (string \<times> 'p) option" where
  "config_resolve_provider providers name =
     (case find (\<lambda>(k, _). to_lower k = to_lower name) providers of
        Some (k, pc) \<Rightarrow> Some (k, pc)
      | None \<Rightarrow>
          if name = [] then map_option (\<lambda>pc. (''default'', pc)) (map_of providers ''default'') else None)"

definition resolve_provider :: "provider_tables \<Rightarrow> string \<Rightarrow> (string \<times> provider_config) option" where
  "resolve_provider tables name =
     (case config_resolve_provider (file_providers tables) name of
        Some found \<Rightarrow> Some found
      | None \<Rightarrow>
          (case Option.bind (stored_providers tables) (find (\<lambda>(k, _). eq_ignore_case k name)) of
             None \<Rightarrow> None
           | Some (k, decoded) \<Rightarrow>
               (case decoded of
                  None \<Rightarrow> None
                | Some pc \<Rightarrow> if try_from_str (pc_type pc) = None then None else Some (k, pc))))"

subsection \<open>The model and the provider of a request\<close>

text \<open>\<open>str::split\<close> at a text, as far as the second piece is concerned, and at a character.\<close>

fun after_first :: "string \<Rightarrow> string \<Rightarrow> string option" where
  "after_first sep [] = strip_prefix sep []"
| "after_first sep (c # cs) =
     (case strip_prefix sep (c # cs) of Some rest \<Rightarrow> Some rest | None \<Rightarrow> after_first sep cs)"

fun before_first :: "string \<Rightarrow> string \<Rightarrow> string" where
  "before_first sep [] = []"
| "before_first sep (c # cs) = (if strip_prefix sep (c # cs) \<noteq> None then [] else c # before_first sep cs)"

definition google_model_from_path :: "string \<Rightarrow> string option" where
  "google_model_from_path path =
     (case after_first ''/models/'' path of
        None \<Rightarrow> None
      | Some rest \<Rightarrow>
          let after = before_first ''/models/'' rest;
              model = takeWhile (\<lambda>c. c \<noteq> CHR '':'') after
          in if model = [] then None else Some model)"

definition request_model :: "string \<Rightarrow> json \<Rightarrow> string" where
  "request_model path body =
     (case google_model_from_path path of
        Some m \<Rightarrow> m
      | None \<Rightarrow>
          (case Option.bind (case jget body ''model'' of Some v \<Rightarrow> Some v | None \<Rightarrow> jget body ''model_id'') as_str of
             Some m \<Rightarrow> m | None \<Rightarrow> ''unknown''))"

definition pre_body_provider :: "string option \<Rightarrow> string option \<Rightarrow> string option \<Rightarrow> string option" where
  "pre_body_provider path_provider header_provider original_host =
     first_of [path_provider, header_provider, Option.bind original_host detect_provider_from_host]"

definition matched_provider :: "provider_tables \<Rightarrow> string \<Rightarrow> string option" where
  "matched_provider tables model =
     map_option
       (\<lambda>guess.
          if resolve_provider tables guess \<noteq> None then guess
          else (case filter (\<lambda>(_, pc). eq_ignore_case (pc_type pc) guess) (file_providers tables) of
                  [(name, _)] \<Rightarrow> name | _ \<Rightarrow> guess))
       (detect_provider_from_model model)"

definition requested_provider :: "provider_tables \<Rightarrow> string option \<Rightarrow> string option \<Rightarrow> string \<Rightarrow> string" where
  "requested_provider tables pre runtime_default model =
     (case first_of [pre, if pre = None then runtime_default else None, matched_provider tables model] of
        Some name \<Rightarrow> name | None \<Rightarrow> ''default'')"

subsection \<open>What the lookup and the choice guarantee\<close>

lemma resolve_provider_named:
  assumes "resolve_provider tables name = Some (k, pc)" and "name \<noteq> []"
  shows "eq_ignore_case k name"
  using assms
  by (auto simp: resolve_provider_def config_resolve_provider_def eq_ignore_case_def bind_eq_Some_conv
      dest!: find_SomeD split: option.splits if_splits)

lemma file_provider_first:
  "config_resolve_provider (file_providers tables) name = Some found \<Longrightarrow> resolve_provider tables name = Some found"
  by (simp add: resolve_provider_def)

lemma detected_nonempty: "detect_provider_from_model model = Some guess \<Longrightarrow> guess \<noteq> []"
proof -
  have all: "\<forall>(tests, r) \<in> set model_tests. r \<noteq> Some []" by code_simp
  assume "detect_provider_from_model model = Some guess"
  then obtain tests where "(tests, Some guess) \<in> set model_tests"
    by (auto simp: detect_provider_from_model_def Let_def bind_eq_Some_conv dest!: find_SomeD)
  with all show "guess \<noteq> []" by auto
qed

text \<open>
  A provider guessed from the model name is never replaced by another one: the provider
  such a request resolves to has the guessed name, or the guessed name is not configured and it
  is the only configured provider of the guessed type.
\<close>

theorem guess_never_falls_back:
  assumes "detect_provider_from_model model = Some guess"
    and "resolve_provider tables (requested_provider tables None None model) = Some (k, pc)"
  shows "eq_ignore_case k guess \<or>
    resolve_provider tables guess = None \<and>
    (\<exists>name only. filter (\<lambda>(_, c). eq_ignore_case (pc_type c) guess) (file_providers tables) = [(name, only)] \<and>
       (name \<noteq> [] \<longrightarrow> eq_ignore_case k name))"
proof (cases "resolve_provider tables guess")
  case (Some found)
  then have "requested_provider tables None None model = guess"
    using assms(1) by (simp add: requested_provider_def matched_provider_def first_of_def)
  with assms(2) show ?thesis using resolve_provider_named detected_nonempty [OF assms(1)] by auto
next
  case None
  let ?of_type = "filter (\<lambda>(_, c). eq_ignore_case (pc_type c) guess) (file_providers tables)"
  have req: "requested_provider tables None None model = (case ?of_type of [(name, _)] \<Rightarrow> name | _ \<Rightarrow> guess)"
    using None assms(1) by (simp add: requested_provider_def matched_provider_def first_of_def)
  show ?thesis
  proof (cases "\<exists>name only. ?of_type = [(name, only)]")
    case True
    then obtain name only where "?of_type = [(name, only)]" by blast
    with req None assms(2) resolve_provider_named show ?thesis by auto
  next
    case False
    then have "requested_provider tables None None model = guess"
      using req by (auto split: list.splits)
    with None assms(2) show ?thesis by simp
  qed
qed

definition some_tables :: provider_tables where
  "some_tables = \<lparr>file_providers =
     [(''default'', \<lparr>pc_type = ''openai'', pc_models = []\<rparr>), (''Claude'', \<lparr>pc_type = ''anthropic'', pc_models = []\<rparr>)],
     stored_providers = None\<rparr>"

theorem guess_never_falls_back_witness:
  "detect_provider_from_model ''gpt-4'' = Some ''openai'' \<and>
   requested_provider some_tables None None ''gpt-4'' = ''default'' \<and>
   (eq_ignore_case ''default'' ''openai'' \<or> resolve_provider some_tables ''openai'' = None \<and>
    (\<exists>name only. filter (\<lambda>(_, c). eq_ignore_case (pc_type c) ''openai'') (file_providers some_tables) = [(name, only)] \<and>
       (name \<noteq> [] \<longrightarrow> eq_ignore_case ''default'' name)))"
proof -
  have d: "detect_provider_from_model ''gpt-4'' = Some ''openai''" by code_simp
  have q: "requested_provider some_tables None None ''gpt-4'' = ''default''" by code_simp
  have "resolve_provider some_tables ''default'' = Some (''default'', \<lparr>pc_type = ''openai'', pc_models = []\<rparr>)"
    by code_simp
  then have r: "resolve_provider some_tables (requested_provider some_tables None None ''gpt-4'') =
      Some (''default'', \<lparr>pc_type = ''openai'', pc_models = []\<rparr>)" unfolding q .
  from guess_never_falls_back [OF d r] d q show ?thesis by blast
qed

end
