(* ===== verification/Proxy_Admission.thy ===== *)
theory Proxy_Admission
  imports Provider_Routing Conversations Key_Validation Policy Delegated_Fetch Pools
begin

section \<open>The way of a request to an upstream (src/src/proxy.rs)\<close>

text \<open>
  The first half of the proxy handler: everything that happens to a request before it is translated
  for the provider and sent. It reads and decompresses the body, chooses the model and the
  provider, refuses paths and content the provider must not see, authenticates the key, removes
  what could make the provider fetch, adds the messages injected into the conversation, applies
  the operator's policy, and checks the model again.

  The components it calls are those of the other theories. Arguments: the external functions of
  \<open>externals\<close>, and \<open>zstd n bytes\<close>, what a reader of at most \<open>n\<close> bytes gets from the decompressor.
\<close>

subsection \<open>Native inference paths\<close>

definition openai_media_path :: "string \<Rightarrow> bool" where
  "openai_media_path path \<longleftrightarrow>
     path = ''/v1/decisions'' \<or> path = ''/v1/embeddings'' \<or> path = ''/v1/images/generations'' \<or>
     path = ''/v1/images/edits'' \<or> path = ''/v1/images/variations'' \<or>
     path \<in> {''/v1/audio/speech'', ''/v1/audio/transcriptions'', ''/v1/audio/translations''} \<or>
     path = ''/v1/videos'' \<or> starts_with ''/v1/videos/'' path"

definition native_inference_path :: "provider_type \<Rightarrow> string \<Rightarrow> bool" where
  "native_inference_path provider path \<longleftrightarrow>
     (case provider of
        OpenAI \<Rightarrow> openai_media_path path
      | OpenAIResponses \<Rightarrow> openai_media_path path
      | OpenAICompatible \<Rightarrow> openai_media_path path
      | TypeSafe \<Rightarrow> path = ''/v1/systemone''
      | ElevenLabs \<Rightarrow> starts_with ''/v1/text-to-speech/'' path \<or> path = ''/v1/speech-to-text'' \<or>
                      starts_with ''/v1/speech-to-text/'' path
      | Cohere \<Rightarrow> path \<in> {''/v1/eavs/rerank'', ''/v2/rerank'', ''/v2/embed'', ''/v1/embed''}
      | Voyage \<Rightarrow> path \<in> {''/v1/eavs/rerank'', ''/v1/rerank'', ''/v1/embeddings''}
      | _ \<Rightarrow> False)"

definition native_inference_method :: "string \<Rightarrow> string \<Rightarrow> bool" where
  "native_inference_method path http_method \<longleftrightarrow>
     (if starts_with ''/v1/videos/'' path then http_method = ''GET'' else http_method = ''POST'')"

definition is_inference_path :: "string \<Rightarrow> bool" where
  "is_inference_path path \<longleftrightarrow>
     path = ''/v1/systemone'' \<or> path = ''/v1/decisions'' \<or> path = ''/v1/eavs/rerank'' \<or> path = ''/v1/embeddings'' \<or>
     starts_with ''/v1/images/'' path \<or>
     path \<in> {''/v1/audio/speech'', ''/v1/audio/transcriptions'', ''/v1/audio/translations''} \<or>
     path = ''/v1/videos'' \<or> starts_with ''/v1/videos/'' path \<or>
     path \<in> {''/v1/rerank'', ''/v2/rerank'', ''/v1/embed'', ''/v2/embed''} \<or>
     starts_with ''/v1/text-to-speech/'' path \<or> starts_with ''/v1/speech-to-text'' path"

definition supports_models_endpoint :: "provider_type \<Rightarrow> bool" where
  "supports_models_endpoint t \<longleftrightarrow>
     t \<in> {OpenAI, Anthropic, Azure, Mistral, Groq, XAI, OpenRouter, OpenAICompatible, OpenAIResponses,
          OpenCode, OpenCodeGo, TypeSafe, ElevenLabs}"

definition reference_key :: "string \<Rightarrow> json \<Rightarrow> bool" where
  "reference_key k v \<longleftrightarrow>
     (k = ''url'' \<or> ends_with ''_url'' k) \<and>
     (case as_str v of Some s \<Rightarrow> starts_with ''http://'' s \<or> starts_with ''https://'' s | None \<Rightarrow> False)"

fun has_remote_media_reference :: "json \<Rightarrow> bool" where
  "has_remote_media_reference (JObj m) =
     list_ex (\<lambda>(k, v). reference_key k v \<or> has_remote_media_reference v) m"
| "has_remote_media_reference (JArr vs) = list_ex has_remote_media_reference vs"
| "has_remote_media_reference _ = False"

definition unsafe_path :: "string \<Rightarrow> bool" where
  "unsafe_path path \<longleftrightarrow>
     CHR ''%'' \<in> set path \<or> CHR 0x5C \<in> set path \<or>
     list_ex (\<lambda>s. s = ''.'' \<or> s = ''..'') (split_at (CHR ''/'') path)"

subsection \<open>Changes to the body\<close>

definition space_if_empty :: "json \<Rightarrow> json" where
  "space_if_empty part =
     (if str_field part ''type'' = Some ''text'' \<and> str_field part ''text'' = Some []
      then set_field part ''text'' (JStr '' '') else part)"

definition sanitize_empty_message :: "json \<Rightarrow> json" where
  "sanitize_empty_message msg =
     (case jget msg ''content'' of
        Some (JArr parts) \<Rightarrow> set_field msg ''content'' (JArr (map space_if_empty parts))
      | Some (JStr s) \<Rightarrow> if s = [] then set_field msg ''content'' (JStr '' '') else msg
      | _ \<Rightarrow> msg)"

definition sanitize_empty_text_parts :: "json \<Rightarrow> json" where
  "sanitize_empty_text_parts body =
     (case Option.bind (jget body ''messages'') as_array of
        None \<Rightarrow> body
      | Some messages \<Rightarrow> set_field body ''messages'' (JArr (map sanitize_empty_message messages)))"

definition injection_json :: "injection \<Rightarrow> json" where
  "injection_json i = JObj [(''content'', JStr (in_content i)), (''role'', JStr (in_role i))]"

definition apply_injections :: "json \<Rightarrow> injection list \<Rightarrow> json" where
  "apply_injections body injections =
     (case Option.bind (jget body ''messages'') as_array of
        None \<Rightarrow> body
      | Some messages \<Rightarrow>
          set_field body ''messages''
            (JArr (map injection_json (filter (\<lambda>i. in_role i = ''system'') injections) @ messages @
                   map injection_json (filter (\<lambda>i. in_role i \<noteq> ''system'') injections))))"

text \<open>Policy, then the delegated fetch sanitiser, on the same body.\<close>

definition apply_policy_and_sanitize ::
    "(string \<Rightarrow> string \<Rightarrow> bool) \<Rightarrow> (string \<Rightarrow> string option) \<Rightarrow> policy_config \<Rightarrow> string \<Rightarrow> string \<Rightarrow>
     delegated_fetch_policy \<Rightarrow> json \<Rightarrow> policy_result \<times> stripped_item list" where
  "apply_policy_and_sanitize gm url_host policy provider path fetch body =
     (case policy_apply gm policy provider path body of
        Applied body' \<Rightarrow> (case sanitize url_host fetch body' of (body'', audit) \<Rightarrow> (Applied body'', audit))
      | refused \<Rightarrow> (refused, []))"

definition conversation_namespace :: "string \<Rightarrow> string option \<Rightarrow> string" where
  "conversation_namespace conversation tenant =
     (case tenant of Some kh \<Rightarrow> ''key:'' @ kh @ '':'' @ conversation | None \<Rightarrow> conversation)"

subsection \<open>The handler\<close>

record 'g externals =
  ex_sha256 :: "string \<Rightarrow> u8 list"
  ex_glob :: "string \<Rightarrow> string \<Rightarrow> bool"
  ex_rpm_new :: "u32 \<Rightarrow> 'g"
  ex_rpm_check :: "u64 \<Rightarrow> 'g \<Rightarrow> bool \<times> 'g"
  ex_parse :: "string \<Rightarrow> json option"
  ex_zstd :: "nat \<Rightarrow> string \<Rightarrow> string option"
  ex_url_host :: "string \<Rightarrow> string option"
  ex_estimate :: "json \<Rightarrow> string \<Rightarrow> u32"

record gateway_config =
  gc_tables :: provider_tables
  gc_runtime_default :: "string option"
  gc_keys_enabled :: bool
  gc_require_key :: bool
  gc_validator_ready :: bool
  gc_max_body_size :: nat
  gc_policy :: policy_config
  gc_fetch :: delegated_fetch_policy
  gc_capture_all :: bool

record proxy_request =
  rq_method :: string
  rq_path :: string
  rq_path_provider :: "string option"
  rq_headers :: headers
  rq_body_limit :: "nat option"
  rq_body :: string

text \<open>What the operations of other requests change while this one is admitted is not in the state.\<close>

record 'g gateway =
  gw_validator :: "'g validator"
  gw_conversations :: conversation_store
  gw_legacy :: "string \<Rightarrow> injection list option"

datatype refusal = Refusal u16 string string | Crash

record admitted =
  ad_provider :: string
  ad_type :: provider_type
  ad_api_path :: string
  ad_model :: string
  ad_native :: bool
  ad_key :: "validated_key option"
  ad_fetch :: delegated_fetch_policy
  ad_body :: json
  ad_audit :: "stripped_item list"

definition usize_max :: nat where "usize_max = 2 ^ 64 - 1"

definition body_limit :: "gateway_config \<Rightarrow> proxy_request \<Rightarrow> nat" where
  "body_limit cfg rq =
     (let limit = (if gc_max_body_size cfg > 0 then gc_max_body_size cfg else usize_max)
      in case rq_body_limit rq of Some l \<Rightarrow> min limit l | None \<Rightarrow> limit)"

definition read_body :: "'g externals \<Rightarrow> gateway_config \<Rightarrow> proxy_request \<Rightarrow> refusal + string" where
  "read_body ex cfg rq =
     (let limit = body_limit cfg rq
      in if length (rq_body rq) > limit then Inl (Refusal 413 ''payload_too_large'' [])
         else if (case get_header ''content-encoding'' (rq_headers rq) of
                    Some v \<Rightarrow> eq_ignore_case (trim v) ''zstd'' | None \<Rightarrow> False)
         then (case ex_zstd ex (min (limit + 1) usize_max) (rq_body rq) of
                 Some decoded \<Rightarrow>
                   if length decoded \<le> limit then Inr decoded
                   else Inl (Refusal 413 ''request_too_large'' [])
               | None \<Rightarrow> Inl (Refusal 400 ''invalid_request'' []))
         else Inr (rq_body rq))"

definition parse_body :: "'g externals \<Rightarrow> string \<Rightarrow> json" where
  "parse_body ex bytes =
     (if bytes = [] then JNull else case ex_parse ex bytes of Some j \<Rightarrow> j | None \<Rightarrow> JNull)"

definition api_path_of :: "proxy_request \<Rightarrow> string" where
  "api_path_of rq =
     (case rq_path_provider rq of
        Some p \<Rightarrow> (case strip_prefix (''/'' @ p) (rq_path rq) of Some rest \<Rightarrow> rest | None \<Rightarrow> rq_path rq)
      | None \<Rightarrow> rq_path rq)"

text \<open>The shape of the request: path, method and kind of body.\<close>

definition upload_path :: "string \<Rightarrow> bool" where
  "upload_path path \<longleftrightarrow>
     path = ''/v1/images/edits'' \<or> path = ''/v1/images/variations'' \<or> starts_with ''/v1/speech-to-text'' path \<or>
     path \<in> {''/v1/audio/transcriptions'', ''/v1/audio/translations''} \<or> starts_with ''/v1/text-to-speech/'' path"

definition upload_type :: "string option \<Rightarrow> bool" where
  "upload_type content_type \<longleftrightarrow>
     (case content_type of
        None \<Rightarrow> False
      | Some t \<Rightarrow> starts_with ''multipart/form-data;'' t \<or> starts_with ''audio/'' t \<or>
                  t = ''application/octet-stream'')"

fun is_deny :: "policy_rule \<Rightarrow> bool" where
  "is_deny (Deny p m rp reason) = True"
| "is_deny _ = False"

definition is_opaque :: "bool \<Rightarrow> string \<Rightarrow> string option \<Rightarrow> bool" where
  "is_opaque native bytes content_type \<longleftrightarrow>
     native \<and> bytes \<noteq> [] \<and>
     \<not> (case content_type of Some t \<Rightarrow> starts_with ''application/json'' t | None \<Rightarrow> False)"

definition check_shape ::
    "gateway_config \<Rightarrow> provider_type \<Rightarrow> string \<Rightarrow> string \<Rightarrow> string option \<Rightarrow> string \<Rightarrow> json \<Rightarrow> refusal option" where
  "check_shape cfg ptype path http_method content_type bytes body =
     (let native = native_inference_path ptype path; opaque = is_opaque native bytes content_type
      in if ptype \<in> {Fal, Replicate} then Some (Refusal 400 ''unsupported_api_shape'' [])
         else if unsafe_path path then Some (Refusal 400 ''invalid_path'' [])
         else if is_inference_path path \<and> \<not> native \<or>
                 ptype \<in> {TypeSafe, ElevenLabs, Cohere, Voyage} \<and> \<not> native \<and>
                   \<not> (path = ''/v1/models'' \<and> supports_models_endpoint ptype)
         then Some (Refusal 400 ''unsupported_api_shape'' [])
         else if native \<and> \<not> native_inference_method path http_method
         then Some (Refusal 405 ''unsupported_method'' [])
         else if native \<and> \<not> opaque \<and> bytes \<noteq> [] \<and> body = JNull then Some (Refusal 400 ''invalid_request'' [])
         else if opaque \<and> \<not> (upload_path path \<and> upload_type content_type)
         then Some (Refusal 415 ''unsupported_media_type'' [])
         else if opaque \<and> policy_enabled (gc_policy cfg) \<and>
                 list_ex (\<lambda>r. \<not> is_deny r) (policy_rules (gc_policy cfg))
         then Some (Refusal 400 ''unsupported_policy'' [])
         else None)"

text \<open>The key, if there is one: the validator is asked only for what looks like a virtual key.\<close>

definition authenticate ::
    "'g externals \<Rightarrow> gateway_config \<Rightarrow> instant \<Rightarrow> u64 \<Rightarrow> bool \<Rightarrow> string option \<Rightarrow> string \<Rightarrow> string \<Rightarrow> json \<Rightarrow>
     'g validator \<Rightarrow> (refusal + validated_key option) \<times> 'g validator" where
  "authenticate ex cfg now secs db_ok token model provider body v =
     (let require_key = gc_keys_enabled cfg \<and> gc_require_key cfg
      in case token of
           Some key \<Rightarrow>
             if is_virtual_key key
             then if gc_validator_ready cfg
                  then (case validate (ex_sha256 ex) (ex_glob ex) (ex_rpm_new ex) (ex_rpm_check ex) now secs db_ok
                               key model provider (Some (ex_estimate ex body model)) v of
                          (Inl e, v') \<Rightarrow> (Inl (Refusal (status_code e) ''authentication_error'' (error_code e)), v')
                        | (Inr vk, v') \<Rightarrow> (Inr (Some vk), v'))
                  else (Inl (Refusal 503 ''service_unavailable'' []), v)
             else if require_key then (Inl (Refusal 401 ''authentication_error'' ''invalid_api_key''), v)
             else (Inr None, v)
         | None \<Rightarrow>
             if require_key then (Inl (Refusal 401 ''authentication_error'' ''missing_api_key''), v)
             else (Inr None, v))"

text \<open>What a key cannot be used for, because its limits could not be enforced there.\<close>

definition check_key_shape :: "bool \<Rightarrow> bool \<Rightarrow> string \<Rightarrow> validated_key option \<Rightarrow> refusal option" where
  "check_key_shape native opaque path key =
     (case key of
        None \<Rightarrow> None
      | Some vk \<Rightarrow>
          let perms = vk_permissions vk
          in if opaque \<and> (allowed_models perms \<noteq> None \<or> blocked_models perms \<noteq> None)
             then Some (Refusal 403 ''unsupported_model_scope'' [])
             else if path = ''/v1/videos'' \<or> starts_with ''/v1/videos/'' path
             then Some (Refusal 400 ''unsupported_api_shape'' [])
             else if native \<and> (max_budget_usd perms \<noteq> None \<or> tpm_limit perms \<noteq> None)
             then Some (Refusal 400 ''unsupported_metering'' [])
             else None)"

text \<open>The conversation's bookkeeping and the messages waiting for it.\<close>

definition note_conversation ::
    "gateway_config \<Rightarrow> int \<Rightarrow> string \<Rightarrow> string \<Rightarrow> string \<Rightarrow> conversation_store \<Rightarrow> conversation_store" where
  "note_conversation cfg tick ns provider model st =
     (if gc_capture_all cfg
      then update_metadata tick ns
             (\<lambda>m. m\<lparr>cm_provider := Some provider, cm_model := Some model,
                    cm_request_count := cm_request_count m + 1\<rparr>)
             (get_or_create tick ns st)
      else st)"

definition add_waiting_messages ::
    "int \<Rightarrow> bool \<Rightarrow> string \<Rightarrow> json \<Rightarrow> 'g gateway \<Rightarrow> json \<times> 'g gateway" where
  "add_waiting_messages tick native ns body gw =
     (if native then (body, gw)
      else
        let (waiting, st') = take_injections tick ns (gw_conversations gw);
            body1 = (if waiting \<noteq> [] then apply_injections body waiting else body);
            legacy = gw_legacy gw ns;
            body2 = (case legacy of Some is' \<Rightarrow> apply_injections body1 is' | None \<Rightarrow> body1)
        in (body2, gw\<lparr>gw_conversations := st', gw_legacy := (gw_legacy gw)(ns := None)\<rparr>))"

text \<open>The checks on the body that the policy leaves, and the last change to it.\<close>

definition finish_body ::
    "'g externals \<Rightarrow> bool \<Rightarrow> string \<Rightarrow> string \<Rightarrow> validated_key option \<Rightarrow> delegated_fetch_policy \<Rightarrow> json \<Rightarrow>
     refusal + json" where
  "finish_body ex native path model key fetch body =
     (let effective = (case str_field body ''model'' of Some m \<Rightarrow> m | None \<Rightarrow> model)
      in if (case key of Some vk \<Rightarrow> \<not> is_model_allowed (ex_glob ex) (vk_permissions vk) effective | None \<Rightarrow> False)
         then Inl (Refusal 403 ''authentication_error'' ''model_not_allowed'')
         else if native \<and> \<not> allow_remote_content fetch \<and>
                 (starts_with ''/v1/images/'' path \<or> starts_with ''/v1/videos'' path) \<and>
                 has_remote_media_reference body
         then Inl (Refusal 403 ''network_policy'' [])
         else Inr (sanitize_empty_text_parts body))"

text \<open>From the authenticated key to the body that is translated and sent.\<close>

definition prepare ::
    "'g externals \<Rightarrow> gateway_config \<Rightarrow> int \<Rightarrow> proxy_request \<Rightarrow> string \<Rightarrow> provider_type \<Rightarrow> string \<Rightarrow> string \<Rightarrow>
     json \<Rightarrow> validated_key option \<Rightarrow> 'g gateway \<Rightarrow> (refusal + admitted) \<times> 'g gateway" where
  "prepare ex cfg tick rq provider ptype path model body key gw =
     (let native = native_inference_path ptype path;
          fetch = policy_for_key_metadata (gc_fetch cfg) (map_option vk_metadata key);
          (body1, audit1) = sanitize (ex_url_host ex) fetch body;
          conversation = (case get_header ''x-conversation-id'' (rq_headers rq) of
                            Some c \<Rightarrow> c | None \<Rightarrow> ''default'');
          ns = conversation_namespace conversation (map_option vk_key_hash key);
          gw1 = gw\<lparr>gw_conversations := note_conversation cfg tick ns provider model (gw_conversations gw)\<rparr>;
          (body2, gw2) = add_waiting_messages tick native ns body1 gw1
      in case apply_policy_and_sanitize (ex_glob ex) (ex_url_host ex) (gc_policy cfg) provider (rq_path rq) fetch body2 of
           (Denied reason, _) \<Rightarrow> (Inl (Refusal 403 ''policy_violation'' []), gw2)
         | (Panicked, _) \<Rightarrow> (Inl Crash, gw2)
         | (Applied body3, audit2) \<Rightarrow>
             (case finish_body ex native path model key fetch body3 of
                Inl r \<Rightarrow> (Inl r, gw2)
              | Inr body4 \<Rightarrow>
                  (Inr \<lparr>ad_provider = provider, ad_type = ptype, ad_api_path = path, ad_model = model,
                        ad_native = native, ad_key = key, ad_fetch = fetch, ad_body = body4,
                        ad_audit = audit1 @ audit2\<rparr>, gw2)))"

definition admit_request ::
    "'g externals \<Rightarrow> gateway_config \<Rightarrow> instant \<Rightarrow> u64 \<Rightarrow> int \<Rightarrow> bool \<Rightarrow> proxy_request \<Rightarrow> 'g gateway \<Rightarrow>
     (refusal + admitted) \<times> 'g gateway" where
  "admit_request ex cfg now secs tick db_ok rq gw =
     (case read_body ex cfg rq of
        Inl r \<Rightarrow> (Inl r, gw)
      | Inr bytes \<Rightarrow>
          let body = parse_body ex bytes;
              model = request_model (rq_path rq) body;
              pre = pre_body_provider (rq_path_provider rq) (get_header ''x-provider'' (rq_headers rq))
                      (get_header ''x-original-host'' (rq_headers rq));
              requested = requested_provider (gc_tables cfg) pre (gc_runtime_default cfg) model
          in (case resolve_provider (gc_tables cfg) requested of
                None \<Rightarrow> (Inl (Refusal 400 ''invalid_request_error'' ''unknown_provider''), gw)
              | Some (provider, pc) \<Rightarrow>
                  let ptype = provider_type_of pc; path = api_path_of rq;
                      content_type = get_header ''content-type'' (rq_headers rq);
                      native = native_inference_path ptype path
                  in (case check_shape cfg ptype path (rq_method rq) content_type bytes body of
                        Some r \<Rightarrow> (Inl r, gw)
                      | None \<Rightarrow>
                          (case authenticate ex cfg now secs db_ok (bearer (get_header ''authorization'' (rq_headers rq)))
                                  model provider body (gw_validator gw) of
                             (Inl r, v') \<Rightarrow> (Inl r, gw\<lparr>gw_validator := v'\<rparr>)
                           | (Inr key, v') \<Rightarrow>
                               (case check_key_shape native (is_opaque native bytes content_type) path key of
                                  Some r \<Rightarrow> (Inl r, gw\<lparr>gw_validator := v'\<rparr>)
                                | None \<Rightarrow> prepare ex cfg tick rq provider ptype path model body key
                                            (gw\<lparr>gw_validator := v'\<rparr>))))))"

subsection \<open>The stages of an admitted request\<close>

lemma authenticate_Some:
  assumes "authenticate ex cfg now secs ok token model provider body (st, rl) = (Inr (Some vk), v')"
  obtains key row where "token = Some key" "vk_key_hash vk = key_hash row"
    "rows st (hash_key (ex_sha256 ex) key) = Some (Some row)"
    "vk_permissions vk = permissions row" "vk_metadata vk = metadata row"
    "\<not> disabled row" "\<forall>e. expires_at row = Some e \<longrightarrow> now < e" "\<forall>a. valid_after row = Some a \<longrightarrow> a \<le> now"
    "\<not> maintenance (permissions row)" "is_model_allowed (ex_glob ex) (permissions row) model"
    "is_provider_allowed (permissions row) provider"
proof -
  from assms obtain key rl' st' where key: "token = Some key"
    and v: "validate_inner (ex_sha256 ex) (ex_glob ex) (ex_rpm_new ex) (ex_rpm_check ex) now secs ok key model provider
      (Some (ex_estimate ex body model)) True (st, rl) = (Inr vk, (st', rl'))"
    by (auto simp: authenticate_def validate_def Let_def split: option.splits if_splits prod.splits sum.splits)
  from v obtain k where k: "lookup_for_auth (ex_sha256 ex) ok key st = (Inr (Some k), st')"
    "check_key (ex_glob ex) now model provider True k = Inr ()" "vk = validated_of k"
    by (rule validate_inner_Inr)
  from k(1) obtain row where row: "rows st (hash_key (ex_sha256 ex) key) = Some (Some row)"
    "k = row\<lparr>usage := (case cache st (hash_key (ex_sha256 ex) key) of Some c \<Rightarrow> usage c | None \<Rightarrow> usage row)\<rparr>"
    by (auto simp: lookup_for_auth_def Let_def split: if_splits option.splits)
  show thesis
    by (rule that [OF key _ row(1)]) (use k(2,3) row(2) in \<open>auto simp: validated_of_def check_key_Inr is_valid_iff\<close>)
qed

lemma authenticate_None:
  "authenticate ex cfg now secs ok token model provider body v = (Inr None, v') \<Longrightarrow>
     \<not> (gc_keys_enabled cfg \<and> gc_require_key cfg) \<and> (\<forall>t. token = Some t \<longrightarrow> \<not> is_virtual_key t)"
  by (auto simp: authenticate_def Let_def split: option.splits if_splits prod.splits sum.splits)

lemma empty_text_frame: "k \<noteq> ''messages'' \<Longrightarrow> jget (sanitize_empty_text_parts body) k = jget body k"
  by (simp add: sanitize_empty_text_parts_def split: option.split)

lemma finish_body_Inr:
  assumes "finish_body ex native path model key fetch body = Inr body'"
  shows "body' = sanitize_empty_text_parts body \<and>
    (\<forall>vk. key = Some vk \<longrightarrow> is_model_allowed (ex_glob ex) (vk_permissions vk)
       (case str_field body' ''model'' of Some m \<Rightarrow> m | None \<Rightarrow> model)) \<and>
    (native \<and> \<not> allow_remote_content fetch \<and> (starts_with ''/v1/images/'' path \<or> starts_with ''/v1/videos'' path) \<longrightarrow>
       \<not> has_remote_media_reference body)"
  using assms
  by (auto simp: finish_body_def Let_def str_field_def empty_text_frame split: if_splits option.splits)

lemma prepare_Inr:
  assumes "prepare ex cfg tick rq provider ptype path model body key gw = (Inr ad, gw')"
  obtains body2 body3 where
    "ad_body ad = sanitize_empty_text_parts (fst (sanitize (ex_url_host ex) (ad_fetch ad) body3))"
    "policy_apply (ex_glob ex) (gc_policy cfg) provider (rq_path rq) body2 = Applied body3"
    "ad_fetch ad = policy_for_key_metadata (gc_fetch cfg) (map_option vk_metadata key)"
    "ad_provider ad = provider" "ad_type ad = ptype" "ad_api_path ad = path" "ad_model ad = model" "ad_key ad = key"
    "ad_native ad = native_inference_path ptype path"
    "\<forall>vk. key = Some vk \<longrightarrow> is_model_allowed (ex_glob ex) (vk_permissions vk)
       (case str_field (ad_body ad) ''model'' of Some m \<Rightarrow> m | None \<Rightarrow> model)"
    "ad_native ad \<and> \<not> allow_remote_content (ad_fetch ad) \<and>
       (starts_with ''/v1/images/'' path \<or> starts_with ''/v1/videos'' path) \<longrightarrow>
       \<not> has_remote_media_reference (fst (sanitize (ex_url_host ex) (ad_fetch ad) body3))"
proof -
  let ?fetch = "policy_for_key_metadata (gc_fetch cfg) (map_option vk_metadata key)"
  let ?native = "native_inference_path ptype path"
  from assms obtain body2 body3 audit1 audit2 body4 where
    p: "policy_apply (ex_glob ex) (gc_policy cfg) provider (rq_path rq) body2 = Applied body3"
    and f: "finish_body ex ?native path model key ?fetch (fst (sanitize (ex_url_host ex) ?fetch body3)) = Inr body4"
    and ad: "ad = \<lparr>ad_provider = provider, ad_type = ptype, ad_api_path = path, ad_model = model,
        ad_native = ?native, ad_key = key, ad_fetch = ?fetch, ad_body = body4, ad_audit = audit1 @ audit2\<rparr>"
    by (auto simp: prepare_def Let_def apply_policy_and_sanitize_def case_prod_beta
        split: policy_result.splits sum.splits)
  from finish_body_Inr [OF f] show thesis
    by (intro that [of body3 body2]) (auto simp: ad p)
qed

lemma admit_Inr:
  assumes "admit_request ex cfg now secs tick ok rq gw = (Inr ad, gw')"
  obtains bytes body model pc v' where
    "resolve_provider (gc_tables cfg) (requested_provider (gc_tables cfg)
       (pre_body_provider (rq_path_provider rq) (get_header ''x-provider'' (rq_headers rq))
         (get_header ''x-original-host'' (rq_headers rq))) (gc_runtime_default cfg) model) = Some (ad_provider ad, pc)"
    "model = request_model (rq_path rq) body"
    "check_shape cfg (ad_type ad) (ad_api_path ad) (rq_method rq) (get_header ''content-type'' (rq_headers rq)) bytes body = None"
    "authenticate ex cfg now secs ok (bearer (get_header ''authorization'' (rq_headers rq))) model (ad_provider ad) body
       (gw_validator gw) = (Inr (ad_key ad), v')"
    "check_key_shape (ad_native ad) (is_opaque (ad_native ad) bytes (get_header ''content-type'' (rq_headers rq)))
       (ad_api_path ad) (ad_key ad) = None"
    "prepare ex cfg tick rq (ad_provider ad) (ad_type ad) (ad_api_path ad) model body (ad_key ad) (gw\<lparr>gw_validator := v'\<rparr>)
       = (Inr ad, gw')"
    "ad_api_path ad = api_path_of rq"
proof -
  from assms obtain bytes body model provider pc ptype path key v' where
    s: "read_body ex cfg rq = Inr bytes" "body = parse_body ex bytes" "model = request_model (rq_path rq) body"
    "resolve_provider (gc_tables cfg) (requested_provider (gc_tables cfg)
       (pre_body_provider (rq_path_provider rq) (get_header ''x-provider'' (rq_headers rq))
         (get_header ''x-original-host'' (rq_headers rq))) (gc_runtime_default cfg) model) = Some (provider, pc)"
    "ptype = provider_type_of pc" "path = api_path_of rq"
    "check_shape cfg ptype path (rq_method rq) (get_header ''content-type'' (rq_headers rq)) bytes body = None"
    "authenticate ex cfg now secs ok (bearer (get_header ''authorization'' (rq_headers rq))) model provider body
       (gw_validator gw) = (Inr key, v')"
    "check_key_shape (native_inference_path ptype path)
       (is_opaque (native_inference_path ptype path) bytes (get_header ''content-type'' (rq_headers rq))) path key = None"
    "prepare ex cfg tick rq provider ptype path model body key (gw\<lparr>gw_validator := v'\<rparr>) = (Inr ad, gw')"
    unfolding admit_request_def Let_def
    by (auto split: sum.splits option.splits prod.splits)
  from s(10) have "ad_provider ad = provider" "ad_type ad = ptype" "ad_api_path ad = path" "ad_key ad = key"
    "ad_native ad = native_inference_path ptype path"
    by (rule prepare_Inr, simp)+
  with s show thesis by (intro that [where model = model and body = body and bytes = bytes and pc = pc and v' = v']) simp_all
qed

subsection \<open>Blank texts hold no media\<close>

lemma space_if_empty_get: "k \<noteq> ''text'' \<Longrightarrow> jget (space_if_empty part) k = jget part k"
  by (simp add: space_if_empty_def)

lemma space_if_empty_inside:
  assumes "inside (space_if_empty part) y"
  shows "\<exists>y'. inside part y' \<and> remote_media_references y' = remote_media_references y"
proof -
  from assms consider "y = space_if_empty part"
    | k ys x where "container (space_if_empty part)" "k \<in> {''content'', ''parts''}" "jget (space_if_empty part) k = Some (JArr ys)"
      "x \<in> set ys" "inside x y"
    by (rule insideE) blast+
  then show ?thesis
  proof cases
  case 1
  moreover have "remote_media_references (space_if_empty part) = remote_media_references part"
    by (rule references_cong) (auto simp: reference_fields_def space_if_empty_get)
  ultimately show ?thesis by (intro exI [of _ part]) (simp add: inside_self)
next
  case (2 k ys x)
  note c = 2(1) and k = 2(2) and ys = 2(3) and x = 2(4,5)
  from k have "k \<noteq> ''text''" by auto
  with ys have ys: "jget part k = Some (JArr ys)" by (simp add: space_if_empty_get)
  from c have "container part" by (simp add: container_def str_field_def space_if_empty_get)
  from inside_nested [OF this k ys x] show ?thesis by blast
  qed
qed

lemma empty_message_get: "k \<noteq> ''content'' \<Longrightarrow> jget (sanitize_empty_message msg) k = jget msg k"
  by (auto simp: sanitize_empty_message_def split: option.split json.split)

lemma empty_message_content:
  "jget (sanitize_empty_message msg) ''content'' = Some (JArr ys) \<Longrightarrow>
     \<exists>parts. jget msg ''content'' = Some (JArr parts) \<and> ys = map space_if_empty parts"
  by (auto simp: sanitize_empty_message_def split: option.splits json.splits if_splits)

lemma empty_message_inside:
  assumes "inside (sanitize_empty_message msg) y"
  shows "\<exists>y'. inside msg y' \<and> remote_media_references y' = remote_media_references y"
proof -
  from assms consider "y = sanitize_empty_message msg"
    | k ys x where "container (sanitize_empty_message msg)" "k \<in> {''content'', ''parts''}" "jget (sanitize_empty_message msg) k = Some (JArr ys)"
      "x \<in> set ys" "inside x y"
    by (rule insideE) blast+
  then show ?thesis
  proof cases
  case 1
  moreover have "remote_media_references (sanitize_empty_message msg) = remote_media_references msg"
    by (rule references_cong) (auto simp: reference_fields_def empty_message_get)
  ultimately show ?thesis by (intro exI [of _ msg]) (simp add: inside_self)
next
  case (2 k ys x)
  note c = 2(1) and k = 2(2) and ys = 2(3) and x = 2(4,5)
  from c have c: "container msg" by (simp add: container_def str_field_def empty_message_get)
  show ?thesis
  proof (cases "k = ''content''")
    case True
    with ys empty_message_content obtain parts where
      parts: "jget msg ''content'' = Some (JArr parts)" "ys = map space_if_empty parts" by blast
    with x obtain part where "part \<in> set parts" "inside (space_if_empty part) y" by auto
    with space_if_empty_inside obtain y' where "inside part y'" "remote_media_references y' = remote_media_references y"
      by blast
    moreover from inside_nested [OF c _ parts(1) \<open>part \<in> set parts\<close> this(1)] have "inside msg y'" by simp
    ultimately show ?thesis by blast
  next
    case False
    with ys have "jget msg k = Some (JArr ys)" by (simp add: empty_message_get)
    from inside_nested [OF c k this x] show ?thesis by blast
  qed
  qed
qed

lemma empty_text_media_at:
  assumes "media_at (sanitize_empty_text_parts body) y"
  shows "\<exists>y'. media_at body y' \<and> remote_media_references y' = remote_media_references y"
proof -
  from assms consider k xs x where "k \<in> set media_fields"
      "jget (sanitize_empty_text_parts body) k = Some (JArr xs)" "x \<in> set xs" "inside x y"
    | k e where "k \<in> set envelope_fields" "jget (sanitize_empty_text_parts body) k = Some e" "is_object e"
      "media_at e y"
    by (rule media_atE) blast+
  then show ?thesis
  proof cases
  case k: (1 k xs x)
  show ?thesis
  proof (cases "k = ''messages''")
    case True
    with k(2) obtain ms where ms: "jget body ''messages'' = Some (JArr ms)" "xs = map sanitize_empty_message ms"
      by (cases "Option.bind (jget body ''messages'') as_array")
        (auto simp: sanitize_empty_text_parts_def bind_eq_Some_conv)
    with k(3) obtain m where m: "m \<in> set ms" "x = sanitize_empty_message m" by auto
    with k(4) empty_message_inside obtain y' where "inside m y'" "remote_media_references y' = remote_media_references y"
      by blast
    moreover from media_direct [OF k(1) ms(1) [folded True] m(1) this(1)] have "media_at body y'" .
    ultimately show ?thesis by blast
  next
    case False
    with k(2) have "jget body k = Some (JArr xs)" by (simp add: empty_text_frame)
    from media_direct [OF k(1) this k(3,4)] show ?thesis by blast
  qed
next
  case k: (2 k e)
  then have "k \<noteq> ''messages''" by (auto simp: envelope_fields_def)
  with k(2) have "jget body k = Some e" by (simp add: empty_text_frame)
  from media_envelope [OF k(1) this k(3,4)] show ?thesis by blast
  qed
qed

text \<open>A gateway for concrete runs, with one key and one message waiting for its conversation.\<close>

definition some_ex :: "unit externals" where
  "some_ex = \<lparr>ex_sha256 = spent_digest, ex_glob = (=), ex_rpm_new = open_new, ex_rpm_check = open_check,
     ex_parse = (\<lambda>s. if s = ''b'' then Some (JObj [(''messages'', JArr [JObj [(''content'',
        JArr [image_item ''http://x/'', JObj [(''text'', JStr []), (''type'', JStr ''text'')]]), (''role'', JStr ''user'')]]),
        (''model'', JStr ''m'')]) else None),
     ex_zstd = (\<lambda>_ _. None), ex_url_host = (\<lambda>_. None), ex_estimate = (\<lambda>_ _. 0)\<rparr>"

definition some_cfg :: "policy_rule list \<Rightarrow> gateway_config" where
  "some_cfg rules = \<lparr>gc_tables = some_tables, gc_runtime_default = None, gc_keys_enabled = True, gc_require_key = True,
     gc_validator_ready = True, gc_max_body_size = 20, gc_policy = \<lparr>policy_enabled = True, policy_rules = rules\<rparr>,
     gc_fetch = no_fetch, gc_capture_all = False\<rparr>"

definition some_proxy_request :: proxy_request where
  "some_proxy_request = \<lparr>rq_method = ''POST'', rq_path = ''/v1/chat/completions'', rq_path_provider = None,
     rq_headers = [(''authorization'', ''Bearer '' @ long_token), (''x-conversation-id'', ''c'')],
     rq_body_limit = None, rq_body = ''b''\<rparr>"

definition some_gateway :: "unit gateway" where
  "some_gateway = \<lparr>gw_validator = (holding fresh_key, rl_new),
     gw_conversations = add_injections 1 ''key::c'' [hello] (store_new 10 60), gw_legacy = (\<lambda>_. None)\<rparr>"

definition some_admission :: "policy_rule list \<Rightarrow> (refusal + admitted) \<times> unit gateway" where
  "some_admission rules = admit_request some_ex (some_cfg rules) 5 5 7 True some_proxy_request some_gateway"

definition sent_body :: json where
  "sent_body = JObj [(''messages'', JArr [JObj [(''content'', JStr ''hello''), (''role'', JStr ''system'')],
     JObj [(''content'', JArr [JObj [(''text'', JStr '' ''), (''type'', JStr ''text'')]]), (''role'', JStr ''user'')]]),
     (''model'', JStr ''m'')]"

definition sent_part :: json where
  "sent_part = JObj [(''text'', JStr '' ''), (''type'', JStr ''text'')]"

lemma some_admission_admitted:
  "\<exists>ad gw'. some_admission [] = (Inr ad, gw') \<and> ad_body ad = sent_body \<and> ad_provider ad = ''default'' \<and>
     ad_api_path ad = ''/v1/chat/completions'' \<and> ad_type ad = OpenAI \<and> ad_key ad \<noteq> None \<and>
     \<not> allow_remote_content (ad_fetch ad) \<and> pending (gw_conversations gw') ''key::c'' = []"
proof -
  have "case some_admission [] of
      (Inr ad, gw') \<Rightarrow> ad_body ad = sent_body \<and> ad_provider ad = ''default'' \<and>
        ad_api_path ad = ''/v1/chat/completions'' \<and> ad_type ad = OpenAI \<and> ad_key ad \<noteq> None \<and>
        \<not> allow_remote_content (ad_fetch ad) \<and> pending (gw_conversations gw') ''key::c'' = []
    | _ \<Rightarrow> False" by code_simp
  then show ?thesis by (auto split: prod.splits sum.splits)
qed

subsection \<open>What an admitted request is entitled to\<close>

text \<open>
  Claim C4. An admitted request is authorised. If keys are required it carries one; and if its
  token is a virtual key, the row of that key in the database is enabled, within its lifetime and
  no maintenance key, and allows the provider the request goes to, the model it asked for and the
  model that its final body names.
\<close>

theorem admitted_request_authorized:
  assumes "admit_request ex cfg now secs tick ok rq gw = (Inr ad, gw')"
    and "bearer (get_header ''authorization'' (rq_headers rq)) = token"
  shows "(gc_keys_enabled cfg \<and> gc_require_key cfg \<longrightarrow> ad_key ad \<noteq> None) \<and>
    (\<forall>key. token = Some key \<longrightarrow> is_virtual_key key \<longrightarrow>
       (\<exists>row. rows (fst (gw_validator gw)) (hash_key (ex_sha256 ex) key) = Some (Some row) \<and>
          \<not> disabled row \<and> (\<forall>e. expires_at row = Some e \<longrightarrow> now < e) \<and> (\<forall>a. valid_after row = Some a \<longrightarrow> a \<le> now) \<and>
          \<not> maintenance (permissions row) \<and> is_provider_allowed (permissions row) (ad_provider ad) \<and>
          is_model_allowed (ex_glob ex) (permissions row) (ad_model ad) \<and>
          is_model_allowed (ex_glob ex) (permissions row)
            (case str_field (ad_body ad) ''model'' of Some m \<Rightarrow> m | None \<Rightarrow> ad_model ad)))"
proof -
  from assms(1) obtain body model v' where
    a: "authenticate ex cfg now secs ok (bearer (get_header ''authorization'' (rq_headers rq))) model (ad_provider ad) body
       (gw_validator gw) = (Inr (ad_key ad), v')"
    and p: "prepare ex cfg tick rq (ad_provider ad) (ad_type ad) (ad_api_path ad) model body (ad_key ad)
       (gw\<lparr>gw_validator := v'\<rparr>) = (Inr ad, gw')"
    by (rule admit_Inr)
  from p have m: "ad_model ad = model" and eff: "\<forall>vk. ad_key ad = Some vk \<longrightarrow>
      is_model_allowed (ex_glob ex) (vk_permissions vk) (case str_field (ad_body ad) ''model'' of Some m \<Rightarrow> m | None \<Rightarrow> model)"
    by (rule prepare_Inr, simp)+
  show ?thesis
  proof (cases "ad_key ad")
    case None
    with a authenticate_None assms(2) show ?thesis by metis
  next
    case (Some vk)
    obtain st rl where v: "gw_validator gw = (st, rl)" by (metis prod.exhaust)
    from a [unfolded Some v] obtain key row where
      "token = Some key" "rows st (hash_key (ex_sha256 ex) key) = Some (Some row)" "vk_permissions vk = permissions row"
      "\<not> disabled row" "\<forall>e. expires_at row = Some e \<longrightarrow> now < e" "\<forall>a. valid_after row = Some a \<longrightarrow> a \<le> now"
      "\<not> maintenance (permissions row)" "is_model_allowed (ex_glob ex) (permissions row) model"
      "is_provider_allowed (permissions row) (ad_provider ad)"
      unfolding assms(2) by (rule authenticate_Some)
    with Some eff m v show ?thesis by auto
  qed
qed

theorem admitted_request_authorized_witness:
  "fst (some_admission []) \<noteq> Inl Crash \<and> is_virtual_key long_token \<and>
   rows (fst (gw_validator some_gateway)) (hash_key spent_digest long_token) = Some (Some fresh_key) \<and>
   \<not> disabled fresh_key \<and> is_provider_allowed (permissions fresh_key) ''default'' \<and>
   is_model_allowed (=) (permissions fresh_key) ''m''"
proof -
  from some_admission_admitted obtain ad gw' where a: "some_admission [] = (Inr ad, gw')"
    "ad_body ad = sent_body" "ad_provider ad = ''default''" by blast
  have token: "bearer (get_header ''authorization'' (rq_headers some_proxy_request)) = Some long_token" by code_simp
  have key: "is_virtual_key long_token" by code_simp
  have row: "rows (fst (gw_validator some_gateway)) (hash_key spent_digest long_token) = Some (Some fresh_key)"
    by code_simp
  have model: "str_field sent_body ''model'' = Some ''m''" by code_simp
  from admitted_request_authorized [OF a(1) [unfolded some_admission_def] token] key row model a(2,3)
  have "\<not> disabled fresh_key \<and> is_provider_allowed (permissions fresh_key) ''default'' \<and>
      is_model_allowed (=) (permissions fresh_key) ''m''"
    by (auto simp: some_ex_def)
  with a(1) key row show ?thesis by simp
qed

text \<open>
  The path of an admitted request cannot escape: it has no encoded or dot segments, and a
  path of the native interfaces is one that its provider is allowed, with the right method.
\<close>

theorem admitted_path_confined:
  assumes "admit_request ex cfg now secs tick ok rq gw = (Inr ad, gw')"
  shows "ad_api_path ad = api_path_of rq \<and> \<not> unsafe_path (ad_api_path ad) \<and>
    (is_inference_path (ad_api_path ad) \<longrightarrow> native_inference_path (ad_type ad) (ad_api_path ad)) \<and>
    (native_inference_path (ad_type ad) (ad_api_path ad) \<longrightarrow>
       native_inference_method (ad_api_path ad) (rq_method rq)) \<and>
    (ad_key ad \<noteq> None \<longrightarrow> ad_api_path ad \<noteq> ''/v1/videos'' \<and> \<not> starts_with ''/v1/videos/'' (ad_api_path ad))"
proof -
  from assms obtain bytes body where
    "check_shape cfg (ad_type ad) (ad_api_path ad) (rq_method rq) (get_header ''content-type'' (rq_headers rq)) bytes body = None"
    and "check_key_shape (ad_native ad) (is_opaque (ad_native ad) bytes (get_header ''content-type'' (rq_headers rq)))
       (ad_api_path ad) (ad_key ad) = None"
    and "ad_api_path ad = api_path_of rq"
    by (rule admit_Inr)
  then show ?thesis
    by (auto simp: check_shape_def check_key_shape_def Let_def split: if_splits option.splits)
qed

theorem admitted_path_confined_witness:
  "api_path_of some_proxy_request = ''/v1/chat/completions'' \<and> \<not> unsafe_path ''/v1/chat/completions'' \<and>
   unsafe_path ''/v1/videos/../files''"
proof -
  from some_admission_admitted obtain ad gw' where a: "some_admission [] = (Inr ad, gw')"
    "ad_api_path ad = ''/v1/chat/completions''" by blast
  from admitted_path_confined [OF a(1) [unfolded some_admission_def]] a(2)
  have "api_path_of some_proxy_request = ''/v1/chat/completions'' \<and> \<not> unsafe_path ''/v1/chat/completions''" by metis
  moreover have "unsafe_path ''/v1/videos/../files''" by code_simp
  ultimately show ?thesis by simp
qed

text \<open>
  Claim C6. What the operator's policy or an injected message puts into the body is sanitised too:
  unless the tenant (for a request with a key, explicitly in the key's metadata) is permitted
  remote content, no item at a media place of an admitted body refers to any, and every hosted
  tool of the body is on the allow list.
\<close>

theorem admitted_body_clean:
  assumes "admit_request ex cfg now secs tick ok rq gw = (Inr ad, gw')"
  shows "(\<not> allow_remote_content (ad_fetch ad) \<longrightarrow>
       (\<forall>x. media_at (ad_body ad) x \<longrightarrow> remote_media_references x = [])) \<and>
    tools_clean (ad_fetch ad) (ad_body ad) \<and> allowed_server_tools (ad_fetch ad) = allowed_server_tools (gc_fetch cfg) \<and>
    (\<forall>vk. ad_key ad = Some vk \<longrightarrow> allow_remote_content (ad_fetch ad) \<longrightarrow>
       pointer (vk_metadata vk) [''delegated_fetch'', ''remote_content''] = Some (JBool True))"
proof -
  from assms obtain body model v' where
    p: "prepare ex cfg tick rq (ad_provider ad) (ad_type ad) (ad_api_path ad) model body (ad_key ad)
       (gw\<lparr>gw_validator := v'\<rparr>) = (Inr ad, gw')"
    by (rule admit_Inr)
  from p obtain body3 where
    b: "ad_body ad = sanitize_empty_text_parts (fst (sanitize (ex_url_host ex) (ad_fetch ad) body3))"
    and f: "ad_fetch ad = policy_for_key_metadata (gc_fetch cfg) (map_option vk_metadata (ad_key ad))"
    by (rule prepare_Inr)
  have "remote_media_references x = []" if "\<not> allow_remote_content (ad_fetch ad)" "media_at (ad_body ad) x" for x
    using that(2) unfolding b using empty_text_media_at sanitize_media [OF that(1)] by metis
  moreover have "tools_clean (ad_fetch ad) (ad_body ad)"
    using sanitize_tools [of "ad_fetch ad" "ex_url_host ex" body3] by (simp add: b tools_clean_def empty_text_frame)
  moreover have "as_bool v = Some True \<longleftrightarrow> v = JBool True" for v by (cases v) auto
  ultimately show ?thesis
    unfolding f by (auto simp: policy_for_key_metadata_def bind_eq_Some_conv split: option.splits)
qed

theorem admitted_body_clean_witness:
  "has_remote_media_reference (parse_body some_ex (rq_body some_proxy_request)) \<and>
   media_at sent_body sent_part \<and> remote_media_references sent_part = []"
proof -
  from some_admission_admitted obtain ad gw' where a: "some_admission [] = (Inr ad, gw')"
    "ad_body ad = sent_body" "\<not> allow_remote_content (ad_fetch ad)" by blast
  let ?user = "JObj [(''content'', JArr [sent_part]), (''role'', JStr ''user'')]"
  have "media_at sent_body sent_part"
  proof (rule media_direct)
    show "''messages'' \<in> set media_fields" by (simp add: media_fields_def)
    show "jget sent_body ''messages'' = Some (JArr [JObj [(''content'', JStr ''hello''), (''role'', JStr ''system'')], ?user])"
      by (simp add: sent_body_def sent_part_def)
    show "inside ?user sent_part"
      by (rule inside_nested [where k = "''content''" and ys = "[sent_part]" and y = sent_part])
        (simp_all add: inside_self container_def str_field_def)
  qed simp
  moreover have "has_remote_media_reference (parse_body some_ex (rq_body some_proxy_request))" by code_simp
  ultimately show ?thesis
    using admitted_body_clean [OF a(1) [unfolded some_admission_def]] a(2,3) by metis
qed

subsection \<open>Messages that wait for a conversation\<close>

text \<open>
  A request that the policy refuses, or whose model the policy makes inadmissible, has
  already taken the messages that wait for its conversation: they are delivered to no request.
\<close>

theorem refused_request_loses_messages:
  "pending (gw_conversations some_gateway) ''key::c'' = [hello] \<and>
   fst (some_admission [Deny None None None None]) = Inl (Refusal 403 ''policy_violation'' []) \<and>
   pending (gw_conversations (snd (some_admission [Deny None None None None]))) ''key::c'' = []"
proof -
  have "pending (gw_conversations some_gateway) ''key::c'' = [hello]" by code_simp
  moreover have "fst (some_admission [Deny None None None None]) = Inl (Refusal 403 ''policy_violation'' [])"
    by code_simp
  moreover have "pending (gw_conversations (snd (some_admission [Deny None None None None]))) ''key::c'' = []"
    by code_simp
  ultimately show ?thesis by (intro conjI)
qed

lemma note_conversation_pending: "pending (note_conversation cfg tick ns p m st) c = pending st c"
  by (simp add: note_conversation_def pending_metadata pending_create)

lemma waiting_messages_pending:
  assumes "c \<noteq> ns"
  shows "pending (gw_conversations (snd (add_waiting_messages tick native ns body gw))) c = pending (gw_conversations gw) c"
    and "gw_legacy (snd (add_waiting_messages tick native ns body gw)) c = gw_legacy gw c"
  using assms pending_take(1) [of tick ns "gw_conversations gw" c]
  by (simp_all add: add_waiting_messages_def case_prod_beta Let_def)

lemma prepare_gateway:
  "\<exists>conversation gw2. gw2 = snd (add_waiting_messages tick (native_inference_path ptype path)
       (conversation_namespace conversation (map_option vk_key_hash key)) (fst (sanitize (ex_url_host ex)
         (policy_for_key_metadata (gc_fetch cfg) (map_option vk_metadata key)) body))
       (gw\<lparr>gw_conversations := note_conversation cfg tick
          (conversation_namespace conversation (map_option vk_key_hash key)) provider model (gw_conversations gw)\<rparr>)) \<and>
     snd (prepare ex cfg tick rq provider ptype path model body key gw) = gw2"
  by (auto simp: prepare_def Let_def case_prod_beta split: option.split policy_result.split sum.split prod.split)

lemma prepare_other_conversations:
  assumes "\<And>conversation. c \<noteq> conversation_namespace conversation (map_option vk_key_hash key)"
  shows "pending (gw_conversations (snd (prepare ex cfg tick rq provider ptype path model body key gw))) c =
      pending (gw_conversations gw) c \<and>
    gw_legacy (snd (prepare ex cfg tick rq provider ptype path model body key gw)) c = gw_legacy gw c"
proof -
  from prepare_gateway obtain conversation where
    g: "snd (prepare ex cfg tick rq provider ptype path model body key gw) =
      snd (add_waiting_messages tick (native_inference_path ptype path)
       (conversation_namespace conversation (map_option vk_key_hash key)) (fst (sanitize (ex_url_host ex)
         (policy_for_key_metadata (gc_fetch cfg) (map_option vk_metadata key)) body))
       (gw\<lparr>gw_conversations := note_conversation cfg tick
          (conversation_namespace conversation (map_option vk_key_hash key)) provider model (gw_conversations gw)\<rparr>))"
    by metis
  show ?thesis
    unfolding g using assms [of conversation] by (simp add: waiting_messages_pending note_conversation_pending)
qed

lemma hex_encode_no_colon: "CHR '':'' \<notin> set (hex_encode bytes)"
proof -
  have "hex_chars ! n \<noteq> CHR '':''" if "n < 16" for n
  proof -
    have "list_all (\<lambda>n. hex_chars ! n \<noteq> CHR '':'') [0..<16]" by code_simp
    with that show ?thesis by (simp add: list_all_iff)
  qed
  then show ?thesis using nibbles(3,4) by (fastforce simp: hex_encode_def)
qed

lemma namespace_tenant:
  assumes "CHR '':'' \<notin> set h" and "CHR '':'' \<notin> set h'"
    and "conversation_namespace c (Some h) = conversation_namespace c' (Some h')"
  shows "h = h' \<and> c = c'"
proof -
  from assms(3) have "split_once (CHR '':'') (h @ CHR '':'' # c) = split_once (CHR '':'') (h' @ CHR '':'' # c')"
    by (simp add: conversation_namespace_def)
  then show ?thesis by (simp add: split_once_append assms)
qed

text \<open>How the gateway's state can differ after a request: only by what \<open>prepare\<close> did for its key.\<close>

lemma admit_gateway:
  assumes "admit_request ex cfg now secs tick ok rq gw = (res, gw')"
  obtains "gw_conversations gw' = gw_conversations gw" and "gw_legacy gw' = gw_legacy gw"
  | model provider body key v' ptype path where
    "authenticate ex cfg now secs ok (bearer (get_header ''authorization'' (rq_headers rq))) model provider body
       (gw_validator gw) = (Inr key, v')"
    "gw' = snd (prepare ex cfg tick rq provider ptype path model body key (gw\<lparr>gw_validator := v'\<rparr>))"
proof -
  have "gw_conversations gw' = gw_conversations gw \<and> gw_legacy gw' = gw_legacy gw \<or>
    (\<exists>model provider body key v' ptype path.
       authenticate ex cfg now secs ok (bearer (get_header ''authorization'' (rq_headers rq))) model provider body
         (gw_validator gw) = (Inr key, v') \<and>
       gw' = snd (prepare ex cfg tick rq provider ptype path model body key (gw\<lparr>gw_validator := v'\<rparr>)))"
    using assms unfolding admit_request_def Let_def
    by (auto split: sum.splits option.splits prod.splits) (metis snd_conv)+
  then show thesis using that by blast
qed

text \<open>
  Claim C13. Tenants do not reach each other's messages: a request with one virtual key, whatever
  conversation id it names and however it ends, leaves the messages that wait for any conversation
  of another key as they were.
\<close>

theorem tenant_messages_isolated:
  assumes "admit_request ex cfg now secs tick ok rq gw = (res, gw')"
    and "bearer (get_header ''authorization'' (rq_headers rq)) = Some token" and "is_virtual_key token"
    and "store_wf (fst (gw_validator gw))"
    and "hash_key (ex_sha256 ex) other \<noteq> hash_key (ex_sha256 ex) token"
    and "ns = conversation_namespace c (Some (hash_key (ex_sha256 ex) other))"
  shows "pending (gw_conversations gw') ns = pending (gw_conversations gw) ns \<and> gw_legacy gw' ns = gw_legacy gw ns"
  using assms(1)
proof (rule admit_gateway)
  fix model provider body key v' ptype path
  assume a: "authenticate ex cfg now secs ok (bearer (get_header ''authorization'' (rq_headers rq))) model provider body
       (gw_validator gw) = (Inr key, v')"
    and gw': "gw' = snd (prepare ex cfg tick rq provider ptype path model body key (gw\<lparr>gw_validator := v'\<rparr>))"
  have "key \<noteq> None" using authenticate_None a assms(2,3) by metis
  then obtain vk where vk: "key = Some vk" by blast
  obtain st rl where v: "gw_validator gw = (st, rl)" by (metis prod.exhaust)
  from a [unfolded vk v] have "vk_key_hash vk = hash_key (ex_sha256 ex) token"
    by (rule authenticate_Some) (use assms(2,4) v in \<open>auto simp: store_wf_def\<close>)
  then have "ns \<noteq> conversation_namespace conversation (map_option vk_key_hash key)" for conversation
    using assms(5,6) namespace_tenant hex_encode_no_colon by (auto simp: vk hash_key_def)
  then have "pending (gw_conversations gw') ns = pending (gw_conversations (gw\<lparr>gw_validator := v'\<rparr>)) ns \<and>
      gw_legacy gw' ns = gw_legacy (gw\<lparr>gw_validator := v'\<rparr>) ns"
    unfolding gw' by (rule prepare_other_conversations)
  then show ?thesis by simp
qed simp

theorem tenant_messages_isolated_witness:
  "pending (gw_conversations (snd (admit_request (some_ex\<lparr>ex_sha256 := (\<lambda>t. if t = long_token then [] else [1])\<rparr>)
      (some_cfg []) 5 5 7 True some_proxy_request
      (some_gateway\<lparr>gw_conversations := add_injections 1 ''key:01:c'' [hello] (store_new 10 60)\<rparr>)))) ''key:01:c'' = [hello]"
proof -
  let ?ex = "some_ex\<lparr>ex_sha256 := (\<lambda>t. if t = long_token then [] else [1])\<rparr>"
  let ?gw = "some_gateway\<lparr>gw_conversations := add_injections 1 ''key:01:c'' [hello] (store_new 10 60)\<rparr>"
  obtain res gw' where r: "admit_request ?ex (some_cfg []) 5 5 7 True some_proxy_request ?gw = (res, gw')"
    by (metis prod.exhaust)
  have token: "bearer (get_header ''authorization'' (rq_headers some_proxy_request)) = Some long_token" by code_simp
  have key: "is_virtual_key long_token" by code_simp
  have wf: "store_wf (fst (gw_validator ?gw))"
    by (auto simp: some_gateway_def holding_def store_wf_def store_empty_def fresh_key_def split: if_splits)
  have ne: "hash_key (ex_sha256 ?ex) ''x'' \<noteq> hash_key (ex_sha256 ?ex) long_token" by code_simp
  have ns: "''key:01:c'' = conversation_namespace ''c'' (Some (hash_key (ex_sha256 ?ex) ''x''))" by code_simp
  have "pending (gw_conversations ?gw) ''key:01:c'' = [hello]" by code_simp
  with tenant_messages_isolated [OF r token key wf ne ns] r show ?thesis by simp
qed

text \<open>
  A request without a key, where none is required, is not confined in this way: its
  conversation id is used as it is, so the id \<open>key:<hash>:<conversation>\<close> takes the messages that
  wait for a conversation of that key.
\<close>

theorem keyless_request_takes_tenant_messages:
  "pending (gw_conversations some_gateway) (conversation_namespace ''c'' (Some (key_hash fresh_key))) = [hello] \<and>
   (\<exists>ad gw'. admit_request some_ex ((some_cfg [])\<lparr>gc_require_key := False\<rparr>) 5 5 7 True
      (some_proxy_request\<lparr>rq_headers := [(''x-conversation-id'', ''key::c'')]\<rparr>) some_gateway = (Inr ad, gw') \<and>
      ad_key ad = None \<and> ad_body ad = sent_body \<and>
      pending (gw_conversations gw') (conversation_namespace ''c'' (Some (key_hash fresh_key))) = [])"
proof -
  let ?r = "admit_request some_ex ((some_cfg [])\<lparr>gc_require_key := False\<rparr>) 5 5 7 True
      (some_proxy_request\<lparr>rq_headers := [(''x-conversation-id'', ''key::c'')]\<rparr>) some_gateway"
  have "case ?r of (Inr ad, gw') \<Rightarrow> ad_key ad = None \<and> ad_body ad = sent_body \<and>
      pending (gw_conversations gw') (conversation_namespace ''c'' (Some (key_hash fresh_key))) = [] | _ \<Rightarrow> False"
    by code_simp
  then have "\<exists>ad gw'. ?r = (Inr ad, gw') \<and> ad_key ad = None \<and> ad_body ad = sent_body \<and>
      pending (gw_conversations gw') (conversation_namespace ''c'' (Some (key_hash fresh_key))) = []"
    by (auto split: prod.splits sum.splits)
  moreover have "pending (gw_conversations some_gateway) (conversation_namespace ''c'' (Some (key_hash fresh_key))) = [hello]"
    by code_simp
  ultimately show ?thesis by (intro conjI)
qed

end
