(* ===== verification/Image_Fetch.thy ===== *)
theory Image_Fetch
  imports Network_Acl Http
begin

section \<open>Images fetched by the gateway (src/src/proxy.rs)\<close>

text \<open>
  For providers that take images inline only, the gateway fetches the images a request refers to.
  Each address is checked first, because the gateway stands inside the operator's network.
  The URL parser (scheme, host and path), the HTTP client's bounded read and the base64 encoder are
  arguments. Fetching returns the addresses read as well.
\<close>

definition blocked_hostnames :: "string list" where
  "blocked_hostnames =
     [''metadata'', ''metadata.google.internal'', ''instance-data'', ''169.254.169.254'', ''fd00:ec2::254'']"

fun internal_ip :: "ip_addr \<Rightarrow> bool" where
  "internal_ip (V4 a b c d) \<longleftrightarrow>
     (a = 10 \<or> (a = 172 \<and> 16 \<le> b \<and> b \<le> 31) \<or> (a = 192 \<and> b = 168))
     \<or> a = 127
     \<or> (a = 169 \<and> b = 254)
     \<or> (a = 255 \<and> b = 255 \<and> c = 255 \<and> d = 255)
     \<or> (a = 0 \<and> b = 0 \<and> c = 0 \<and> d = 0)
     \<or> (a = 100 \<and> and b 0xC0 = 64)"
| "internal_ip (V6 a b c d e f g h) \<longleftrightarrow>
     (a = 0 \<and> b = 0 \<and> c = 0 \<and> d = 0 \<and> e = 0 \<and> f = 0 \<and> g = 0 \<and> h = 1)
     \<or> (a = 0 \<and> b = 0 \<and> c = 0 \<and> d = 0 \<and> e = 0 \<and> f = 0 \<and> g = 0 \<and> h = 0)
     \<or> and a 0xfe00 = 0xfc00
     \<or> and a 0xffc0 = 0xfe80"

definition strip_brackets :: "string \<Rightarrow> string" where
  "strip_brackets h = rev (dropWhile (\<lambda>c. c = CHR '']'') (rev (dropWhile (\<lambda>c. c = CHR ''['') h)))"

datatype fetch_error =
    BadUrl | BadScheme string | NoUrlHost | BlockedHost string | BlockedIp ip_addr | FetchFailed string

definition validate_url_not_internal :: "string option \<Rightarrow> fetch_error + unit" where
  "validate_url_not_internal host_str =
     (case host_str of
        None \<Rightarrow> Inl NoUrlHost
      | Some h \<Rightarrow>
          let host = strip_brackets h
          in if host = ''localhost'' \<or> host = ''127.0.0.1'' \<or> host = ''::1'' then Inl (BlockedHost host)
             else if host \<in> set blocked_hostnames then Inl (BlockedHost host)
             else (case parse_ip host of
                     Some ip \<Rightarrow> if internal_ip ip then Inl (BlockedIp ip) else Inr ()
                   | None \<Rightarrow> Inr ()))"

subsection \<open>Fetching one image\<close>

record parsed_url =
  pu_scheme :: string
  pu_host :: "string option"
  pu_path :: string

definition guess_mime_from_url :: "(string \<Rightarrow> parsed_url option) \<Rightarrow> string \<Rightarrow> string option" where
  "guess_mime_from_url url_parse url =
     (case url_parse url of
        None \<Rightarrow> None
      | Some u \<Rightarrow>
          let path = to_lower (pu_path u)
          in if ends_with ''.png'' path then Some ''image/png''
             else if ends_with ''.jpg'' path \<or> ends_with ''.jpeg'' path then Some ''image/jpeg''
             else if ends_with ''.webp'' path then Some ''image/webp''
             else if ends_with ''.gif'' path then Some ''image/gif''
             else None)"

definition fetch_image_to_base64 ::
    "(string \<Rightarrow> parsed_url option) \<Rightarrow> (string \<Rightarrow> string + headers \<times> string) \<Rightarrow> (string \<Rightarrow> string) \<Rightarrow> string \<Rightarrow>
     (fetch_error + string \<times> string) \<times> string list" where
  "fetch_image_to_base64 url_parse get_bytes base64 url =
     (case url_parse url of
        None \<Rightarrow> (Inl BadUrl, [])
      | Some u \<Rightarrow>
          if pu_scheme u \<noteq> ''http'' \<and> pu_scheme u \<noteq> ''https'' then (Inl (BadScheme (pu_scheme u)), [])
          else (case validate_url_not_internal (pu_host u) of
                  Inl e \<Rightarrow> (Inl e, [])
                | Inr _ \<Rightarrow>
                    (case get_bytes url of
                       Inl e \<Rightarrow> (Inl (FetchFailed e), [url])
                     | Inr (hs, body) \<Rightarrow>
                         let declared = map_option (\<lambda>v. trim (takeWhile (\<lambda>c. c \<noteq> CHR '';'') v))
                               (get_header ''content-type'' hs);
                             mime = (case declared of Some m \<Rightarrow> Some m | None \<Rightarrow> guess_mime_from_url url_parse url)
                         in (Inr (case mime of Some m \<Rightarrow> m | None \<Rightarrow> ''application/octet-stream'', base64 body), [url]))))"

subsection \<open>All images of a conversation\<close>

text \<open>Messages are system messages, whose blocks are left alone, or others.\<close>

record image_content =
  im_data :: string
  im_mime :: string
  im_is_url :: bool

datatype content_block = ImageBlock image_content | OtherBlock

datatype message = SystemMessage | TalkMessage "content_block list"

fun message_blocks :: "message \<Rightarrow> content_block list" where
  "message_blocks SystemMessage = []"
| "message_blocks (TalkMessage blocks) = blocks"

definition block_url :: "content_block \<Rightarrow> string list" where
  "block_url b = (case b of ImageBlock img \<Rightarrow> if im_is_url img then [im_data img] else [] | OtherBlock \<Rightarrow> [])"

definition image_urls :: "message list \<Rightarrow> string list" where
  "image_urls messages = concat (map (concat \<circ> map block_url \<circ> message_blocks) messages)"

definition inline_block :: "string \<Rightarrow> string \<Rightarrow> string \<Rightarrow> content_block \<Rightarrow> content_block" where
  "inline_block url mime bytes b =
     (case b of
        ImageBlock img \<Rightarrow>
          if im_is_url img \<and> im_data img = url
          then ImageBlock \<lparr>im_data = bytes, im_mime = mime, im_is_url = False\<rparr> else b
      | OtherBlock \<Rightarrow> b)"

fun inline_message :: "string \<Rightarrow> string \<Rightarrow> string \<Rightarrow> message \<Rightarrow> message" where
  "inline_message url mime bytes SystemMessage = SystemMessage"
| "inline_message url mime bytes (TalkMessage blocks) = TalkMessage (map (inline_block url mime bytes) blocks)"

fun resolve_urls ::
    "(string \<Rightarrow> (fetch_error + string \<times> string) \<times> string list) \<Rightarrow> string list \<Rightarrow> message list \<Rightarrow>
     (fetch_error + message list) \<times> string list" where
  "resolve_urls fetch [] messages = (Inr messages, [])"
| "resolve_urls fetch (url # urls) messages =
     (case fetch url of
        (Inl e, got) \<Rightarrow> (Inl e, got)
      | (Inr (mime, bytes), got) \<Rightarrow>
          (case resolve_urls fetch urls (map (inline_message url mime bytes) messages) of
             (r, later) \<Rightarrow> (r, got @ later)))"

definition resolve_image_urls_in_context ::
    "(string \<Rightarrow> parsed_url option) \<Rightarrow> (string \<Rightarrow> string + headers \<times> string) \<Rightarrow> (string \<Rightarrow> string) \<Rightarrow> message list \<Rightarrow>
     (fetch_error + message list) \<times> string list" where
  "resolve_image_urls_in_context url_parse get_bytes base64 messages =
     resolve_urls (fetch_image_to_base64 url_parse get_bytes base64) (image_urls messages) messages"

subsection \<open>What is fetched\<close>

lemma fetch_checked:
  assumes "url \<in> set (snd (fetch_image_to_base64 url_parse get_bytes base64 u))"
  shows "u = url \<and> (\<exists>p. url_parse url = Some p \<and> pu_scheme p \<in> {''http'', ''https''} \<and>
    validate_url_not_internal (pu_host p) = Inr ())"
  using assms
  by (auto simp: fetch_image_to_base64_def Let_def split: option.splits sum.splits if_splits prod.splits)

lemma resolve_urls_fetched:
  "url \<in> set (snd (resolve_urls fetch urls messages)) \<Longrightarrow> \<exists>u. url \<in> set (snd (fetch u))"
proof (induction urls arbitrary: messages)
  case (Cons u us)
  obtain r got where f: "fetch u = (r, got)" by (metis prod.exhaust)
  show ?case
  proof (cases "url \<in> set got")
    case True
    with f show ?thesis by (metis snd_conv)
  next
    case False
    with Cons.prems f have "\<exists>mime bytes. url \<in> set (snd (resolve_urls fetch us (map (inline_message u mime bytes) messages)))"
      by (cases r) (auto simp: case_prod_beta)
    with Cons.IH show ?thesis by blast
  qed
qed simp

lemma private_is_internal: "is_private_ip (V4 a b c d) \<Longrightarrow> internal_ip (V4 a b c d)"
proof -
  assume "is_private_ip (V4 a b c d)"
  moreover have "and b 0xC0 = 64" if "64 \<le> b" "b \<le> 127"
  proof -
    have "list_all (\<lambda>n. and (of_nat n :: u8) 0xC0 = 64) [64..<128]" by code_simp
    moreover have "unat b \<in> set [64..<128]"
      unfolding set_upt atLeastLessThan_iff using that by (simp add: word_le_nat_alt)
    ultimately have "and (of_nat (unat b) :: u8) 0xC0 = 64" unfolding list_all_iff by blast
    then show ?thesis by simp
  qed
  ultimately show ?thesis by (auto simp: is_private_ip_def v4_private_def)
qed


definition some_url :: "string \<Rightarrow> parsed_url option" where
  "some_url u =
     (if u = ''http://i.example/a.png''
      then Some \<lparr>pu_scheme = ''http'', pu_host = Some ''i.example'', pu_path = ''/a.png''\<rparr>
      else if u = ''http://10.0.0.1/''
      then Some \<lparr>pu_scheme = ''http'', pu_host = Some ''10.0.0.1'', pu_path = ''/''\<rparr>
      else None)"

definition some_get :: "string \<Rightarrow> string + headers \<times> string" where
  "some_get u = Inr ([], ''bytes'')"

definition url_image :: "string \<Rightarrow> content_block" where
  "url_image u = ImageBlock \<lparr>im_data = u, im_mime = [], im_is_url = True\<rparr>"


text \<open>
  The check knows IPv6 addresses by their own ranges only: an IPv4-mapped IPv6 literal
  passes it, whatever IPv4 address it carries, although the network policy classifies it as that
  address. With the brackets of the URL parser, loopback and the metadata address pass.
\<close>

theorem mapped_addresses_pass:
  "\<not> internal_ip (V6 0 0 0 0 0 0xffff (be16 a b) (be16 c d)) \<and>
   parse_ip ''::ffff:7f00:1'' = Some (V6 0 0 0 0 0 0xffff 0x7f00 1) \<and>
   is_private_ip (V6 0 0 0 0 0 0xffff 0x7f00 1) \<and> validate_url_not_internal (Some ''[::ffff:7f00:1]'') = Inr () \<and>
   parse_ip ''::ffff:a9fe:a9fe'' = Some (V6 0 0 0 0 0 0xffff 0xa9fe 0xa9fe) \<and>
   is_private_ip (V6 0 0 0 0 0 0xffff 0xa9fe 0xa9fe) \<and> validate_url_not_internal (Some ''[::ffff:a9fe:a9fe]'') = Inr ()"
proof -
  have loopback: "parse_ip ''::ffff:7f00:1'' = Some (V6 0 0 0 0 0 0xffff 0x7f00 1)" by (simp add: parse_ip_simps)
  have metadata: "parse_ip ''::ffff:a9fe:a9fe'' = Some (V6 0 0 0 0 0 0xffff 0xa9fe 0xa9fe)"
    by (simp add: parse_ip_simps)
  have "\<not> internal_ip (V6 0 0 0 0 0 0xffff (be16 a b) (be16 c d))" by simp
  moreover have "is_private_ip (V6 0 0 0 0 0 0xffff 0x7f00 1)" by code_simp
  moreover have "is_private_ip (V6 0 0 0 0 0 0xffff 0xa9fe 0xa9fe)" by code_simp
  moreover have "validate_url_not_internal (Some ''[::ffff:7f00:1]'') = Inr ()"
    by (simp add: validate_url_not_internal_def strip_brackets_def blocked_hostnames_def loopback)
  moreover have "validate_url_not_internal (Some ''[::ffff:a9fe:a9fe]'') = Inr ()"
    by (simp add: validate_url_not_internal_def strip_brackets_def blocked_hostnames_def metadata)
  ultimately show ?thesis using loopback metadata by (intro conjI)
qed

subsection \<open>What resolution leaves\<close>

lemma inline_message_urls:
  "set (image_urls (map (inline_message url mime bytes) messages)) = set (image_urls messages) - {url}"
proof -
  have b: "set (block_url (inline_block url mime bytes b)) = set (block_url b) - {url}" for b
    by (auto simp: block_url_def inline_block_def split: content_block.splits)
  have m: "message_blocks (inline_message url mime bytes m) = map (inline_block url mime bytes) (message_blocks m)" for m
    by (cases m) auto
  show ?thesis by (auto simp: image_urls_def m b)
qed

text \<open>
  After a successful resolution no message but a system message refers to an image by its
  address, and no message has been added, dropped or reordered.
\<close>

theorem resolved_images_inline:
  assumes "resolve_image_urls_in_context url_parse get_bytes base64 messages = (Inr resolved, fetched)"
  shows "image_urls resolved = [] \<and> length resolved = length messages \<and>
    (\<forall>i < length messages. resolved ! i = SystemMessage \<longleftrightarrow> messages ! i = SystemMessage)"
proof -
  have sys: "inline_message url mime bytes m = SystemMessage \<longleftrightarrow> m = SystemMessage" for url mime bytes m
    by (cases m) auto
  have "resolve_urls fetch urls ms = (Inr ms', got) \<Longrightarrow>
      set (image_urls ms') \<subseteq> set (image_urls ms) - set urls \<and> length ms' = length ms \<and>
      (\<forall>i < length ms. ms' ! i = SystemMessage \<longleftrightarrow> ms ! i = SystemMessage)" for fetch urls ms ms' got
  proof (induction urls arbitrary: ms got)
    case (Cons url urls)
    then obtain mime bytes got1 later where "fetch url = (Inr (mime, bytes), got1)"
      and r: "resolve_urls fetch urls (map (inline_message url mime bytes) ms) = (Inr ms', later)"
      by (auto split: prod.splits sum.splits)
    from Cons.IH [OF r] show ?case by (auto simp: sys inline_message_urls)
  qed simp
  from this [OF assms [unfolded resolve_image_urls_in_context_def]] show ?thesis by auto
qed

theorem resolved_images_inline_witness:
  "resolve_image_urls_in_context some_url some_get (\<lambda>b. b)
     [SystemMessage, TalkMessage [OtherBlock, url_image ''http://i.example/a.png'']] =
     (Inr [SystemMessage, TalkMessage [OtherBlock, ImageBlock \<lparr>im_data = ''bytes'', im_mime = ''image/png'', im_is_url = False\<rparr>]],
      [''http://i.example/a.png'']) \<and>
   image_urls [SystemMessage, TalkMessage [OtherBlock, ImageBlock \<lparr>im_data = ''bytes'', im_mime = ''image/png'', im_is_url = False\<rparr>]] = []"
proof -
  have r: "resolve_image_urls_in_context some_url some_get (\<lambda>b. b)
     [SystemMessage, TalkMessage [OtherBlock, url_image ''http://i.example/a.png'']] =
     (Inr [SystemMessage, TalkMessage [OtherBlock, ImageBlock \<lparr>im_data = ''bytes'', im_mime = ''image/png'', im_is_url = False\<rparr>]],
      [''http://i.example/a.png''])" by code_simp
  from resolved_images_inline [OF r] r show ?thesis by blast
qed

end
