(* ===== verification/Realtime_Frames.thy ===== *)
theory Realtime_Frames
  imports Proxy_Admission
begin

section \<open>Frames of WebSocket connections (src/src/proxy.rs)\<close>

text \<open>
  A realtime or Codex connection is admitted once, but every frame of the client can name a model,
  media or hosted tools. Each frame is parsed, sanitised and, on a Codex connection, put through
  the policy and the key's model scope before it goes upstream. A frame that is not JSON is
  dropped. \<open>parse\<close> and \<open>render\<close> are the JSON package's reader and writer.
\<close>

datatype ws_message =
    WsText string | WsBinary string | WsPing string | WsPong string | WsClose "string option"

datatype frame_result = Forward ws_message | Dropped | FrameCrash

fun axum_to_tungstenite :: "ws_message \<Rightarrow> ws_message" where
  "axum_to_tungstenite (WsClose reason) = WsClose None"
| "axum_to_tungstenite m = m"

fun frame_payload :: "ws_message \<Rightarrow> string option" where
  "frame_payload (WsText t) = Some t"
| "frame_payload (WsBinary b) = Some b"
| "frame_payload _ = None"

text \<open>The frame of the same kind with another payload.\<close>

fun frame_with :: "ws_message \<Rightarrow> string \<Rightarrow> ws_message" where
  "frame_with (WsText t) p = WsText p"
| "frame_with m p = WsBinary p"

definition extract_realtime_model :: "(string \<times> string) list \<Rightarrow> string" where
  "extract_realtime_model query =
     (case find (\<lambda>(k, _). k = ''model'') query of Some (_, v) \<Rightarrow> v | None \<Rightarrow> ''websocket'')"

definition parse_and_sanitize_ws_json ::
    "(string \<Rightarrow> json option) \<Rightarrow> (string \<Rightarrow> string option) \<Rightarrow> delegated_fetch_policy \<Rightarrow> string \<Rightarrow>
     json option \<times> stripped_item list" where
  "parse_and_sanitize_ws_json parse url_host fetch payload =
     (case parse payload of
        Some body \<Rightarrow> (case sanitize url_host fetch body of (body', audit) \<Rightarrow> (Some body', audit))
      | None \<Rightarrow> (None, [\<lparr>field_path = ''/'', capability = ''invalid_json_frame_rejected'', target_host = None\<rparr>]))"

definition sanitize_ws_client_message ::
    "(string \<Rightarrow> json option) \<Rightarrow> (json \<Rightarrow> string) \<Rightarrow> (string \<Rightarrow> string option) \<Rightarrow> delegated_fetch_policy \<Rightarrow>
     ws_message \<Rightarrow> frame_result \<times> stripped_item list" where
  "sanitize_ws_client_message parse render url_host fetch msg =
     (case frame_payload msg of
        None \<Rightarrow> (Forward (axum_to_tungstenite msg), [])
      | Some payload \<Rightarrow>
          (case parse_and_sanitize_ws_json parse url_host fetch payload of
             (None, audit) \<Rightarrow> (Dropped, audit)
           | (Some body, audit) \<Rightarrow> (Forward (frame_with msg (render body)), audit)))"

definition codex_frame_model_allowed ::
    "(string \<Rightarrow> string \<Rightarrow> bool) \<Rightarrow> key_permissions option \<Rightarrow> json \<Rightarrow> bool" where
  "codex_frame_model_allowed gm scope body =
     (case scope of
        None \<Rightarrow> True
      | Some perms \<Rightarrow>
          (case str_field body ''model'' of
             None \<Rightarrow> allowed_models perms = None
           | Some model \<Rightarrow> is_model_allowed gm perms model))"

definition sanitize_codex_ws_message ::
    "(string \<Rightarrow> json option) \<Rightarrow> (json \<Rightarrow> string) \<Rightarrow> (string \<Rightarrow> string \<Rightarrow> bool) \<Rightarrow> (string \<Rightarrow> string option) \<Rightarrow>
     policy_config \<Rightarrow> string \<Rightarrow> key_permissions option \<Rightarrow> delegated_fetch_policy \<Rightarrow> ws_message \<Rightarrow>
     frame_result \<times> stripped_item list" where
  "sanitize_codex_ws_message parse render gm url_host policy provider scope fetch msg =
     (case frame_payload msg of
        None \<Rightarrow> (Forward (axum_to_tungstenite msg), [])
      | Some payload \<Rightarrow>
          (case parse_and_sanitize_ws_json parse url_host fetch payload of
             (None, audit) \<Rightarrow> (Dropped, audit)
           | (Some body, audit) \<Rightarrow>
               if str_field body ''type'' \<noteq> Some ''response.create''
               then (Forward (frame_with msg (render body)), audit)
               else if \<not> codex_frame_model_allowed gm scope body then (Dropped, audit)
               else (case apply_policy_and_sanitize gm url_host policy provider ''/codex/responses'' fetch body of
                       (Denied reason, _) \<Rightarrow> (Dropped, audit)
                     | (Panicked, _) \<Rightarrow> (FrameCrash, audit)
                     | (Applied body', audit') \<Rightarrow>
                         if \<not> codex_frame_model_allowed gm scope body' then (Dropped, audit @ audit')
                         else (Forward (frame_with msg (render body')), audit @ audit'))))"

subsection \<open>What a frame can carry\<close>

lemma parse_and_sanitize_Some:
  "parse_and_sanitize_ws_json parse url_host fetch payload = (Some body, audit) \<Longrightarrow>
     \<exists>body0. body = fst (sanitize url_host fetch body0)"
  by (auto simp: parse_and_sanitize_ws_json_def split: option.splits prod.splits) (metis fst_conv)

lemma policy_and_sanitize_Applied:
  "apply_policy_and_sanitize gm url_host policy provider path fetch body = (Applied body', audit) \<Longrightarrow>
     \<exists>body0. policy_apply gm policy provider path body = Applied body0 \<and> body' = fst (sanitize url_host fetch body0)"
  by (auto simp: apply_policy_and_sanitize_def split: policy_result.splits prod.splits)

lemma frame_with_payload: "frame_payload (frame_with m p) = Some p"
  by (cases m) auto

lemma axum_payload: "frame_payload m = None \<Longrightarrow> frame_payload (axum_to_tungstenite m) = None"
  by (cases m) auto

text \<open>A body that the sanitiser has left, written out.\<close>

definition body_clean :: "delegated_fetch_policy \<Rightarrow> json \<Rightarrow> bool" where
  "body_clean fetch body \<longleftrightarrow>
     (\<not> allow_remote_content fetch \<longrightarrow> (\<forall>x. media_at body x \<longrightarrow> remote_media_references x = [])) \<and>
     tools_clean fetch body"

lemma sanitized_clean: "body_clean fetch (fst (sanitize url_host fetch body))"
  using sanitize_media sanitize_tools unfolding body_clean_def by blast


definition create_frame :: "string \<Rightarrow> json" where
  "create_frame model = JObj [(''model'', JStr model), (''type'', JStr ''response.create'')]"

definition only_m :: key_permissions where
  "only_m = key_permissions_default\<lparr>allowed_models := Some [''m'']\<rparr>"

definition frame_parse :: "string \<Rightarrow> json option" where
  "frame_parse s = Some (create_frame s)"

definition frame_render :: "json \<Rightarrow> string" where
  "frame_render j = (case str_field j ''model'' of Some m \<Rightarrow> m | None \<Rightarrow> [])"

definition rewriting :: "string \<Rightarrow> policy_config" where
  "rewriting model = \<lparr>policy_enabled = True, policy_rules = [RewriteModel None None model]\<rparr>"


end
