(* ===== verification/Client_Identity.thy ===== *)
theory Client_Identity
  imports Provider_Routing Key_Gen
begin

section \<open>Client headers and identity towards the upstream (src/src/client\_identity.rs, proxy.rs)\<close>

text \<open>
  The upstream request is built from new headers. Three things of the client can reach it: a
  session id, derived and never sent raw, the user agent, and the headers that the provider's
  configuration lists. \<open>sha256\<close> is the hash, \<open>version\<close> the package version, and \<open>name_ok\<close> and
  \<open>value_ok\<close> the HTTP package's tests of header names and values.
\<close>

definition session_headers :: "string list" where
  "session_headers =
     [''x-opencode-session'', ''x-session-affinity'', ''x-session-id'', ''session_id'', ''x-conversation-id'']"

definition client_session :: "headers \<Rightarrow> string option" where
  "client_session hs =
     find_map (\<lambda>n. Option.bind (map_option trim (get_header n hs)) (\<lambda>v. if v = [] then None else Some v))
       session_headers"

text \<open>What is hashed: four parts, each ended by a zero byte.\<close>

definition session_input :: "string \<Rightarrow> string \<Rightarrow> string option \<Rightarrow> string" where
  "session_input key_scope provider session =
     concat (map (\<lambda>part. part @ [CHR 0x00])
       [''eavs-session-v1'', key_scope, provider, case session of Some s \<Rightarrow> s | None \<Rightarrow> []])"

definition upstream_session :: "(string \<Rightarrow> u8 list) \<Rightarrow> string \<Rightarrow> string \<Rightarrow> string option \<Rightarrow> string" where
  "upstream_session sha256 key_scope provider session =
     ''eavs-'' @ take 32 (hex_encode (sha256 (session_input key_scope provider session)))"

definition session_header :: "provider_type \<Rightarrow> string option \<Rightarrow> string option" where
  "session_header ptype configured =
     (case map_option trim configured of
        Some n \<Rightarrow> if n = [] then None else Some (to_lower n)
      | None \<Rightarrow>
          (if ptype = OpenCode \<or> ptype = OpenCodeGo then Some ''x-opencode-session''
           else if ptype = OpenRouter then Some ''x-session-id'' else None))"

subsection \<open>The user agent\<close>

function replace_all :: "string \<Rightarrow> string \<Rightarrow> string \<Rightarrow> string" where
  "replace_all pat by_text s =
     (if pat = [] then s
      else (case s of
              [] \<Rightarrow> []
            | c # cs \<Rightarrow>
                (case strip_prefix pat s of
                   Some rest \<Rightarrow> by_text @ replace_all pat by_text rest
                 | None \<Rightarrow> c # replace_all pat by_text cs)))"
  by pat_completeness auto
termination
  by (relation "measure (\<lambda>(_, _, s). length s)") (auto simp: strip_prefix_Some_iff)

declare replace_all.simps [simp del]

text \<open>\<open>split_whitespace\<close>: the runs of characters that are not blank.\<close>

function words_of :: "string \<Rightarrow> string list" where
  "words_of s =
     (case dropWhile is_space s of
        [] \<Rightarrow> []
      | c # cs \<Rightarrow> (c # takeWhile (\<lambda>c. \<not> is_space c) cs) # words_of (dropWhile (\<lambda>c. \<not> is_space c) cs))"
  by pat_completeness auto
termination
proof (relation "measure length")
  fix s :: string and c cs
  assume "dropWhile is_space s = c # cs"
  then have "Suc (length cs) \<le> length s" by (metis length_Cons length_dropWhile_le)
  then show "(dropWhile (\<lambda>c. \<not> is_space c) cs, s) \<in> measure length"
    using length_dropWhile_le [of "\<lambda>c. \<not> is_space c" cs] by simp
qed simp

declare words_of.simps [simp del]

fun join_words :: "string list \<Rightarrow> string" where
  "join_words [] = []"
| "join_words [w] = w"
| "join_words (w # ws) = w @ '' '' @ join_words ws"

definition eavs_agent :: "string \<Rightarrow> string" where
  "eavs_agent version = ''eavs/'' @ version"

definition user_agent :: "string \<Rightarrow> string option \<Rightarrow> string option \<Rightarrow> string option" where
  "user_agent version template client =
     (let c = (case client of Some u \<Rightarrow> trim u | None \<Rightarrow> []);
          rendered = (case template of
              Some t \<Rightarrow> replace_all ''{eavs}'' (eavs_agent version) (replace_all ''{client}'' c t)
            | None \<Rightarrow> if c = [] then eavs_agent version else c @ '' '' @ eavs_agent version);
          joined = join_words (words_of rendered)
      in if joined = [] then None else Some joined)"

subsection \<open>Headers that are passed on\<close>

definition pass_through_names_refused :: "string list" where
  "pass_through_names_refused =
     [''authorization'', ''cookie'', ''set-cookie'', ''host'', ''content-length'', ''transfer-encoding'',
      ''connection'', ''upgrade'', ''te'', ''trailer'', ''proxy-authorization'', ''proxy-connection'',
      ''www-authenticate'', ''expect'']"

definition pass_through_refused :: "string \<Rightarrow> bool" where
  "pass_through_refused n \<longleftrightarrow> n \<in> set pass_through_names_refused \<or> starts_with ''x-eavs'' n"

definition pass_one :: "(string \<Rightarrow> bool) \<Rightarrow> headers \<Rightarrow> headers \<Rightarrow> string \<Rightarrow> headers" where
  "pass_one name_ok client hs listed =
     (let n = to_lower (trim listed)
      in if n = [] \<or> pass_through_refused n then hs
         else if \<not> name_ok n then hs
         else (case get_header n client of None \<Rightarrow> hs | Some v \<Rightarrow> set_header n v hs))"

definition apply_pass_through_headers ::
    "(string \<Rightarrow> bool) \<Rightarrow> headers \<Rightarrow> string list \<Rightarrow> headers \<Rightarrow> headers" where
  "apply_pass_through_headers name_ok client listed hs = foldl (pass_one name_ok client) hs listed"

record identity_config =
  ic_session_header :: "string option"
  ic_user_agent :: "string option"

definition apply_client_identity ::
    "(string \<Rightarrow> u8 list) \<Rightarrow> string \<Rightarrow> (string \<Rightarrow> bool) \<Rightarrow> (string \<Rightarrow> bool) \<Rightarrow> headers \<Rightarrow> identity_config \<Rightarrow>
     provider_type \<Rightarrow> string \<Rightarrow> string option \<Rightarrow> headers \<Rightarrow> headers" where
  "apply_client_identity sha256 version name_ok value_ok client ic ptype provider tenant hs =
     (let hs1 = (case session_header ptype (ic_session_header ic) of
                   None \<Rightarrow> hs
                 | Some n \<Rightarrow>
                     let session = upstream_session sha256 (case tenant of Some h \<Rightarrow> h | None \<Rightarrow> ''operator'')
                           provider (client_session client)
                     in if name_ok n \<and> value_ok session then set_header n session hs else hs)
      in case user_agent version (ic_user_agent ic) (get_header ''user-agent'' client) of
           None \<Rightarrow> hs1
         | Some ua \<Rightarrow> if value_ok ua then set_header ''user-agent'' ua hs1 else hs1)"

subsection \<open>What the upstream learns of the client\<close>

lemma pass_one_get:
  "get_header h (pass_one name_ok client hs listed) =
     (if h = to_lower (trim listed) \<and> h \<noteq> [] \<and> \<not> pass_through_refused h \<and> name_ok h \<and> get_header h client \<noteq> None
      then get_header h client else get_header h hs)"
  by (auto simp: pass_one_def Let_def split: option.split)

lemma pass_through_get:
  "get_header h (apply_pass_through_headers name_ok client listed hs) =
     (if h \<in> set (map (to_lower \<circ> trim) listed) \<and> h \<noteq> [] \<and> \<not> pass_through_refused h \<and> name_ok h \<and>
         get_header h client \<noteq> None
      then get_header h client else get_header h hs)"
proof -
  have "get_header h (foldl (pass_one name_ok client) hs listed) =
     (if h \<in> set (map (to_lower \<circ> trim) listed) \<and> h \<noteq> [] \<and> \<not> pass_through_refused h \<and> name_ok h \<and>
         get_header h client \<noteq> None
      then get_header h client else get_header h hs)" for hs
  proof (induction listed arbitrary: hs)
    case (Cons l ls)
    show ?case unfolding foldl_Cons Cons.IH pass_one_get by (auto simp del: not_None_eq)
  qed simp
  then show ?thesis by (simp add: apply_pass_through_headers_def)
qed

text \<open>
  Of the client's headers exactly those reach the upstream request that the configuration
  lists, that are not refused and that the client sent; every other header, the authorization and
  the gateway's own headers always, is what it was.
\<close>

theorem pass_through_exact:
  "get_header h (apply_pass_through_headers name_ok client listed hs) =
     (if h \<in> set (map (to_lower \<circ> trim) listed) \<and> h \<noteq> [] \<and> \<not> pass_through_refused h \<and> name_ok h \<and>
         get_header h client \<noteq> None
      then get_header h client else get_header h hs) \<and>
   (h \<in> {''authorization'', ''cookie'', ''proxy-authorization'', ''host''} \<or> (\<exists>rest. h = ''x-eavs'' @ rest) \<longrightarrow>
      get_header h (apply_pass_through_headers name_ok client listed hs) = get_header h hs)"
  unfolding pass_through_get
  by (auto simp: pass_through_refused_def pass_through_names_refused_def starts_with_iff)

theorem pass_through_exact_witness:
  "apply_pass_through_headers (\<lambda>_. True) [(''authorization'', ''Bearer k''), (''x-beta'', ''1'')]
     ['' X-Beta'', ''Authorization''] [(''authorization'', ''Bearer upstream'')] =
     [(''authorization'', ''Bearer upstream''), (''x-beta'', ''1'')] \<and>
   get_header ''authorization'' (apply_pass_through_headers (\<lambda>_. True)
     [(''authorization'', ''Bearer k''), (''x-beta'', ''1'')] ['' X-Beta'', ''Authorization'']
     [(''authorization'', ''Bearer upstream'')]) = Some ''Bearer upstream''"
proof -
  let ?r = "apply_pass_through_headers (\<lambda>_. True) [(''authorization'', ''Bearer k''), (''x-beta'', ''1'')]
     ['' X-Beta'', ''Authorization''] [(''authorization'', ''Bearer upstream'')]"
  have "get_header ''authorization'' ?r = get_header ''authorization'' [(''authorization'', ''Bearer upstream'')]"
    using pass_through_exact [where h = "''authorization''" and name_ok = "\<lambda>_. True"
        and client = "[(''authorization'', ''Bearer k''), (''x-beta'', ''1'')]"
        and listed = "['' X-Beta'', ''Authorization'']" and hs = "[(''authorization'', ''Bearer upstream'')]"] by blast
  moreover have "?r = [(''authorization'', ''Bearer upstream''), (''x-beta'', ''1'')]" by code_simp
  ultimately show ?thesis by (simp add: get_header_def)
qed

text \<open>
  Upstream sessions of different keys, providers or client sessions are hashes of
  different texts: the parts can be read back from what is hashed.
\<close>

theorem session_inputs_distinct:
  assumes "CHR 0x00 \<notin> set k \<union> set p" and "CHR 0x00 \<notin> set k' \<union> set p'"
    and "session_input k p (client_session hs) = session_input k' p' (client_session hs')"
  shows "k = k' \<and> p = p' \<and> client_session hs = client_session hs'"
proof -
  let ?s = "\<lambda>x. case x of Some s \<Rightarrow> s | None \<Rightarrow> []"
  have app: "session_input a b x = ''eavs-session-v1'' @ CHR 0x00 # a @ CHR 0x00 # b @ CHR 0x00 # ?s x @ [CHR 0x00]"
    for a b x by (simp add: session_input_def)
  from assms(3) have "k @ CHR 0x00 # p @ CHR 0x00 # ?s (client_session hs) @ [CHR 0x00] =
      k' @ CHR 0x00 # p' @ CHR 0x00 # ?s (client_session hs') @ [CHR 0x00]" by (simp add: app)
  then have k: "k = k'" and "p @ CHR 0x00 # ?s (client_session hs) @ [CHR 0x00] =
      p' @ CHR 0x00 # ?s (client_session hs') @ [CHR 0x00]"
    using split_once_append [of "CHR 0x00" k] split_once_append [of "CHR 0x00" k'] assms(1,2) by (metis Pair_inject UnI1 option.inject)+
  then have p: "p = p'" and s: "?s (client_session hs) = ?s (client_session hs')"
    using split_once_append [of "CHR 0x00" p] split_once_append [of "CHR 0x00" p'] assms(1,2)
    by (metis Pair_inject UnI2 append_same_eq option.inject)+
  have "client_session hs \<noteq> Some []" for hs
    by (auto simp: client_session_def dest!: find_map_Some split: bind_splits if_splits)
  with s have "client_session hs = client_session hs'"
    by (cases "client_session hs"; cases "client_session hs'") auto
  with k p show ?thesis by blast
qed

theorem session_inputs_distinct_witness:
  "client_session [(''session_id'', '' s '')] = Some ''s'' \<and>
   session_input ''k1'' ''p'' (client_session [(''session_id'', '' s '')]) \<noteq> session_input ''k2'' ''p'' (client_session [])"
proof -
  have "client_session [(''session_id'', '' s '')] = Some ''s''" by code_simp
  moreover have nul: "CHR 0x00 \<notin> set ''k1'' \<union> set ''p''" "CHR 0x00 \<notin> set ''k2'' \<union> set ''p''" by code_simp+
  moreover have "''k1'' \<noteq> ''k2''" by simp
  ultimately show ?thesis using session_inputs_distinct [OF nul] by blast
qed

end
