(* ===== verification/Pricing.thy ===== *)
theory Pricing
  imports Float64 Json
begin

section \<open>Prices and costs\<close>

text \<open>
  src/keys/pricing.rs and the cost calculation of src/keys/cost.rs. A price is an \<open>f64\<close> per token. The
  table of prices is a hash map from model names; its entries are listed here in the order in which
  the map is iterated, which is arbitrary and differs between two runs of the program.
\<close>

record model_pricing =
  mp_model :: string
  mp_provider :: string
  mp_input :: f64
  mp_output :: f64
  mp_cached :: "f64 option"
  mp_cache_write :: "f64 option"
  mp_max_input :: "nat option"
  mp_max_output :: "nat option"
  mp_vision :: bool
  mp_functions :: bool

subsection \<open>The cost of a request\<close>

definition half :: f64 where "half = Fin (1 / 2)"

definition calculate_cost :: "model_pricing \<Rightarrow> u32 \<Rightarrow> u32 \<Rightarrow> f64" where
  "calculate_cost p input output =
     f64_mul_add (f64_of_u32 output) (mp_output p) (f64_mul (f64_of_u32 input) (mp_input p))"

definition read_rate :: "model_pricing \<Rightarrow> f64" where
  "read_rate p = (case mp_cached p of Some c \<Rightarrow> c | None \<Rightarrow> f64_mul (mp_input p) half)"

definition write_rate :: "model_pricing \<Rightarrow> f64" where
  "write_rate p = (case mp_cache_write p of Some c \<Rightarrow> c | None \<Rightarrow> mp_input p)"

definition calculate_cost_with_cache :: "model_pricing \<Rightarrow> u32 \<Rightarrow> u32 \<Rightarrow> u32 \<Rightarrow> f64" where
  "calculate_cost_with_cache p input cached output =
     f64_mul_add (f64_of_u32 output) (mp_output p)
       (f64_mul_add (f64_of_u32 cached) (read_rate p)
         (f64_mul (f64_of_u32 (saturating_sub input cached)) (mp_input p)))"

definition saturating_add :: "'w::len word \<Rightarrow> 'w word \<Rightarrow> 'w word" where
  "saturating_add a b = (if add_overflows a b then - 1 else a + b)"

definition regular_input :: "u32 \<Rightarrow> u32 \<Rightarrow> u32 \<Rightarrow> bool \<Rightarrow> u32" where
  "regular_input input cache_read cache_write includes_cache =
     (if includes_cache then saturating_sub input (saturating_add cache_read cache_write) else input)"

definition calculate_cost_detailed :: "model_pricing \<Rightarrow> u32 \<Rightarrow> u32 \<Rightarrow> u32 \<Rightarrow> u32 \<Rightarrow> bool \<Rightarrow> f64" where
  "calculate_cost_detailed p input cache_read cache_write output includes_cache =
     f64_mul_add (f64_of_u32 output) (mp_output p)
       (f64_mul_add (f64_of_u32 cache_write) (write_rate p)
         (f64_mul_add (f64_of_u32 cache_read) (read_rate p)
           (f64_mul (f64_of_u32 (regular_input input cache_read cache_write includes_cache)) (mp_input p))))"

subsection \<open>The table\<close>

type_synonym pricing_table = "(string \<times> model_pricing) list"

text \<open>\<open>insert\<close> replaces the value of a key that is there, \<open>entry(k).or_insert(v)\<close> keeps it.\<close>

definition table_insert :: "string \<Rightarrow> model_pricing \<Rightarrow> pricing_table \<Rightarrow> pricing_table" where
  "table_insert k p t = (if map_of t k = None then t @ [(k, p)] else obj_replace k p t)"

definition add_pricing :: "pricing_table \<Rightarrow> model_pricing \<Rightarrow> pricing_table" where
  "add_pricing t p =
     (let t1 = table_insert (mp_model p) p t; lower = to_lower (mp_model p)
      in if map_of t1 lower = None then table_insert lower p t1 else t1)"

definition name_related :: "string \<Rightarrow> string \<Rightarrow> bool" where
  "name_related model key \<longleftrightarrow> starts_with key model \<or> starts_with model key"

definition pricing_get :: "pricing_table \<Rightarrow> string \<Rightarrow> model_pricing option" where
  "pricing_get t model =
     (case map_of t model of
        Some p \<Rightarrow> Some p
      | None \<Rightarrow>
          (case map_of t (to_lower model) of
             Some p \<Rightarrow> Some p
           | None \<Rightarrow> map_option snd (find (\<lambda>(key, _). name_related model key) t)))"

text \<open>A decimal literal: \<open>digits\<close> times ten to the power of \<open>- places\<close>, rounded once.\<close>

definition money :: "nat \<Rightarrow> nat \<Rightarrow> f64" where
  "money digits places = round64 (of_nat digits / 10 ^ places)"

definition default_rates :: "string \<Rightarrow> f64 \<times> f64" where
  "default_rates provider =
     (let p = to_lower provider
      in if p = ''anthropic'' then (money 3 6, money 15 6)
         else if p = ''google'' then (money 125 8, money 5 6)
         else if p = ''mistral'' then (money 2 6, money 6 6)
         else (money 1 5, money 3 5))"

definition default_pricing :: "string \<Rightarrow> string \<Rightarrow> model_pricing" where
  "default_pricing model provider =
     (let (input, output) = default_rates provider
      in \<lparr>mp_model = model, mp_provider = provider, mp_input = input, mp_output = output,
          mp_cached = Some (f64_mul input half), mp_cache_write = None, mp_max_input = Some 128000,
          mp_max_output = Some 8192, mp_vision = False, mp_functions = True\<rparr>)"

definition get_or_default :: "pricing_table \<Rightarrow> string \<Rightarrow> string \<Rightarrow> model_pricing" where
  "get_or_default t model provider =
     (case pricing_get t model of Some p \<Rightarrow> p | None \<Rightarrow> default_pricing model provider)"

definition is_cache_exclusive_input :: "string \<Rightarrow> string \<Rightarrow> bool" where
  "is_cache_exclusive_input model provider =
     (let hay = to_lower model @ '' '' @ to_lower provider
      in contains_str ''anthropic'' hay \<or> contains_str ''claude'' hay)"

definition calculate_detailed_cost ::
    "pricing_table \<Rightarrow> string \<Rightarrow> string \<Rightarrow> u32 \<Rightarrow> u32 \<Rightarrow> u32 \<Rightarrow> u32 \<Rightarrow> f64" where
  "calculate_detailed_cost t model provider input cache_read cache_write output =
     calculate_cost_detailed (get_or_default t model provider) input cache_read cache_write output
       (\<not> is_cache_exclusive_input model provider)"

subsection \<open>The embedded prices\<close>

definition embedded ::
    "string \<Rightarrow> string \<Rightarrow> f64 \<Rightarrow> f64 \<Rightarrow> f64 option \<Rightarrow> f64 option \<Rightarrow> nat \<Rightarrow> nat \<Rightarrow> bool \<Rightarrow> bool \<Rightarrow> model_pricing" where
  "embedded model provider input output cached cache_write max_input max_output vision functions =
     \<lparr>mp_model = model, mp_provider = provider, mp_input = input, mp_output = output, mp_cached = cached,
      mp_cache_write = cache_write, mp_max_input = Some max_input, mp_max_output = Some max_output,
      mp_vision = vision, mp_functions = functions\<rparr>"

definition openai_models :: "model_pricing list" where
  "openai_models =
     [embedded ''gpt-4o'' ''openai'' (money 25 7) (money 1 5) (Some (money 125 8)) None
        128000 16384 True True,
      embedded ''gpt-4o-mini'' ''openai'' (money 15 8) (money 6 7) (Some (money 75 9)) None
        128000 16384 True True,
      embedded ''gpt-4-turbo'' ''openai'' (money 1 5) (money 3 5) (None) None
        128000 4096 True True,
      embedded ''gpt-4'' ''openai'' (money 3 5) (money 6 5) (None) None
        8192 4096 False True,
      embedded ''gpt-3.5-turbo'' ''openai'' (money 5 7) (money 15 7) (None) None
        16385 4096 False True,
      embedded ''o1'' ''openai'' (money 15 6) (money 6 5) (Some (money 75 7)) None
        200000 100000 True True,
      embedded ''o1-mini'' ''openai'' (money 3 6) (money 12 6) (Some (money 15 7)) None
        128000 65536 True True]"

definition anthropic_models :: "model_pricing list" where
  "anthropic_models =
     [embedded ''claude-3-opus-20240229'' ''anthropic'' (money 15 6) (money 75 6) (Some (money 1875 8)) None
        200000 4096 True True,
      embedded ''claude-3-5-sonnet-20241022'' ''anthropic'' (money 3 6) (money 15 6) (Some (money 3 7)) None
        200000 8192 True True,
      embedded ''claude-3-5-haiku-20241022'' ''anthropic'' (money 8 7) (money 4 6) (Some (money 8 8)) None
        200000 8192 True True,
      embedded ''claude-sonnet-4-5-20250929'' ''anthropic'' (money 3 6) (money 15 6) (Some (money 3 7)) None
        200000 64000 True True,
      embedded ''claude-haiku-4-5-20251001'' ''anthropic'' (money 1 6) (money 5 6) (Some (money 1 7)) None
        200000 64000 True True]"

definition google_models :: "model_pricing list" where
  "google_models =
     [embedded ''gemini-1.5-pro'' ''google'' (money 125 8) (money 5 6) (Some (money 3125 10)) None
        2097152 8192 True True,
      embedded ''gemini-1.5-flash'' ''google'' (money 75 9) (money 3 7) (Some (money 1875 11)) None
        1048576 8192 True True,
      embedded ''gemini-2.0-flash'' ''google'' (money 1 7) (money 4 7) (Some (money 25 9)) None
        1048576 8192 True True]"

definition mistral_models :: "model_pricing list" where
  "mistral_models =
     [embedded ''mistral-large-latest'' ''mistral'' (money 2 6) (money 6 6) (None) None
        128000 8192 False True,
      embedded ''mistral-small-latest'' ''mistral'' (money 2 7) (money 6 7) (None) None
        32000 8192 False True]"

definition groq_models :: "model_pricing list" where
  "groq_models =
     [embedded ''llama-3.1-70b-versatile'' ''groq'' (money 59 8) (money 79 8) (None) None
        131072 8192 False True,
      embedded ''llama-3.1-8b-instant'' ''groq'' (money 5 8) (money 8 8) (None) None
        131072 8192 False True]"

definition embedded_models :: "model_pricing list" where
  "embedded_models = openai_models @ anthropic_models @ google_models @ mistral_models @ groq_models"

text \<open>What is loaded over them: the entries of the catalogue, or rows of the price list of LiteLLM.\<close>

definition load_pricing_entries :: "model_pricing list \<Rightarrow> pricing_table \<Rightarrow> pricing_table" where
  "load_pricing_entries entries t = foldl add_pricing t entries"

definition embedded_table :: pricing_table where
  "embedded_table = load_pricing_entries embedded_models []"

record litellm_model =
  ll_provider :: "string option"
  ll_mode :: "string option"
  ll_input :: "f64 option"
  ll_output :: "f64 option"
  ll_cache_read :: "f64 option"
  ll_max_input :: "nat option"
  ll_max_output :: "nat option"
  ll_vision :: "bool option"
  ll_functions :: "bool option"

definition positive_rate :: "f64 option \<Rightarrow> f64 option" where
  "positive_rate r = Option.bind r (\<lambda>c. if f64_gt c (Fin 0) then Some c else None)"

definition litellm_entry :: "string \<times> litellm_model \<Rightarrow> model_pricing option" where
  "litellm_entry row =
     (case row of (name, m) \<Rightarrow>
        if name = ''sample_spec'' \<or> ll_mode m \<noteq> Some ''chat'' then None
        else case (positive_rate (ll_input m), positive_rate (ll_output m)) of
               (Some input, Some output) \<Rightarrow>
                 Some \<lparr>mp_model = name, mp_provider = (case ll_provider m of Some p \<Rightarrow> p | None \<Rightarrow> []),
                       mp_input = input, mp_output = output, mp_cached = ll_cache_read m, mp_cache_write = None,
                       mp_max_input = ll_max_input m, mp_max_output = ll_max_output m,
                       mp_vision = (ll_vision m = Some True), mp_functions = (ll_functions m = Some True)\<rparr>
             | _ \<Rightarrow> None)"

definition update_from_litellm :: "(string \<times> litellm_model) list \<Rightarrow> pricing_table \<Rightarrow> nat \<times> pricing_table" where
  "update_from_litellm rows t =
     (let entries = List.map_filter litellm_entry rows
      in (length entries, load_pricing_entries entries t))"

subsection \<open>Costs are never negative\<close>

definition rate_ok :: "f64 \<Rightarrow> bool" where
  "rate_ok r \<longleftrightarrow> (case r of Fin x \<Rightarrow> 0 \<le> x \<and> x \<le> pow2 900 | _ \<Rightarrow> False)"

definition amount_ok :: "f64 \<Rightarrow> bool" where
  "amount_ok r \<longleftrightarrow> (case r of Fin x \<Rightarrow> 0 \<le> x | _ \<Rightarrow> False)"

text \<open>Prices the code can use: finite, not negative, and such that half the input price is finite.\<close>

definition pricing_ok :: "model_pricing \<Rightarrow> bool" where
  "pricing_ok p \<longleftrightarrow>
     rate_ok (mp_input p) \<and> amount_ok (mp_output p) \<and> pred_option amount_ok (mp_cached p) \<and>
     pred_option amount_ok (mp_cache_write p)"

lemma rate_ok_simps [simp]:
  "rate_ok (Fin x) = (0 \<le> x \<and> x \<le> pow2 900)" "\<not> rate_ok (Inf s)" "\<not> rate_ok NaN"
  by (simp_all add: rate_ok_def)

lemma amount_ok_simps [simp]: "amount_ok (Fin x) = (0 \<le> x)" "\<not> amount_ok (Inf s)" "\<not> amount_ok NaN"
  by (simp_all add: amount_ok_def)

lemma amount_okD: "amount_ok r \<Longrightarrow> \<exists>x. r = Fin x \<and> 0 \<le> x"
  by (cases r) simp_all

lemma rate_amount: "rate_ok r \<Longrightarrow> amount_ok r"
  by (cases r) simp_all

lemma rate_okD: "rate_ok r \<Longrightarrow> \<exists>x. r = Fin x \<and> 0 \<le> x \<and> x \<le> pow2 900"
  by (cases r) simp_all

lemma rate_round:
  assumes "0 \<le> x" and "x \<le> pow2 800" shows "rate_ok (round64 x)"
proof -
  have "pow2 800 \<le> pow2 1000" by (rule pow2_mono) simp
  with assms(2) have "x \<le> pow2 1000" by (rule order_trans)
  from round64_small [OF assms(1) this] obtain y where y: "round64 x = Fin y" "0 \<le> y" "y \<le> 2 * x + 1" .
  have "2 * pow2 800 + 1 \<le> pow2 900" by (simp add: pow2_def)
  with y assms(2) show ?thesis by (simp add: rate_ok_def)
qed

lemma rate_money: "digits \<le> 10 ^ places * 1000 \<Longrightarrow> rate_ok (money digits places)"
proof -
  assume "digits \<le> 10 ^ places * 1000"
  then have "(of_nat digits :: rat) \<le> of_nat (10 ^ places * 1000)" by (rule of_nat_mono)
  then have "(of_nat digits :: rat) / 10 ^ places \<le> 1000" by (simp add: field_simps)
  also have "\<dots> \<le> pow2 800" by (simp add: pow2_def)
  finally show ?thesis unfolding money_def by (intro rate_round) auto
qed

lemma half_rate_ok: "rate_ok i \<Longrightarrow> amount_ok (f64_mul i half)"
proof -
  assume "rate_ok i"
  then obtain x where x: "i = Fin x" "0 \<le> x" "x \<le> pow2 900" using rate_okD by blast
  then have "x * (1 / 2) \<le> pow2 1000" using pow2_mono [of 900 1000] by simp
  from round64_small [OF _ this] x show ?thesis by (force simp: half_def)
qed

lemma rates_nonneg:
  assumes "pricing_ok p"
  obtains i out r w where "mp_input p = Fin i" "mp_output p = Fin out" "read_rate p = Fin r" "write_rate p = Fin w"
    "0 \<le> i" "0 \<le> out" "0 \<le> r" "0 \<le> w"
proof -
  from assms obtain i out where io: "mp_input p = Fin i" "mp_output p = Fin out" "0 \<le> i" "i \<le> pow2 900" "0 \<le> out"
    by (auto simp: pricing_ok_def dest!: rate_okD amount_okD)
  obtain h where "f64_mul (mp_input p) half = Fin h" "0 \<le> h"
    using half_rate_ok amount_okD assms by (auto simp: pricing_ok_def)
  with io assms obtain r where "read_rate p = Fin r" "0 \<le> r"
    by (cases "mp_cached p") (auto simp: read_rate_def pricing_ok_def dest!: amount_okD)
  moreover from io assms obtain w where "write_rate p = Fin w" "0 \<le> w"
    by (cases "mp_cache_write p") (auto simp: write_rate_def pricing_ok_def dest!: amount_okD)
  ultimately show ?thesis using io that by blast
qed

lemma f64_of_u32_nonneg: "\<exists>x \<ge> 0. f64_of_u32 n = Fin x"
  by (auto simp: f64_of_u32_def simp del: of_nat_unat)

lemma detailed_nonneg:
  assumes "pricing_ok p" shows "f64_ge (calculate_cost_detailed p i r w out b) (Fin 0)"
proof -
  from rates_nonneg [OF assms] obtain a c d e where
    "mp_input p = Fin a" "mp_output p = Fin c" "read_rate p = Fin d" "write_rate p = Fin e"
    "0 \<le> a" "0 \<le> c" "0 \<le> d" "0 \<le> e" .
  moreover obtain n1 n2 n3 n4 where "f64_of_u32 out = Fin n1" "f64_of_u32 w = Fin n2" "f64_of_u32 r = Fin n3"
    "f64_of_u32 (regular_input i r w b) = Fin n4" "0 \<le> n1" "0 \<le> n2" "0 \<le> n3" "0 \<le> n4"
    using f64_of_u32_nonneg by metis
  ultimately show ?thesis
    by (simp add: calculate_cost_detailed_def f64_mul_add_nonneg f64_mul_nonneg del: f64_mul_add.simps f64_mul.simps)
qed

definition table_ok :: "pricing_table \<Rightarrow> bool" where
  "table_ok t \<longleftrightarrow> (\<forall>(k, p) \<in> set t. pricing_ok p)"

lemma set_obj_replace: "set (obj_replace k v m) \<subseteq> insert (k, v) (set m)"
  by (induction m) (auto split: if_splits)

lemma table_insert_ok: "table_ok t \<Longrightarrow> pricing_ok p \<Longrightarrow> table_ok (table_insert k p t)"
  using set_obj_replace [of k p t] by (auto simp: table_ok_def table_insert_def)

lemma add_pricing_ok: "table_ok t \<Longrightarrow> pricing_ok p \<Longrightarrow> table_ok (add_pricing t p)"
  by (simp add: add_pricing_def Let_def table_insert_ok)

lemma load_ok: "table_ok t \<Longrightarrow> \<forall>p \<in> set ps. pricing_ok p \<Longrightarrow> table_ok (load_pricing_entries ps t)"
  unfolding load_pricing_entries_def by (induction ps arbitrary: t) (auto intro: add_pricing_ok)

lemma pricing_get_in: "pricing_get t m = Some p \<Longrightarrow> \<exists>k. (k, p) \<in> set t"
  by (auto simp: pricing_get_def dest: map_of_SomeD dest!: find_SomeD split: option.splits)

lemma default_rates_ok: "rate_ok (fst (default_rates provider)) \<and> rate_ok (snd (default_rates provider))"
  by (simp add: default_rates_def Let_def rate_money)

lemma default_pricing_ok: "pricing_ok (default_pricing m provider)"
  using default_rates_ok [of provider]
  by (cases "default_rates provider") (simp add: default_pricing_def pricing_ok_def half_rate_ok rate_amount)

lemma embedded_models_ok: "\<forall>p \<in> set embedded_models. pricing_ok p"
  by (simp add: embedded_models_def openai_models_def anthropic_models_def google_models_def mistral_models_def
      groq_models_def embedded_def pricing_ok_def rate_money rate_amount)

lemma get_or_default_ok: "table_ok t \<Longrightarrow> pricing_ok (get_or_default t m provider)"
  using pricing_get_in [of t m] default_pricing_ok
  by (auto simp: get_or_default_def table_ok_def split: option.splits)

text \<open>
  The cost of a request is never negative and always a number, whatever prices are loaded over the
  embedded ones, as long as these are usable themselves: recording usage never gives budget back.
\<close>

theorem cost_never_negative:
  assumes "\<forall>p \<in> set entries. pricing_ok p"
  shows "f64_ge (calculate_detailed_cost (load_pricing_entries entries embedded_table) model provider
      input cache_read cache_write output) (Fin 0)"
proof -
  have "table_ok embedded_table"
    unfolding embedded_table_def by (rule load_ok [OF _ embedded_models_ok]) (simp add: table_ok_def)
  with assms have "table_ok (load_pricing_entries entries embedded_table)" by (intro load_ok)
  then show ?thesis unfolding calculate_detailed_cost_def by (intro detailed_nonneg get_or_default_ok)
qed

definition some_pricing :: model_pricing where
  "some_pricing = embedded ''m'' ''p'' (Fin (1 / 4)) (Fin (1 / 2)) None (Some (Fin 1)) 1000 1000 False False"

theorem cost_never_negative_witness:
  "f64_ge (calculate_detailed_cost (load_pricing_entries [some_pricing] embedded_table) ''m'' ''p'' 8 2 1 4) (Fin 0)"
proof -
  have "\<forall>p \<in> set [some_pricing]. pricing_ok p"
    by (simp add: some_pricing_def embedded_def pricing_ok_def pow2_def)
  then show ?thesis by (rule cost_never_negative)
qed

subsection \<open>The order of the table\<close>

text \<open>A name that is in the table, as it is or in lower case, has its own price in every order.\<close>

lemma exact_price_stable:
  assumes "map_of t = map_of t'" and "map_of t model \<noteq> None \<or> map_of t (to_lower model) \<noteq> None"
  shows "pricing_get t model = pricing_get t' model"
  using assms by (auto simp: pricing_get_def split: option.splits)

lemma embedded_table_eq: "embedded_table = map (\<lambda>p. (mp_model p, p)) embedded_models"
  by (simp add: embedded_table_def load_pricing_entries_def embedded_models_def openai_models_def
      anthropic_models_def google_models_def mistral_models_def groq_models_def embedded_def add_pricing_def
      table_insert_def Let_def to_lower_def ascii_lower_char_def)

text \<open>
  A name that is in the table only as an extension of other names is priced by whichever of them the
  iteration meets first: with the same embedded prices a dated gpt-4o is priced as gpt-4o in one
  order of iteration and as gpt-4, at twelve times the input price, in another.
\<close>

theorem price_depends_on_order:
  "map_of (rev embedded_table) = map_of embedded_table \<and>
   map_option mp_model (pricing_get embedded_table ''gpt-4o-2024-08-06'') = Some ''gpt-4o'' \<and>
   map_option mp_model (pricing_get (rev embedded_table) ''gpt-4o-2024-08-06'') = Some ''gpt-4''"
proof (intro conjI)
  have "distinct (map fst embedded_table)"
    by (simp add: embedded_table_eq embedded_models_def openai_models_def anthropic_models_def google_models_def
        mistral_models_def groq_models_def embedded_def)
  then have "map_of (rev embedded_table) k = Some p \<longleftrightarrow> map_of embedded_table k = Some p" for k p
    by (simp add: map_of_eq_Some_iff rev_map [symmetric])
  then show "map_of (rev embedded_table) = map_of embedded_table"
    by (metis not_None_eq ext)
qed (simp_all add: embedded_table_eq embedded_models_def openai_models_def anthropic_models_def google_models_def
    mistral_models_def groq_models_def embedded_def pricing_get_def name_related_def starts_with_def to_lower_def
    ascii_lower_char_def)

end
