(* ===== verification/Pi_Wire.thy ===== *)
theory Pi_Wire
  imports Pricing
begin

section \<open>The event stream of the Pi interface\<close>

text \<open>
  src/pi_messages/wire.rs and signatures.rs. The gateway offers one client, Pi, its own protocol over
  every provider: the provider's native stream is converted into blocks of text, thinking and tool
  calls. \<open>Wire\<close> is the state of one conversion; its operations append events to the output.

  An operation is a function from the wire to a result, the wire afterwards and the events it
  appended. It can be rejected, which the code writes \<open>Err(())\<close>, or panic. \<open>and_then\<close> is the sequence of
  two operations, where the second is not run after an error of the first: the \<open>?\<close> of the code.

  \<open>parse\<close> and \<open>render\<close> are the JSON package's reader and writer. Byte counts are natural numbers: the
  bytes counted are in memory.
\<close>

datatype pi_kind = TextBlock | ThinkingBlock | ToolBlock

record pi_block =
  bl_kind :: pi_kind
  bl_text :: string
  bl_id :: string
  bl_name :: string
  bl_signature :: "json option"
  bl_redacted :: bool
  bl_ended :: bool

record pi_counts =
  pc_input :: u32
  pc_output :: u32
  pc_read :: u32
  pc_write :: u32

record pi_usage =
  pu_input :: u32
  pu_output :: u32
  pu_read :: u32
  pu_write :: u32
  pu_total :: u32
  pu_cost_input :: f64
  pu_cost_output :: f64
  pu_cost_read :: f64
  pu_cost_write :: f64
  pu_cost_total :: f64

datatype pi_event =
    EvStart
  | EvBlockStart pi_kind nat string string
  | EvDelta pi_kind nat string
  | EvTextEnd nat string "string option"
  | EvThinkingEnd nat string bool "string option"
  | EvToolEnd nat string string json "string option"
  | EvDone string pi_usage "string option"
  | EvError "pi_usage option"

record wire =
  w_provider :: string
  w_model :: string
  w_api :: string
  w_blocks :: "pi_block list"
  w_keys :: "string \<Rightarrow> nat option"
  w_counts :: "pi_counts option"
  w_includes_cache :: bool
  w_reason :: "string option"
  w_response_id :: "string option"
  w_terminal :: bool
  w_started :: bool
  w_oauth_tools :: bool
  w_request_id :: string
  w_total_bytes :: nat

definition wire_new :: "string \<Rightarrow> string \<Rightarrow> string \<Rightarrow> string \<Rightarrow> wire" where
  "wire_new provider model api request_id =
     \<lparr>w_provider = provider, w_model = model, w_api = api, w_blocks = [], w_keys = Map.empty, w_counts = None,
      w_includes_cache = (api \<noteq> ''anthropic-messages''), w_reason = None, w_response_id = None,
      w_terminal = False, w_started = False, w_oauth_tools = False, w_request_id = request_id,
      w_total_bytes = 0\<rparr>"

subsection \<open>Operations and their sequence\<close>

datatype fault = Rejected | Crashed

type_synonym 'a act = "wire \<Rightarrow> (fault + 'a) \<times> wire \<times> pi_event list"

definition done_with :: "'a \<Rightarrow> 'a act" where
  "done_with x w = (Inr x, w, [])"

definition fail_with :: "fault \<Rightarrow> 'a act" where
  "fail_with e w = (Inl e, w, [])"

abbreviation reject :: "'a act" where "reject \<equiv> fail_with Rejected"

definition and_then :: "'a act \<Rightarrow> ('a \<Rightarrow> 'b act) \<Rightarrow> 'b act" where
  "and_then m f w =
     (case m w of
        (Inl e, w', out) \<Rightarrow> (Inl e, w', out)
      | (Inr x, w', out) \<Rightarrow> (case f x w' of (r, w'', out') \<Rightarrow> (r, w'', out @ out')))"

definition append_event :: "pi_event \<Rightarrow> unit act" where
  "append_event ev w = (Inr (), w, [ev])"

definition get_wire :: "(wire \<Rightarrow> 'a) \<Rightarrow> 'a act" where
  "get_wire f w = (Inr (f w), w, [])"

definition put_wire :: "(wire \<Rightarrow> wire) \<Rightarrow> unit act" where
  "put_wire f w = (Inr (), f w, [])"

text \<open>\<open>ok_or(())?\<close>.\<close>

definition demand :: "'a option \<Rightarrow> 'a act" where
  "demand r = (case r of Some x \<Rightarrow> done_with x | None \<Rightarrow> reject)"

definition unless_bad :: "bool \<Rightarrow> unit act" where
  "unless_bad bad = (if bad then reject else done_with ())"

fun each :: "('a \<Rightarrow> unit act) \<Rightarrow> 'a list \<Rightarrow> unit act" where
  "each f [] = done_with ()"
| "each f (x # xs) = and_then (f x) (\<lambda>_. each f xs)"

text \<open>The value at a key through \<open>Value\<close>'s index: \<open>null\<close> where there is none.\<close>

definition jat :: "json \<Rightarrow> string \<Rightarrow> json" where
  "jat v k = (case jget v k of Some x \<Rightarrow> x | None \<Rightarrow> JNull)"

subsection \<open>Signatures\<close>

definition obj :: "(string \<times> json) list \<Rightarrow> json" where
  "obj kvs = JObj (foldl (\<lambda>m (k, v). obj_insert k v m) [] kvs)"

definition seal_signature :: "(json \<Rightarrow> string) \<Rightarrow> json \<Rightarrow> string \<Rightarrow> string \<Rightarrow> string \<Rightarrow> string" where
  "seal_signature render signature provider model api =
     render (obj [(''eavsSignature'', JNum (PosInt 1)), (''provider'', JStr provider), (''model'', JStr model),
                  (''api'', JStr api), (''value'', signature)])"

definition open_signature :: "(string \<Rightarrow> json option) \<Rightarrow> string \<Rightarrow> string \<Rightarrow> string \<Rightarrow> string \<Rightarrow> json option" where
  "open_signature parse text provider model api =
     (case parse text of
        None \<Rightarrow> None
      | Some parsed \<Rightarrow>
          if jat parsed ''eavsSignature'' \<noteq> JNum (PosInt 1) \<or> jat parsed ''provider'' \<noteq> JStr provider \<or>
             jat parsed ''model'' \<noteq> JStr model \<or> jat parsed ''api'' \<noteq> JStr api
          then None else Some (jat parsed ''value''))"

subsection \<open>The operations of the wire\<close>

definition has_tools :: "wire \<Rightarrow> bool" where
  "has_tools w = list_ex (\<lambda>b. bl_kind b = ToolBlock) (w_blocks w)"

definition last_block :: "pi_kind \<Rightarrow> wire \<Rightarrow> nat option" where
  "last_block kind w =
     (if w_blocks w \<noteq> [] \<and> bl_kind (last (w_blocks w)) = kind \<and> \<not> bl_ended (last (w_blocks w))
      then Some (length (w_blocks w) - 1) else None)"

definition wire_start :: "unit act" where
  "wire_start w = (if w_started w then (Inr (), w, []) else (Inr (), w\<lparr>w_started := True\<rparr>, [EvStart]))"

definition fresh_block :: "pi_kind \<Rightarrow> string \<Rightarrow> string \<Rightarrow> pi_block" where
  "fresh_block kind ident name =
     \<lparr>bl_kind = kind, bl_text = [], bl_id = ident, bl_name = name, bl_signature = None,
      bl_redacted = False, bl_ended = False\<rparr>"

definition open_block :: "string \<Rightarrow> pi_kind \<Rightarrow> string \<Rightarrow> string \<Rightarrow> nat act" where
  "open_block key kind ident name w =
     (if length (w_blocks w) \<ge> 1024 \<or> length key > 1024 \<or> length ident > 512 \<or> length name > 512
      then (Inl Rejected, w, [])
      else (Inr (length (w_blocks w)),
            w\<lparr>w_keys := (w_keys w)(key \<mapsto> length (w_blocks w)),
              w_blocks := w_blocks w @ [fresh_block kind ident name]\<rparr>,
            [case kind of
               ToolBlock \<Rightarrow> EvBlockStart kind (length (w_blocks w)) ident name
             | _ \<Rightarrow> EvBlockStart kind (length (w_blocks w)) [] []]))"

definition wire_block :: "string \<Rightarrow> pi_kind \<Rightarrow> string \<Rightarrow> string \<Rightarrow> nat act" where
  "wire_block key kind ident name =
     and_then wire_start (\<lambda>_ w.
       case w_keys w key of
         Some index \<Rightarrow>
           if length (w_blocks w) \<le> index then (Inl Crashed, w, [])
           else if bl_kind (w_blocks w ! index) \<noteq> kind then (Inl Rejected, w, [])
           else (Inr index, w, [])
       | None \<Rightarrow> open_block key kind ident name w)"

definition wire_index :: "string \<Rightarrow> nat act" where
  "wire_index key w = demand (w_keys w key) w"

text \<open>\<open>blocks.get(index)\<close> and \<open>blocks.get_mut(index)\<close>.\<close>

definition block_at :: "nat \<Rightarrow> pi_block act" where
  "block_at index w = (if index < length (w_blocks w) then (Inr (w_blocks w ! index), w, []) else (Inl Rejected, w, []))"

definition set_block :: "nat \<Rightarrow> pi_block \<Rightarrow> unit act" where
  "set_block index b = put_wire (\<lambda>w. w\<lparr>w_blocks := (w_blocks w)[index := b]\<rparr>)"

definition wire_empty :: "nat \<Rightarrow> bool act" where
  "wire_empty index = and_then (block_at index) (\<lambda>b. done_with (bl_text b = []))"

definition mebibytes :: "nat \<Rightarrow> nat" where "mebibytes n = n * (1024 * 1024)"

definition wire_delta :: "nat \<Rightarrow> string \<Rightarrow> unit act" where
  "wire_delta index delta =
     and_then (put_wire (\<lambda>w. w\<lparr>w_total_bytes := w_total_bytes w + length delta\<rparr>)) (\<lambda>_.
     and_then (get_wire (\<lambda>w. mebibytes 16 < w_total_bytes w)) (\<lambda>over.
     and_then (unless_bad over) (\<lambda>_.
     and_then (block_at index) (\<lambda>b.
     and_then (unless_bad (bl_ended b \<or> mebibytes 4 < length (bl_text b) + length delta)) (\<lambda>_.
     and_then (set_block index (b\<lparr>bl_text := bl_text b @ delta\<rparr>)) (\<lambda>_.
     append_event (EvDelta (bl_kind b) index delta)))))))"

definition wire_signature :: "(json \<Rightarrow> string) \<Rightarrow> nat \<Rightarrow> json \<Rightarrow> bool \<Rightarrow> unit act" where
  "wire_signature render index v appending =
     and_then (put_wire (\<lambda>w. w\<lparr>w_total_bytes := w_total_bytes w + length (render v)\<rparr>)) (\<lambda>_.
     and_then (get_wire (\<lambda>w. mebibytes 1 < length (render v) \<or> mebibytes 16 < w_total_bytes w)) (\<lambda>over.
     and_then (unless_bad over) (\<lambda>_.
     and_then (block_at index) (\<lambda>b.
     if appending
     then and_then (demand (as_str v)) (\<lambda>new.
          let old = (case Option.bind (bl_signature b) as_str of Some s \<Rightarrow> s | None \<Rightarrow> [])
          in and_then (unless_bad (mebibytes 1 < length old + length new)) (\<lambda>_.
             set_block index (b\<lparr>bl_signature := Some (JStr (old @ new))\<rparr>)))
     else set_block index (b\<lparr>bl_signature := Some v\<rparr>)))))"

definition wire_redacted :: "nat \<Rightarrow> unit act" where
  "wire_redacted index = and_then (block_at index) (\<lambda>b. set_block index (b\<lparr>bl_redacted := True\<rparr>))"

definition tool_arguments :: "(string \<Rightarrow> json option) \<Rightarrow> string \<Rightarrow> json option" where
  "tool_arguments parse text = parse (if text = [] then ''{}'' else text)"

definition end_event ::
    "(string \<Rightarrow> json option) \<Rightarrow> nat \<Rightarrow> pi_block \<Rightarrow> string option \<Rightarrow> pi_event option" where
  "end_event parse index b signature =
     (case bl_kind b of
        TextBlock \<Rightarrow> Some (EvTextEnd index (bl_text b) signature)
      | ThinkingBlock \<Rightarrow> Some (EvThinkingEnd index (bl_text b) (bl_redacted b) signature)
      | ToolBlock \<Rightarrow>
          (case tool_arguments parse (bl_text b) of
             None \<Rightarrow> None
           | Some args \<Rightarrow>
               if is_object args then Some (EvToolEnd index (bl_id b) (bl_name b) args signature) else None))"

definition wire_end :: "(string \<Rightarrow> json option) \<Rightarrow> (json \<Rightarrow> string) \<Rightarrow> nat \<Rightarrow> unit act" where
  "wire_end parse render index =
     and_then (block_at index) (\<lambda>b.
     if bl_ended b then done_with ()
     else
       and_then (set_block index (b\<lparr>bl_ended := True\<rparr>)) (\<lambda>_.
       and_then (get_wire (\<lambda>w. map_option (\<lambda>s. seal_signature render s (w_provider w) (w_model w) (w_api w))
                                  (bl_signature b))) (\<lambda>signature.
       and_then (demand (end_event parse index b signature)) (\<lambda>ev.
       append_event ev))))"

subsection \<open>Usage, the end of the stream, and failure\<close>

definition rate_cost :: "u32 \<Rightarrow> f64 option \<Rightarrow> f64 option" where
  "rate_cost tokens rate =
     (if tokens = 0 then Some (Fin 0)
      else case rate of
             None \<Rightarrow> None
           | Some r \<Rightarrow> if \<not> f64_finite r \<or> \<not> f64_ge r (Fin 0) then None else Some (f64_mul (f64_of_u32 tokens) r))"

definition checked_add :: "'w::len word \<Rightarrow> 'w word \<Rightarrow> 'w word option" where
  "checked_add a b = (if add_overflows a b then None else Some (a + b))"

definition checked_sub :: "'w::len word \<Rightarrow> 'w word \<Rightarrow> 'w word option" where
  "checked_sub a b = (if b \<le> a then Some (a - b) else None)"

definition usage_tokens :: "bool \<Rightarrow> pi_counts \<Rightarrow> (u32 \<times> u32) option" where
  "usage_tokens includes_cache c =
     Option.bind (checked_add (pc_read c) (pc_write c)) (\<lambda>cached.
     Option.bind (if includes_cache then checked_sub (pc_input c) cached else Some (pc_input c)) (\<lambda>input.
     Option.bind (checked_add input (pc_output c)) (\<lambda>s.
     map_option (\<lambda>total. (input, total)) (checked_add s cached))))"

definition wire_usage :: "model_pricing \<Rightarrow> wire \<Rightarrow> pi_usage option" where
  "wire_usage pricing w =
     Option.bind (w_counts w) (\<lambda>c.
     Option.bind (usage_tokens (w_includes_cache w) c) (\<lambda>(input, total).
     Option.bind (rate_cost (pc_read c) (mp_cached pricing)) (\<lambda>read_cost.
     Option.bind (rate_cost (pc_write c) (mp_cache_write pricing)) (\<lambda>write_cost.
     let input_cost = f64_mul (f64_of_u32 input) (mp_input pricing);
         output_cost = f64_mul (f64_of_u32 (pc_output c)) (mp_output pricing);
         total_cost = f64_add (f64_add (f64_add input_cost output_cost) read_cost) write_cost
     in if list_all (\<lambda>v. f64_finite v \<and> f64_ge v (Fin 0)) [input_cost, output_cost, read_cost, write_cost, total_cost]
        then Some \<lparr>pu_input = input, pu_output = pc_output c, pu_read = pc_read c, pu_write = pc_write c,
                   pu_total = total, pu_cost_input = input_cost, pu_cost_output = output_cost,
                   pu_cost_read = read_cost, pu_cost_write = write_cost, pu_cost_total = total_cost\<rparr>
        else None))))"

definition wire_finish ::
    "(string \<Rightarrow> json option) \<Rightarrow> (json \<Rightarrow> string) \<Rightarrow> model_pricing \<Rightarrow> unit act" where
  "wire_finish parse render pricing =
     and_then (get_wire (\<lambda>w. (w_terminal w, w_reason w, has_tools w))) (\<lambda>(terminal, reason, tools).
     if \<not> terminal then reject
     else
       and_then (demand reason) (\<lambda>r.
       and_then (unless_bad (r = ''error'' \<or> (r = ''toolUse'') \<noteq> tools)) (\<lambda>_.
       and_then wire_start (\<lambda>_.
       and_then (get_wire (\<lambda>w. length (w_blocks w))) (\<lambda>n.
       and_then (each (wire_end parse render) [0..<n]) (\<lambda>_.
       and_then (get_wire (\<lambda>w. (wire_usage pricing w, w_response_id w))) (\<lambda>(usage, ident).
       and_then (demand usage) (\<lambda>u.
       append_event (EvDone r u ident)))))))))"

definition wire_failure :: "model_pricing \<Rightarrow> wire \<Rightarrow> pi_event" where
  "wire_failure pricing w = EvError (wire_usage pricing w)"

text \<open>Counts and reasons of the native streams.\<close>

definition wire_count :: "json \<Rightarrow> u32 option" where
  "wire_count v =
     Option.bind (as_u64 v) (\<lambda>n. if unat n < 2 ^ 32 then Some (ucast n) else None)"

definition optional_count :: "json \<Rightarrow> u32 option" where
  "optional_count v = (if v = JNull then Some 0 else wire_count v)"

definition stop_reason :: "string \<Rightarrow> string option" where
  "stop_reason s =
     (if s \<in> {''stop'', ''end_turn'', ''stop_sequence'', ''STOP''} then Some ''stop''
      else if s \<in> {''length'', ''max_tokens'', ''MAX_TOKENS''} then Some ''length''
      else if s \<in> {''tool_calls'', ''tool_use''} then Some ''toolUse''
      else None)"

subsection \<open>Events as JSON\<close>

definition of_nat_json :: "nat \<Rightarrow> json" where
  "of_nat_json n = JNum (PosInt (of_nat n))"

definition u32_json :: "u32 \<Rightarrow> json" where
  "u32_json n = JNum (PosInt (ucast n))"

definition f64_json :: "f64 \<Rightarrow> json" where
  "f64_json x = (case x of Fin r \<Rightarrow> JNum (FloatNum r) | _ \<Rightarrow> JNull)"

definition usage_json :: "pi_usage option \<Rightarrow> json" where
  "usage_json u =
     (case u of
        None \<Rightarrow>
          let z = JNum (PosInt 0)
          in obj [(''input'', z), (''output'', z), (''cacheRead'', z), (''cacheWrite'', z), (''totalTokens'', z),
                  (''cost'', obj [(''input'', z), (''output'', z), (''cacheRead'', z), (''cacheWrite'', z),
                                  (''total'', z)])]
      | Some u \<Rightarrow>
          obj [(''input'', u32_json (pu_input u)), (''output'', u32_json (pu_output u)),
               (''cacheRead'', u32_json (pu_read u)), (''cacheWrite'', u32_json (pu_write u)),
               (''totalTokens'', u32_json (pu_total u)),
               (''cost'', obj [(''input'', f64_json (pu_cost_input u)), (''output'', f64_json (pu_cost_output u)),
                               (''cacheRead'', f64_json (pu_cost_read u)),
                               (''cacheWrite'', f64_json (pu_cost_write u)),
                               (''total'', f64_json (pu_cost_total u))])])"

definition with_field :: "string \<Rightarrow> string option \<Rightarrow> (string \<times> json) list" where
  "with_field k s = (case s of Some x \<Rightarrow> [(k, JStr x)] | None \<Rightarrow> [])"

definition kind_name :: "pi_kind \<Rightarrow> string" where
  "kind_name k = (case k of TextBlock \<Rightarrow> ''text'' | ThinkingBlock \<Rightarrow> ''thinking'' | ToolBlock \<Rightarrow> ''toolcall'')"

fun event_json :: "pi_event \<Rightarrow> json" where
  "event_json EvStart = obj [(''type'', JStr ''start'')]"
| "event_json (EvBlockStart k i ident name) =
     obj ([(''type'', JStr (kind_name k @ ''_start'')), (''contentIndex'', of_nat_json i)] @
          (if k = ToolBlock then [(''id'', JStr ident), (''toolName'', JStr name)] else []))"
| "event_json (EvDelta k i d) =
     obj [(''type'', JStr (kind_name k @ ''_delta'')), (''contentIndex'', of_nat_json i), (''delta'', JStr d)]"
| "event_json (EvTextEnd i t s) =
     obj ([(''type'', JStr ''text_end''), (''contentIndex'', of_nat_json i), (''content'', JStr t)] @
          with_field ''contentSignature'' s)"
| "event_json (EvThinkingEnd i t red s) =
     obj ([(''type'', JStr ''thinking_end''), (''contentIndex'', of_nat_json i), (''content'', JStr t),
           (''redacted'', JBool red)] @ with_field ''contentSignature'' s)"
| "event_json (EvToolEnd i ident name args s) =
     obj [(''type'', JStr ''toolcall_end''), (''contentIndex'', of_nat_json i),
          (''toolCall'', obj ([(''type'', JStr ''toolCall''), (''id'', JStr ident), (''name'', JStr name),
                              (''arguments'', args)] @ with_field ''thoughtSignature'' s))]"
| "event_json (EvDone r u ident) =
     obj ([(''type'', JStr ''done''), (''reason'', JStr r), (''usage'', usage_json (Some u))] @
          with_field ''responseId'' ident)"
| "event_json (EvError u) =
     obj [(''type'', JStr ''error''), (''reason'', JStr ''error''), (''usage'', usage_json u),
          (''errorMessage'', JStr (''Provider stream could not be represented safely; usage may have been incurred. '' @
             ''Do not retry automatically.''))]"

subsection \<open>The protocol\<close>

text \<open>
  What a client may rely on, as a type checker of event streams: the blocks opened so far, with the
  text received for each and whether it has ended. It accepts an event only where it belongs; the
  content that ends a block must be the concatenation of its deltas, the arguments of a tool call
  the object that its deltas spell, and the stream may be done only when all blocks have ended.
\<close>

record proto_block =
  pb_kind :: pi_kind
  pb_id :: string
  pb_name :: string
  pb_text :: string
  pb_ended :: bool

record proto =
  pr_started :: bool
  pr_blocks :: "proto_block list"
  pr_closed :: bool

definition proto_init :: proto where
  "proto_init = \<lparr>pr_started = False, pr_blocks = [], pr_closed = False\<rparr>"

definition end_proto :: "nat \<Rightarrow> (proto_block \<Rightarrow> bool) \<Rightarrow> proto \<Rightarrow> proto option" where
  "end_proto i ok p =
     (if pr_started p \<and> i < length (pr_blocks p) \<and> \<not> pb_ended (pr_blocks p ! i) \<and> ok (pr_blocks p ! i)
      then Some (p\<lparr>pr_blocks := (pr_blocks p)[i := (pr_blocks p ! i)\<lparr>pb_ended := True\<rparr>]\<rparr>)
      else None)"

fun proto_event :: "(string \<Rightarrow> json option) \<Rightarrow> proto \<Rightarrow> pi_event \<Rightarrow> proto option" where
  "proto_event parse p EvStart = (if pr_started p then None else Some (p\<lparr>pr_started := True\<rparr>))"
| "proto_event parse p (EvBlockStart k i ident name) =
     (if pr_started p \<and> i = length (pr_blocks p) \<and> (k = ToolBlock \<or> ident = [] \<and> name = [])
      then Some (p\<lparr>pr_blocks := pr_blocks p @
                    [\<lparr>pb_kind = k, pb_id = ident, pb_name = name, pb_text = [], pb_ended = False\<rparr>]\<rparr>)
      else None)"
| "proto_event parse p (EvDelta k i d) =
     (if pr_started p \<and> i < length (pr_blocks p) \<and> \<not> pb_ended (pr_blocks p ! i) \<and> pb_kind (pr_blocks p ! i) = k
      then Some (p\<lparr>pr_blocks := (pr_blocks p)[i := (pr_blocks p ! i)\<lparr>pb_text := pb_text (pr_blocks p ! i) @ d\<rparr>]\<rparr>)
      else None)"
| "proto_event parse p (EvTextEnd i t s) = end_proto i (\<lambda>b. pb_kind b = TextBlock \<and> pb_text b = t) p"
| "proto_event parse p (EvThinkingEnd i t red s) = end_proto i (\<lambda>b. pb_kind b = ThinkingBlock \<and> pb_text b = t) p"
| "proto_event parse p (EvToolEnd i ident name args s) =
     end_proto i (\<lambda>b. pb_kind b = ToolBlock \<and> pb_id b = ident \<and> pb_name b = name \<and>
                       tool_arguments parse (pb_text b) = Some args \<and> is_object args) p"
| "proto_event parse p (EvDone r u ident) =
     (if pr_started p \<and> list_all pb_ended (pr_blocks p) \<and> r \<in> {''stop'', ''length'', ''toolUse''} \<and>
         (r = ''toolUse'' \<longleftrightarrow> list_ex (\<lambda>b. pb_kind b = ToolBlock) (pr_blocks p))
      then Some (p\<lparr>pr_closed := True\<rparr>) else None)"
| "proto_event parse p (EvError u) = Some (p\<lparr>pr_closed := True\<rparr>)"

fun replay :: "(string \<Rightarrow> json option) \<Rightarrow> proto \<Rightarrow> pi_event list \<Rightarrow> proto option" where
  "replay parse p [] = Some p"
| "replay parse p (ev # evs) =
     (if pr_closed p then None
      else case proto_event parse p ev of Some p' \<Rightarrow> replay parse p' evs | None \<Rightarrow> None)"

text \<open>A complete stream: it is accepted, and its last event is the only one that closes it.\<close>

definition well_typed_stream :: "(string \<Rightarrow> json option) \<Rightarrow> pi_event list \<Rightarrow> bool" where
  "well_typed_stream parse evs \<longleftrightarrow> (case replay parse proto_init evs of Some p \<Rightarrow> pr_closed p | None \<Rightarrow> False)"

subsection \<open>The wire implements the protocol\<close>

named_theorems sound_rules \<open>operations of the wire that keep to the protocol, and how to combine them\<close>

definition proto_block_of :: "pi_block \<Rightarrow> proto_block" where
  "proto_block_of b =
     \<lparr>pb_kind = bl_kind b, pb_id = (if bl_kind b = ToolBlock then bl_id b else []),
      pb_name = (if bl_kind b = ToolBlock then bl_name b else []), pb_text = bl_text b, pb_ended = bl_ended b\<rparr>"

definition proto_of :: "wire \<Rightarrow> proto" where
  "proto_of w = \<lparr>pr_started = w_started w, pr_blocks = map proto_block_of (w_blocks w), pr_closed = False\<rparr>"

definition wire_ok :: "wire \<Rightarrow> bool" where
  "wire_ok w \<longleftrightarrow>
     (\<forall>k i. w_keys w k = Some i \<longrightarrow> i < length (w_blocks w)) \<and> (w_blocks w \<noteq> [] \<longrightarrow> w_started w) \<and>
     (\<forall>r. w_reason w = Some r \<longrightarrow> r \<in> {''stop'', ''length'', ''toolUse''}) \<and>
     length (w_blocks w) \<le> 1024 \<and> (\<forall>b \<in> set (w_blocks w). length (bl_text b) \<le> mebibytes 4)"

text \<open>
  An operation keeps to the protocol: on success it leaves a wire in order and has appended events
  that take the protocol state of the old wire to that of the new one. \<open>may_crash\<close> says whether a
  panic is allowed.
\<close>

definition sound :: "(string \<Rightarrow> json option) \<Rightarrow> bool \<Rightarrow> 'a act \<Rightarrow> bool" where
  "sound parse may_crash m \<longleftrightarrow>
     (\<forall>w. wire_ok w \<longrightarrow>
        (case m w of
           (Inl e, w', out) \<Rightarrow> e = Crashed \<longrightarrow> may_crash
         | (Inr x, w', out) \<Rightarrow> wire_ok w' \<and> replay parse (proto_of w) out = Some (proto_of w')))"

lemma replay_append: "replay parse p (xs @ ys) = Option.bind (replay parse p xs) (\<lambda>q. replay parse q ys)"
  by (induction xs arbitrary: p) (auto split: option.split)

lemma sound_done [sound_rules]: "sound parse c (done_with x)"
  by (simp add: sound_def done_with_def)

lemma sound_reject [sound_rules]: "sound parse c reject"
  by (simp add: sound_def fail_with_def)

lemma sound_demand [sound_rules]: "sound parse c (demand r)"
  by (simp add: demand_def sound_done sound_reject split: option.split)

lemma sound_unless_bad [sound_rules]: "sound parse c (unless_bad b)"
  by (simp add: unless_bad_def sound_done sound_reject)

lemma sound_get [sound_rules]: "sound parse c (get_wire f)"
  by (simp add: sound_def get_wire_def)

lemma sound_and_then [sound_rules]:
  assumes m: "sound parse c m" and f: "\<And>x. sound parse c (f x)"
  shows "sound parse c (and_then m f)"
  unfolding sound_def
proof (intro allI impI)
  fix w assume w: "wire_ok w"
  obtain r w' out where mw: "m w = (r, w', out)" by (metis prod.exhaust)
  show "case and_then m f w of
      (Inl e, w', out) \<Rightarrow> e = Crashed \<longrightarrow> c
    | (Inr x, w', out) \<Rightarrow> wire_ok w' \<and> replay parse (proto_of w) out = Some (proto_of w')"
  proof (cases r)
    case (Inl e)
    with m w mw show ?thesis by (force simp: sound_def and_then_def)
  next
    case (Inr x)
    with m w mw have ok: "wire_ok w'" and rep: "replay parse (proto_of w) out = Some (proto_of w')"
      by (force simp: sound_def)+
    obtain r2 w2 out2 where "f x w' = (r2, w2, out2)" by (metis prod.exhaust)
    with f [of x] ok rep mw Inr show ?thesis
      by (cases r2) (force simp: sound_def and_then_def replay_append)+
  qed
qed

lemma sound_each [sound_rules]: "(\<And>x. sound parse c (f x)) \<Longrightarrow> sound parse c (each f xs)"
  by (induction xs) (auto intro: sound_rules)

lemma sound_if [sound_rules]: "(b \<Longrightarrow> sound parse c m) \<Longrightarrow> (\<not> b \<Longrightarrow> sound parse c n) \<Longrightarrow> sound parse c (if b then m else n)"
  by simp

lemma sound_option [sound_rules]:
  "sound parse c m \<Longrightarrow> (\<And>x. sound parse c (f x)) \<Longrightarrow> sound parse c (case r of None \<Rightarrow> m | Some x \<Rightarrow> f x)"
  by (simp split: option.split)

lemma sound_pair [sound_rules]: "(\<And>x y. sound parse c (f x y)) \<Longrightarrow> sound parse c (case p of (x, y) \<Rightarrow> f x y)"
  by (simp split: prod.split)

lemma sound_put:
  "(\<And>w. wire_ok w \<Longrightarrow> wire_ok (f w)) \<Longrightarrow> (\<And>w. proto_of (f w) = proto_of w) \<Longrightarrow> sound parse c (put_wire f)"
  by (simp add: sound_def put_wire_def)

lemma sound_put_field [sound_rules]:
  "sound parse c (put_wire (\<lambda>w. w\<lparr>w_response_id := a w\<rparr>))" "sound parse c (put_wire (\<lambda>w. w\<lparr>w_counts := d w\<rparr>))"
  "sound parse c (put_wire (\<lambda>w. w\<lparr>w_terminal := e w\<rparr>))"
  "sound parse c (put_wire (\<lambda>w. w\<lparr>w_total_bytes := n w\<rparr>))"
  by (auto intro!: sound_put simp: wire_ok_def proto_of_def)

definition set_stop :: "string \<Rightarrow> unit act" where
  "set_stop s = and_then (demand (stop_reason s)) (\<lambda>r. put_wire (\<lambda>w. w\<lparr>w_reason := Some r\<rparr>))"

definition set_reason :: "string \<Rightarrow> unit act" where
  "set_reason r = put_wire (\<lambda>w. w\<lparr>w_reason := Some r\<rparr>)"

lemma sound_set_reason [sound_rules]:
  "r \<in> {''stop'', ''length'', ''toolUse''} \<Longrightarrow> sound parse c (set_reason r)"
  unfolding set_reason_def by (rule sound_put) (auto simp: wire_ok_def proto_of_def)

lemma stop_reason_in: "stop_reason s = Some r \<Longrightarrow> r \<in> {''stop'', ''length'', ''toolUse''}"
  by (auto simp: stop_reason_def split: if_splits)

lemma sound_set_stop [sound_rules]: "sound parse c (set_stop s)"
proof (cases "stop_reason s")
  case None
  then show ?thesis by (simp add: set_stop_def demand_def sound_def and_then_def fail_with_def)
next
  case (Some r)
  then have "set_stop s = set_reason r"
    by (simp add: set_stop_def set_reason_def demand_def fun_eq_iff and_then_def done_with_def put_wire_def)
  with stop_reason_in [OF Some] show ?thesis by (simp add: sound_set_reason)
qed

lemma sound_start [sound_rules]: "sound parse c wire_start"
  by (auto simp: sound_def wire_start_def proto_of_def wire_ok_def)

lemma sound_index [sound_rules]: "sound parse c (wire_index key)"
  by (simp add: sound_def wire_index_def demand_def done_with_def fail_with_def split: option.split)

lemma sound_block_at [sound_rules]: "sound parse c (block_at i)"
  by (simp add: sound_def block_at_def)

lemma sound_empty [sound_rules]: "sound parse c (wire_empty i)"
  unfolding wire_empty_def by (intro sound_rules)

lemma started_step:
  assumes "wire_ok w"
  obtains out where "wire_start w = (Inr (), w\<lparr>w_started := True\<rparr>, out)" "wire_ok (w\<lparr>w_started := True\<rparr>)"
    "replay parse (proto_of w) out = Some (proto_of (w\<lparr>w_started := True\<rparr>))"
proof (cases "w_started w")
  case True
  then have "w\<lparr>w_started := True\<rparr> = w" by simp
  with True assms that [of "[]"] show ?thesis by (simp add: wire_start_def)
next
  case False
  with assms that [of "[EvStart]"] show ?thesis by (auto simp: wire_start_def proto_of_def wire_ok_def)
qed

lemma open_block_sound:
  assumes "wire_ok w" and "w_started w" and "open_block key kind ident name w = (Inr i, w', out)"
  shows "wire_ok w' \<and> replay parse (proto_of w) out = Some (proto_of w')"
proof -
  from assms(3) have "length (w_blocks w) < 1024" by (auto simp: open_block_def split: if_splits)
  with assms show ?thesis
    by (auto simp: open_block_def wire_ok_def proto_of_def proto_block_of_def fresh_block_def less_Suc_eq
        split: if_splits pi_kind.splits)
qed

lemma open_block_result: "fst (open_block key kind ident name w) \<noteq> Inl Crashed"
  by (simp add: open_block_def)

lemma sound_block [sound_rules]: "sound parse c (wire_block key kind ident name)"
  unfolding sound_def
proof (intro allI impI)
  fix w assume w: "wire_ok w"
  let ?w = "w\<lparr>w_started := True\<rparr>"
  obtain out where s: "wire_start w = (Inr (), ?w, out)" "wire_ok ?w" "replay parse (proto_of w) out = Some (proto_of ?w)"
    using started_step [OF w] .
  obtain r w' out' where o: "open_block key kind ident name ?w = (r, w', out')" by (metis prod.exhaust)
  with open_block_result [of key kind ident name ?w] have nc: "r \<noteq> Inl Crashed" by simp
  have keys: "i < length (w_blocks w)" if "w_keys w key = Some i" for i using w that by (auto simp: wire_ok_def)
  show "case wire_block key kind ident name w of
      (Inl e, w', out) \<Rightarrow> e = Crashed \<longrightarrow> c
    | (Inr x, w', out) \<Rightarrow> wire_ok w' \<and> replay parse (proto_of w) out = Some (proto_of w')"
    using s o nc keys open_block_sound [OF s(2) _, of key kind ident name]
    by (cases "w_keys w key"; cases r) (auto simp: wire_block_def and_then_def replay_append)
qed

lemma proto_of_update:
  "proto_of (w\<lparr>w_blocks := (w_blocks w)[i := b]\<rparr>) =
     (proto_of w)\<lparr>pr_blocks := (pr_blocks (proto_of w))[i := proto_block_of b]\<rparr>"
  by (simp add: proto_of_def map_update)

lemma wire_ok_update:
  "wire_ok w \<Longrightarrow> length (bl_text b) \<le> mebibytes 4 \<Longrightarrow> wire_ok (w\<lparr>w_blocks := (w_blocks w)[i := b]\<rparr>)"
  by (auto simp: wire_ok_def dest!: subsetD [OF set_update_subset_insert])

lemma set_block_same: "proto_block_of b' = proto_block_of b \<Longrightarrow> i < length (w_blocks w) \<Longrightarrow> w_blocks w ! i = b \<Longrightarrow>
    proto_of (w\<lparr>w_blocks := (w_blocks w)[i := b']\<rparr>) = proto_of w"
  by (auto simp: proto_of_def map_update list_update_same_conv)

text \<open>What is done with a block that is there: an update that the protocol does not see, or an event for it.\<close>

lemma sound_on_block:
  assumes "\<And>w. wire_ok w \<Longrightarrow> i < length (w_blocks w) \<Longrightarrow>
     (case f (w_blocks w ! i) w of
        (Inl e, w', out) \<Rightarrow> e = Crashed \<longrightarrow> c
      | (Inr x, w', out) \<Rightarrow> wire_ok w' \<and> replay parse (proto_of w) out = Some (proto_of w'))"
  shows "sound parse c (and_then (block_at i) f)"
  using assms by (auto simp: sound_def and_then_def block_at_def split: prod.splits sum.splits)

lemma sound_set_block_text:
  assumes "\<And>b. proto_block_of (f b) = proto_block_of b" and "\<And>b. bl_text (f b) = bl_text b"
  shows "sound parse c (and_then (block_at i) (\<lambda>b. set_block i (f b)))"
  by (rule sound_on_block) (auto simp: set_block_def put_wire_def set_block_same assms intro!: wire_ok_update, auto simp: wire_ok_def)

lemma sound_redacted [sound_rules]: "sound parse c (wire_redacted i)"
  unfolding wire_redacted_def by (rule sound_set_block_text) (simp_all add: proto_block_of_def)

lemma block_text_bound: "wire_ok w \<Longrightarrow> i < length (w_blocks w) \<Longrightarrow> length (bl_text (w_blocks w ! i)) \<le> mebibytes 4"
  by (auto simp: wire_ok_def)

lemma block_started: "wire_ok w \<Longrightarrow> i < length (w_blocks w) \<Longrightarrow> w_started w"
  by (auto simp: wire_ok_def)

lemma sound_append_text:
  "sound parse c (and_then (block_at i) (\<lambda>b.
     and_then (unless_bad (bl_ended b \<or> mebibytes 4 < length (bl_text b) + length d)) (\<lambda>_.
     and_then (set_block i (b\<lparr>bl_text := bl_text b @ d\<rparr>)) (\<lambda>_.
     append_event (EvDelta (bl_kind b) i d)))))"
proof (rule sound_on_block)
  fix w assume w: "wire_ok w" "i < length (w_blocks w)"
  let ?b = "w_blocks w ! i"
  let ?b' = "?b\<lparr>bl_text := bl_text ?b @ d\<rparr>"
  have "proto_block_of ?b' = (proto_block_of ?b)\<lparr>pb_text := pb_text (proto_block_of ?b) @ d\<rparr>"
    by (simp add: proto_block_of_def)
  then show "case and_then (unless_bad (bl_ended ?b \<or> mebibytes 4 < length (bl_text ?b) + length d)) (\<lambda>_.
        and_then (set_block i ?b') (\<lambda>_. append_event (EvDelta (bl_kind ?b) i d))) w of
      (Inl e, w', out) \<Rightarrow> e = Crashed \<longrightarrow> c
    | (Inr x, w', out) \<Rightarrow> wire_ok w' \<and> replay parse (proto_of w) out = Some (proto_of w')"
    using w block_started [OF w] wire_ok_update [OF w(1), of ?b' i]
    by (simp add: and_then_def unless_bad_def done_with_def fail_with_def set_block_def put_wire_def append_event_def proto_of_update)
      (simp add: proto_of_def proto_block_of_def)
qed

lemma sound_delta [sound_rules]: "sound parse c (wire_delta i d)"
  unfolding wire_delta_def by (intro sound_rules sound_append_text)

lemma sound_set_signature:
  "sound parse c (and_then (block_at i) (\<lambda>b.
     if a then and_then (demand s) (\<lambda>new. and_then (unless_bad (q b new)) (\<lambda>_. set_block i (b\<lparr>bl_signature := x b new\<rparr>)))
     else set_block i (b\<lparr>bl_signature := y b\<rparr>)))"
proof (rule sound_on_block)
  fix w assume w: "wire_ok w" "i < length (w_blocks w)"
  let ?b = "w_blocks w ! i"
  have "wire_ok (w\<lparr>w_blocks := (w_blocks w)[i := ?b\<lparr>bl_signature := v\<rparr>]\<rparr>) \<and>
      proto_of (w\<lparr>w_blocks := (w_blocks w)[i := ?b\<lparr>bl_signature := v\<rparr>]\<rparr>) = proto_of w" for v
    using w block_text_bound [OF w] by (intro conjI wire_ok_update set_block_same) (simp_all add: proto_block_of_def)
  then show "case (if a then and_then (demand s) (\<lambda>new. and_then (unless_bad (q ?b new)) (\<lambda>_. set_block i (?b\<lparr>bl_signature := x ?b new\<rparr>)))
        else set_block i (?b\<lparr>bl_signature := y ?b\<rparr>)) w of
      (Inl e, w', out) \<Rightarrow> e = Crashed \<longrightarrow> c
    | (Inr x, w', out) \<Rightarrow> wire_ok w' \<and> replay parse (proto_of w) out = Some (proto_of w')"
    by (cases s) (auto simp: and_then_def demand_def unless_bad_def done_with_def fail_with_def set_block_def put_wire_def)
qed

lemma sound_signature [sound_rules]: "sound parse c (wire_signature render i v a)"
  unfolding wire_signature_def Let_def by (intro sound_rules sound_set_signature)

lemma end_event_step:
  assumes "w_started w" and "i < length (w_blocks w)" and "\<not> bl_ended (w_blocks w ! i)"
    and "end_event parse i (w_blocks w ! i) sig = Some ev"
  shows "proto_event parse (proto_of w) ev =
    Some (proto_of (w\<lparr>w_blocks := (w_blocks w)[i := (w_blocks w ! i)\<lparr>bl_ended := True\<rparr>]\<rparr>))"
proof -
  have "proto_block_of (b\<lparr>bl_ended := True\<rparr>) = (proto_block_of b)\<lparr>pb_ended := True\<rparr>" for b
    by (simp add: proto_block_of_def)
  with assms show ?thesis
    unfolding proto_of_update
    by (auto simp: end_event_def end_proto_def proto_of_def split: pi_kind.splits option.splits if_splits)
      (simp_all add: proto_block_of_def)
qed

lemma sound_end [sound_rules]: "sound parse c (wire_end parse render i)"
  unfolding wire_end_def
proof (rule sound_on_block)
  fix w assume w: "wire_ok w" "i < length (w_blocks w)"
  let ?b = "w_blocks w ! i"
  let ?w = "w\<lparr>w_blocks := (w_blocks w)[i := ?b\<lparr>bl_ended := True\<rparr>]\<rparr>"
  let ?sig = "map_option (\<lambda>s. seal_signature render s (w_provider w) (w_model w) (w_api w)) (bl_signature ?b)"
  have "wire_ok ?w" using wire_ok_update [OF w(1), of "?b\<lparr>bl_ended := True\<rparr>" i] block_text_bound [OF w] by simp
  then show "case (if bl_ended ?b then done_with ()
      else and_then (set_block i (?b\<lparr>bl_ended := True\<rparr>)) (\<lambda>_.
        and_then (get_wire (\<lambda>w. map_option (\<lambda>s. seal_signature render s (w_provider w) (w_model w) (w_api w))
          (bl_signature ?b))) (\<lambda>signature.
        and_then (demand (end_event parse i ?b signature)) (\<lambda>ev. append_event ev)))) w of
      (Inl e, w', out) \<Rightarrow> e = Crashed \<longrightarrow> c
    | (Inr x, w', out) \<Rightarrow> wire_ok w' \<and> replay parse (proto_of w) out = Some (proto_of w')"
    using w end_event_step [OF block_started [OF w] w(2), of parse ?sig]
    by (cases "end_event parse i ?b ?sig")
      (auto simp: and_then_def set_block_def put_wire_def get_wire_def demand_def done_with_def fail_with_def append_event_def,
       simp add: proto_of_def)
qed

subsection \<open>A stream that is done\<close>

lemma wire_end_effect:
  assumes "wire_end parse render i w = (Inr (), w', out)"
  shows "i < length (w_blocks w) \<and>
    w' = w\<lparr>w_blocks := (w_blocks w)[i := (w_blocks w ! i)\<lparr>bl_ended := True\<rparr>]\<rparr>"
proof -
  have same: "b\<lparr>bl_ended := True\<rparr> = b" if "bl_ended b" for b :: pi_block using that by simp
  from assms show ?thesis
    by (auto simp: wire_end_def and_then_def block_at_def set_block_def put_wire_def get_wire_def demand_def
        done_with_def fail_with_def append_event_def same split: if_splits option.splits)
qed

lemma each_end_effect:
  "each (wire_end parse render) is w = (Inr (), w', out) \<Longrightarrow>
   \<exists>bs. w' = w\<lparr>w_blocks := bs\<rparr> \<and> length bs = length (w_blocks w) \<and>
     (\<forall>i < length bs. bs ! i = (if i \<in> set is then (w_blocks w ! i)\<lparr>bl_ended := True\<rparr> else w_blocks w ! i))"
proof (induction "is" arbitrary: w out)
  case Nil
  then show ?case by (auto simp: done_with_def intro!: exI [of _ "w_blocks w"])
next
  case (Cons i "is")
  from Cons.prems obtain w1 out1 out2 where
    e: "wire_end parse render i w = (Inr (), w1, out1)" "each (wire_end parse render) is w1 = (Inr (), w', out2)"
    by (auto simp: and_then_def split: prod.splits sum.splits)
  from wire_end_effect [OF e(1)] have w1: "i < length (w_blocks w)"
    "w_blocks w1 = (w_blocks w)[i := (w_blocks w ! i)\<lparr>bl_ended := True\<rparr>]" "w1\<lparr>w_blocks := bs\<rparr> = w\<lparr>w_blocks := bs\<rparr>" for bs
    by auto
  from Cons.IH [OF e(2)] obtain bs where bs: "w' = w1\<lparr>w_blocks := bs\<rparr>" "length bs = length (w_blocks w1)"
    "\<forall>j < length bs. bs ! j = (if j \<in> set is then (w_blocks w1 ! j)\<lparr>bl_ended := True\<rparr> else w_blocks w1 ! j)"
    by blast
  then show ?case using w1 by (intro exI [of _ bs]) (auto simp: nth_list_update)
qed

lemma finish_effect:
  assumes "wire_ok w" and "wire_finish parse render pricing w = (Inr (), w', out)"
  obtains p r u where "replay parse (proto_of w) out = Some p" "pr_closed p" "w_terminal w" "w_reason w = Some r"
    "wire_usage pricing w = Some u" "wire_usage pricing w' = Some u" "w_includes_cache w' = w_includes_cache w"
    "out \<noteq> []" "last out = EvDone r u (w_response_id w)"
proof -
  obtain out1 where s: "wire_start w = (Inr (), w\<lparr>w_started := True\<rparr>, out1)" "wire_ok (w\<lparr>w_started := True\<rparr>)"
    "replay parse (proto_of w) out1 = Some (proto_of (w\<lparr>w_started := True\<rparr>))"
    using started_step [OF assms(1)] .
  let ?w = "w\<lparr>w_started := True\<rparr>"
  from assms(2) s obtain r u out2 where
    f: "w_terminal w" "w_reason w = Some r" "r \<noteq> ''error''" "(r = ''toolUse'') = has_tools w"
    "each (wire_end parse render) [0..<length (w_blocks w)] ?w = (Inr (), w', out2)"
    "wire_usage pricing w' = Some u" "out = out1 @ out2 @ [EvDone r u (w_response_id w')]"
    by (auto simp: wire_finish_def and_then_def get_wire_def demand_def unless_bad_def done_with_def fail_with_def
        append_event_def split: if_splits option.splits prod.splits sum.splits)
  from each_end_effect [OF f(5)] obtain bs where bs: "w' = ?w\<lparr>w_blocks := bs\<rparr>" "length bs = length (w_blocks w)"
    "\<forall>i < length bs. bs ! i = (w_blocks w ! i)\<lparr>bl_ended := True\<rparr>"
    by auto
  have "sound parse False (each (wire_end parse render) [0..<length (w_blocks w)])" by (intro sound_rules)
  with s(2) f(5) have ok: "wire_ok w'" and rep: "replay parse (proto_of ?w) out2 = Some (proto_of w')"
    by (force simp: sound_def)+
  have ended: "list_all pb_ended (pr_blocks (proto_of w'))"
    using bs by (auto simp: list_all_length proto_of_def proto_block_of_def)
  have "map bl_kind bs = map bl_kind (w_blocks w)" using bs(2,3) by (intro nth_equalityI) auto
  then have "ToolBlock \<in> set (map bl_kind bs) \<longleftrightarrow> ToolBlock \<in> set (map bl_kind (w_blocks w))" by simp
  moreover have "(\<exists>b \<in> set xs. bl_kind b = ToolBlock) \<longleftrightarrow> ToolBlock \<in> set (map bl_kind xs)" for xs :: "pi_block list"
    by force
  ultimately have "(\<exists>b \<in> set bs. bl_kind b = ToolBlock) \<longleftrightarrow> (\<exists>b \<in> set (w_blocks w). bl_kind b = ToolBlock)" by blast
  then have tools: "list_ex (\<lambda>b. pb_kind b = ToolBlock) (pr_blocks (proto_of w')) = has_tools w"
    by (simp add: has_tools_def proto_of_def bs(1) list_ex_iff proto_block_of_def)
  have r: "r \<in> {''stop'', ''length'', ''toolUse''}" using assms(1) f(2) by (auto simp: wire_ok_def)
  have same: "wire_usage pricing w' = wire_usage pricing w" "w_response_id w' = w_response_id w"
    "w_includes_cache w' = w_includes_cache w" by (simp_all add: bs(1) wire_usage_def)
  have "replay parse (proto_of w') [EvDone r u (w_response_id w')] = Some ((proto_of w')\<lparr>pr_closed := True\<rparr>)"
    using ended tools r f(4) by (simp add: bs(1)) (simp add: proto_of_def)
  then have "replay parse (proto_of w) out = Some ((proto_of w')\<lparr>pr_closed := True\<rparr>)"
    using s(3) rep by (simp add: f(7) replay_append)
  with that [of _ r u] f same show thesis by simp
qed

text \<open>Operations that keep the wire in order, whatever they append_event.\<close>

definition steady :: "'a act \<Rightarrow> bool" where
  "steady m \<longleftrightarrow>
     (\<forall>w. wire_ok w \<longrightarrow> (case m w of (Inl e, w', out) \<Rightarrow> e \<noteq> Crashed | (Inr x, w', out) \<Rightarrow> wire_ok w'))"

lemma steady_sound: "sound parse False m \<Longrightarrow> steady m"
  unfolding sound_def steady_def by (fastforce split: prod.splits sum.splits)

lemma steady_append: "steady (append_event ev)"
  by (simp add: steady_def append_event_def)

lemma steady_and_then: "steady m \<Longrightarrow> (\<And>x. steady (f x)) \<Longrightarrow> steady (and_then m f)"
  unfolding steady_def and_then_def by (fastforce split: prod.splits sum.splits)

lemma steady_if: "(b \<Longrightarrow> steady m) \<Longrightarrow> (\<not> b \<Longrightarrow> steady n) \<Longrightarrow> steady (if b then m else n)"
  by simp

lemma steady_pair: "(\<And>x y. steady (f x y)) \<Longrightarrow> steady (case p of (x, y) \<Rightarrow> f x y)"
  by (simp split: prod.split)

lemma steady_basics:
  "steady reject" "steady (done_with x)" "steady (demand r)" "steady (unless_bad b)" "steady (get_wire g)" "steady wire_start"
  "steady (each (wire_end parse render) xs)"
  by (rule steady_sound [where parse = parse], intro sound_rules)+

lemma steady_finish: "steady (wire_finish parse render pricing)"
  unfolding wire_finish_def by (intro steady_and_then steady_if steady_pair steady_append steady_basics)

end
