(* ===== verification/Pi_Native.thy ===== *)
theory Pi_Native
  imports Pi_Wire
begin

section \<open>Native streams of the providers\<close>

text \<open>
  src/pi_messages/native.rs and its four parsers: chat completions, Anthropic messages, Google
  generate-content and OpenAI responses. Each reads one event of the provider, or a complete answer,
  and runs operations of the wire. All of them keep to the protocol, whatever the provider sends.
\<close>

definition non_null :: "json \<Rightarrow> string \<Rightarrow> json option" where
  "non_null v k = Option.bind (jget v k) (\<lambda>x. if x = JNull then None else Some x)"

definition str_or :: "string \<Rightarrow> json \<Rightarrow> string" where
  "str_or dflt v = (case as_str v of Some s \<Rightarrow> s | None \<Rightarrow> dflt)"

definition nonempty_str :: "json \<Rightarrow> string option" where
  "nonempty_str v = Option.bind (as_str v) (\<lambda>s. if s = [] then None else Some s)"

definition set_counts :: "u32 \<Rightarrow> u32 \<Rightarrow> u32 \<Rightarrow> u32 \<Rightarrow> unit act" where
  "set_counts i out r w =
     put_wire (\<lambda>x. x\<lparr>w_counts := Some \<lparr>pc_input = i, pc_output = out, pc_read = r, pc_write = w\<rparr>\<rparr>)"

definition set_response_id :: "string option \<Rightarrow> unit act" where
  "set_response_id r = put_wire (\<lambda>x. x\<lparr>w_response_id := r\<rparr>)"

definition set_terminal :: "unit act" where
  "set_terminal = put_wire (\<lambda>x. x\<lparr>w_terminal := True\<rparr>)"

definition skip :: "unit act" where "skip = done_with ()"

lemma sound_setters [sound_rules]:
  "sound parse c (set_counts i out r w)" "sound parse c (set_response_id s)" "sound parse c set_terminal" "sound parse c skip"
  unfolding set_counts_def set_response_id_def set_terminal_def skip_def by (intro sound_rules)+

text \<open>An optional step, as \<open>if let Some(x) = ...\<close>.\<close>

definition when_some :: "'a option \<Rightarrow> ('a \<Rightarrow> unit act) \<Rightarrow> unit act" where
  "when_some r f = (case r of Some x \<Rightarrow> f x | None \<Rightarrow> skip)"

lemma sound_when_some [sound_rules]: "(\<And>x. sound parse c (f x)) \<Longrightarrow> sound parse c (when_some r f)"
  unfolding when_some_def by (intro sound_rules)

subsection \<open>Chat completions\<close>

definition chat_usage :: "json \<Rightarrow> unit act" where
  "chat_usage u =
     and_then (demand (wire_count (jat u ''prompt_tokens''))) (\<lambda>i.
     and_then (demand (wire_count (jat u ''completion_tokens''))) (\<lambda>out.
     and_then (demand (optional_count (jat (jat u ''prompt_tokens_details'') ''cached_tokens''))) (\<lambda>r.
     set_counts i out r 0)))"

definition chat_fields :: "(string \<times> string \<times> pi_kind) list" where
  "chat_fields =
     [(''reasoning_content'', ''c:thinking'', ThinkingBlock), (''reasoning'', ''c:thinking'', ThinkingBlock),
      (''content'', ''c:text'', TextBlock)]"

definition chat_field :: "json \<Rightarrow> string \<times> string \<times> pi_kind \<Rightarrow> unit act" where
  "chat_field v f =
     (case f of (field, key, kind) \<Rightarrow>
        when_some (non_null v field) (\<lambda>text.
          and_then (wire_block key kind [] []) (\<lambda>index.
          and_then (demand (as_str text)) (\<lambda>s. wire_delta index s))))"

definition chat_call :: "json \<Rightarrow> unit act" where
  "chat_call call =
     and_then (demand (wire_count (jat call ''index''))) (\<lambda>n.
     let key = ''c:tool:'' @ dec (unat n); function = jat call ''function''
     in and_then (get_wire (\<lambda>w. w_keys w key)) (\<lambda>known.
        and_then (case known of
                    Some i \<Rightarrow> done_with i
                  | None \<Rightarrow>
                      and_then (demand (as_str (jat call ''id''))) (\<lambda>ident.
                      and_then (demand (as_str (jat function ''name''))) (\<lambda>name.
                      wire_block key ToolBlock ident name))) (\<lambda>i.
        when_some (as_str (jat function ''arguments'')) (wire_delta i))))"

definition chat_delta :: "json \<Rightarrow> unit act" where
  "chat_delta v =
     and_then (unless_bad (non_null v ''refusal'' \<noteq> None \<or> non_null v ''reasoning_details'' \<noteq> None)) (\<lambda>_.
     and_then (each (chat_field v) chat_fields) (\<lambda>_.
     when_some (non_null v ''tool_calls'') (\<lambda>calls.
       and_then (demand (as_array calls)) (each chat_call))))"

definition chat_choice :: "json \<Rightarrow> unit act" where
  "chat_choice choice =
     and_then (unless_bad (case as_u64 (jat choice ''index'') of Some n \<Rightarrow> n \<noteq> 0 | None \<Rightarrow> False)) (\<lambda>_.
     and_then (chat_delta (jat choice ''delta'')) (\<lambda>_.
     when_some (as_str (jat choice ''finish_reason'')) set_stop))"

definition chat_parse :: "json \<Rightarrow> unit act" where
  "chat_parse v =
     and_then (unless_bad (jget v ''error'' \<noteq> None)) (\<lambda>_.
     and_then wire_start (\<lambda>_.
     and_then (when_some (as_str (jat v ''id'')) (\<lambda>i. set_response_id (Some i))) (\<lambda>_.
     and_then (demand (as_array (jat v ''choices''))) (\<lambda>choices.
     and_then (unless_bad (1 < length choices)) (\<lambda>_.
     and_then (each chat_choice choices) (\<lambda>_.
     when_some (non_null v ''usage'') chat_usage))))))"

text \<open>The calls of a complete answer get their positions; assigning one to a call that is no object panics.\<close>

definition number_calls :: "json \<Rightarrow> json option" where
  "number_calls message =
     (case Option.bind (jget message ''tool_calls'') as_array of
        None \<Rightarrow> Some message
      | Some calls \<Rightarrow>
          map_option (\<lambda>cs. set_field message ''tool_calls'' (JArr cs))
            (those (map (\<lambda>(i, call). index_set call ''index'' (of_nat_json i)) (enumerate 0 calls))))"

definition chat_complete :: "json \<Rightarrow> unit act" where
  "chat_complete v =
     and_then (demand (as_array (jat v ''choices''))) (\<lambda>choices.
     case choices of
       [choice] \<Rightarrow>
         (case number_calls (jat choice ''message'') of
            None \<Rightarrow> fail_with Crashed
          | Some message \<Rightarrow>
              chat_parse (obj [(''id'', jat v ''id''),
                (''choices'', JArr [obj [(''index'', JNum (PosInt 0)), (''delta'', message),
                                         (''finish_reason'', jat choice ''finish_reason'')]]),
                (''usage'', jat v ''usage'')]))
     | _ \<Rightarrow> reject)"

lemmas chat_defs = chat_usage_def chat_field_def chat_call_def chat_delta_def chat_choice_def Let_def

lemma sound_chat_parse [sound_rules]: "sound parse c (chat_parse v)"
  unfolding chat_parse_def chat_defs by (intro sound_rules)

lemma sound_chat_complete: "sound parse True (chat_complete v)"
proof -
  have "sound parse True (fail_with Crashed :: unit act)" by (simp add: sound_def fail_with_def)
  then show ?thesis
    unfolding chat_complete_def by (intro sound_rules) (auto split: list.split option.split intro: sound_rules)
qed

subsection \<open>Anthropic messages\<close>

definition slot_count :: "json \<Rightarrow> string \<Rightarrow> u32 \<Rightarrow> u32 act" where
  "slot_count v k old = (case jget v k of None \<Rightarrow> done_with old | Some x \<Rightarrow> demand (wire_count x))"

definition anthropic_usage :: "json \<Rightarrow> unit act" where
  "anthropic_usage v =
     and_then (get_wire (\<lambda>w. case w_counts w of
        Some c \<Rightarrow> c | None \<Rightarrow> \<lparr>pc_input = 0, pc_output = 0, pc_read = 0, pc_write = 0\<rparr>)) (\<lambda>c.
     and_then (slot_count v ''input_tokens'' (pc_input c)) (\<lambda>i.
     and_then (slot_count v ''output_tokens'' (pc_output c)) (\<lambda>out.
     and_then (slot_count v ''cache_read_input_tokens'' (pc_read c)) (\<lambda>r.
     and_then (slot_count v ''cache_creation_input_tokens'' (pc_write c)) (\<lambda>w.
     set_counts i out r w)))))"

definition block_kind :: "string \<Rightarrow> pi_kind option" where
  "block_kind t =
     (if t = ''text'' then Some TextBlock
      else if t = ''thinking'' \<or> t = ''redacted_thinking'' then Some ThinkingBlock
      else if t = ''tool_use'' then Some ToolBlock else None)"

definition anthropic_key :: "nat \<Rightarrow> string" where
  "anthropic_key index = ''a:'' @ dec index"

definition anthropic_name :: "bool \<Rightarrow> json \<Rightarrow> string" where
  "anthropic_name oauth_tools block =
     (let name = str_or [] (jat block ''name'')
      in if oauth_tools then (case strip_prefix ''mcp_'' name of Some n \<Rightarrow> n | None \<Rightarrow> name) else name)"

definition is_nonempty_object :: "json \<Rightarrow> bool" where
  "is_nonempty_object v = (case as_object v of Some m \<Rightarrow> m \<noteq> [] | None \<Rightarrow> False)"

definition start_block :: "(json \<Rightarrow> string) \<Rightarrow> nat \<Rightarrow> json \<Rightarrow> unit act" where
  "start_block render index block =
     and_then (demand (as_str (jat block ''type''))) (\<lambda>ty.
     and_then (demand (block_kind ty)) (\<lambda>kind.
     and_then (get_wire w_oauth_tools) (\<lambda>oauth.
     and_then (wire_block (anthropic_key index) kind (str_or [] (jat block ''id'')) (anthropic_name oauth block)) (\<lambda>i.
     if ty = ''text'' then when_some (nonempty_str (jat block ''text'')) (wire_delta i)
     else if ty = ''thinking''
     then and_then (when_some (nonempty_str (jat block ''thinking'')) (wire_delta i)) (\<lambda>_.
          when_some (jget block ''signature'') (\<lambda>s. wire_signature render i s False))
     else if ty = ''redacted_thinking''
     then and_then (wire_redacted i) (\<lambda>_.
          and_then (wire_delta i ''[Reasoning redacted]'') (\<lambda>_.
          and_then (demand (Option.bind (jget block ''data'') (\<lambda>d. map_option JStr (as_str d)))) (\<lambda>d.
          wire_signature render i d False)))
     else if is_nonempty_object (jat block ''input'') then wire_delta i (render (jat block ''input''))
     else skip))))"

definition indexed :: "json \<Rightarrow> nat act" where
  "indexed v =
     and_then (demand (wire_count (jat v ''index''))) (\<lambda>n. wire_index (anthropic_key (unat n)))"

definition is_number :: "json \<Rightarrow> bool" where
  "is_number v = (case v of JNum n \<Rightarrow> True | _ \<Rightarrow> False)"

definition anthropic_delta :: "(json \<Rightarrow> string) \<Rightarrow> json \<Rightarrow> unit act" where
  "anthropic_delta render v =
     and_then (indexed v) (\<lambda>i.
     let delta = jat v ''delta''
     in and_then (demand (as_str (jat delta ''type''))) (\<lambda>ty.
        if ty = ''text_delta'' then and_then (demand (as_str (jat delta ''text''))) (wire_delta i)
        else if ty = ''thinking_delta'' then and_then (demand (as_str (jat delta ''thinking''))) (wire_delta i)
        else if ty = ''input_json_delta'' then and_then (demand (as_str (jat delta ''partial_json''))) (wire_delta i)
        else if ty = ''signature_delta'' then wire_signature render i (jat delta ''signature'') True
        else reject))"

definition anthropic_parse ::
    "(string \<Rightarrow> json option) \<Rightarrow> (json \<Rightarrow> string) \<Rightarrow> string \<Rightarrow> json \<Rightarrow> unit act" where
  "anthropic_parse parse render kind v =
     (if kind = ''message_start''
      then and_then wire_start (\<lambda>_.
           and_then (set_response_id (as_str (jat (jat v ''message'') ''id''))) (\<lambda>_.
           let raw = jat (jat v ''message'') ''usage''
           in and_then (unless_bad (\<not> is_number (jat raw ''input_tokens'') \<or> \<not> is_number (jat raw ''output_tokens''))) (\<lambda>_.
              anthropic_usage raw)))
      else if kind = ''content_block_start''
      then and_then (demand (wire_count (jat v ''index''))) (\<lambda>n.
           start_block render (unat n) (jat v ''content_block''))
      else if kind = ''content_block_delta'' then anthropic_delta render v
      else if kind = ''content_block_stop'' then and_then (indexed v) (wire_end parse render)
      else if kind = ''message_delta''
      then and_then (when_some (jget v ''usage'') anthropic_usage) (\<lambda>_.
           when_some (as_str (jat (jat v ''delta'') ''stop_reason'')) set_stop)
      else if kind = ''message_stop'' then set_terminal
      else if kind = ''ping'' then skip
      else reject)"

definition anthropic_block ::
    "(string \<Rightarrow> json option) \<Rightarrow> (json \<Rightarrow> string) \<Rightarrow> nat \<times> json \<Rightarrow> unit act" where
  "anthropic_block parse render ib =
     (case ib of (index, block) \<Rightarrow>
        and_then (start_block render index block) (\<lambda>_.
        and_then (if jat block ''type'' = JStr ''tool_use'' \<and> jat block ''input'' = JObj []
                  then and_then (wire_index (anthropic_key index)) (\<lambda>i. wire_delta i ''{}'') else skip) (\<lambda>_.
        and_then (wire_index (anthropic_key index)) (wire_end parse render))))"

definition anthropic_complete ::
    "(string \<Rightarrow> json option) \<Rightarrow> (json \<Rightarrow> string) \<Rightarrow> json \<Rightarrow> unit act" where
  "anthropic_complete parse render v =
     and_then wire_start (\<lambda>_.
     and_then (set_response_id (as_str (jat v ''id''))) (\<lambda>_.
     let raw = jat v ''usage''
     in and_then (demand (wire_count (jat raw ''input_tokens''))) (\<lambda>i.
        and_then (demand (wire_count (jat raw ''output_tokens''))) (\<lambda>out.
        and_then (demand (optional_count (jat raw ''cache_read_input_tokens''))) (\<lambda>r.
        and_then (demand (optional_count (jat raw ''cache_creation_input_tokens''))) (\<lambda>w.
        and_then (set_counts i out r w) (\<lambda>_.
        and_then (demand (as_array (jat v ''content''))) (\<lambda>blocks.
        and_then (each (anthropic_block parse render) (enumerate 0 blocks)) (\<lambda>_.
        and_then (demand (as_str (jat v ''stop_reason''))) set_stop)))))))))"

lemma sound_slot_count [sound_rules]: "sound parse c (slot_count v k old)"
  unfolding slot_count_def by (intro sound_rules)

lemma sound_anthropic_usage [sound_rules]: "sound parse c (anthropic_usage v)"
  unfolding anthropic_usage_def by (intro sound_rules)

lemma sound_start_block [sound_rules]: "sound parse c (start_block render index block)"
  unfolding start_block_def by (intro sound_rules)

lemma sound_indexed [sound_rules]: "sound parse c (indexed v)"
  unfolding indexed_def by (intro sound_rules)

lemma sound_anthropic_parse [sound_rules]: "sound parse c (anthropic_parse parse render kind v)"
  unfolding anthropic_parse_def anthropic_delta_def Let_def by (intro sound_rules)

lemma sound_anthropic_complete [sound_rules]: "sound parse c (anthropic_complete parse render v)"
  unfolding anthropic_complete_def anthropic_block_def Let_def by (intro sound_rules)

subsection \<open>Google generate-content\<close>

definition thought_signature :: "(json \<Rightarrow> string) \<Rightarrow> nat \<Rightarrow> json \<Rightarrow> unit act" where
  "thought_signature render index part =
     when_some (jget part ''thoughtSignature'') (\<lambda>s. wire_signature render index s False)"

definition google_call :: "(json \<Rightarrow> string) \<Rightarrow> json \<Rightarrow> json \<Rightarrow> unit act" where
  "google_call render part call =
     and_then (demand (as_str (jat call ''name''))) (\<lambda>name.
     and_then (get_wire (\<lambda>w. (length (w_blocks w), w_request_id w))) (\<lambda>(n, request).
     and_then (wire_block (''g:call:'' @ dec n) ToolBlock
                 (str_or (request @ ''-call-'' @ dec n) (jat call ''id'')) name) (\<lambda>index.
     and_then (unless_bad (\<not> is_object (jat call ''args''))) (\<lambda>_.
     and_then (wire_delta index (render (jat call ''args''))) (\<lambda>_.
     thought_signature render index part)))))"

definition google_text :: "(json \<Rightarrow> string) \<Rightarrow> json \<Rightarrow> string \<Rightarrow> unit act" where
  "google_text render part text =
     (let kind = (if jat part ''thought'' = JBool True then ThinkingBlock else TextBlock)
      in and_then (get_wire (\<lambda>w. (last_block kind w, length (w_blocks w)))) (\<lambda>(current, n).
         and_then (case current of Some i \<Rightarrow> done_with i | None \<Rightarrow> wire_block (''g:part:'' @ dec n) kind [] []) (\<lambda>index.
         and_then (wire_delta index text) (\<lambda>_.
         thought_signature render index part))))"

definition google_part :: "(json \<Rightarrow> string) \<Rightarrow> json \<Rightarrow> unit act" where
  "google_part render part =
     (case jget part ''functionCall'' of
        Some call \<Rightarrow> google_call render part call
      | None \<Rightarrow>
          (case as_str (jat part ''text'') of
             Some text \<Rightarrow> google_text render part text
           | None \<Rightarrow>
               (case jget part ''thoughtSignature'' of
                  Some signature \<Rightarrow>
                    and_then (get_wire (\<lambda>w. length (w_blocks w))) (\<lambda>n.
                    and_then (unless_bad (n = 0)) (\<lambda>_.
                    wire_signature render (n - 1) signature False))
                | None \<Rightarrow> reject)))"

definition google_candidate :: "(json \<Rightarrow> string) \<Rightarrow> json \<Rightarrow> unit act" where
  "google_candidate render candidate =
     and_then (when_some (as_array (jat (jat candidate ''content'') ''parts'')) (each (google_part render))) (\<lambda>_.
     when_some (as_str (jat candidate ''finishReason'')) (\<lambda>stop.
       and_then (get_wire has_tools) (\<lambda>tools.
       and_then (if tools then set_reason ''toolUse'' else set_stop stop) (\<lambda>_.
       set_terminal))))"

definition google_usage :: "json \<Rightarrow> unit act" where
  "google_usage raw =
     and_then (demand (wire_count (jat raw ''promptTokenCount''))) (\<lambda>i.
     and_then (demand (optional_count (jat raw ''candidatesTokenCount''))) (\<lambda>a.
     and_then (demand (optional_count (jat raw ''thoughtsTokenCount''))) (\<lambda>b.
     and_then (demand (checked_add a b)) (\<lambda>out.
     and_then (demand (optional_count (jat raw ''cachedContentTokenCount''))) (\<lambda>r.
     set_counts i out r 0)))))"

definition google_parse :: "(json \<Rightarrow> string) \<Rightarrow> json \<Rightarrow> unit act" where
  "google_parse render v =
     and_then (unless_bad (jget v ''error'' \<noteq> None)) (\<lambda>_.
     and_then wire_start (\<lambda>_.
     and_then (when_some (as_str (jat v ''responseId'')) (\<lambda>i. set_response_id (Some i))) (\<lambda>_.
     and_then (when_some (jget v ''candidates'') (\<lambda>c.
                 and_then (demand (as_array c)) (\<lambda>cs.
                 and_then (unless_bad (1 < length cs)) (\<lambda>_.
                 each (google_candidate render) cs)))) (\<lambda>_.
     when_some (jget v ''usageMetadata'') google_usage))))"

lemma sound_thought_signature [sound_rules]: "sound parse c (thought_signature render i part)"
  unfolding thought_signature_def by (intro sound_rules)

lemma sound_tool_use [sound_rules]: "sound parse c (set_reason ''toolUse'')"
  by (rule sound_set_reason) simp

lemma sound_google_part [sound_rules]: "sound parse c (google_part render part)"
  unfolding google_part_def google_call_def google_text_def Let_def by (intro sound_rules)

lemma sound_google_parse [sound_rules]: "sound parse c (google_parse render v)"
  unfolding google_parse_def google_candidate_def google_usage_def by (intro sound_rules)

subsection \<open>OpenAI responses\<close>

definition resp_key :: "json \<Rightarrow> string \<Rightarrow> string" where
  "resp_key v kind =
     ''r:'' @ kind @ '':'' @ str_or [] (jat v ''item_id'') @ '':'' @
     dec (case as_u64 (jat v ''content_index'') of Some n \<Rightarrow> unat n | None \<Rightarrow> 0)"

definition if_empty :: "nat \<Rightarrow> unit act \<Rightarrow> unit act" where
  "if_empty index m = and_then (wire_empty index) (\<lambda>e. if e then m else skip)"

definition resp_reasoning :: "(json \<Rightarrow> string) \<Rightarrow> json \<Rightarrow> string \<Rightarrow> unit act" where
  "resp_reasoning render item ident =
     and_then (wire_block (''r:thinking:'' @ ident @ '':0'') ThinkingBlock [] []) (\<lambda>index.
     and_then (if_empty index
                 (each (\<lambda>part. when_some (as_str (jat part ''text'')) (wire_delta index))
                       (case as_array (jat item ''summary'') of Some ps \<Rightarrow> ps | None \<Rightarrow> []))) (\<lambda>_.
     when_some (non_null item ''encrypted_content'') (\<lambda>_. wire_signature render index item False)))"

definition resp_call :: "json \<Rightarrow> string \<Rightarrow> unit act" where
  "resp_call item ident =
     and_then (demand (as_str (jat item ''call_id''))) (\<lambda>call.
     and_then (demand (as_str (jat item ''name''))) (\<lambda>name.
     and_then (wire_block (''r:tool:'' @ ident @ '':0'') ToolBlock call name) (\<lambda>index.
     if_empty index (when_some (nonempty_str (jat item ''arguments'')) (wire_delta index)))))"

definition resp_part :: "(json \<Rightarrow> string) \<Rightarrow> json \<Rightarrow> string \<Rightarrow> nat \<times> json \<Rightarrow> unit act" where
  "resp_part render item ident ip =
     (case ip of (part_index, part) \<Rightarrow>
        and_then (unless_bad (jat part ''type'' \<noteq> JStr ''output_text'')) (\<lambda>_.
        and_then (wire_block (''r:text:'' @ ident @ '':'' @ dec part_index) TextBlock [] []) (\<lambda>index.
        and_then (if_empty index (when_some (as_str (jat part ''text'')) (wire_delta index))) (\<lambda>_.
        wire_signature render index (obj [(''id'', JStr ident), (''phase'', jat item ''phase'')]) False))))"

definition resp_message :: "(json \<Rightarrow> string) \<Rightarrow> json \<Rightarrow> string \<Rightarrow> unit act" where
  "resp_message render item ident =
     and_then (unless_bad (jat item ''role'' \<noteq> JStr ''assistant'')) (\<lambda>_.
     and_then (demand (as_array (jat item ''content''))) (\<lambda>parts.
     each (resp_part render item ident) (enumerate 0 parts)))"

definition resp_item :: "(json \<Rightarrow> string) \<Rightarrow> json \<Rightarrow> unit act" where
  "resp_item render item =
     and_then (demand (as_str (jat item ''id''))) (\<lambda>ident.
     and_then (demand (as_str (jat item ''type''))) (\<lambda>ty.
     if ty = ''reasoning'' then resp_reasoning render item ident
     else if ty = ''function_call'' then resp_call item ident
     else if ty = ''message'' then resp_message render item ident
     else reject))"

definition resp_stop :: "json \<Rightarrow> string \<Rightarrow> unit act" where
  "resp_stop response status =
     (if status = ''completed''
      then and_then (get_wire has_tools) (\<lambda>tools. set_reason (if tools then ''toolUse'' else ''stop''))
      else if status = ''incomplete'' \<and>
              jat (jat response ''incomplete_details'') ''reason'' = JStr ''max_output_tokens''
      then set_reason ''length'' else reject)"

definition resp_terminal :: "(json \<Rightarrow> string) \<Rightarrow> json \<Rightarrow> unit act" where
  "resp_terminal render response =
     and_then (when_some (as_array (jat response ''output'')) (each (resp_item render))) (\<lambda>_.
     and_then (set_response_id (as_str (jat response ''id''))) (\<lambda>_.
     let raw = jat response ''usage''
     in and_then (demand (wire_count (jat raw ''input_tokens''))) (\<lambda>i.
        and_then (demand (wire_count (jat raw ''output_tokens''))) (\<lambda>out.
        and_then (demand (optional_count (jat (jat raw ''input_tokens_details'') ''cached_tokens''))) (\<lambda>r.
        and_then (set_counts i out r 0) (\<lambda>_.
        and_then (demand (as_str (jat response ''status''))) (\<lambda>status.
        and_then (resp_stop response status) (\<lambda>_.
        set_terminal))))))))"

definition resp_delta :: "string \<Rightarrow> pi_kind \<Rightarrow> json \<Rightarrow> unit act" where
  "resp_delta key kind v =
     and_then (wire_block key kind [] []) (\<lambda>index.
     and_then (demand (as_str (jat v ''delta''))) (wire_delta index))"

definition ignored_events :: "string list" where
  "ignored_events =
     [''response.content_part.added'', ''response.content_part.done'', ''response.output_text.done'',
      ''response.reasoning_summary_part.added'', ''response.reasoning_summary_part.done'',
      ''response.reasoning_summary_text.done'', ''response.function_call_arguments.done'']"

definition resp_parse :: "(json \<Rightarrow> string) \<Rightarrow> string \<Rightarrow> json \<Rightarrow> unit act" where
  "resp_parse render kind v =
     and_then wire_start (\<lambda>_.
     if kind = ''response.created'' \<or> kind = ''response.in_progress''
     then when_some (as_str (jat (jat v ''response'') ''id'')) (\<lambda>i. set_response_id (Some i))
     else if kind = ''response.output_item.added''
     then (if jat (jat v ''item'') ''type'' \<noteq> JStr ''message'' then resp_item render (jat v ''item'') else skip)
     else if kind = ''response.output_item.done'' then resp_item render (jat v ''item'')
     else if kind = ''response.output_text.delta'' then resp_delta (resp_key v ''text'') TextBlock v
     else if kind = ''response.reasoning_summary_text.delta'' \<or> kind = ''response.reasoning.delta''
     then and_then (demand (as_str (jat v ''item_id''))) (\<lambda>ident.
          resp_delta (''r:thinking:'' @ ident @ '':0'') ThinkingBlock v)
     else if kind = ''response.function_call_arguments.delta''
     then and_then (demand (as_str (jat v ''item_id''))) (\<lambda>ident.
          and_then (wire_index (''r:tool:'' @ ident @ '':0'')) (\<lambda>index.
          and_then (demand (as_str (jat v ''delta''))) (wire_delta index)))
     else if kind = ''response.completed'' \<or> kind = ''response.incomplete''
     then resp_terminal render (jat v ''response'')
     else if kind \<in> set ignored_events then skip
     else reject)"

definition resp_complete :: "(json \<Rightarrow> string) \<Rightarrow> json \<Rightarrow> unit act" where
  "resp_complete render v = and_then wire_start (\<lambda>_. resp_terminal render v)"

lemmas resp_item_defs = resp_item_def resp_reasoning_def resp_call_def resp_message_def resp_part_def if_empty_def

lemma sound_resp_item [sound_rules]: "sound parse c (resp_item render item)"
  unfolding resp_item_defs by (intro sound_rules)

lemma sound_resp_terminal [sound_rules]: "sound parse c (resp_terminal render v)"
  unfolding resp_terminal_def resp_stop_def Let_def by (intro sound_rules) simp_all

lemma sound_resp_parse [sound_rules]: "sound parse c (resp_parse render kind v)"
  unfolding resp_parse_def resp_delta_def by (intro sound_rules)

lemma sound_resp_complete [sound_rules]: "sound parse c (resp_complete render v)"
  unfolding resp_complete_def by (intro sound_rules)

subsection \<open>The dispatch\<close>

definition native_parse ::
    "(string \<Rightarrow> json option) \<Rightarrow> (json \<Rightarrow> string) \<Rightarrow> string \<Rightarrow> string \<Rightarrow> unit act" where
  "native_parse parse render kind data =
     (if data = ''[DONE]''
      then and_then (get_wire w_reason) (\<lambda>r. and_then (unless_bad (r = None)) (\<lambda>_. set_terminal))
      else
        and_then (demand (parse data)) (\<lambda>v.
        and_then (get_wire w_api) (\<lambda>api.
        if api = ''anthropic-messages''
        then and_then (if kind = [] then demand (as_str (jat v ''type'')) else done_with kind) (\<lambda>k.
             anthropic_parse parse render k v)
        else if api = ''google-generative-ai'' then google_parse render v
        else if api = ''openai-responses''
        then and_then (demand (as_str (jat v ''type''))) (\<lambda>k. resp_parse render k v)
        else chat_parse v)))"

definition native_complete :: "(string \<Rightarrow> json option) \<Rightarrow> (json \<Rightarrow> string) \<Rightarrow> json \<Rightarrow> unit act" where
  "native_complete parse render v =
     and_then (get_wire w_api) (\<lambda>api.
     and_then (if api = ''openai-completions'' then chat_complete v
               else if api = ''anthropic-messages'' then anthropic_complete parse render v
               else if api = ''google-generative-ai'' then google_parse render v
               else if api = ''openai-responses'' then resp_complete render v
               else reject) (\<lambda>_.
     set_terminal))"

lemma sound_native_parse [sound_rules]: "sound parse c (native_parse parse render kind data)"
  unfolding native_parse_def by (intro sound_rules)

lemma sound_native_complete [sound_rules]: "sound parse True (native_complete parse render v)"
  unfolding native_complete_def by (intro sound_rules sound_chat_complete)

end
