(* ===== verification/Sse_Framing.thy ===== *)
theory Sse_Framing
  imports Prelude "HOL-Library.Sublist"
begin

section \<open>Framing of server-sent events\<close>

text \<open>
  src/pi_messages/framing.rs. The bytes of an upstream stream arrive in chunks of any size. The
  framer collects them until a blank line ends an event, decodes the event as UTF-8 and goes on.
  It holds at most one mebibyte. Text is a list of bytes; whether bytes are UTF-8 is decided by the
  grammar of the standard library's validator. The parser of a frame follows.
\<close>

subsection \<open>UTF-8\<close>

definition byte_in :: "nat \<Rightarrow> nat \<Rightarrow> char \<Rightarrow> bool" where
  "byte_in a b c = (a \<le> (of_char c :: nat) \<and> (of_char c :: nat) \<le> b)"

definition continuation :: "char \<Rightarrow> bool" where
  "continuation = byte_in 0x80 0xBF"

fun utf8_valid :: "string \<Rightarrow> bool" where
  "utf8_valid [] = True"
| "utf8_valid (a # s) =
     (if byte_in 0 0x7F a then utf8_valid s
      else case s of
        [] \<Rightarrow> False
      | b # s2 \<Rightarrow>
          if byte_in 0xC2 0xDF a then continuation b \<and> utf8_valid s2
          else case s2 of
            [] \<Rightarrow> False
          | c # s3 \<Rightarrow>
              if byte_in 0xE0 0xEF a
              then (if byte_in 0xE0 0xE0 a then byte_in 0xA0 0xBF b
                    else if byte_in 0xED 0xED a then byte_in 0x80 0x9F b else continuation b) \<and>
                   continuation c \<and> utf8_valid s3
              else case s3 of
                [] \<Rightarrow> False
              | d # s4 \<Rightarrow>
                  byte_in 0xF0 0xF4 a \<and>
                  (if byte_in 0xF0 0xF0 a then byte_in 0x90 0xBF b
                   else if byte_in 0xF4 0xF4 a then byte_in 0x80 0x8F b else continuation b) \<and>
                  continuation c \<and> continuation d \<and> utf8_valid s4)"

subsection \<open>The framer\<close>

definition frame_limit :: nat where "frame_limit = 1024 * 1024"

abbreviation cr :: char where "cr \<equiv> CHR 0x0D"
abbreviation lf :: char where "lf \<equiv> CHR 0x0A"

definition event_ended :: "string \<Rightarrow> bool" where
  "event_ended buffer \<longleftrightarrow>
     ends_with [lf, lf] buffer \<or> ends_with [cr, lf, cr, lf] buffer \<or> ends_with [cr, cr] buffer"

text \<open>
  One byte. The result is the frame it completes, if any, or the error; the buffer left
  behind after an error is what the code leaves.
\<close>

definition push_byte :: "string \<Rightarrow> char \<Rightarrow> (unit + string option) \<times> string" where
  "push_byte buffer0 byte =
     (let buffer = buffer0 @ [byte]
      in if frame_limit < length buffer then (Inl (), buffer)
         else if event_ended buffer
              then (if utf8_valid buffer then (Inr (Some buffer), []) else (Inl (), []))
              else if length buffer = frame_limit then (Inl (), buffer)
              else (Inr None, buffer))"

fun push :: "string \<Rightarrow> string \<Rightarrow> (unit + string list) \<times> string" where
  "push buffer [] = (Inr [], buffer)"
| "push buffer (byte # bytes) =
     (case push_byte buffer byte of
        (Inl e, buffer') \<Rightarrow> (Inl e, buffer')
      | (Inr frame, buffer') \<Rightarrow>
          (case push buffer' bytes of
             (Inl e, buffer'') \<Rightarrow> (Inl e, buffer'')
           | (Inr frames, buffer'') \<Rightarrow>
               (Inr ((case frame of Some f \<Rightarrow> f # frames | None \<Rightarrow> frames)), buffer'')))"

text \<open>\<open>u8::is_ascii_whitespace\<close> has no vertical tab.\<close>

definition ascii_whitespace :: "char \<Rightarrow> bool" where
  "ascii_whitespace c = (c \<in> {CHR 0x20, CHR 0x09, lf, CHR 0x0C, cr})"

definition framer_finish :: "string \<Rightarrow> unit + unit" where
  "framer_finish buffer = (if list_all ascii_whitespace buffer then Inr () else Inl ())"

subsection \<open>The fields of one event\<close>

text \<open>Both line ends become a line feed: first the pair, then what is left of the carriage returns.\<close>

fun pairs_to_lf :: "string \<Rightarrow> string" where
  "pairs_to_lf [] = []"
| "pairs_to_lf [c] = [c]"
| "pairs_to_lf (c # d # s) = (if c = cr \<and> d = lf then lf # pairs_to_lf s else c # pairs_to_lf (d # s))"

definition normalize_lines :: "string \<Rightarrow> string" where
  "normalize_lines s = map (\<lambda>c. if c = cr then lf else c) (pairs_to_lf s)"

text \<open>\<open>str::lines\<close> on text without carriage returns: no piece after a final line feed.\<close>

definition text_lines :: "string \<Rightarrow> string list" where
  "text_lines s = (let ps = split_at lf s in if last ps = [] then butlast ps else ps)"

definition event_line :: "string \<times> string list \<Rightarrow> string \<Rightarrow> string \<times> string list" where
  "event_line kd line =
     (let kd1 = (case strip_prefix ''event:'' line of
                   Some v \<Rightarrow> (dropWhile (\<lambda>c. c = CHR '' '') v, snd kd) | None \<Rightarrow> kd)
      in case strip_prefix ''data:'' line of
           Some v \<Rightarrow> (fst kd1, snd kd1 @ [case strip_prefix '' '' v of Some w \<Rightarrow> w | None \<Rightarrow> v])
         | None \<Rightarrow> kd1)"

fun join_lines :: "string list \<Rightarrow> string" where
  "join_lines [] = []"
| "join_lines [l] = l"
| "join_lines (l # m # ls) = l @ lf # join_lines (m # ls)"

definition sse_event :: "string \<Rightarrow> (string \<times> string) option" where
  "sse_event frame =
     (let (kind, payload) = foldl event_line ([], []) (text_lines (normalize_lines frame))
      in if payload = [] then None else Some (kind, join_lines payload))"

subsection \<open>Chunks do not matter\<close>

text \<open>Two chunks in a row, where the second is not looked at after an error in the first.\<close>

definition push_then :: "(unit + string list) \<times> string \<Rightarrow> string \<Rightarrow> (unit + string list) \<times> string" where
  "push_then r bytes =
     (case r of
        (Inl e, buffer) \<Rightarrow> (Inl e, buffer)
      | (Inr frames, buffer) \<Rightarrow>
          (case push buffer bytes of
             (Inl e, buffer') \<Rightarrow> (Inl e, buffer')
           | (Inr frames', buffer') \<Rightarrow> (Inr (frames @ frames'), buffer')))"

lemma push_append: "push buffer (xs @ ys) = push_then (push buffer xs) ys"
proof (induction buffer xs rule: push.induct)
  case (2 buffer byte bytes)
  then show ?case
    by (auto simp: push_then_def split: prod.splits sum.splits option.splits)
qed (simp add: push_then_def split: prod.splits sum.splits)

lemma push_chunks:
  "push buffer (concat cs) = foldl push_then (Inr [], buffer) cs"
proof -
  have "push_then r (concat cs) = foldl push_then r cs" for r
  proof (induction cs arbitrary: r)
    case (Cons c cs)
    have "push_then r (c @ concat cs) = push_then (push_then r c) (concat cs)"
      by (auto simp: push_then_def push_append split: prod.splits sum.splits)
    with Cons show ?case by simp
  qed (auto simp: push_then_def split: prod.splits sum.splits)
  from this [of "(Inr [], buffer)"] show ?thesis
    by (auto simp: push_then_def split: prod.splits sum.splits)
qed

subsection \<open>What the frames are\<close>

definition unended :: "string \<Rightarrow> bool" where
  "unended s \<longleftrightarrow> (\<forall>p. prefix p s \<longrightarrow> \<not> event_ended p)"

definition one_event :: "string \<Rightarrow> bool" where
  "one_event f \<longleftrightarrow> event_ended f \<and> (\<forall>p. strict_prefix p f \<longrightarrow> \<not> event_ended p)"

lemma not_ended_Nil: "\<not> event_ended []"
  by (simp add: event_ended_def ends_with_def starts_with_def)

lemma unended_Nil [simp]: "unended []"
  by (simp add: unended_def not_ended_Nil)

lemma unended_snoc: "unended (b @ [x]) \<longleftrightarrow> unended b \<and> \<not> event_ended (b @ [x])"
  by (auto simp: unended_def prefix_snoc)

lemma one_event_snoc: "one_event (b @ [x]) \<longleftrightarrow> unended b \<and> event_ended (b @ [x])"
proof -
  have "strict_prefix p (b @ [x]) \<longleftrightarrow> prefix p b" for p by (auto simp: strict_prefix_def prefix_snoc dest: prefix_length_le)
  then show ?thesis unfolding one_event_def unended_def by auto
qed

text \<open>The contract of the framer over any buffer that holds no complete event.\<close>

definition framed :: "string \<Rightarrow> string list \<Rightarrow> string \<Rightarrow> bool" where
  "framed bytes frames rest \<longleftrightarrow>
     concat frames @ rest = bytes \<and>
     (\<forall>f \<in> set frames. one_event f \<and> length f \<le> frame_limit \<and> utf8_valid f) \<and>
     unended rest \<and> length rest < frame_limit"

lemma framed_first:
  assumes "framed (b @ x # xs) frames rest" and "unended b" and "event_ended (b @ [x])"
  obtains fs where "frames = (b @ [x]) # fs" "framed xs fs rest" "utf8_valid (b @ [x])"
proof (cases frames)
  case Nil
  with assms(1) have "prefix (b @ [x]) rest" by (auto simp: framed_def prefix_def)
  with assms(1,3) show ?thesis by (auto simp: framed_def unended_def)
next
  case (Cons f fs)
  with assms(1) have eq: "f @ concat fs @ rest = (b @ [x]) @ xs" and f: "one_event f"
    by (auto simp: framed_def)
  then have "prefix f (b @ [x]) \<or> prefix (b @ [x]) f" by (metis prefix_def prefix_same_cases)
  moreover have "one_event (b @ [x])" using assms(2,3) by (simp add: one_event_snoc)
  ultimately have "f = b @ [x]" using f by (auto simp: one_event_def strict_prefix_def)
  with Cons eq assms(1) that show ?thesis by (auto simp: framed_def)
qed

lemma framed_long:
  assumes "framed (b @ x # xs) frames rest" and "unended (b @ [x])"
  shows "length (b @ [x]) < frame_limit"
proof (rule ccontr)
  assume long: "\<not> length (b @ [x]) < frame_limit"
  show False
  proof (cases frames)
    case Nil
    with assms long show False by (auto simp: framed_def)
  next
    case (Cons f fs)
    with assms(1) have eq: "f @ concat fs @ rest = (b @ [x]) @ xs" and f: "one_event f" "length f \<le> frame_limit"
      by (auto simp: framed_def)
    with long have "prefix f (b @ [x])" by (metis le_trans not_less prefix_def prefix_length_prefix)
    with f(1) assms(2) show False by (auto simp: one_event_def unended_def)
  qed
qed

lemma push_framed:
  "unended b \<Longrightarrow> length b < frame_limit \<Longrightarrow>
   push b xs = (Inr frames, rest) \<longleftrightarrow> framed (b @ xs) frames rest"
proof (induction xs arbitrary: b frames)
  case Nil
  have "framed b frames rest \<longleftrightarrow> frames = [] \<and> rest = b"
  proof (cases frames)
    case (Cons f fs)
    then show ?thesis using \<open>unended b\<close> by (auto simp: framed_def unended_def one_event_def)
  qed (use Nil in \<open>auto simp: framed_def\<close>)
  then show ?case by auto
next
  case (Cons x xs)
  let ?b = "b @ [x]"
  show ?case
  proof (cases "event_ended ?b")
    case True
    have p: "push_byte b x = (if utf8_valid ?b then (Inr (Some ?b), []) else (Inl (), []))"
      using True Cons.prems(2) by (simp add: push_byte_def)
    have "framed (b @ x # xs) frames rest \<longleftrightarrow> utf8_valid ?b \<and> (\<exists>fs. frames = ?b # fs \<and> framed xs fs rest)"
    proof
      assume "framed (b @ x # xs) frames rest"
      from framed_first [OF this Cons.prems(1) True] show "utf8_valid ?b \<and> (\<exists>fs. frames = ?b # fs \<and> framed xs fs rest)" by metis
    next
      assume "utf8_valid ?b \<and> (\<exists>fs. frames = ?b # fs \<and> framed xs fs rest)"
      moreover have "one_event ?b" using Cons.prems(1) True by (simp add: one_event_snoc)
      ultimately show "framed (b @ x # xs) frames rest" using Cons.prems(2) by (auto simp: framed_def)
    qed
    moreover have "push b (x # xs) = (Inr frames, rest) \<longleftrightarrow>
        utf8_valid ?b \<and> (\<exists>fs. frames = ?b # fs \<and> push [] xs = (Inr fs, rest))"
      using p by (auto split: prod.splits sum.splits)
    ultimately show ?thesis using Cons.IH [of "[]"] by (simp add: frame_limit_def)
  next
    case False
    with Cons.prems(1) have u: "unended ?b" by (simp add: unended_snoc)
    show ?thesis
    proof (cases "length ?b = frame_limit")
      case True
      then show ?thesis using framed_long [OF _ u] Cons.prems(2) False by (auto simp: push_byte_def)
    next
      case False2: False
      then have p: "push_byte b x = (Inr None, ?b)" using Cons.prems(2) False by (simp add: push_byte_def)
      have "push b (x # xs) = (Inr frames, rest) \<longleftrightarrow> push ?b xs = (Inr frames, rest)"
        using p by (auto split: prod.splits sum.splits)
      then show ?thesis using Cons.IH [of ?b] u False2 Cons.prems(2) by simp
    qed
  qed
qed

text \<open>
  Claim C37. The framer refines the grammar of event streams whatever the chunks: it accepts the bytes that
  arrive in any number of chunks exactly when they can be split into events of at most a mebibyte
  of UTF-8, each ended by its first blank line, and an unended rest below a mebibyte; and its
  frames and its buffer are that split, the only one there is.
\<close>

theorem framer_exact:
  "foldl push_then (Inr [], []) chunks = (Inr frames, rest) \<longleftrightarrow>
     concat frames @ rest = concat chunks \<and>
     (\<forall>f \<in> set frames. one_event f \<and> length f \<le> frame_limit \<and> utf8_valid f) \<and>
     unended rest \<and> length rest < frame_limit"
  using push_framed [of "[]" "concat chunks" frames rest]
  by (simp add: push_chunks [symmetric] framed_def frame_limit_def)

theorem framer_exact_witness:
  "one_event (''data: a'' @ [lf, lf]) \<and> one_event [cr, cr] \<and> unended ''x''"
proof -
  have "foldl push_then (Inr [], []) [''data: '', ''a'' @ [lf], [lf, cr], cr # ''x''] =
      (Inr [''data: a'' @ [lf, lf], [cr, cr]], ''x'')"
    by (simp add: push_then_def push_byte_def frame_limit_def event_ended_def ends_with_def starts_with_def
        byte_in_def)
  then show ?thesis unfolding framer_exact by simp
qed

subsection \<open>Events written and read back\<close>

lemma normalize_id: "cr \<notin> set s \<Longrightarrow> normalize_lines s = s"
proof -
  have "cr \<notin> set s \<Longrightarrow> pairs_to_lf s = s" by (induction s rule: pairs_to_lf.induct) auto
  moreover have "map (\<lambda>c. if c = cr then lf else c) s = s" if "cr \<notin> set s" using that by (induction s) auto
  ultimately show "cr \<notin> set s \<Longrightarrow> normalize_lines s = s" by (simp add: normalize_lines_def)
qed

text \<open>What a server writes: the kind and one data line.\<close>

definition written_event :: "string \<Rightarrow> string \<Rightarrow> string" where
  "written_event kind payload = ''event: '' @ kind @ lf # ''data: '' @ payload @ [lf, lf]"

lemma written_event_read:
  assumes "{cr, lf} \<inter> (set kind \<union> set payload) = {}" and "kind = [] \<or> hd kind \<noteq> CHR '' ''"
  shows "sse_event (written_event kind payload) = Some (kind, payload)"
proof -
  have "cr \<notin> set (written_event kind payload)" using assms(1) by (auto simp: written_event_def)
  moreover have "split_at lf (written_event kind payload) = [''event: '' @ kind, ''data: '' @ payload, [], []]"
    using assms(1) split_at_append [of lf "''event: '' @ kind" "''data: '' @ payload @ [lf, lf]"]
      split_at_append [of lf "''data: '' @ payload" "[lf]"]
    by (simp add: written_event_def)
  moreover have "dropWhile (\<lambda>c. c = CHR '' '') kind = kind" using assms(2) by (cases kind) auto
  ultimately show ?thesis
    by (simp add: sse_event_def normalize_id text_lines_def event_line_def)
qed

end
