(* ===== verification/Pi_Stream.thy ===== *)
theory Pi_Stream
  imports Pi_Native Sse_Framing Provider_Routing
begin

section \<open>The stream that Pi receives\<close>

text \<open>
  src/pi_messages/stream.rs. \<open>Machine\<close> reads the upstream body only as the client asks for more: the
  response body is an unfold whose every step delivers one event of the queue, and reads the
  upstream while the queue is empty. A provider that streams is converted frame by frame, any other
  answer is collected and converted at its end. What the conversion observed of the usage is recorded
  when the body is dropped.

  The upstream is the list of what its stream yields: chunks and an I/O error. A panic is the
  result \<open>None\<close> or \<open>Panicked\<close>. The two parameters are the JSON package's reader and writer.
\<close>

datatype upstream_item = Chunk string | Broken

record machine =
  m_buffer :: string
  m_wire :: wire
  m_queue :: "pi_event list"
  m_done :: bool
  m_sse :: bool
  m_json :: string
  m_observed :: "(pi_counts \<times> f64) option"

definition machine_new :: "wire \<Rightarrow> bool \<Rightarrow> machine" where
  "machine_new w sse =
     \<lparr>m_buffer = [], m_wire = w, m_queue = [], m_done = False, m_sse = sse, m_json = [], m_observed = None\<rparr>"

definition is_event_stream :: "string option \<Rightarrow> bool" where
  "is_event_stream content_type =
     (case content_type of Some v \<Rightarrow> starts_with ''text/event-stream'' v | None \<Rightarrow> False)"

subsection \<open>Observed usage\<close>

definition observed_usage :: "pi_counts \<Rightarrow> pi_usage \<Rightarrow> pi_counts \<times> f64" where
  "observed_usage c u = (c\<lparr>pc_input := pu_input u\<rparr>, pu_cost_total u)"

definition observe :: "model_pricing \<Rightarrow> machine \<Rightarrow> machine" where
  "observe pricing m =
     (case (w_counts (m_wire m), wire_usage pricing (m_wire m)) of
        (Some c, Some u) \<Rightarrow> m\<lparr>m_observed := Some (observed_usage c u)\<rparr>
      | _ \<Rightarrow> m)"

definition fail_stream :: "model_pricing \<Rightarrow> machine \<Rightarrow> machine" where
  "fail_stream pricing m0 =
     (let m = observe pricing m0
      in m\<lparr>m_queue := m_queue m @ [wire_failure pricing (m_wire m)], m_done := True\<rparr>)"

text \<open>The record that the ledger writes when the body is dropped.\<close>

datatype ledger_record = NoRecord | RequestOnly | UsageRecord u32 u32 u32 u32 f64

definition ledger_drop :: "bool \<Rightarrow> machine \<Rightarrow> ledger_record" where
  "ledger_drop has_key m =
     (if \<not> has_key then NoRecord
      else case m_observed m of
             Some (c, cost) \<Rightarrow> UsageRecord (pc_input c) (pc_output c) (pc_read c) (pc_write c) cost
           | None \<Rightarrow> RequestOnly)"

subsection \<open>The steps of the machine\<close>

definition end_stream ::
    "(string \<Rightarrow> json option) \<Rightarrow> (json \<Rightarrow> string) \<Rightarrow> model_pricing \<Rightarrow> machine \<Rightarrow> machine option" where
  "end_stream parse render pricing m =
     (case wire_finish parse render pricing (m_wire m) of
        (Inl Crashed, w, _) \<Rightarrow> None
      | (Inl Rejected, w, _) \<Rightarrow> Some (fail_stream pricing (m\<lparr>m_wire := w\<rparr>))
      | (Inr _, w, out) \<Rightarrow>
          (let m1 = observe pricing (m\<lparr>m_wire := w\<rparr>)
           in Some (m1\<lparr>m_queue := m_queue m1 @ out, m_done := True\<rparr>)))"

text \<open>The loop over the frames of a chunk. The flag says whether it returned \<open>Ok\<close>.\<close>

fun run_frames ::
    "(string \<Rightarrow> json option) \<Rightarrow> (json \<Rightarrow> string) \<Rightarrow> model_pricing \<Rightarrow> machine \<Rightarrow> string list \<Rightarrow>
     (bool \<times> machine) option" where
  "run_frames parse render pricing m [] = Some (True, m)"
| "run_frames parse render pricing m (f # fs) =
     (case sse_event f of
        None \<Rightarrow> run_frames parse render pricing m fs
      | Some (kind, data) \<Rightarrow>
          (case native_parse parse render kind data (m_wire m) of
             (Inl Crashed, w, _) \<Rightarrow> None
           | (Inl Rejected, w, _) \<Rightarrow> Some (False, m\<lparr>m_wire := w\<rparr>)
           | (Inr _, w, out) \<Rightarrow>
               (let m1 = observe pricing (m\<lparr>m_wire := w, m_queue := m_queue m @ out\<rparr>)
                in if w_terminal w \<and> w_counts w \<noteq> None
                   then map_option (Pair True) (end_stream parse render pricing m1)
                   else run_frames parse render pricing m1 fs)))"

definition chunk ::
    "(string \<Rightarrow> json option) \<Rightarrow> (json \<Rightarrow> string) \<Rightarrow> model_pricing \<Rightarrow> string \<Rightarrow> machine \<Rightarrow>
     (bool \<times> machine) option" where
  "chunk parse render pricing bytes m =
     (if \<not> m_sse m
      then (if mebibytes 16 < length (m_json m) + length bytes then Some (False, m)
            else Some (True, m\<lparr>m_json := m_json m @ bytes\<rparr>))
      else if mebibytes 1 < length bytes then Some (False, m)
      else case push (m_buffer m) bytes of
             (Inl _, buffer) \<Rightarrow> Some (False, m\<lparr>m_buffer := buffer\<rparr>)
           | (Inr frames, buffer) \<Rightarrow> run_frames parse render pricing (m\<lparr>m_buffer := buffer\<rparr>) frames)"

definition eof ::
    "(string \<Rightarrow> json option) \<Rightarrow> (json \<Rightarrow> string) \<Rightarrow> model_pricing \<Rightarrow> machine \<Rightarrow> machine option" where
  "eof parse render pricing m =
     (if m_sse m
      then (case framer_finish (m_buffer m) of
              Inl _ \<Rightarrow> Some (fail_stream pricing m)
            | Inr _ \<Rightarrow> end_stream parse render pricing m)
      else case parse (m_json m) of
             None \<Rightarrow> Some (fail_stream pricing m)
           | Some v \<Rightarrow>
               (case native_complete parse render v (m_wire m) of
                  (Inl Crashed, w, _) \<Rightarrow> None
                | (Inl Rejected, w, _) \<Rightarrow> Some (fail_stream pricing (m\<lparr>m_wire := w\<rparr>))
                | (Inr _, w, out) \<Rightarrow>
                    end_stream parse render pricing (m\<lparr>m_wire := w, m_queue := m_queue m @ out\<rparr>)))"

text \<open>What one turn of the loop makes of the next upstream item.\<close>

definition take_item ::
    "(string \<Rightarrow> json option) \<Rightarrow> (json \<Rightarrow> string) \<Rightarrow> model_pricing \<Rightarrow> upstream_item \<Rightarrow> machine \<Rightarrow> machine option" where
  "take_item parse render pricing x m =
     (case x of
        Broken \<Rightarrow> Some (fail_stream pricing m)
      | Chunk bytes \<Rightarrow>
          map_option (\<lambda>(ok, m'). if ok then m' else fail_stream pricing m') (chunk parse render pricing bytes m))"
lemma fail_stream_fields [simp]:
  "m_done (fail_stream pricing m)" "m_wire (fail_stream pricing m) = m_wire m"
  "m_queue (fail_stream pricing m) = m_queue m @ [wire_failure pricing (m_wire m)]" "m_sse (fail_stream pricing m) = m_sse m"
  by (auto simp: fail_stream_def observe_def Let_def split: option.splits)

lemma observe_fields [simp]:
  "m_done (observe pricing m) = m_done m" "m_wire (observe pricing m) = m_wire m"
  "m_queue (observe pricing m) = m_queue m" "m_sse (observe pricing m) = m_sse m"
  "m_buffer (observe pricing m) = m_buffer m"
  by (auto simp: observe_def split: option.splits)

lemma end_stream_done: "end_stream parse render pricing m = Some m' \<Longrightarrow> m_done m'"
  by (auto simp: end_stream_def Let_def split: prod.splits sum.splits fault.splits)

lemma eof_done: "eof parse render pricing m = Some m' \<Longrightarrow> m_done m'"
  by (auto simp: eof_def dest: end_stream_done split: if_splits prod.splits sum.splits fault.splits option.splits)

subsection \<open>The body\<close>

datatype delivery = Yielded pi_event machine "upstream_item list" | Ended machine | Panicked

text \<open>
  One poll of the body: the loop of the unfold. After the end of the upstream the machine is done,
  so the loop ends.
\<close>

function pull ::
    "(string \<Rightarrow> json option) \<Rightarrow> (json \<Rightarrow> string) \<Rightarrow> model_pricing \<Rightarrow> machine \<Rightarrow> upstream_item list \<Rightarrow> delivery" where
  "pull parse render pricing m us =
     (case m_queue m of
        ev # evs \<Rightarrow> Yielded ev (m\<lparr>m_queue := evs\<rparr>) us
      | [] \<Rightarrow>
          if m_done m then Ended m
          else case us of
                 x # us' \<Rightarrow>
                   (case take_item parse render pricing x m of
                      None \<Rightarrow> Panicked | Some m' \<Rightarrow> pull parse render pricing m' us')
               | [] \<Rightarrow>
                   (case eof parse render pricing m of
                      None \<Rightarrow> Panicked | Some m' \<Rightarrow> pull parse render pricing m' []))"
  by pat_completeness auto

text \<open>How much of the upstream is left: every turn takes an item, or is the last.\<close>

definition upstream_left :: "machine \<Rightarrow> upstream_item list \<Rightarrow> nat" where
  "upstream_left m us = 2 * length us + (if m_done m then 0 else 1)"

termination pull
  by (relation "measure (\<lambda>(parse, render, pricing, m, us). upstream_left m us)")
    (auto simp: upstream_left_def dest: eof_done)

declare pull.simps [simp del]

lemma pull_decreases:
  "pull parse render pricing m us = Yielded ev m' us' \<Longrightarrow>
   upstream_left m' us' < upstream_left m us \<or>
   upstream_left m' us' = upstream_left m us \<and> length (m_queue m') < length (m_queue m)"
proof (induction parse render pricing m us rule: pull.induct)
  case (1 parse render pricing m us)
  show ?case
  proof (cases "m_queue m")
    case (Cons e q)
    with 1 show ?thesis by (auto simp: pull.simps [of _ _ _ m] upstream_left_def)
  next
    case Nil
    with 1 show ?thesis
      by (cases us) (force simp: pull.simps [of _ _ _ m] upstream_left_def dest: eof_done split: if_splits option.splits)+
  qed
qed

text \<open>All events of a body that is read to its end, and how it ended: \<open>None\<close> is a panic.\<close>

function body_events ::
    "(string \<Rightarrow> json option) \<Rightarrow> (json \<Rightarrow> string) \<Rightarrow> model_pricing \<Rightarrow> machine \<Rightarrow> upstream_item list \<Rightarrow>
     pi_event list \<times> machine option" where
  "body_events parse render pricing m us =
     (case pull parse render pricing m us of
        Yielded ev m' us' \<Rightarrow>
          (case body_events parse render pricing m' us' of (evs, final) \<Rightarrow> (ev # evs, final))
      | Ended m' \<Rightarrow> ([], Some m')
      | Panicked \<Rightarrow> ([], None))"
  by pat_completeness auto

termination body_events
  by (relation "(\<lambda>(parse, render, pricing, m, us). upstream_left m us) <*mlex*>
                measure (\<lambda>(parse, render, pricing, m, us). length (m_queue m))")
    (auto intro: wf_mlex dest!: pull_decreases simp: mlex_prod_def)

declare body_events.simps [simp del]

subsection \<open>The machine keeps to the protocol and to the ledger\<close>

definition told_usage :: "pi_event \<Rightarrow> pi_usage option" where
  "told_usage ev = (case ev of EvDone r u ident \<Rightarrow> Some u | EvError u \<Rightarrow> u | _ \<Rightarrow> None)"

definition usage_record :: "pi_usage \<Rightarrow> ledger_record" where
  "usage_record u = UsageRecord (pu_input u) (pu_output u) (pu_read u) (pu_write u) (pu_cost_total u)"

text \<open>
  \<open>h\<close> is what was delivered. A machine that is done has queued the event that closes the stream, and
  the usage told there is the usage observed. Before, the events delivered and queued lead to the
  state of the wire; \<open>open_history\<close> is what is left of that when a frame was rejected half way.
\<close>

definition open_history :: "(string \<Rightarrow> json option) \<Rightarrow> pi_event list \<Rightarrow> bool" where
  "open_history parse evs \<longleftrightarrow> (\<exists>p. replay parse proto_init evs = Some p \<and> \<not> pr_closed p)"

definition closed_history :: "(string \<Rightarrow> json option) \<Rightarrow> pi_event list \<Rightarrow> machine \<Rightarrow> bool" where
  "closed_history parse evs m \<longleftrightarrow>
     well_typed_stream parse evs \<and> evs \<noteq> [] \<and>
     (\<forall>u. told_usage (last evs) = Some u \<longrightarrow> ledger_drop True m = usage_record u)"

definition running :: "(string \<Rightarrow> json option) \<Rightarrow> pi_event list \<Rightarrow> machine \<Rightarrow> bool" where
  "running parse h m \<longleftrightarrow>
     \<not> m_done m \<and> wire_ok (m_wire m) \<and>
     replay parse proto_init (h @ m_queue m) = Some (proto_of (m_wire m))"

definition stream_inv :: "(string \<Rightarrow> json option) \<Rightarrow> pi_event list \<Rightarrow> machine \<Rightarrow> bool" where
  "stream_inv parse h m \<longleftrightarrow>
     (if m_done m then closed_history parse (h @ m_queue m) m else running parse h m)"

lemma proto_of_open [simp]: "\<not> pr_closed (proto_of w)"
  by (simp add: proto_of_def)

lemma running_open: "running parse h m \<Longrightarrow> open_history parse (h @ m_queue m)"
  by (auto simp: running_def open_history_def)

lemma closing:
  assumes "open_history parse h" and "\<And>p. \<not> pr_closed p \<Longrightarrow> replay parse p [ev] = Some (p\<lparr>pr_closed := True\<rparr>)"
  shows "well_typed_stream parse (h @ [ev])"
  using assms by (auto simp: open_history_def well_typed_stream_def replay_append)

lemma usage_of_counts:
  "wire_usage pricing w = Some u \<Longrightarrow>
   \<exists>c. w_counts w = Some c \<and> usage_tokens (w_includes_cache w) c = Some (pu_input u, pu_total u) \<and>
     pu_output u = pc_output c \<and> pu_read u = pc_read c \<and> pu_write u = pc_write c"
  by (auto simp: wire_usage_def Let_def bind_eq_Some_conv split: if_splits)

lemma observe_ledger:
  assumes "wire_usage pricing (m_wire m) = Some u"
  shows "ledger_drop True (observe pricing m) = usage_record u"
  using usage_of_counts [OF assms] assms
  by (auto simp: observe_def ledger_drop_def observed_usage_def usage_record_def)

lemma ledger_fields:
  "ledger_drop k (m\<lparr>m_queue := q\<rparr>) = ledger_drop k m" "ledger_drop k (m\<lparr>m_done := d\<rparr>) = ledger_drop k m"
  by (simp_all add: ledger_drop_def)

lemma fail_stream_inv:
  assumes "open_history parse (h @ m_queue m)"
  shows "stream_inv parse h (fail_stream pricing m)"
proof -
  have "well_typed_stream parse ((h @ m_queue m) @ [wire_failure pricing (m_wire m)])"
    by (rule closing [OF assms]) (simp add: wire_failure_def)
  moreover have "ledger_drop True (fail_stream pricing m) = usage_record u"
    if "told_usage (wire_failure pricing (m_wire m)) = Some u" for u
    using that observe_ledger [of pricing m u] by (simp add: fail_stream_def Let_def told_usage_def wire_failure_def ledger_fields)
  ultimately show ?thesis by (simp add: stream_inv_def closed_history_def)
qed

lemma end_stream_inv:
  assumes "running parse h m"
  obtains m' where "end_stream parse render pricing m = Some m'" "stream_inv parse h m'" "m_sse m' = m_sse m"
proof -
  have ok: "wire_ok (m_wire m)" using assms by (simp add: running_def)
  obtain r w out where f: "wire_finish parse render pricing (m_wire m) = (r, w, out)" by (metis prod.exhaust)
  show thesis
  proof (cases r)
    case (Inl e)
    with f ok steady_finish [of parse render pricing] have "e = Rejected" by (cases e) (force simp: steady_def)+
    with f Inl have "end_stream parse render pricing m = Some (fail_stream pricing (m\<lparr>m_wire := w\<rparr>))" by (simp add: end_stream_def)
    moreover have "open_history parse (h @ m_queue (m\<lparr>m_wire := w\<rparr>))" using running_open [OF assms] by simp
    ultimately show thesis using that fail_stream_inv by fastforce
  next
    case (Inr x)
    with f have f': "wire_finish parse render pricing (m_wire m) = (Inr (), w, out)" by simp
    obtain p r' u where e: "replay parse (proto_of (m_wire m)) out = Some p" "pr_closed p"
      "wire_usage pricing w = Some u" "out \<noteq> []" "last out = EvDone r' u (w_response_id (m_wire m))"
      using finish_effect [OF ok f'] by metis
    let ?m = "observe pricing (m\<lparr>m_wire := w\<rparr>)"
    let ?m' = "?m\<lparr>m_queue := m_queue m @ out, m_done := True\<rparr>"
    have "ledger_drop True ?m' = usage_record u"
      using observe_ledger [of pricing "m\<lparr>m_wire := w\<rparr>" u] e(3) by (simp add: ledger_fields)
    then have "stream_inv parse h ?m'"
      using assms e by (auto simp: stream_inv_def closed_history_def running_def well_typed_stream_def told_usage_def
          replay_append append_assoc [symmetric] simp del: append_assoc)
    moreover have "end_stream parse render pricing m = Some ?m'" using f' by (simp add: end_stream_def Let_def)
    ultimately show thesis using that by simp
  qed
qed

lemma native_result:
  assumes "running parse h m"
  shows "case native_parse parse render kind data (m_wire m) of
      (Inl e, w, out) \<Rightarrow> e = Rejected
    | (Inr x, w, out) \<Rightarrow> running parse h (observe pricing (m\<lparr>m_wire := w, m_queue := m_queue m @ out\<rparr>))"
proof -
  obtain r w out where n: "native_parse parse render kind data (m_wire m) = (r, w, out)" by (metis prod.exhaust)
  have s: "sound parse False (native_parse parse render kind data)" by (rule sound_native_parse)
  show ?thesis
  proof (cases r)
    case (Inl e)
    with n s assms show ?thesis by (cases e) (force simp: sound_def running_def)+
  next
    case (Inr x)
    with n s assms have "wire_ok w \<and> replay parse (proto_of (m_wire m)) out = Some (proto_of w)"
      by (force simp: sound_def running_def)
    with n Inr assms show ?thesis
      by (simp add: running_def replay_append append_assoc [symmetric] del: append_assoc)
  qed
qed

lemma run_frames_inv:
  assumes "running parse h m"
  obtains ok m' where "run_frames parse render pricing m fs = Some (ok, m')" "m_sse m' = m_sse m"
    "if ok then stream_inv parse h m' else open_history parse (h @ m_queue m')"
  using assms
proof (induction fs arbitrary: m thesis)
  case Nil
  then show ?case by (simp add: stream_inv_def running_def)
next
  case (Cons f fs)
  show ?case
  proof (cases "sse_event f")
    case None
    with Cons.IH [OF _ Cons.prems(2)] Cons.prems(1) show ?thesis by simp metis
  next
    case (Some kd)
    obtain kind data where kd: "kd = (kind, data)" by fastforce
    obtain r w out where n: "native_parse parse render kind data (m_wire m) = (r, w, out)" by (metis prod.exhaust)
    note n' = native_result [OF Cons.prems(2), where render = render and kind = kind and data = data and pricing = pricing, unfolded n]
    show ?thesis
    proof (cases r)
      case (Inl e)
      with n' running_open [OF Cons.prems(2)] Cons.prems(1) [of False "m\<lparr>m_wire := w\<rparr>"] n Some kd
      show ?thesis by simp
    next
      case (Inr x)
      let ?m = "observe pricing (m\<lparr>m_wire := w, m_queue := m_queue m @ out\<rparr>)"
      from n' Inr have run: "running parse h ?m" by simp
      show ?thesis
      proof (cases "w_terminal w \<and> w_counts w \<noteq> None")
        case True
        obtain m' where "end_stream parse render pricing ?m = Some m'" "stream_inv parse h m'" "m_sse m' = m_sse ?m"
          using end_stream_inv [OF run] .
        with True n Inr Some kd Cons.prems(1) [of True m'] show ?thesis by simp
      next
        case False
        with n Inr Some kd have "run_frames parse render pricing m (f # fs) = run_frames parse render pricing ?m fs"
          by (auto simp: Let_def)
        moreover obtain ok m' where "run_frames parse render pricing ?m fs = Some (ok, m')" "m_sse m' = m_sse ?m"
          "if ok then stream_inv parse h m' else open_history parse (h @ m_queue m')"
          using Cons.IH [OF _ run] .
        ultimately show ?thesis using Cons.prems(1) [of ok m'] by simp
      qed
    qed
  qed
qed

lemma item_inv:
  assumes "running parse h m"
  shows "case take_item parse render pricing x m of
      None \<Rightarrow> False | Some m' \<Rightarrow> stream_inv parse h m' \<and> m_sse m' = m_sse m"
proof -
  note o = running_open [OF assms]
  show ?thesis
  proof (cases x)
    case Broken
    with fail_stream_inv [OF o] show ?thesis by (simp add: take_item_def)
  next
    case (Chunk bytes)
    have keep: "running parse h (m\<lparr>m_json := j\<rparr>)" "running parse h (m\<lparr>m_buffer := b\<rparr>)" for j b
      using assms by (simp_all add: running_def)
    have fails: "stream_inv parse h (fail_stream pricing (m\<lparr>m_buffer := b\<rparr>))" "stream_inv parse h (fail_stream pricing m)" for b
      using o by (auto intro!: fail_stream_inv)
    show ?thesis
    proof (cases "m_sse m \<and> length bytes \<le> mebibytes 1")
      case False
      with keep(1) fails Chunk show ?thesis
        by (auto simp: take_item_def chunk_def stream_inv_def running_def)
    next
      case True
      obtain r b where p: "push (m_buffer m) bytes = (r, b)" by fastforce
      show ?thesis
      proof (cases r)
        case (Inl e)
        with p True fails Chunk show ?thesis by (auto simp: take_item_def chunk_def)
      next
        case (Inr frames)
        obtain ok m' where "run_frames parse render pricing (m\<lparr>m_buffer := b\<rparr>) frames = Some (ok, m')"
          "m_sse m' = m_sse m" "if ok then stream_inv parse h m' else open_history parse (h @ m_queue m')"
          using run_frames_inv [OF keep(2), where render = render and pricing = pricing and fs = frames and b1 = b] by auto
        with p Inr True Chunk fail_stream_inv show ?thesis
          by (auto simp: take_item_def chunk_def split: if_splits)
      qed
    qed
  qed
qed

lemma eof_inv:
  assumes "running parse h m"
  shows "case eof parse render pricing m of
      None \<Rightarrow> \<not> m_sse m | Some m' \<Rightarrow> stream_inv parse h m' \<and> m_sse m' = m_sse m"
proof (cases "m_sse m")
  case True
  obtain m' where "end_stream parse render pricing m = Some m'" "stream_inv parse h m'" "m_sse m' = m_sse m"
    using end_stream_inv [OF assms] .
  with True fail_stream_inv [OF running_open [OF assms]] show ?thesis
    by (auto simp: eof_def split: sum.split)
next
  case False
  note o = running_open [OF assms]
  show ?thesis
  proof (cases "parse (m_json m)")
    case None
    with False fail_stream_inv [OF o] show ?thesis by (simp add: eof_def)
  next
    case (Some v)
    obtain r w out where n: "native_complete parse render v (m_wire m) = (r, w, out)" by (metis prod.exhaust)
    show ?thesis
    proof (cases r)
      case (Inl e)
      with n False Some o show ?thesis
        by (cases e) (auto simp: eof_def intro!: fail_stream_inv)
    next
      case (Inr x)
      with n assms sound_native_complete [of parse render v]
      have "wire_ok w \<and> replay parse (proto_of (m_wire m)) out = Some (proto_of w)"
        by (force simp: sound_def running_def)
      with assms have "running parse h (m\<lparr>m_wire := w, m_queue := m_queue m @ out\<rparr>)"
        by (simp add: running_def replay_append append_assoc [symmetric] del: append_assoc)
      then obtain m' where
        "end_stream parse render pricing (m\<lparr>m_wire := w, m_queue := m_queue m @ out\<rparr>) = Some m'"
        "stream_inv parse h m'" "m_sse m' = m_sse (m\<lparr>m_wire := w, m_queue := m_queue m @ out\<rparr>)"
        by (rule end_stream_inv)
      with n Inr False Some show ?thesis by (simp add: eof_def)
    qed
  qed
qed

lemma pull_inv:
  assumes "stream_inv parse h m"
  shows "case pull parse render pricing m us of
      Yielded ev m' us' \<Rightarrow> stream_inv parse (h @ [ev]) m' \<and> m_sse m' = m_sse m
    | Ended m' \<Rightarrow> m_done m' \<and> m_queue m' = [] \<and> stream_inv parse h m'
    | Panicked \<Rightarrow> \<not> m_sse m"
  using assms
proof (induction parse render pricing m us rule: pull.induct)
  case (1 parse render pricing m us)
  note step = pull.simps [of parse render pricing m us]
  show ?case
  proof (cases "m_queue m")
    case (Cons e q)
    with 1(3) show ?thesis
      by (auto simp: step stream_inv_def closed_history_def running_def ledger_fields split: if_splits)
  next
    case Nil
    show ?thesis
    proof (cases "m_done m")
      case True
      with Nil 1(3) show ?thesis by (simp add: step)
    next
      case False
      with 1(3) have run: "running parse h m" by (simp add: stream_inv_def)
      show ?thesis
      proof (cases us)
        case (Cons x us')
        with item_inv [OF run, of render pricing x] obtain m' where
          m': "take_item parse render pricing x m = Some m'" "stream_inv parse h m'" "m_sse m' = m_sse m"
          by (auto split: option.splits)
        have "pull parse render pricing m us = pull parse render pricing m' us'"
          using m'(1) Nil False Cons by (subst step) simp
        with 1(2) [OF Nil False Cons m'(1) m'(2)] m'(3) show ?thesis by (simp split: delivery.splits)
      next
        case us: Nil
        show ?thesis
        proof (cases "eof parse render pricing m")
          case None
          then have "pull parse render pricing m us = Panicked" using Nil False us by (subst step) simp
          with None eof_inv [OF run, of render pricing] show ?thesis by simp
        next
          case (Some m')
          with eof_inv [OF run, of render pricing] have m': "stream_inv parse h m'" "m_sse m' = m_sse m" by auto
          have "pull parse render pricing m us = pull parse render pricing m' []"
            using Some Nil False us by (subst step) simp
          with 1(1) [OF Nil False us Some m'(1)] m'(2) show ?thesis by (simp split: delivery.splits)
        qed
      qed
    qed
  qed
qed

lemma body_inv:
  assumes "stream_inv parse h m"
  shows "case body_events parse render pricing m us of
      (evs, Some m') \<Rightarrow> closed_history parse (h @ evs) m'
    | (evs, None) \<Rightarrow> \<not> m_sse m"
  using assms
proof (induction parse render pricing m us arbitrary: h rule: body_events.induct)
  case (1 parse render pricing m us)
  note step = body_events.simps [of parse render pricing m us]
  note p = pull_inv [OF 1(2), of render pricing us]
  show ?case
  proof (cases "pull parse render pricing m us")
    case (Yielded ev m' us')
    with p have "stream_inv parse (h @ [ev]) m'" "m_sse m' = m_sse m" by auto
    with 1(1) [OF Yielded] Yielded show ?thesis
      by (fastforce simp: step split: prod.splits option.splits)
  next
    case (Ended m')
    with p show ?thesis by (auto simp: step stream_inv_def)
  next
    case Panicked
    with p show ?thesis by (simp add: step)
  qed
qed

text \<open>The \<open>response\<close> function: the machine over a fresh wire. \<open>request_id\<close> is the identifier it draws.\<close>

definition wire_api :: "provider_type \<Rightarrow> string" where
  "wire_api t =
     (case t of
        Anthropic \<Rightarrow> ''anthropic-messages''
      | Google \<Rightarrow> ''google-generative-ai''
      | GoogleVertex \<Rightarrow> ''google-generative-ai''
      | OpenAIResponses \<Rightarrow> ''openai-responses''
      | OpenAICodex \<Rightarrow> ''openai-responses''
      | _ \<Rightarrow> ''openai-completions'')"

definition pi_response ::
    "string \<Rightarrow> string \<Rightarrow> provider_type \<Rightarrow> bool \<Rightarrow> string \<Rightarrow> string option \<Rightarrow> machine" where
  "pi_response provider model kind oauth_tools request_id content_type =
     machine_new ((wire_new provider model (wire_api kind) request_id)\<lparr>w_oauth_tools := oauth_tools\<rparr>)
       (is_event_stream content_type)"

lemma pi_response_inv: "stream_inv parse [] (pi_response provider model kind oauth request_id content_type)"
  by (simp add: stream_inv_def running_def pi_response_def machine_new_def wire_new_def wire_ok_def proto_of_def
      proto_init_def)


text \<open>
  Claim C35. The ledger records what the client was told. If a body is read to its end and its last event states
  a usage, the record written when the body is dropped charges the key exactly these tokens and
  exactly this cost.
\<close>

theorem pi_ledger_matches_client:
  assumes "body_events parse render pricing
      (pi_response provider model kind oauth_tools request_id content_type) us = (evs, Some m)"
    and "told_usage (last evs) = Some u"
  shows "ledger_drop True m =
    UsageRecord (pu_input u) (pu_output u) (pu_read u) (pu_write u) (pu_cost_total u)"
  using body_inv [OF pi_response_inv [of parse provider model kind oauth_tools request_id content_type],
      of render pricing us] assms
  by (simp add: closed_history_def usage_record_def)

subsection \<open>Events already queued\<close>

text \<open>Events in the queue only go ahead of what the machine does next.\<close>

definition pre :: "pi_event list \<Rightarrow> machine \<Rightarrow> machine" where
  "pre q m = m\<lparr>m_queue := q @ m_queue m\<rparr>"

lemma pre_fields [simp]:
  "m_queue (pre q m) = q @ m_queue m" "m_done (pre q m) = m_done m" "m_wire (pre q m) = m_wire m"
  "m_sse (pre q m) = m_sse m" "m_buffer (pre q m) = m_buffer m" "m_json (pre q m) = m_json m"
  "m_observed (pre q m) = m_observed m"
  "(pre q m)\<lparr>m_wire := w\<rparr> = pre q (m\<lparr>m_wire := w\<rparr>)" "(pre q m)\<lparr>m_buffer := b\<rparr> = pre q (m\<lparr>m_buffer := b\<rparr>)"
  "(pre q m)\<lparr>m_json := j\<rparr> = pre q (m\<lparr>m_json := j\<rparr>)" "(pre q m)\<lparr>m_done := d\<rparr> = pre q (m\<lparr>m_done := d\<rparr>)"
  "(pre q m)\<lparr>m_queue := q @ r\<rparr> = pre q (m\<lparr>m_queue := r\<rparr>)"
  by (simp_all add: pre_def)

lemma observe_pre [simp]: "observe pricing (pre q m) = pre q (observe pricing m)"
  by (simp add: observe_def pre_def split: option.split)

lemma fail_stream_pre [simp]: "fail_stream pricing (pre q m) = pre q (fail_stream pricing m)"
  by (simp add: fail_stream_def)

lemma end_stream_pre [simp]: "end_stream parse render pricing (pre q m) = map_option (pre q) (end_stream parse render pricing m)"
  by (simp add: end_stream_def Let_def split: prod.split sum.split fault.split)

lemma run_frames_pre [simp]:
  "run_frames parse render pricing (pre q m) fs =
     map_option (map_prod (\<lambda>ok. ok) (pre q)) (run_frames parse render pricing m fs)"
proof (induction fs arbitrary: m)
  case (Cons f fs)
  then show ?case
    by (simp add: Let_def option.map_comp comp_def split: option.split prod.split sum.split fault.split) auto
qed simp

lemma take_item_pre [simp]:
  "take_item parse render pricing x (pre q m) = map_option (pre q) (take_item parse render pricing x m)"
  by (auto simp: take_item_def chunk_def option.map_comp comp_def split: upstream_item.split prod.split sum.split
      intro!: option.map_cong0)

lemma eof_pre [simp]: "eof parse render pricing (pre q m) = map_option (pre q) (eof parse render pricing m)"
  by (simp add: eof_def split: prod.split sum.split option.split fault.split)

lemma body_pre:
  "body_events parse render pricing (pre q m) us =
     (case body_events parse render pricing m us of (evs, final) \<Rightarrow> (q @ evs, final))"
proof (induction q)
  case Nil
  then show ?case by (simp add: pre_def)
next
  case (Cons e q)
  have "pull parse render pricing (pre (e # q) m) us = Yielded e (pre q m) us"
    by (subst pull.simps) (simp add: pre_def)
  with Cons show ?case by (simp add: body_events.simps [of _ _ _ "pre (e # q) m"] split: prod.split)
qed

lemma pre_emptied: "m = pre (m_queue m) (m\<lparr>m_queue := []\<rparr>)"
  by (simp add: pre_def)

lemma body_item:
  assumes "\<not> m_done m" and "take_item parse render pricing x m = Some m'"
  shows "body_events parse render pricing m (x # us) = body_events parse render pricing m' us"
proof -
  let ?m = "m\<lparr>m_queue := []\<rparr>"
  from assms(2) obtain m1 where m1: "take_item parse render pricing x ?m = Some m1" "m' = pre (m_queue m) m1"
    by (subst (asm) pre_emptied) (auto simp del: pre_fields)
  have "pull parse render pricing ?m (x # us) = pull parse render pricing m1 us"
    using assms(1) m1(1) by (subst pull.simps) simp
  then have "body_events parse render pricing ?m (x # us) = body_events parse render pricing m1 us"
    by (simp add: body_events.simps [of _ _ _ ?m] body_events.simps [of _ _ _ m1])
  then show ?thesis by (subst pre_emptied) (simp only: m1(2) body_pre)
qed

lemma body_eof:
  assumes "\<not> m_done m" and "eof parse render pricing m = Some m'"
  shows "body_events parse render pricing m [] = body_events parse render pricing m' []"
proof -
  let ?m = "m\<lparr>m_queue := []\<rparr>"
  from assms(2) obtain m1 where m1: "eof parse render pricing ?m = Some m1" "m' = pre (m_queue m) m1"
    by (subst (asm) pre_emptied) (auto simp del: pre_fields)
  have "pull parse render pricing ?m [] = pull parse render pricing m1 []"
    using assms(1) m1(1) by (subst pull.simps) simp
  then have "body_events parse render pricing ?m [] = body_events parse render pricing m1 []"
    by (simp add: body_events.simps [of _ _ _ ?m] body_events.simps [of _ _ _ m1])
  then show ?thesis by (subst pre_emptied) (simp only: m1(2) body_pre)
qed

lemma body_done:
  assumes "m_done m"
  shows "body_events parse render pricing m us = (m_queue m, Some (m\<lparr>m_queue := []\<rparr>))"
proof -
  have "body_events parse render pricing (m\<lparr>m_queue := []\<rparr>) us = ([], Some (m\<lparr>m_queue := []\<rparr>))"
    using assms by (simp add: body_events.simps [of _ _ _ "m\<lparr>m_queue := []\<rparr>"] pull.simps [of _ _ _ "m\<lparr>m_queue := []\<rparr>"])
  then show ?thesis by (subst pre_emptied) (simp only: body_pre prod.case append_Nil2)
qed

subsection \<open>Chunks do not matter to the client\<close>

text \<open>
  The conversion without chunks: all frames one after the other, then the end. \<open>rest\<close> is what no frame ends.
\<close>

definition deliver_frames ::
    "(string \<Rightarrow> json option) \<Rightarrow> (json \<Rightarrow> string) \<Rightarrow> model_pricing \<Rightarrow> machine \<Rightarrow> string list \<Rightarrow> string \<Rightarrow>
     machine option" where
  "deliver_frames parse render pricing m frames rest =
     Option.bind (run_frames parse render pricing m frames) (\<lambda>(ok, m').
       if \<not> ok then Some (fail_stream pricing m')
       else if m_done m' then Some m' else eof parse render pricing (m'\<lparr>m_buffer := rest\<rparr>))"

lemma end_stream_last:
  "Option.bind (map_option (Pair True) (end_stream parse render pricing m)) (\<lambda>(ok, m'). if ok \<longrightarrow> m_done m' then Some (ok, m') else g m') =
     map_option (Pair True) (end_stream parse render pricing m)"
  by (cases "end_stream parse render pricing m") (auto dest: end_stream_done)

lemma run_frames_append:
  assumes "\<not> m_done m"
  shows "run_frames parse render pricing m (fs @ gs) =
    Option.bind (run_frames parse render pricing m fs) (\<lambda>(ok, m').
      if \<not> ok \<or> m_done m' then Some (ok, m') else run_frames parse render pricing m' gs)"
  using assms
proof (induction fs arbitrary: m)
  case (Cons f fs)
  then show ?case
    by (auto simp: Let_def end_stream_last split: option.split prod.split sum.split fault.split)
qed simp

text \<open>The buffer is not looked at by the conversion of frames.\<close>

definition buffered :: "string \<Rightarrow> machine \<Rightarrow> machine" where
  "buffered b m = m\<lparr>m_buffer := b\<rparr>"

lemma buffered_fields [simp]:
  "m_queue (buffered b m) = m_queue m" "m_done (buffered b m) = m_done m" "m_wire (buffered b m) = m_wire m"
  "m_sse (buffered b m) = m_sse m" "m_buffer (buffered b m) = b" "m_observed (buffered b m) = m_observed m"
  "(buffered b m)\<lparr>m_wire := w\<rparr> = buffered b (m\<lparr>m_wire := w\<rparr>)" "(buffered b m)\<lparr>m_done := d\<rparr> = buffered b (m\<lparr>m_done := d\<rparr>)"
  "(buffered b m)\<lparr>m_queue := r\<rparr> = buffered b (m\<lparr>m_queue := r\<rparr>)" "buffered b (buffered a m) = buffered b m"
  by (simp_all add: buffered_def)

lemma observe_buffered [simp]: "observe pricing (buffered b m) = buffered b (observe pricing m)"
  by (simp add: observe_def buffered_def split: option.split)

lemma fail_stream_buffered [simp]: "fail_stream pricing (buffered b m) = buffered b (fail_stream pricing m)"
  by (simp add: fail_stream_def)

lemma end_stream_buffered [simp]:
  "end_stream parse render pricing (buffered b m) = map_option (buffered b) (end_stream parse render pricing m)"
  by (simp add: end_stream_def Let_def split: prod.split sum.split fault.split)

lemma run_frames_buffered [simp]:
  "run_frames parse render pricing (buffered b m) fs =
     map_option (map_prod (\<lambda>ok. ok) (buffered b)) (run_frames parse render pricing m fs)"
proof (induction fs arbitrary: m)
  case (Cons f fs)
  then show ?case
    by (simp add: Let_def option.map_comp comp_def split: option.split prod.split sum.split fault.split) auto
qed simp

definition told :: "pi_event list \<times> machine option \<Rightarrow> (pi_event list \<times> ledger_record) option" where
  "told r = map_option (\<lambda>m. (fst r, ledger_drop True m)) (snd r)"

lemma told_done: "m_done m \<Longrightarrow> told (body_events parse render pricing m us) = Some (m_queue m, ledger_drop True m)"
  by (simp add: body_done told_def ledger_fields)

abbreviation what_is_told :: "machine \<Rightarrow> pi_event list \<times> ledger_record" where
  "what_is_told m \<equiv> (m_queue m, ledger_drop True m)"

lemma ledger_buffered [simp]: "ledger_drop k (buffered b m) = ledger_drop k m"
  by (simp add: ledger_drop_def)

lemma deliver_buffered:
  "map_option what_is_told (deliver_frames parse render pricing (buffered b m) frames rest) =
     map_option what_is_told (deliver_frames parse render pricing m frames rest)"
  by (cases "run_frames parse render pricing m frames")
    (auto simp: deliver_frames_def simp flip: buffered_def)

lemma chunks_as_frames:
  assumes "running parse h m" and "m_sse m" and "\<forall>c \<in> set cs. length c \<le> mebibytes 1"
    and "push (m_buffer m) (concat cs) = (Inr frames, rest)"
  shows "told (body_events parse render pricing m (map Chunk cs)) =
    map_option (\<lambda>m'. (m_queue m', ledger_drop True m')) (deliver_frames parse render pricing m frames rest)"
  using assms
proof (induction cs arbitrary: m frames)
  case Nil
  have "m = m\<lparr>m_buffer := rest\<rparr>" "frames = []" using Nil.prems(4) by auto
  moreover have "\<not> m_done m" using Nil.prems(1) by (simp add: running_def)
  moreover obtain m' where "eof parse render pricing m = Some m'"
    using eof_inv [OF Nil.prems(1), of render pricing] Nil.prems(2) by (auto split: option.splits)
  ultimately show ?case by (simp add: deliver_frames_def body_eof told_done eof_done)
next
  case (Cons c cs)
  have nd: "\<not> m_done m" using Cons.prems(1) by (simp add: running_def)
  have "push (m_buffer m) (c @ concat cs) = (Inr frames, rest)" using Cons.prems(4) by simp
  then obtain fs gs b where p: "push (m_buffer m) c = (Inr fs, b)" "push b (concat cs) = (Inr gs, rest)"
    "frames = fs @ gs"
    by (auto simp: push_append push_then_def split: prod.splits sum.splits)
  have run: "running parse h (buffered b m)" using Cons.prems(1) by (simp add: running_def)
  obtain ok m1 where m1: "run_frames parse render pricing (buffered b m) fs = Some (ok, m1)" "m_sse m1 = m_sse m"
    "if ok then stream_inv parse h m1 else open_history parse (h @ m_queue m1)"
    using run_frames_inv [OF run, where render = render and pricing = pricing and fs = fs] by auto
  obtain m2 where m2: "run_frames parse render pricing m fs = Some (ok, m2)" "m1 = buffered b m2"
    using m1(1) by auto
  have item: "take_item parse render pricing (Chunk c) m = Some (if ok then m1 else fail_stream pricing m1)"
    using Cons.prems(2,3) p(1) m1(1) by (simp add: take_item_def chunk_def flip: buffered_def del: run_frames_buffered)
  note body = body_item [OF nd item, of "map Chunk cs"]
  show ?case
  proof (cases "ok \<and> \<not> m_done m1")
    case True
    with m1(3) have r1: "running parse h m1" by (simp add: stream_inv_def)
    have "deliver_frames parse render pricing m frames rest = deliver_frames parse render pricing m2 gs rest"
      using True m2 nd by (simp add: deliver_frames_def p(3) run_frames_append)
    then have "map_option what_is_told (deliver_frames parse render pricing m frames rest) =
        map_option what_is_told (deliver_frames parse render pricing m1 gs rest)"
      by (simp add: m2(2) deliver_buffered)
    with Cons.IH [OF r1] True body m1(2) m2(2) p(2) Cons.prems(2,3) show ?thesis by simp
  next
    case False
    with m2 nd body show ?thesis
      by (auto simp: deliver_frames_def p(3) run_frames_append told_done ledger_drop_def)
  qed
qed

text \<open>
  Claim C36. The chunks of the network do not matter. When the bytes of a streaming provider split into frames at
  all, and no chunk is longer than a mebibyte, then the events the client receives and the record in
  the ledger are those of the conversion of the frames one after another, however the bytes were cut.
\<close>

theorem pi_stream_chunk_independent:
  assumes "\<forall>c \<in> set cs. length c \<le> mebibytes 1" and "push [] (concat cs) = (Inr frames, rest)"
  shows "told (body_events parse render pricing
      (pi_response provider model kind oauth_tools request_id (Some ''text/event-stream'')) (map Chunk cs)) =
    map_option (\<lambda>m. (m_queue m, ledger_drop True m))
      (deliver_frames parse render pricing
        (pi_response provider model kind oauth_tools request_id (Some ''text/event-stream'')) frames rest)"
proof (rule chunks_as_frames [OF _ _ assms(1)])
  let ?m = "pi_response provider model kind oauth_tools request_id (Some ''text/event-stream'')"
  show "running parse [] ?m"
    using pi_response_inv [of parse provider model kind oauth_tools request_id "Some ''text/event-stream''"]
    by (simp add: stream_inv_def) (simp add: pi_response_def machine_new_def)
  show "m_sse ?m" by (simp add: pi_response_def machine_new_def is_event_stream_def starts_with_def)
  show "push (m_buffer ?m) (concat cs) = (Inr frames, rest)"
    using assms(2) by (simp add: pi_response_def machine_new_def)
qed

subsection \<open>Runs\<close>

lemmas wire_run =
  and_then_def get_wire_def put_wire_def done_with_def fail_with_def demand_def unless_bad_def append_event_def skip_def
  when_some_def jat_def obj_def non_null_def wire_start_def wire_block_def open_block_def fresh_block_def
  wire_delta_def block_at_def set_block_def mebibytes_def wire_end_def end_event_def has_tools_def
  wire_usage_def usage_tokens_def checked_add_def checked_sub_def add_overflows_def rate_cost_def f64_of_u32_def
  wire_count_def optional_count_def set_counts_def set_terminal_def set_stop_def stop_reason_def wire_finish_def Let_def

lemmas machine_run =
  wire_run pi_response_def machine_new_def is_event_stream_def wire_new_def wire_api_def take_item_def chunk_def
  eof_def end_stream_def observe_def observed_usage_def fail_stream_def native_complete_def native_parse_def

definition sample_answer :: json where
  "sample_answer =
     JObj [(''choices'', JArr [JObj [(''finish_reason'', JStr ''stop''),
                                    (''message'', JObj [(''content'', JStr ''hi'')])]]),
           (''usage'', JObj [(''completion_tokens'', JNum (PosInt 2)), (''prompt_tokens'', JNum (PosInt 3))])]"

definition free_pricing :: model_pricing where
  "free_pricing = embedded ''m'' ''p'' (Fin 0) (Fin 0) None None 1000 1000 False False"

abbreviation sample_parse :: "json \<Rightarrow> string \<Rightarrow> json option" where
  "sample_parse v s \<equiv> if s = ''v'' then Some v else None"

lemmas sample_defs =
  machine_run chat_complete_def number_calls_def chat_parse_def chat_defs chat_fields_def free_pricing_def embedded_def
  round64_def

lemma sample_run:
  "\<exists>m. body_events (sample_parse sample_answer) (\<lambda>_. []) free_pricing
     (pi_response ''p'' ''m'' OpenAI False ''id'' None) [Chunk ''v''] =
   ([EvStart, EvBlockStart TextBlock 0 [] [], EvDelta TextBlock 0 ''hi'', EvTextEnd 0 ''hi'' None,
     EvDone ''stop'' \<lparr>pu_input = 3, pu_output = 2, pu_read = 0, pu_write = 0, pu_total = 5, pu_cost_input = Fin 0,
       pu_cost_output = Fin 0, pu_cost_read = Fin 0, pu_cost_write = Fin 0, pu_cost_total = Fin 0\<rparr> None], Some m)"
  apply (subst body_item)
    apply (simp_all add: machine_run)
  apply (subst body_eof)
   apply (simp_all add: sample_defs sample_answer_def)
  apply (simp add: body_done)
  done

theorem pi_ledger_matches_client_witness:
  "\<exists>m. snd (body_events (sample_parse sample_answer) (\<lambda>_. []) free_pricing
       (pi_response ''p'' ''m'' OpenAI False ''id'' None) [Chunk ''v'']) = Some m \<and>
     ledger_drop True m = UsageRecord 3 2 0 0 (Fin 0)"
proof -
  obtain m evs u where r: "body_events (sample_parse sample_answer) (\<lambda>_. []) free_pricing
       (pi_response ''p'' ''m'' OpenAI False ''id'' None) [Chunk ''v''] = (evs, Some m)"
    "told_usage (last evs) = Some u" "pu_input u = 3" "pu_output u = 2" "pu_read u = 0" "pu_write u = 0"
    "pu_cost_total u = Fin 0"
    using sample_run by (auto simp: told_usage_def)
  from pi_ledger_matches_client [OF r(1,2)] r show ?thesis by auto
qed

theorem pi_stream_chunk_independent_witness:
  "told (body_events (\<lambda>_. None) (\<lambda>_. []) free_pricing
      (pi_response ''p'' ''m'' OpenAI False ''id'' (Some ''text/event-stream''))
      (map Chunk [''data: x'', [lf, lf] @ ''data'', '': y'' @ [cr, cr] @ ''z''])) =
    map_option what_is_told
      (deliver_frames (\<lambda>_. None) (\<lambda>_. []) free_pricing
        (pi_response ''p'' ''m'' OpenAI False ''id'' (Some ''text/event-stream''))
        [''data: x'' @ [lf, lf], ''data: y'' @ [cr, cr]] ''z'')"
proof (rule pi_stream_chunk_independent)
  show "push [] (concat [''data: x'', [lf, lf] @ ''data'', '': y'' @ [cr, cr] @ ''z'']) =
      (Inr [''data: x'' @ [lf, lf], ''data: y'' @ [cr, cr]], ''z'')"
    by (simp add: push_byte_def frame_limit_def event_ended_def ends_with_def starts_with_def byte_in_def)
qed (simp add: mebibytes_def)

text \<open>
  An answer that is not streamed can end in a panic. The calls of a chat completion get their index by
  assignment through \<open>Value\<close>'s index, which panics on a call that is no object: the provider decides.
\<close>

theorem pi_tool_call_panics:
  "\<exists>v. body_events (sample_parse v) render pricing (pi_response provider model OpenAI oauth_tools request_id None)
       [Chunk ''v''] = ([], None)"
proof -
  let ?v = "JObj [(''choices'', JArr [JObj [(''message'', JObj [(''tool_calls'', JArr [JStr ''x''])])]])]"
  let ?m = "pi_response provider model OpenAI oauth_tools request_id None"
  have "pull (sample_parse ?v) render pricing ?m [Chunk ''v''] = Panicked"
    by (subst pull.simps) (simp add: machine_run, subst pull.simps, simp add: machine_run chat_complete_def number_calls_def)
  then show ?thesis by (intro exI [of _ ?v]) (simp add: body_events.simps)
qed

end
