(* ===== verification/Provider_Settings.thy ===== *)
theory Provider_Settings
  imports Provider_Routing
begin

section \<open>Settings of a provider\<close>

text \<open>
  The defaults per provider type (src/provider.rs) and the resolution of a provider's settings
  (\<open>ProviderConfig\<close> of src/config.rs): a value may name an environment variable or an entry of the
  system keychain. The environment and the keychain are arguments.
\<close>

datatype auth_style = BearerToken | ApiKeyHeader string | QueryParam string | AzureApiKey | NoAuth

record provider_info =
  pi_base_url :: "string option"
  pi_env_key :: "string option"
  pi_auth :: auth_style

definition info_of :: "string option \<Rightarrow> string option \<Rightarrow> auth_style \<Rightarrow> provider_info" where
  "info_of base env_key auth = \<lparr>pi_base_url = base, pi_env_key = env_key, pi_auth = auth\<rparr>"

fun type_info :: "provider_type \<Rightarrow> provider_info" where
  "type_info OpenAI = info_of (Some ''https://api.openai.com/v1'') (Some ''OPENAI_API_KEY'') BearerToken"
| "type_info Anthropic =
     info_of (Some ''https://api.anthropic.com/v1'') (Some ''ANTHROPIC_API_KEY'') (ApiKeyHeader ''x-api-key'')"
| "type_info Google =
     info_of (Some ''https://generativelanguage.googleapis.com/v1beta'') (Some ''GEMINI_API_KEY'') BearerToken"
| "type_info Azure = info_of None (Some ''AZURE_OPENAI_KEY'') AzureApiKey"
| "type_info Mistral = info_of (Some ''https://api.mistral.ai/v1'') (Some ''MISTRAL_API_KEY'') BearerToken"
| "type_info Groq = info_of (Some ''https://api.groq.com/openai/v1'') (Some ''GROQ_API_KEY'') BearerToken"
| "type_info Cerebras = info_of (Some ''https://api.cerebras.ai/v1'') (Some ''CEREBRAS_API_KEY'') BearerToken"
| "type_info XAI = info_of (Some ''https://api.x.ai/v1'') (Some ''XAI_API_KEY'') BearerToken"
| "type_info OpenRouter =
     info_of (Some ''https://openrouter.ai/api/v1'') (Some ''OPENROUTER_API_KEY'') BearerToken"
| "type_info Bedrock = info_of None None NoAuth"
| "type_info OpenAICompatible = info_of None None BearerToken"
| "type_info OpenAICodex = info_of (Some ''https://chatgpt.com/backend-api'') None BearerToken"
| "type_info OpenAIResponses = info_of (Some ''https://api.openai.com/v1'') (Some ''OPENAI_API_KEY'') BearerToken"
| "type_info GithubCopilot = info_of (Some ''https://api.individual.githubcopilot.com'') None BearerToken"
| "type_info GoogleVertex = info_of None (Some ''GEMINI_API_KEY'') BearerToken"
| "type_info OpenCode = info_of (Some ''https://opencode.ai/zen/v1'') (Some ''OPENCODE_API_KEY'') BearerToken"
| "type_info OpenCodeGo =
     info_of (Some ''https://opencode.ai/zen/go/v1'') (Some ''OPENCODE_API_KEY'') BearerToken"
| "type_info TypeSafe = info_of (Some ''https://api.typesafe.ai/v1'') (Some ''TYPESAFE_API_KEY'') BearerToken"
| "type_info ElevenLabs =
     info_of (Some ''https://api.elevenlabs.io/v1'') (Some ''ELEVENLABS_API_KEY'') (ApiKeyHeader ''xi-api-key'')"
| "type_info Cohere = info_of (Some ''https://api.cohere.com'') (Some ''COHERE_API_KEY'') BearerToken"
| "type_info Voyage = info_of (Some ''https://api.voyageai.com/v1'') (Some ''VOYAGE_API_KEY'') BearerToken"
| "type_info Fal = info_of (Some ''https://queue.fal.run'') (Some ''FAL_KEY'') NoAuth"
| "type_info Replicate =
     info_of (Some ''https://api.replicate.com/v1'') (Some ''REPLICATE_API_TOKEN'') BearerToken"
| "type_info Mock = info_of (Some ''mock://localhost'') None NoAuth"

definition is_mock :: "provider_type \<Rightarrow> bool" where
  "is_mock t \<longleftrightarrow> t = Mock"

definition is_openai_compatible :: "provider_type \<Rightarrow> bool" where
  "is_openai_compatible t \<longleftrightarrow>
     t \<in> {OpenAI, Azure, Mistral, Groq, Cerebras, XAI, OpenRouter, OpenAICompatible, GithubCopilot, OpenCode,
          OpenCodeGo}"

definition type_needs_transform :: "provider_type \<Rightarrow> bool" where
  "type_needs_transform t \<longleftrightarrow>
     t \<in> {Anthropic, Google, GoogleVertex, Bedrock, OpenAICodex, OpenAIResponses}"

text \<open>The models a provider without a listing is said to have. \<open>mock_ids\<close> are those of the mock provider.\<close>

definition synthetic_models :: "string list \<Rightarrow> provider_type \<Rightarrow> string list" where
  "synthetic_models mock_ids t =
     (case t of
        Anthropic \<Rightarrow>
          [''claude-3-5-sonnet-20241022'', ''claude-3-5-haiku-20241022'', ''claude-3-opus-20240229'',
           ''claude-3-sonnet-20240229'', ''claude-3-haiku-20240307'', ''claude-sonnet-4-20250514'',
           ''claude-haiku-4-20250514'']
      | Google \<Rightarrow>
          [''gemini-1.5-pro'', ''gemini-1.5-flash'', ''gemini-1.5-flash-8b'', ''gemini-2.0-flash-exp'',
           ''gemini-exp-1206'']
      | Azure \<Rightarrow> [''gpt-4o'', ''gpt-4o-mini'', ''gpt-4'', ''gpt-4-turbo'', ''gpt-35-turbo'']
      | Bedrock \<Rightarrow>
          [''anthropic.claude-3-5-sonnet-20241022-v2:0'', ''anthropic.claude-3-5-haiku-20241022-v1:0'',
           ''anthropic.claude-3-opus-20240229-v1:0'', ''anthropic.claude-3-sonnet-20240229-v1:0'',
           ''amazon.titan-text-express-v1'', ''meta.llama3-70b-instruct-v1:0'']
      | Cerebras \<Rightarrow> [''llama3.1-8b'', ''llama3.1-70b'']
      | GithubCopilot \<Rightarrow>
          [''claude-sonnet-4-20250514'', ''claude-haiku-4.5'', ''gpt-4o'', ''gpt-4o-mini'', ''o4-mini'', ''o3'',
           ''gemini-2.5-pro'']
      | GoogleVertex \<Rightarrow> [''gemini-1.5-pro'', ''gemini-1.5-flash'', ''gemini-2.0-flash-exp'']
      | Mock \<Rightarrow> ''mock-model'' # mock_ids
      | _ \<Rightarrow> [])"

subsection \<open>Settings that name their value\<close>

record host =
  env_var :: "string \<Rightarrow> string option"
  keychain :: "string \<Rightarrow> string option"

definition get_api_key :: "host \<Rightarrow> string \<Rightarrow> string option" where
  "get_api_key h v =
     (if v = [] then None
      else case strip_prefix ''env:'' v of
             Some var \<Rightarrow> env_var h var
           | None \<Rightarrow> (case strip_prefix ''keychain:'' v of Some account \<Rightarrow> keychain h account | None \<Rightarrow> Some v))"

record compat_settings =
  cs_store :: "bool option"
  cs_developer_role :: "bool option"
  cs_max_tokens_field :: "string option"
  cs_stream_options :: "bool option"

record provider_settings =
  ps_type :: string
  ps_api_key :: string
  ps_base_url :: string
  ps_api_version :: "string option"
  ps_compat :: compat_settings
  ps_headers :: "(string \<times> string) list"
  ps_aws_region :: string
  ps_aws_service :: string
  ps_deployment :: string
  ps_gcp_project :: string
  ps_gcp_location :: string

definition settings_type :: "provider_settings \<Rightarrow> provider_type" where
  "settings_type ps = type_from_str (ps_type ps)"

definition or_else :: "'a option \<Rightarrow> 'a option \<Rightarrow> 'a option" where
  "or_else a b = (case a of Some x \<Rightarrow> Some x | None \<Rightarrow> b)"

definition resolved_aws_region :: "host \<Rightarrow> provider_settings \<Rightarrow> string option" where
  "resolved_aws_region h ps = or_else (get_api_key h (ps_aws_region ps)) (env_var h ''AWS_REGION'')"

definition resolved_aws_service :: "host \<Rightarrow> provider_settings \<Rightarrow> string" where
  "resolved_aws_service h ps =
     (case get_api_key h (ps_aws_service ps) of
        Some s \<Rightarrow> if s \<noteq> [] then s else ''bedrock'' | None \<Rightarrow> ''bedrock'')"

definition resolved_gcp_project :: "host \<Rightarrow> provider_settings \<Rightarrow> string option" where
  "resolved_gcp_project h ps =
     or_else (or_else (get_api_key h (ps_gcp_project ps)) (env_var h ''GOOGLE_CLOUD_PROJECT''))
       (env_var h ''GCLOUD_PROJECT'')"

definition resolved_gcp_location :: "host \<Rightarrow> provider_settings \<Rightarrow> string option" where
  "resolved_gcp_location h ps = or_else (get_api_key h (ps_gcp_location ps)) (env_var h ''GOOGLE_CLOUD_LOCATION'')"

definition default_base_url :: "host \<Rightarrow> provider_settings \<Rightarrow> string" where
  "default_base_url h ps =
     (let t = settings_type ps
      in case (if t = Bedrock
               then map_option (\<lambda>region. ''https://bedrock-runtime.'' @ region @ ''.amazonaws.com'') (resolved_aws_region h ps)
               else if t = GoogleVertex
               then map_option (\<lambda>location. ''https://'' @ location @ ''-aiplatform.googleapis.com'') (resolved_gcp_location h ps)
               else None) of
           Some u \<Rightarrow> u
         | None \<Rightarrow> (case pi_base_url (type_info t) of Some u \<Rightarrow> u | None \<Rightarrow> ''http://localhost:8000/v1''))"

definition resolved_base_url :: "host \<Rightarrow> provider_settings \<Rightarrow> string" where
  "resolved_base_url h ps =
     (case get_api_key h (ps_base_url ps) of
        Some u \<Rightarrow> if u \<noteq> [] then u else if ps_base_url ps = [] then default_base_url h ps else ps_base_url ps
      | None \<Rightarrow> if ps_base_url ps = [] then default_base_url h ps else ps_base_url ps)"

definition resolved_api_key :: "host \<Rightarrow> provider_settings \<Rightarrow> string" where
  "resolved_api_key h ps =
     (case get_api_key h (ps_api_key ps) of
        Some k \<Rightarrow> k
      | None \<Rightarrow>
          (case pi_env_key (type_info (settings_type ps)) of
             Some var \<Rightarrow> (case env_var h var of Some k \<Rightarrow> k | None \<Rightarrow> [])
           | None \<Rightarrow> []))"

definition resolved_api_version :: "host \<Rightarrow> provider_settings \<Rightarrow> string option" where
  "resolved_api_version h ps = Option.bind (ps_api_version ps) (get_api_key h)"

definition resolved_deployment :: "host \<Rightarrow> provider_settings \<Rightarrow> string option" where
  "resolved_deployment h ps = (if ps_deployment ps = [] then None else get_api_key h (ps_deployment ps))"

subsection \<open>Compatibility settings\<close>

definition compat_of :: "bool \<Rightarrow> compat_settings" where
  "compat_of developer_role =
     \<lparr>cs_store = Some False, cs_developer_role = Some developer_role, cs_max_tokens_field = Some ''max_tokens'',
      cs_stream_options = Some False\<rparr>"

definition no_compat :: compat_settings where
  "no_compat = \<lparr>cs_store = None, cs_developer_role = None, cs_max_tokens_field = None, cs_stream_options = None\<rparr>"

definition detect_compat :: "string \<Rightarrow> compat_settings" where
  "detect_compat base_url =
     (let url = to_lower base_url
      in if contains_str ''litellm'' url \<or> contains_str '':4000'' url then compat_of True
         else if contains_str ''11434'' url \<or> contains_str ''ollama'' url then compat_of False
         else if contains_str ''vllm'' url \<or> contains_str '':8000'' url then compat_of False
         else no_compat)"

definition with_detected_defaults :: "compat_settings \<Rightarrow> string \<Rightarrow> compat_settings" where
  "with_detected_defaults cs base_url =
     (let d = detect_compat base_url
      in \<lparr>cs_store = or_else (cs_store cs) (cs_store d),
          cs_developer_role = or_else (cs_developer_role cs) (cs_developer_role d),
          cs_max_tokens_field = or_else (cs_max_tokens_field cs) (cs_max_tokens_field d),
          cs_stream_options = or_else (cs_stream_options cs) (cs_stream_options d)\<rparr>)"

definition resolved_compat :: "host \<Rightarrow> provider_settings \<Rightarrow> compat_settings" where
  "resolved_compat h ps = with_detected_defaults (ps_compat ps) (resolved_base_url h ps)"

definition compat_flag :: "bool option \<Rightarrow> bool" where
  "compat_flag b = (case b of Some x \<Rightarrow> x | None \<Rightarrow> True)"

definition max_tokens_field :: "compat_settings \<Rightarrow> string" where
  "max_tokens_field cs = (case cs_max_tokens_field cs of Some f \<Rightarrow> f | None \<Rightarrow> ''max_completion_tokens'')"

lemma with_detected_defaults_idem:
  "with_detected_defaults (with_detected_defaults cs url) url = with_detected_defaults cs url"
  by (simp add: with_detected_defaults_def Let_def or_else_def split: option.split)

lemma get_api_key_plain:
  "v \<noteq> [] \<Longrightarrow> strip_prefix ''env:'' v = None \<Longrightarrow> strip_prefix ''keychain:'' v = None \<Longrightarrow> get_api_key h v = Some v"
  by (simp add: get_api_key_def)

lemma resolved_base_url_nonempty: "resolved_base_url h ps \<noteq> []"
proof -
  have "pi_base_url (type_info t) \<noteq> Some []" for t by (cases t) (simp_all add: info_of_def)
  then have "default_base_url h ps \<noteq> []"
    by (auto simp: default_base_url_def Let_def info_of_def split: option.split)
  then show ?thesis by (auto simp: resolved_base_url_def split: option.split)
qed

end
