(* ===== verification/Upstream_Headers.thy ===== *)
theory Upstream_Headers
  imports Provider_Settings Client_Identity Json "HOL-Library.Sublist"
begin

section \<open>The headers of an upstream request\<close>

text \<open>
  The second half of the proxy handler builds the request to the provider from an empty header map
  (src/proxy.rs): credentials by the type of the provider, listed client headers, the client's
  identity, configured headers, and the beta features of Anthropic. The HTTP package's tests of header
  names and values, base64, the JSON reader and SHA-256 are arguments.
\<close>

record header_tools =
  ht_sha256 :: "string \<Rightarrow> u8 list"
  ht_version :: string
  ht_name_ok :: "string \<Rightarrow> bool"
  ht_value_ok :: "string \<Rightarrow> bool"
  ht_base64 :: "string \<Rightarrow> string option"
  ht_parse :: "string \<Rightarrow> json option"
  ht_env :: "string \<Rightarrow> string option"

subsection \<open>Credentials\<close>

definition is_anthropic_oauth_token :: "string \<Rightarrow> bool" where
  "is_anthropic_oauth_token key \<longleftrightarrow> starts_with ''sk-ant-oat'' key"

definition is_openai_codex_oauth_token :: "string \<Rightarrow> bool" where
  "is_openai_codex_oauth_token key \<longleftrightarrow> starts_with ''eyJ'' key \<and> CHR ''.'' \<in> set key"

definition first_field :: "json \<Rightarrow> string list \<Rightarrow> json option" where
  "first_field v ks = find_map (jget v) ks"

definition account_fields :: "string list" where
  "account_fields = [''chatgpt_account_id'', ''account_id'', ''org_id'']"

definition url_safe_to_standard :: "string \<Rightarrow> string" where
  "url_safe_to_standard s = map (\<lambda>c. if c = CHR ''-'' then CHR ''+'' else if c = CHR ''_'' then CHR ''/'' else c) s"

definition extract_openai_account_id :: "header_tools \<Rightarrow> string \<Rightarrow> string option" where
  "extract_openai_account_id ht token =
     (case split_at (CHR ''.'') token of
        [_, payload, _] \<Rightarrow>
          (let padded = (if length payload mod 4 = 2 then payload @ ''==''
                         else if length payload mod 4 = 3 then payload @ ''='' else payload)
           in Option.bind (ht_base64 ht (url_safe_to_standard padded)) (\<lambda>bytes.
              Option.bind (ht_parse ht bytes) (\<lambda>claims.
              or_else
                (Option.bind (jget claims ''https://api.openai.com/auth'') (\<lambda>auth.
                   Option.bind (first_field auth account_fields) as_str))
                (Option.bind (first_field claims account_fields) as_str))))
      | _ \<Rightarrow> None)"

definition insert_valid :: "header_tools \<Rightarrow> string \<Rightarrow> string \<Rightarrow> headers \<Rightarrow> headers" where
  "insert_valid ht n v hs = (if ht_value_ok ht v then set_header n v hs else hs)"

definition set_all :: "(string \<times> string) list \<Rightarrow> headers \<Rightarrow> headers" where
  "set_all kvs hs = foldl (\<lambda>hs (n, v). set_header n v hs) hs kvs"

definition apply_auth_headers :: "header_tools \<Rightarrow> provider_type \<Rightarrow> string \<Rightarrow> headers \<Rightarrow> headers" where
  "apply_auth_headers ht t key hs =
     (if key = [] then hs
      else
        let bearer = insert_valid ht ''authorization'' (''Bearer '' @ key) hs
        in if t = Anthropic \<and> is_anthropic_oauth_token key
           then set_all [(''anthropic-beta'', ''oauth-2025-04-20, interleaved-thinking-2025-05-14''),
                         (''user-agent'', ''claude-cli/2.1.75 (external, cli)''), (''x-app'', ''cli'')] bearer
           else if t = GithubCopilot
           then set_all [(''user-agent'', ''GitHubCopilotChat/0.35.0''), (''editor-version'', ''vscode/1.107.0''),
                         (''editor-plugin-version'', ''copilot-chat/0.35.0''),
                         (''copilot-integration-id'', ''vscode-chat'')] bearer
           else if t = OpenAICodex \<and> is_openai_codex_oauth_token key
           then set_all [(''openai-beta'', ''responses=experimental''), (''originator'', ''codex_cli_rs'')]
                  (case extract_openai_account_id ht key of
                     Some account \<Rightarrow> insert_valid ht ''chatgpt-account-id'' account bearer
                   | None \<Rightarrow> bearer)
           else case pi_auth (type_info t) of
                  BearerToken \<Rightarrow> bearer
                | ApiKeyHeader n \<Rightarrow> insert_valid ht n key hs
                | AzureApiKey \<Rightarrow> insert_valid ht ''api-key'' key hs
                | _ \<Rightarrow> hs)"

definition apply_extra_headers :: "provider_type \<Rightarrow> headers \<Rightarrow> headers" where
  "apply_extra_headers t hs =
     (case t of
        Anthropic \<Rightarrow> set_header ''anthropic-version'' ''2023-06-01'' hs
      | OpenRouter \<Rightarrow> set_header ''http-referer'' ''https://github.com/eavs-proxy'' hs
      | _ \<Rightarrow> hs)"

subsection \<open>Beta features\<close>

definition bedrock_is_claude_model :: "string \<Rightarrow> bool" where
  "bedrock_is_claude_model model =
     (let stripped = (case find_map (\<lambda>p. strip_prefix p model) [''us.'', ''eu.'', ''apac.''] of
                        Some rest \<Rightarrow> rest | None \<Rightarrow> model)
      in starts_with ''anthropic.'' stripped)"

definition should_apply_anthropic_beta_headers :: "provider_type \<Rightarrow> string \<Rightarrow> bool" where
  "should_apply_anthropic_beta_headers t model \<longleftrightarrow> t = Anthropic \<or> t = Bedrock \<and> bedrock_is_claude_model model"

definition member_is :: "(string \<times> json) list \<Rightarrow> string \<Rightarrow> string list \<Rightarrow> bool" where
  "member_is m k texts \<longleftrightarrow>
     (case Option.bind (map_of m k) as_str of Some s \<Rightarrow> list_ex (eq_ignore_case s) texts | None \<Rightarrow> False)"

definition has_key :: "(string \<times> json) list \<Rightarrow> string list \<Rightarrow> bool" where
  "has_key m ks \<longleftrightarrow> list_ex (\<lambda>k. map_of m k \<noteq> None) ks"

definition own_betas :: "(string \<times> json) list \<Rightarrow> string list" where
  "own_betas m =
     (if has_key m [''cache_control''] then [''prompt-caching-2024-07-31''] else []) @
     (if member_is m ''media_type'' [''application/pdf''] \<or> member_is m ''type'' [''document'']
      then [''pdfs-2024-09-25''] else []) @
     (if member_is m ''type'' [''computer_use'', ''computer''] \<or> member_is m ''name'' [''computer'']
      then [''computer-use-2024-10-22''] else []) @
     (if has_key m [''file_id'', ''file_ids''] then [''files-api-2025-04-14''] else []) @
     (if has_key m [''mcp_servers'', ''mcpServers'', ''mcp''] then [''mcp-client-2025-04-04''] else [])"

fun beta_scan :: "json \<Rightarrow> string list" where
  "beta_scan (JObj m) = own_betas m @ concat (map (\<lambda>(k, v). beta_scan v) m)"
| "beta_scan (JArr vs) = concat (map beta_scan vs)"
| "beta_scan _ = []"

text \<open>A \<open>BTreeSet\<close> read in order.\<close>

definition sorted_set :: "string list \<Rightarrow> string list" where
  "sorted_set xs = remdups_adj (sort xs)"

definition anthropic_beta_tokens_for_request :: "json \<Rightarrow> string list" where
  "anthropic_beta_tokens_for_request body = sorted_set (beta_scan body)"

fun join_comma :: "string list \<Rightarrow> string" where
  "join_comma [] = []"
| "join_comma [x] = x"
| "join_comma (x # y # xs) = x @ '', '' @ join_comma (y # xs)"

definition csv_parts :: "string \<Rightarrow> string list" where
  "csv_parts s = filter (\<lambda>p. p \<noteq> []) (map trim (split_at (CHR '','') s))"

definition upsert_csv_header :: "header_tools \<Rightarrow> string \<Rightarrow> string list \<Rightarrow> headers \<Rightarrow> headers" where
  "upsert_csv_header ht n values hs =
     (if values = [] then hs
      else insert_valid ht n
             (join_comma (sorted_set (values @ (case get_header n hs of Some s \<Rightarrow> csv_parts s | None \<Rightarrow> [])))) hs)"

subsection \<open>Claude Code\<close>

definition claude_code_forwarded :: "string list" where
  "claude_code_forwarded =
     [''anthropic-beta'', ''anthropic-version'', ''anthropic-dangerous-direct-browser-access'', ''user-agent'', ''x-app'',
      ''x-claude-code-session-id'', ''x-client-request-id'', ''x-stainless-arch'', ''x-stainless-async'',
      ''x-stainless-helper-method'', ''x-stainless-lang'', ''x-stainless-os'', ''x-stainless-package-version'',
      ''x-stainless-retry-count'', ''x-stainless-runtime'', ''x-stainless-runtime-version'', ''x-stainless-timeout'']"

definition get_all :: "string \<Rightarrow> headers \<Rightarrow> string list" where
  "get_all n hs = map snd (filter (\<lambda>(n', v). n' = n) hs)"

definition forward_one :: "headers \<Rightarrow> headers \<Rightarrow> string \<Rightarrow> headers" where
  "forward_one client hs n = remove_header n hs @ map (Pair n) (get_all n client)"

definition forward_claude_code_headers :: "headers \<Rightarrow> headers \<Rightarrow> headers" where
  "forward_claude_code_headers client hs = foldl (forward_one client) hs claude_code_forwarded"

definition header_text :: "string \<Rightarrow> headers \<Rightarrow> string" where
  "header_text n hs = (case get_header n hs of Some v \<Rightarrow> v | None \<Rightarrow> [])"

definition is_claude_code_request :: "headers \<Rightarrow> json \<Rightarrow> string \<Rightarrow> bool" where
  "is_claude_code_request hs body path \<longleftrightarrow>
     header_text ''x-app'' hs = ''cli'' \<and> starts_with ''claude-cli/'' (header_text ''user-agent'' hs) \<and>
     list_ex (\<lambda>b. trim b = ''claude-code-20250219'') (split_at (CHR '','') (header_text ''anthropic-beta'' hs)) \<and>
     (ends_with ''/count_tokens'' path \<or>
      (case Option.bind (jget body ''system'') as_array of
         Some blocks \<Rightarrow>
           list_ex (\<lambda>b. case str_field b ''text'' of
                          Some t \<Rightarrow> starts_with ''x-anthropic-billing-header:'' t | None \<Rightarrow> False) blocks
       | None \<Rightarrow> False))"

subsection \<open>All headers of the request\<close>

text \<open>
  What the handler knows when it builds the headers. \<open>hc_custom\<close> are the configured headers in the
  order of their map, \<open>hc_native\<close> those that the inference ingress attached, \<open>hc_betas\<close> the body that is
  searched for beta features. The signature of a Bedrock request comes after all of these.
\<close>

record header_context =
  hc_type :: provider_type
  hc_api_key :: string
  hc_provider :: string
  hc_tenant :: "string option"
  hc_model :: string
  hc_listed :: "string list"
  hc_identity :: identity_config
  hc_custom :: "(string \<times> string) list"
  hc_native :: "headers option"
  hc_betas :: json
  hc_opaque :: bool
  hc_has_body :: bool
  hc_anthropic_native :: bool
  hc_claude_code :: bool

definition content_headers :: "header_context \<Rightarrow> headers \<Rightarrow> headers" where
  "content_headers hc client =
     (if \<not> hc_has_body hc then []
      else if hc_opaque hc
      then (case get_header ''content-type'' client of Some v \<Rightarrow> [(''content-type'', v)] | None \<Rightarrow> [])
      else [(''content-type'', ''application/json'')])"

definition custom_header :: "header_tools \<Rightarrow> header_context \<Rightarrow> headers \<Rightarrow> string \<times> string \<Rightarrow> headers" where
  "custom_header ht hc hs kv =
     (case kv of (k, v) \<Rightarrow>
        if hc_type hc = Bedrock \<and> starts_with ''anthropic-'' (to_lower k) \<and> \<not> bedrock_is_claude_model (hc_model hc)
        then hs
        else case (case strip_prefix ''env:'' v of Some var \<Rightarrow> ht_env ht var | None \<Rightarrow> Some v) of
               None \<Rightarrow> hs
             | Some resolved \<Rightarrow>
                 if ht_name_ok ht k \<and> ht_value_ok ht resolved then set_header (to_lower k) resolved hs else hs)"

definition native_beta_headers :: "header_tools \<Rightarrow> header_context \<Rightarrow> headers \<Rightarrow> headers \<Rightarrow> headers" where
  "native_beta_headers ht hc client hs =
     (if hc_anthropic_native hc
      then (case get_header ''anthropic-beta'' client of
              Some v \<Rightarrow> upsert_csv_header ht ''anthropic-beta'' (csv_parts v) hs | None \<Rightarrow> hs)
      else hs)"

definition wants_claude_code_beta :: "headers \<Rightarrow> bool" where
  "wants_claude_code_beta client \<longleftrightarrow>
     (case get_header ''anthropic-beta'' client of
        Some v \<Rightarrow> list_ex (\<lambda>p. trim p = ''claude-code-20250219'') (split_at (CHR '','') v) | None \<Rightarrow> False)"

definition oauth_beta_headers :: "header_tools \<Rightarrow> header_context \<Rightarrow> headers \<Rightarrow> headers \<Rightarrow> headers" where
  "oauth_beta_headers ht hc client hs =
     (if hc_type hc = Anthropic \<and> is_anthropic_oauth_token (hc_api_key hc) \<and> wants_claude_code_beta client
      then upsert_csv_header ht ''anthropic-beta'' [''claude-code-20250219''] hs else hs)"

definition body_beta_headers :: "header_tools \<Rightarrow> header_context \<Rightarrow> headers \<Rightarrow> headers" where
  "body_beta_headers ht hc hs =
     (if should_apply_anthropic_beta_headers (hc_type hc) (hc_model hc)
      then upsert_csv_header ht ''anthropic-beta'' (anthropic_beta_tokens_for_request (hc_betas hc)) hs else hs)"

definition configured_headers :: "header_tools \<Rightarrow> header_context \<Rightarrow> headers \<Rightarrow> headers" where
  "configured_headers ht hc client =
     (let h1 = apply_extra_headers (hc_type hc)
                 (apply_auth_headers ht (hc_type hc) (hc_api_key hc) (content_headers hc client));
          h2 = apply_pass_through_headers (ht_name_ok ht) client (hc_listed hc) h1;
          h3 = apply_client_identity (ht_sha256 ht) (ht_version ht) (ht_name_ok ht) (ht_value_ok ht) client
                 (hc_identity hc) (hc_type hc) (hc_provider hc) (hc_tenant hc) h2;
          h4 = foldl (custom_header ht hc) h3 (hc_custom hc)
      in case hc_native hc of Some ns \<Rightarrow> set_all ns h4 | None \<Rightarrow> h4)"

definition upstream_headers :: "header_tools \<Rightarrow> header_context \<Rightarrow> headers \<Rightarrow> headers" where
  "upstream_headers ht hc client =
     (let hs = oauth_beta_headers ht hc client (native_beta_headers ht hc client
                 (body_beta_headers ht hc (configured_headers ht hc client)))
      in if hc_claude_code hc then forward_claude_code_headers client hs else hs)"

subsection \<open>What the upstream learns of the client's headers\<close>

text \<open>Two requests that agree on the headers that may be forwarded.\<close>

definition agree :: "headers \<Rightarrow> headers \<Rightarrow> bool" where
  "agree c c' \<longleftrightarrow> (\<forall>n. \<not> pass_through_refused n \<longrightarrow> get_all n c = get_all n c')"

lemma get_header_get_all: "get_header n hs = (case get_all n hs of v # vs \<Rightarrow> Some v | [] \<Rightarrow> None)"
  unfolding get_header_def get_all_def by (induction hs) auto

lemma agree_get: "agree c c' \<Longrightarrow> \<not> pass_through_refused n \<Longrightarrow> get_header n c = get_header n c'"
  by (simp add: agree_def get_header_get_all)

lemmas refused_defs = pass_through_refused_def pass_through_names_refused_def starts_with_iff

lemma content_agree: "agree c c' \<Longrightarrow> content_headers hc c = content_headers hc c'"
  by (simp add: content_headers_def agree_get refused_defs)

lemma pass_agree:
  assumes "agree c c'"
  shows "apply_pass_through_headers ok c listed hs = apply_pass_through_headers ok c' listed hs"
proof -
  have "pass_one ok c hs l = pass_one ok c' hs l" for hs l
    using agree_get [OF assms, of "to_lower (trim l)"] by (simp add: pass_one_def Let_def)
  then have "pass_one ok c = pass_one ok c'" by (simp add: fun_eq_iff)
  then show ?thesis by (simp add: apply_pass_through_headers_def)
qed

lemma find_map_cong: "(\<And>x. x \<in> set xs \<Longrightarrow> f x = g x) \<Longrightarrow> find_map f xs = find_map g xs"
  by (induction xs) (auto split: option.split)

lemma session_agree: "agree c c' \<Longrightarrow> client_session c = client_session c'"
  unfolding client_session_def
  by (rule find_map_cong) (auto simp: session_headers_def agree_get [of c c'] refused_defs)

lemma identity_agree:
  assumes "agree c c'"
  shows "apply_client_identity sha v nok vok c ic t p tenant hs = apply_client_identity sha v nok vok c' ic t p tenant hs"
proof -
  have "get_header ''user-agent'' c = get_header ''user-agent'' c'" using assms by (rule agree_get) (simp add: refused_defs)
  then show ?thesis unfolding apply_client_identity_def session_agree [OF assms] by simp
qed

lemma beta_agree:
  assumes "agree c c'"
  shows "native_beta_headers ht hc c hs = native_beta_headers ht hc c' hs"
    and "oauth_beta_headers ht hc c hs = oauth_beta_headers ht hc c' hs"
proof -
  have "get_header ''anthropic-beta'' c = get_header ''anthropic-beta'' c'"
    using assms by (rule agree_get) (simp add: refused_defs)
  then show "native_beta_headers ht hc c hs = native_beta_headers ht hc c' hs"
    and "oauth_beta_headers ht hc c hs = oauth_beta_headers ht hc c' hs"
    by (simp_all add: native_beta_headers_def oauth_beta_headers_def wants_claude_code_beta_def)
qed

lemma forward_agree: "agree c c' \<Longrightarrow> forward_claude_code_headers c hs = forward_claude_code_headers c' hs"
  by (simp add: forward_claude_code_headers_def claude_code_forwarded_def forward_one_def agree_def refused_defs)


subsection \<open>Claude Code's headers\<close>

lemma get_all_append: "get_all n (xs @ ys) = get_all n xs @ get_all n ys"
  by (simp add: get_all_def)

lemma get_all_pairs: "get_all n (map (Pair m) vs) = (if n = m then vs else [])"
  unfolding get_all_def by (induction vs) auto

lemma get_all_remove: "get_all n (remove_header m hs) = (if n = m then [] else get_all n hs)"
  unfolding get_all_def remove_header_def by (induction hs) auto

text \<open>
  A request of Claude Code reaches Anthropic with the client's own identity: of every header that
  Anthropic checks exactly the client's values, in their order, and nothing the gateway put there; all
  other headers stay the gateway's.
\<close>

theorem claude_code_headers_verbatim:
  "get_all n (forward_claude_code_headers client hs) =
     (if n \<in> set claude_code_forwarded then get_all n client else get_all n hs)"
proof -
  have "get_all n (foldl (forward_one client) hs ns) = (if n \<in> set ns then get_all n client else get_all n hs)" for ns
  proof (induction ns arbitrary: hs)
    case (Cons m ns)
    have "get_all n (forward_one client hs m) = (if n = m then get_all n client else get_all n hs)"
      by (simp add: forward_one_def get_all_append get_all_remove get_all_pairs)
    with Cons show ?case by auto
  qed simp
  then show ?thesis by (simp add: forward_claude_code_headers_def)
qed

subsection \<open>Beta features\<close>

text \<open>A value somewhere in another.\<close>

inductive occurs :: "json \<Rightarrow> json \<Rightarrow> bool" where
  here: "occurs v v"
| in_object: "(k, w) \<in> set m \<Longrightarrow> occurs v w \<Longrightarrow> occurs v (JObj m)"
| in_array: "w \<in> set ws \<Longrightarrow> occurs v w \<Longrightarrow> occurs v (JArr ws)"

inductive_simps occurs_object: "occurs v (JObj m)"
inductive_simps occurs_array: "occurs v (JArr ws)"
inductive_simps occurs_leaf: "occurs v JNull" "occurs v (JBool b)" "occurs v (JNum n)" "occurs v (JStr s)"

lemma set_sorted_set [simp]: "set (sorted_set xs) = set xs"
  by (simp add: sorted_set_def)

lemma beta_scan_occurs: "t \<in> set (beta_scan body) \<longleftrightarrow> (\<exists>m. occurs (JObj m) body \<and> t \<in> set (own_betas m))"
proof (induction body rule: beta_scan.induct)
  case (1 m)
  have "t \<in> set (beta_scan (JObj m)) \<longleftrightarrow> t \<in> set (own_betas m) \<or> (\<exists>(k, w) \<in> set m. t \<in> set (beta_scan w))"
    by auto
  also have "\<dots> \<longleftrightarrow> t \<in> set (own_betas m) \<or> (\<exists>(k, w) \<in> set m. \<exists>m'. occurs (JObj m') w \<and> t \<in> set (own_betas m'))"
    using 1 by fast
  also have "\<dots> \<longleftrightarrow> (\<exists>m'. occurs (JObj m') (JObj m) \<and> t \<in> set (own_betas m'))"
    by (auto simp: occurs_object)
  finally show ?case .
next
  case (2 vs)
  then show ?case by (auto simp: occurs_array)
qed (simp_all add: occurs_leaf)

subsection \<open>Lists in a header\<close>

definition token_ok :: "string \<Rightarrow> bool" where
  "token_ok v \<longleftrightarrow> v \<noteq> [] \<and> CHR '','' \<notin> set v \<and> trim v = v"

lemma trim_trim [simp]: "trim (trim s) = trim s"
proof -
  define t where "t = dropWhile is_space s"
  define r where "r = rev (dropWhile is_space (rev t))"
  have "prefix r t" unfolding r_def by (metis rev_rev_ident suffix_dropWhile suffix_to_prefix)
  moreover have "t \<noteq> [] \<Longrightarrow> \<not> is_space (hd t)" unfolding t_def by (rule hd_dropWhile)
  ultimately have "dropWhile is_space r = r" by (cases r) (auto simp: prefix_def dropWhile_eq_self_iff)
  moreover have "dropWhile is_space (rev r) = rev r" unfolding r_def by simp
  ultimately show ?thesis by (simp add: trim_def trim_start_def flip: t_def r_def)
qed

lemma trim_space: "trim (CHR '' '' # s) = trim s"
  by (simp add: trim_def trim_start_def is_space_def)

lemma set_split_at: "p \<in> set (split_at d s) \<Longrightarrow> d \<notin> set p"
  by (induction d s arbitrary: p rule: split_at.induct) (auto split: if_splits list.splits)

lemma set_trim: "set (trim s) \<subseteq> set s"
  unfolding trim_def trim_start_def by (metis set_dropWhileD set_rev subsetI)

lemma csv_parts_ok: "p \<in> set (csv_parts s) \<Longrightarrow> token_ok p"
  using set_trim by (fastforce simp: csv_parts_def token_ok_def dest: set_split_at)

lemma split_join: "\<forall>x \<in> set xs. token_ok x \<Longrightarrow> xs \<noteq> [] \<Longrightarrow>
    map trim (split_at (CHR '','') (join_comma xs)) = xs"
proof (induction xs rule: join_comma.induct)
  case (2 x)
  then show ?case by (simp add: token_ok_def split_at_none)
next
  case (3 x y xs)
  then have "join_comma (x # y # xs) = x @ CHR '','' # CHR '' '' # join_comma (y # xs)" by simp
  moreover have "split_at (CHR '','') (join_comma (y # xs)) \<noteq> []" by (rule split_at_nonempty)
  ultimately show ?case
    using 3 by (cases "split_at (CHR '','') (join_comma (y # xs))") (auto simp: token_ok_def split_at_append trim_space)
qed simp

lemma csv_parts_join: "\<forall>x \<in> set xs. token_ok x \<Longrightarrow> csv_parts (join_comma xs) = xs"
proof (cases "xs = []")
  case False
  assume "\<forall>x \<in> set xs. token_ok x"
  with False show ?thesis unfolding csv_parts_def by (simp add: split_join filter_id_conv) (auto simp: token_ok_def)
qed (simp add: csv_parts_def trim_def trim_start_def)

lemma csv_parts_nil: "csv_parts [] = []"
  by (simp add: csv_parts_def trim_def trim_start_def)

text \<open>Adding to a list keeps what is there and adds what is new.\<close>

lemma upsert_parts:
  assumes "\<And>v. ht_value_ok ht v" and "\<forall>v \<in> set values. token_ok v"
  shows "set (csv_parts (header_text n (upsert_csv_header ht n values hs))) =
    set values \<union> set (csv_parts (header_text n hs))"
proof (cases "values = []")
  case True
  then show ?thesis by (simp add: upsert_csv_header_def)
next
  case False
  let ?old = "case get_header n hs of Some s \<Rightarrow> csv_parts s | None \<Rightarrow> []"
  have "\<forall>x \<in> set (sorted_set (values @ ?old)). token_ok x"
    using assms(2) csv_parts_ok by (auto split: option.splits)
  from csv_parts_join [OF this]
  have "csv_parts (header_text n (upsert_csv_header ht n values hs)) = sorted_set (values @ ?old)"
    using False assms(1) by (simp add: upsert_csv_header_def insert_valid_def header_text_def)
  moreover have "set ?old = set (csv_parts (header_text n hs))"
    by (simp add: header_text_def csv_parts_def trim_def trim_start_def split: option.split)
  ultimately show ?thesis by simp
qed

lemma own_betas_ok: "t \<in> set (own_betas m) \<Longrightarrow> token_ok t"
  by (auto simp: own_betas_def token_ok_def trim_def trim_start_def is_space_def split: if_splits)

text \<open>
  No beta feature is lost. The anthropic-beta header of a request to Anthropic names what was
  configured, every feature that some object anywhere in the body needs, and, for a native request,
  every feature the client asked for; and nothing else but Claude Code's own for its credential.
\<close>

theorem anthropic_betas_complete:
  assumes "\<And>v. ht_value_ok ht v" and "hc_type hc = Anthropic" and "\<not> hc_claude_code hc"
  shows "set (csv_parts (header_text ''anthropic-beta'' (upstream_headers ht hc client))) =
    set (csv_parts (header_text ''anthropic-beta'' (configured_headers ht hc client))) \<union>
    {t. \<exists>m. occurs (JObj m) (hc_betas hc) \<and> t \<in> set (own_betas m)} \<union>
    (if hc_anthropic_native hc then set (csv_parts (header_text ''anthropic-beta'' client)) else {}) \<union>
    (if is_anthropic_oauth_token (hc_api_key hc) \<and> wants_claude_code_beta client then {''claude-code-20250219''} else {})"
proof -
  let ?parts = "\<lambda>hs. set (csv_parts (header_text ''anthropic-beta'' hs))"
  have body: "?parts (body_beta_headers ht hc hs) = ?parts hs \<union> set (beta_scan (hc_betas hc))" for hs
  proof -
    have "\<forall>t \<in> set (anthropic_beta_tokens_for_request (hc_betas hc)). token_ok t"
      by (auto simp: anthropic_beta_tokens_for_request_def beta_scan_occurs dest: own_betas_ok)
    from upsert_parts [OF assms(1) this] show ?thesis
      by (auto simp: body_beta_headers_def should_apply_anthropic_beta_headers_def assms(2)
          anthropic_beta_tokens_for_request_def)
  qed
  have native: "?parts (native_beta_headers ht hc client hs) =
      ?parts hs \<union> (if hc_anthropic_native hc then ?parts client else {})" for hs
  proof (cases "get_header ''anthropic-beta'' client")
    case None
    then have "header_text ''anthropic-beta'' client = []" by (simp add: header_text_def)
    with None show ?thesis by (simp add: native_beta_headers_def csv_parts_nil)
  next
    case (Some v)
    have "\<forall>p \<in> set (csv_parts v). token_ok p" using csv_parts_ok by blast
    from upsert_parts [OF assms(1) this, of "''anthropic-beta''" hs]
    have "?parts (upsert_csv_header ht ''anthropic-beta'' (csv_parts v) hs) = set (csv_parts v) \<union> ?parts hs" .
    moreover have "header_text ''anthropic-beta'' client = v" using Some by (simp add: header_text_def)
    ultimately show ?thesis using Some by (auto simp: native_beta_headers_def)
  qed
  have oauth: "?parts (oauth_beta_headers ht hc client hs) =
      ?parts hs \<union> (if is_anthropic_oauth_token (hc_api_key hc) \<and> wants_claude_code_beta client
        then {''claude-code-20250219''} else {})" for hs
    using upsert_parts [OF assms(1), of "[''claude-code-20250219'']" "''anthropic-beta''" hs] assms(2)
    by (auto simp: oauth_beta_headers_def token_ok_def trim_def trim_start_def is_space_def)
  show ?thesis
    unfolding upstream_headers_def Let_def using assms(3)
    by (simp only: if_False oauth native body) (auto simp: beta_scan_occurs)
qed

subsection \<open>Examples\<close>

definition plain_tools :: header_tools where
  "plain_tools =
     \<lparr>ht_sha256 = (\<lambda>_. []), ht_version = ''1'', ht_name_ok = (\<lambda>_. True), ht_value_ok = (\<lambda>_. True),
      ht_base64 = (\<lambda>_. None), ht_parse = (\<lambda>_. None), ht_env = (\<lambda>_. None)\<rparr>"

definition pdf_request :: header_context where
  "pdf_request =
     \<lparr>hc_type = Anthropic, hc_api_key = ''sk'', hc_provider = ''p'', hc_tenant = None, hc_model = ''m'',
      hc_listed = [''x-beta''], hc_identity = \<lparr>ic_session_header = None, ic_user_agent = None\<rparr>, hc_custom = [],
      hc_native = None, hc_betas = JArr [JObj [(''media_type'', JStr ''application/PDF'')]], hc_opaque = False,
      hc_has_body = True, hc_anthropic_native = True, hc_claude_code = False\<rparr>"


theorem anthropic_betas_complete_witness:
  "''pdfs-2024-09-25'' \<in> set (csv_parts (header_text ''anthropic-beta''
     (upstream_headers plain_tools pdf_request [(''anthropic-beta'', ''a, b'')]))) \<and>
   ''b'' \<in> set (csv_parts (header_text ''anthropic-beta''
     (upstream_headers plain_tools pdf_request [(''anthropic-beta'', ''a, b'')])))"
proof -
  have "csv_parts ''a, b'' = [''a'', ''b'']" by code_simp
  moreover have "occurs (JObj [(''media_type'', JStr ''application/PDF'')]) (hc_betas pdf_request)"
    by (simp add: pdf_request_def occurs_array occurs.here)
  moreover have "''pdfs-2024-09-25'' \<in> set (own_betas [(''media_type'', JStr ''application/PDF'')])" by code_simp
  moreover have "ht_value_ok plain_tools v" "hc_type pdf_request = Anthropic" "\<not> hc_claude_code pdf_request"
    "hc_anthropic_native pdf_request" for v
    by (simp_all add: plain_tools_def pdf_request_def)
  ultimately show ?thesis
    using anthropic_betas_complete [of plain_tools pdf_request "[(''anthropic-beta'', ''a, b'')]"]
    by (auto simp: header_text_def get_header_def)
qed

end
