(* ===== verification/Usage_Tracking.thy ===== *)
theory Usage_Tracking
  imports Key_Validation Pricing Sse_Framing
begin

section \<open>Usage of answers that are passed on\<close>

text \<open>
  An answer that needs no translation is passed on chunk by chunk, and its usage is read off the way
  (src/proxy.rs: \<open>UsageTracker\<close>, the three \<open>extract_*_usage\<close> functions, \<open>record_usage_from_tracker\<close> and
  \<open>with_terminal_usage_record\<close>). The virtual key is debited when the stream has been read to its end.

  \<open>parse\<close> is the JSON reader and \<open>lossy\<close> the decoding of a chunk that replaces what is not UTF-8.
\<close>

record usage_tracker =
  ut_key_hash :: string
  ut_model :: string
  ut_provider :: string
  ut_input :: u32
  ut_output :: u32
  ut_cached :: u32
  ut_cache_write :: u32

definition tracker_new :: "string \<Rightarrow> string \<Rightarrow> string \<Rightarrow> usage_tracker" where
  "tracker_new hash model provider =
     \<lparr>ut_key_hash = hash, ut_model = model, ut_provider = provider, ut_input = 0, ut_output = 0, ut_cached = 0,
      ut_cache_write = 0\<rparr>"

text \<open>A count, if there is one, cut to 32 bits.\<close>

definition count_field :: "json \<Rightarrow> string \<Rightarrow> u32 option" where
  "count_field v k = map_option ucast (Option.bind (jget v k) as_u64)"

definition store_count :: "u32 option \<Rightarrow> ((u32 \<Rightarrow> u32) \<Rightarrow> usage_tracker \<Rightarrow> usage_tracker) \<Rightarrow> usage_tracker \<Rightarrow> usage_tracker" where
  "store_count c update t = (case c of Some n \<Rightarrow> update (\<lambda>_. n) t | None \<Rightarrow> t)"

text \<open>\<open>str::lines\<close>: a carriage return before a line feed is not part of the line.\<close>

definition strip_cr :: "string \<Rightarrow> string" where
  "strip_cr l = (if l \<noteq> [] \<and> last l = cr then butlast l else l)"

definition str_lines :: "string \<Rightarrow> string list" where
  "str_lines s =
     (let ps = split_at lf s in map strip_cr (butlast ps) @ (if last ps = [] then [] else [last ps]))"

definition data_lines :: "string \<Rightarrow> string list" where
  "data_lines chunk = List.map_filter (strip_prefix ''data: '') (str_lines chunk)"

definition data_values :: "(string \<Rightarrow> json option) \<Rightarrow> string \<Rightarrow> json list" where
  "data_values parse chunk = List.map_filter parse (data_lines chunk)"

text \<open>An answer without a data line is one JSON value, if its chunk is the whole of it.\<close>

definition chunk_values :: "(string \<Rightarrow> json option) \<Rightarrow> string \<Rightarrow> json list" where
  "chunk_values parse chunk =
     (if data_lines chunk \<noteq> [] then data_values parse chunk
      else case parse chunk of Some v \<Rightarrow> [v] | None \<Rightarrow> [])"

subsection \<open>The three formats\<close>

definition store_anthropic :: "usage_tracker \<Rightarrow> json \<Rightarrow> usage_tracker" where
  "store_anthropic t u =
     store_count (count_field u ''cache_creation_input_tokens'') ut_cache_write_update
       (store_count (count_field u ''cache_read_input_tokens'') ut_cached_update
         (store_count (count_field u ''output_tokens'') ut_output_update
           (store_count (count_field u ''input_tokens'') ut_input_update t)))"

definition store_opt :: "(usage_tracker \<Rightarrow> json \<Rightarrow> usage_tracker) \<Rightarrow> usage_tracker \<Rightarrow> json option \<Rightarrow> usage_tracker" where
  "store_opt f t v = (case v of Some x \<Rightarrow> f t x | None \<Rightarrow> t)"

definition anthropic_value :: "bool \<Rightarrow> usage_tracker \<Rightarrow> json \<Rightarrow> usage_tracker" where
  "anthropic_value sse t v =
     store_opt store_anthropic
       (if sse then store_opt store_anthropic t (pointer v [''message'', ''usage'']) else t) (jget v ''usage'')"

definition extract_anthropic_usage :: "(string \<Rightarrow> json option) \<Rightarrow> usage_tracker \<Rightarrow> string \<Rightarrow> usage_tracker" where
  "extract_anthropic_usage parse t chunk =
     foldl (anthropic_value (data_lines chunk \<noteq> [])) t (chunk_values parse chunk)"

definition u64_field :: "json \<Rightarrow> string \<Rightarrow> u64 option" where
  "u64_field v k = Option.bind (jget v k) as_u64"

text \<open>The two output counts are added as \<open>u64\<close>, which wraps in a release build.\<close>

definition google_output :: "json \<Rightarrow> u64" where
  "google_output meta =
     (case u64_field meta ''candidatesTokenCount'' of Some n \<Rightarrow> n | None \<Rightarrow> 0) +
     (case u64_field meta ''thoughtsTokenCount'' of Some n \<Rightarrow> n | None \<Rightarrow> 0)"

definition store_google :: "usage_tracker \<Rightarrow> json \<Rightarrow> usage_tracker" where
  "store_google t meta =
     store_count (count_field meta ''cachedContentTokenCount'') ut_cached_update
       (store_count (if google_output meta > 0 then Some (ucast (google_output meta)) else None) ut_output_update
         (store_count (count_field meta ''promptTokenCount'') ut_input_update t))"

definition google_value :: "usage_tracker \<Rightarrow> json \<Rightarrow> usage_tracker" where
  "google_value t v = store_opt store_google t (jget v ''usageMetadata'')"

definition extract_google_usage :: "(string \<Rightarrow> json option) \<Rightarrow> usage_tracker \<Rightarrow> string \<Rightarrow> usage_tracker" where
  "extract_google_usage parse t chunk = foldl google_value t (chunk_values parse chunk)"

definition store_openai :: "usage_tracker \<Rightarrow> json \<Rightarrow> usage_tracker" where
  "store_openai t u =
     store_count (Option.bind (jget u ''prompt_tokens_details'') (\<lambda>d. count_field d ''cached_tokens''))
       ut_cached_update
       (store_count (count_field u ''completion_tokens'') ut_output_update
         (store_count (count_field u ''prompt_tokens'') ut_input_update t))"

definition openai_value :: "usage_tracker \<Rightarrow> json \<Rightarrow> usage_tracker" where
  "openai_value t v = store_opt store_openai t (jget v ''usage'')"

definition extract_openai_usage :: "(string \<Rightarrow> json option) \<Rightarrow> usage_tracker \<Rightarrow> string \<Rightarrow> usage_tracker" where
  "extract_openai_usage parse t chunk = foldl openai_value t (data_values parse chunk)"

datatype answer_format = AnthropicFormat | GoogleFormat | OpenAIFormat | OpaqueFormat

definition extract_usage ::
    "answer_format \<Rightarrow> (string \<Rightarrow> json option) \<Rightarrow> usage_tracker \<Rightarrow> string \<Rightarrow> usage_tracker" where
  "extract_usage fmt parse t chunk =
     (case fmt of
        AnthropicFormat \<Rightarrow> extract_anthropic_usage parse t chunk
      | GoogleFormat \<Rightarrow> extract_google_usage parse t chunk
      | OpenAIFormat \<Rightarrow> extract_openai_usage parse t chunk
      | OpaqueFormat \<Rightarrow> t)"

subsection \<open>The debit\<close>

record ledger_clock =
  lc_year_month :: "instant \<Rightarrow> int"
  lc_now :: instant
  lc_secs :: u64
  lc_history_ok :: bool

definition record_usage_from_tracker ::
    "pricing_table option \<Rightarrow> ledger_clock \<Rightarrow> usage_tracker \<Rightarrow> 'g validator \<Rightarrow> 'g validator" where
  "record_usage_from_tracker prices lc t v =
     (if ut_input t = 0 \<and> ut_output t = 0
      then record_request (lc_year_month lc) (lc_now lc) (lc_history_ok lc) (ut_key_hash t) v
      else
        let cost = (case prices of
              Some table \<Rightarrow>
                calculate_detailed_cost table (ut_model t) (ut_provider t) (ut_input t) (ut_cached t)
                  (ut_cache_write t) (ut_output t)
            | None \<Rightarrow> Fin 0)
        in record_usage (lc_year_month lc) (lc_now lc) (lc_secs lc) (lc_history_ok lc) (ut_key_hash t)
             (ut_input t) (ut_output t) cost v)"

text \<open>
  The body as the client polls it: each item of the upstream is passed on, a chunk after its usage has
  been read; the poll that finds the end records the usage. A client that goes away stops polling.
\<close>

datatype body_item = BodyChunk string | BodyError

definition observe_item ::
    "answer_format \<Rightarrow> (string \<Rightarrow> json option) \<Rightarrow> (string \<Rightarrow> string) \<Rightarrow> usage_tracker \<Rightarrow> body_item \<Rightarrow> usage_tracker" where
  "observe_item fmt parse lossy t x =
     (case x of BodyChunk c \<Rightarrow> extract_usage fmt parse t (lossy c) | BodyError \<Rightarrow> t)"

fun poll_body ::
    "answer_format \<Rightarrow> (string \<Rightarrow> json option) \<Rightarrow> (string \<Rightarrow> string) \<Rightarrow> pricing_table option \<Rightarrow> ledger_clock \<Rightarrow>
     nat \<Rightarrow> body_item list \<Rightarrow> usage_tracker \<Rightarrow> 'g validator \<Rightarrow> body_item list \<times> 'g validator" where
  "poll_body fmt parse lossy prices lc 0 xs t v = ([], v)"
| "poll_body fmt parse lossy prices lc (Suc polls) [] t v = ([], record_usage_from_tracker prices lc t v)"
| "poll_body fmt parse lossy prices lc (Suc polls) (x # xs) t v =
     (case poll_body fmt parse lossy prices lc polls xs (observe_item fmt parse lossy t x) v of
        (passed, v') \<Rightarrow> (x # passed, v'))"

subsection \<open>When the key is debited\<close>

lemma poll_body_eq:
  "poll_body fmt parse lossy prices lc polls xs t v =
     (take polls xs,
      if polls \<le> length xs then v
      else record_usage_from_tracker prices lc (foldl (observe_item fmt parse lossy) t xs) v)"
proof (induction xs arbitrary: polls t)
  case Nil
  then show ?case by (cases polls) simp_all
next
  case (Cons x xs)
  then show ?case by (cases polls) simp_all
qed

text \<open>
  The key is debited exactly once, when the client has polled the end of the body, with the usage of
  the whole body. A client that stops before that has received every item it polled for and is not
  debited at all, although the comment says that what is not debited was not delivered.
\<close>

theorem debited_at_the_end_only:
  "poll_body fmt parse lossy prices lc polls xs t v =
     (take polls xs,
      if polls \<le> length xs then v
      else record_usage_from_tracker prices lc (foldl (observe_item fmt parse lossy) t xs) v)"
  by (rule poll_body_eq)

text \<open>
  An answer in the OpenAI format that is not streamed is never debited. Its usage is looked for in
  data lines only, and it has none, so whatever it reports and whatever the prices, the end of the
  body records a request without tokens or cost: neither the budget nor the token limit of the key moves.
\<close>

theorem plain_openai_answer_not_debited:
  assumes "\<And>c. BodyChunk c \<in> set xs \<Longrightarrow> data_lines (lossy c) = []"
  shows "poll_body OpenAIFormat parse lossy prices lc (Suc (length xs)) xs (tracker_new kh model provider) v =
    (xs, record_request (lc_year_month lc) (lc_now lc) (lc_history_ok lc) kh v)"
proof -
  have "foldl (observe_item OpenAIFormat parse lossy) t xs = t" for t
    using assms
  proof (induction xs arbitrary: t)
    case (Cons x xs)
    have "observe_item OpenAIFormat parse lossy t x = t"
      using Cons.prems [of "case x of BodyChunk c \<Rightarrow> c | BodyError \<Rightarrow> []"]
      by (cases x) (simp_all add: observe_item_def extract_usage_def extract_openai_usage_def data_values_def map_filter_simps)
    with Cons show ?case by simp
  qed simp
  then show ?thesis
    by (simp add: poll_body_eq record_usage_from_tracker_def tracker_new_def)
qed

theorem plain_openai_answer_not_debited_witness:
  "poll_body OpenAIFormat (\<lambda>_. Some (JObj [(''usage'', JObj [(''prompt_tokens'', JNum (PosInt 7))])])) (\<lambda>c. c) None
     \<lparr>lc_year_month = (\<lambda>_. 0), lc_now = 0, lc_secs = 0, lc_history_ok = True\<rparr> 2
     [BodyChunk ''{}''] (tracker_new ''h'' ''m'' ''p'') v =
   ([BodyChunk ''{}''], record_request (\<lambda>_. 0) 0 True ''h'' v)"
proof -
  have "data_lines ''{}'' = []" by (simp add: data_lines_def str_lines_def strip_cr_def map_filter_simps)
  then show ?thesis
    using plain_openai_answer_not_debited [of "[BodyChunk ''{}'']" "\<lambda>c. c"
        "\<lambda>_. Some (JObj [(''usage'', JObj [(''prompt_tokens'', JNum (PosInt 7))])])" None
        "\<lparr>lc_year_month = (\<lambda>_. 0), lc_now = 0, lc_secs = 0, lc_history_ok = True\<rparr>" "''h''" "''m''" "''p''" v]
    by (simp add: numeral_2_eq_2)
qed

subsection \<open>Chunks and lines\<close>

lemma str_lines_append:
  assumes "xs \<noteq> []" and "last xs = lf"
  shows "str_lines (xs @ ys) = str_lines xs @ str_lines ys"
proof -
  obtain zs where xs: "xs = zs @ [lf]" using assms by (metis append_butlast_last_id)
  have "str_lines (zs @ lf # ys) = map strip_cr (split_at lf zs) @ str_lines ys" for ys
    using split_at_nonempty [of lf ys] by (simp add: str_lines_def split_at_both Let_def butlast_append)
  from this [of ys] this [of "[]"] show ?thesis by (simp add: xs str_lines_def)
qed

lemma data_values_append:
  assumes "xs \<noteq> []" and "last xs = lf"
  shows "data_values parse (xs @ ys) = data_values parse xs @ data_values parse ys"
  using str_lines_append [OF assms] by (simp add: data_values_def data_lines_def map_filter_def)

text \<open>
  When the network cuts a stream at line ends only, the usage read from its chunks is the usage of
  the whole.
\<close>

theorem usage_of_whole_lines:
  assumes "\<And>c. c \<in> set cs \<Longrightarrow> c \<noteq> [] \<and> last c = lf"
  shows "foldl (extract_openai_usage parse) t cs = extract_openai_usage parse t (concat cs)"
  using assms
proof (induction cs arbitrary: t)
  case Nil
  then show ?case by (simp add: extract_openai_usage_def data_values_def data_lines_def str_lines_def map_filter_simps)
next
  case (Cons c cs)
  have "data_values parse (c @ concat cs) = data_values parse c @ data_values parse (concat cs)"
    using Cons.prems [of c] by (intro data_values_append) auto
  with Cons show ?case by (simp add: extract_openai_usage_def)
qed

text \<open>
  A line that the network cuts is not read: neither half is a line of data that parses, and what it
  says of the usage is lost, whichever format.
\<close>

theorem cut_line_loses_usage:
  "\<exists>parse a b. a @ b = ''data: {u}'' @ [lf] \<and>
     ut_input (extract_openai_usage parse (tracker_new ''h'' ''m'' ''p'') (a @ b)) = 7 \<and>
     foldl (extract_openai_usage parse) (tracker_new ''h'' ''m'' ''p'') [a, b] = tracker_new ''h'' ''m'' ''p''"
proof -
  let ?v = "JObj [(''usage'', JObj [(''prompt_tokens'', JNum (PosInt 7))])]"
  let ?parse = "\<lambda>s. if s = ''{u}'' then Some ?v else None"
  have "ut_input (extract_openai_usage ?parse (tracker_new ''h'' ''m'' ''p'') (''data: {u'' @ ''}'' @ [lf])) = 7"
    by (simp add: extract_openai_usage_def data_values_def data_lines_def str_lines_def strip_cr_def map_filter_simps
        openai_value_def store_opt_def store_openai_def store_count_def count_field_def tracker_new_def)
  moreover have "foldl (extract_openai_usage ?parse) (tracker_new ''h'' ''m'' ''p'') [''data: {u'', ''}'' @ [lf]] =
      tracker_new ''h'' ''m'' ''p''"
    by (simp add: extract_openai_usage_def data_values_def data_lines_def str_lines_def strip_cr_def map_filter_simps)
  ultimately show ?thesis by (intro exI [of _ ?parse] exI [of _ "''data: {u''"] exI [of _ "''}'' @ [lf]"]) simp
qed

end
