(* ===== verification/Routing_Reload.thy ===== *)
theory Routing_Reload
  imports Provider_Settings Network_Acl Float64
begin

section \<open>Publication of file routing (src/src/routing.rs)\<close>

text \<open>
  The provider declarations of the configuration file can be replaced while the gateway runs: a
  dry run stages a candidate under a fresh generation, a second request publishes it. Loading the
  file happens outside the lock, so any number of reloads interleave; what follows under the lock
  is one step. The parts of a declaration that the reload does not read are their JSON value.
\<close>

record model_cost =
  mc_input :: f64
  mc_output :: f64
  mc_cache_read :: f64
  mc_cache_write :: f64

record model_declaration =
  md_id :: string
  md_cost :: model_cost
  md_rest :: json

record provider_declaration =
  pd_type :: string
  pd_base_url :: string
  pd_max_tokens_field :: "string option"
  pd_headers :: "(string \<times> string) list"
  pd_models :: "model_declaration list"
  pd_rest :: json

record app_config =
  ac_network :: network_config
  ac_job_prices :: "(string \<times> f64) list"
  ac_rest :: json
  ac_providers :: "(string \<times> provider_declaration) list"
  ac_upstream :: "(string \<times> provider_declaration) list"

text \<open>Equality of the configuration compares prices as floating point and hash maps by their entries.\<close>

definition f64_eq :: "f64 \<Rightarrow> f64 \<Rightarrow> bool" where
  "f64_eq a b \<longleftrightarrow> f64_ge a b \<and> f64_ge b a"

definition hash_maps_eq :: "('v \<Rightarrow> 'v \<Rightarrow> bool) \<Rightarrow> (string \<times> 'v) list \<Rightarrow> (string \<times> 'v) list \<Rightarrow> bool" where
  "hash_maps_eq eq a b \<longleftrightarrow>
     length a = length b \<and>
     list_all (\<lambda>(k, v). case map_of b k of Some w \<Rightarrow> eq v w | None \<Rightarrow> False) a"

definition cost_eq :: "model_cost \<Rightarrow> model_cost \<Rightarrow> bool" where
  "cost_eq a b \<longleftrightarrow>
     f64_eq (mc_input a) (mc_input b) \<and> f64_eq (mc_output a) (mc_output b) \<and>
     f64_eq (mc_cache_read a) (mc_cache_read b) \<and> f64_eq (mc_cache_write a) (mc_cache_write b)"

definition model_eq :: "model_declaration \<Rightarrow> model_declaration \<Rightarrow> bool" where
  "model_eq a b \<longleftrightarrow> md_id a = md_id b \<and> cost_eq (md_cost a) (md_cost b) \<and> md_rest a = md_rest b"

definition provider_eq :: "provider_declaration \<Rightarrow> provider_declaration \<Rightarrow> bool" where
  "provider_eq a b \<longleftrightarrow>
     pd_type a = pd_type b \<and> pd_base_url a = pd_base_url b \<and>
     pd_max_tokens_field a = pd_max_tokens_field b \<and> hash_maps_eq (=) (pd_headers a) (pd_headers b) \<and>
     list_all2 model_eq (pd_models a) (pd_models b) \<and> pd_rest a = pd_rest b"

definition config_eq :: "app_config \<Rightarrow> app_config \<Rightarrow> bool" where
  "config_eq a b \<longleftrightarrow>
     ac_network a = ac_network b \<and> hash_maps_eq f64_eq (ac_job_prices a) (ac_job_prices b) \<and>
     ac_rest a = ac_rest b \<and> hash_maps_eq provider_eq (ac_providers a) (ac_providers b) \<and>
     hash_maps_eq provider_eq (ac_upstream a) (ac_upstream b)"

subsection \<open>State, requests and answers\<close>

record routing_snapshot =
  sn_generation :: string
  sn_config :: app_config
  sn_default_hint :: "string option"

record staged_plan =
  sp_generation :: string
  sp_base :: string
  sp_config :: app_config
  sp_created :: nat

record routing_state =
  rt_head :: routing_snapshot
  rt_configured :: bool
  rt_staged :: "staged_plan option"

record reload_request =
  rr_dry_run :: bool
  rr_expected_generation :: "string option"
  rr_expected_candidate :: "string option"

datatype reload_failure =
    Unavailable | InvalidConfiguration | RestartRequired | InvalidProvider | InvalidDestination
  | PricingChange | NativeJobChange | SourceConflict | GenerationConflict | CandidateConflict
  | MissingExpectation

fun failure_code :: "reload_failure \<Rightarrow> string" where
  "failure_code Unavailable = ''reload_unavailable''"
| "failure_code InvalidConfiguration = ''invalid_configuration''"
| "failure_code RestartRequired = ''restart_required''"
| "failure_code InvalidProvider = ''invalid_provider''"
| "failure_code InvalidDestination = ''invalid_destination''"
| "failure_code PricingChange = ''pricing_change_not_reloadable''"
| "failure_code NativeJobChange = ''native_job_route_not_reloadable''"
| "failure_code SourceConflict = ''provider_source_conflict''"
| "failure_code GenerationConflict = ''generation_conflict''"
| "failure_code CandidateConflict = ''candidate_changed_or_expired''"
| "failure_code MissingExpectation = ''preview_and_generations_required''"

definition failure_status :: "reload_failure \<Rightarrow> nat" where
  "failure_status f =
     (if f \<in> {GenerationConflict, CandidateConflict, SourceConflict} then 409
      else if f = Unavailable then 503
      else 400)"

datatype change_action = Added | Removed | Updated

datatype reload_status = Planned | Unchanged | Published

record reload_result =
  rl_status :: reload_status
  rl_current :: string
  rl_candidate :: string
  rl_resulting :: string
  rl_changes :: "(string \<times> change_action) list"

definition resolved_name :: "app_config \<Rightarrow> string \<Rightarrow> string option" where
  "resolved_name c name = map_option fst (config_resolve_provider (ac_providers c) name)"

text \<open>\<open>uuid\<close> is the random generation; the first key is the first of the hash map's iteration.\<close>

definition routing_new :: "string \<Rightarrow> app_config \<Rightarrow> routing_state" where
  "routing_new uuid c =
     \<lparr>rt_head = \<lparr>sn_generation = uuid, sn_config = c,
        sn_default_hint = or_else (resolved_name c ''default'') (case ac_providers c of [] \<Rightarrow> None | (k, _) # _ \<Rightarrow> Some k)\<rparr>,
      rt_configured = False, rt_staged = None\<rparr>"

definition routing_configure :: "routing_state \<Rightarrow> reload_failure + routing_state" where
  "routing_configure st = (if rt_configured st then Inl Unavailable else Inr (st\<lparr>rt_configured := True\<rparr>))"

subsection \<open>Checks of a candidate\<close>

fun insert_name :: "string \<Rightarrow> string list \<Rightarrow> string list" where
  "insert_name n [] = [n]"
| "insert_name n (m # ms) = (if lexordp (<) n m then n # m # ms else if n = m then m # ms else m # insert_name n ms)"

definition sorted_names :: "string list \<Rightarrow> string list" where
  "sorted_names names = foldr insert_name names []"

definition change_of :: "app_config \<Rightarrow> app_config \<Rightarrow> string \<Rightarrow> (string \<times> change_action) option" where
  "change_of before after name =
     (case (map_of (ac_providers before) name, map_of (ac_providers after) name) of
        (None, None) \<Rightarrow> None
      | (None, Some b) \<Rightarrow> Some (name, Added)
      | (Some a, None) \<Rightarrow> Some (name, Removed)
      | (Some a, Some b) \<Rightarrow> if provider_eq a b then None else Some (name, Updated))"

definition config_diff :: "app_config \<Rightarrow> app_config \<Rightarrow> (string \<times> change_action) list" where
  "config_diff before after =
     List.map_filter (change_of before after)
       (sorted_names (map fst (ac_providers before) @ map fst (ac_providers after)))"

definition name_byte :: "char \<Rightarrow> bool" where
  "name_byte c \<longleftrightarrow>
     (CHR ''a'' \<le> c \<and> c \<le> CHR ''z'') \<or> (CHR ''A'' \<le> c \<and> c \<le> CHR ''Z'') \<or> (CHR ''0'' \<le> c \<and> c \<le> CHR ''9'') \<or>
     c \<in> {CHR ''-'', CHR ''_'', CHR ''.''}"

definition valid_name :: "string \<Rightarrow> bool" where
  "valid_name name \<longleftrightarrow> name \<noteq> [] \<and> length name \<le> 64 \<and> list_all name_byte name"

definition fixed_part :: "app_config \<Rightarrow> app_config" where
  "fixed_part c = c\<lparr>ac_providers := [], ac_upstream := []\<rparr>"

record parsed_url =
  pu_scheme :: string
  pu_host :: "string option"
  pu_username :: string
  pu_password :: "string option"
  pu_query :: "string option"
  pu_fragment :: "string option"

text \<open>The packages the checks call: the validity of header names and values, and the URL parser.\<close>

record reload_packages =
  rp_header_name :: "string \<Rightarrow> bool"
  rp_header_value :: "string \<Rightarrow> bool"
  rp_parse_url :: "string \<Rightarrow> parsed_url option"

definition model_costs :: "model_declaration \<Rightarrow> f64 list" where
  "model_costs m = (let c = md_cost m in [mc_input c, mc_output c, mc_cache_read c, mc_cache_write c])"

definition cost_valid :: "f64 \<Rightarrow> bool" where
  "cost_valid v \<longleftrightarrow> f64_finite v \<and> \<not> f64_gt (Fin 0) v"

definition check_model :: "provider_declaration option \<Rightarrow> model_declaration \<Rightarrow> reload_failure + unit" where
  "check_model old m =
     (if list_ex (\<lambda>v. \<not> cost_valid v) (model_costs m) then Inl PricingChange
      else case Option.bind old (\<lambda>p. find (\<lambda>m'. md_id m' = md_id m) (pd_models p)) of
             Some m' \<Rightarrow> if \<not> cost_eq (md_cost m') (md_cost m) then Inl PricingChange else Inr ()
           | None \<Rightarrow> if list_ex (\<lambda>v. \<not> f64_eq v (Fin 0)) (model_costs m) then Inl PricingChange else Inr ())"

fun check_models :: "provider_declaration option \<Rightarrow> string list \<Rightarrow> model_declaration list \<Rightarrow> reload_failure + unit" where
  "check_models old seen [] = Inr ()"
| "check_models old seen (m # ms) =
     (if md_id m = [] \<or> 512 < length (md_id m) \<or> has_control (md_id m) \<or> md_id m \<in> set seen then Inl InvalidProvider
      else case check_model old m of Inl e \<Rightarrow> Inl e | Inr _ \<Rightarrow> check_models old (md_id m # seen) ms)"

definition url_acceptable :: "reload_packages \<Rightarrow> network_config \<Rightarrow> string \<Rightarrow> bool" where
  "url_acceptable pk network address =
     (case rp_parse_url pk address of
        None \<Rightarrow> False
      | Some u \<Rightarrow>
          pu_scheme u \<in> {''http'', ''https''} \<and> pu_host u \<noteq> None \<and> pu_username u = [] \<and> pu_password u = None \<and>
          pu_query u = None \<and> pu_fragment u = None \<and>
          check_url_allowed (\<lambda>a. map_option pu_host (rp_parse_url pk a)) network address = Inr ())"

definition check_destination ::
    "reload_packages \<Rightarrow> network_config \<Rightarrow> provider_type \<Rightarrow> string \<Rightarrow> reload_failure + unit" where
  "check_destination pk network kind base_url =
     (if kind = Mock then Inr ()
      else case (if base_url = [] then pi_base_url (type_info kind) else Some base_url) of
             None \<Rightarrow> Inl InvalidDestination
           | Some address \<Rightarrow> if url_acceptable pk network address then Inr () else Inl InvalidDestination)"

definition check_provider ::
    "reload_packages \<Rightarrow> network_config \<Rightarrow> provider_declaration option \<Rightarrow> provider_declaration \<Rightarrow> reload_failure + unit" where
  "check_provider pk network old p =
     (case try_from_str (pd_type p) of
        None \<Rightarrow> Inl InvalidProvider
      | Some kind \<Rightarrow>
          if case pd_max_tokens_field p of None \<Rightarrow> False | Some f \<Rightarrow> f \<notin> {''max_tokens'', ''max_completion_tokens''}
          then Inl InvalidProvider
          else if list_ex (\<lambda>(n, v). \<not> rp_header_name pk n \<or> \<not> rp_header_value pk v) (pd_headers p)
          then Inl InvalidProvider
          else case check_models old [] (pd_models p) of
                 Inl e \<Rightarrow> Inl e
               | Inr _ \<Rightarrow>
                   if case old of None \<Rightarrow> True | Some q \<Rightarrow> pd_base_url q \<noteq> pd_base_url p \<or> pd_type q \<noteq> pd_type p
                   then check_destination pk network kind (pd_base_url p)
                   else Inr ())"

fun check_providers ::
    "reload_packages \<Rightarrow> app_config \<Rightarrow> network_config \<Rightarrow> string list \<Rightarrow> (string \<times> provider_declaration) list \<Rightarrow>
     reload_failure + unit" where
  "check_providers pk before network seen [] = Inr ()"
| "check_providers pk before network seen ((name, p) # ps) =
     (if \<not> valid_name name \<or> to_lower name \<in> set seen then Inl InvalidProvider
      else case check_provider pk network (map_of (ac_providers before) name) p of
             Inl e \<Rightarrow> Inl e
           | Inr _ \<Rightarrow> check_providers pk before network (to_lower name # seen) ps)"

definition native_job_type :: "provider_declaration \<Rightarrow> bool" where
  "native_job_type p \<longleftrightarrow> type_from_str (pd_type p) \<in> {Fal, Replicate}"

definition reload_validate :: "reload_packages \<Rightarrow> app_config \<Rightarrow> app_config \<Rightarrow> reload_failure + unit" where
  "reload_validate pk before after =
     (if \<not> config_eq (fixed_part before) (fixed_part after) then Inl RestartRequired
      else if list_ex (\<lambda>(name, _). \<not> valid_name name) (ac_providers before) then Inl InvalidProvider
      else case check_providers pk before (ac_network after) [] (ac_providers after) of
             Inl e \<Rightarrow> Inl e
           | Inr _ \<Rightarrow>
               if list_ex (\<lambda>(name, p). native_job_type p \<and>
                    (case map_of (ac_providers after) name of None \<Rightarrow> True | Some q \<Rightarrow> \<not> provider_eq q p))
                  (ac_providers before)
               then Inl NativeJobChange
               else Inr ())"


subsection \<open>The two halves of a reload\<close>

text \<open>Before the file is read: the generation the reload starts from.\<close>

definition reload_begin :: "routing_state \<Rightarrow> reload_request \<Rightarrow> reload_failure + routing_snapshot" where
  "reload_begin st req =
     (if (case rr_expected_generation req of None \<Rightarrow> False | Some g \<Rightarrow> g \<noteq> sn_generation (rt_head st))
      then Inl GenerationConflict
      else if \<not> rr_dry_run req \<and> (rr_expected_generation req = None \<or> rr_expected_candidate req = None)
      then Inl MissingExpectation
      else if \<not> rt_configured st then Inl Unavailable
      else Inr (rt_head st))"

text \<open>
  A provider of the store (\<open>None\<close>: there is no store, \<open>Some None\<close>: listing it fails) must keep its
  owner: the candidate may neither take over its name nor give it up.
\<close>

definition owner_changes :: "app_config \<Rightarrow> app_config \<Rightarrow> string \<Rightarrow> bool" where
  "owner_changes before after name \<longleftrightarrow>
     (config_resolve_provider (ac_providers before) name \<noteq> None) \<noteq>
     (config_resolve_provider (ac_providers after) name \<noteq> None)"

definition check_owners :: "string list option option \<Rightarrow> app_config \<Rightarrow> app_config \<Rightarrow> reload_failure + unit" where
  "check_owners stored before after =
     (case stored of
        None \<Rightarrow> Inr ()
      | Some None \<Rightarrow> Inl Unavailable
      | Some (Some names) \<Rightarrow> if list_ex (owner_changes before after) names then Inl SourceConflict else Inr ())"

definition plan_matches :: "reload_request \<Rightarrow> routing_snapshot \<Rightarrow> app_config \<Rightarrow> nat \<Rightarrow> staged_plan \<Rightarrow> bool" where
  "plan_matches req base candidate now plan \<longleftrightarrow>
     rr_expected_candidate req = Some (sp_generation plan) \<and> sp_base plan = sn_generation base \<and>
     now - sp_created plan \<le> 60 * 10 ^ 9 \<and> config_eq (sp_config plan) candidate"

definition next_hint :: "routing_snapshot \<Rightarrow> app_config \<Rightarrow> string option" where
  "next_hint base candidate =
     or_else (resolved_name candidate ''default'')
       (case sn_default_hint base of
          None \<Rightarrow> None
        | Some name \<Rightarrow> if resolved_name candidate name \<noteq> None then Some name else None)"

text \<open>Under the lock. \<open>now\<close> is in nanoseconds; \<open>uuid\<close> is the random generation of a dry run.\<close>

definition stage_candidate ::
    "string \<Rightarrow> nat \<Rightarrow> routing_state \<Rightarrow> routing_snapshot \<Rightarrow> app_config \<Rightarrow> routing_state \<times> (reload_failure + reload_result)" where
  "stage_candidate uuid now st base candidate =
     (st\<lparr>rt_staged := Some \<lparr>sp_generation = uuid, sp_base = sn_generation base, sp_config = candidate, sp_created = now\<rparr>\<rparr>,
      Inr \<lparr>rl_status = Planned, rl_current = sn_generation base, rl_candidate = uuid,
           rl_resulting = sn_generation base, rl_changes = config_diff (sn_config base) candidate\<rparr>)"

definition publish_plan ::
    "routing_state \<Rightarrow> routing_snapshot \<Rightarrow> app_config \<Rightarrow> staged_plan \<Rightarrow> routing_state \<times> (reload_failure + reload_result)" where
  "publish_plan st base candidate plan =
     (let changes = config_diff (sn_config base) candidate;
          resulting = if changes = [] then sn_generation base else sp_generation plan;
          st' = if changes = [] then st
                else st\<lparr>rt_head := \<lparr>sn_generation = resulting, sn_config = candidate,
                                   sn_default_hint = next_hint base candidate\<rparr>\<rparr>
      in (st'\<lparr>rt_staged := None\<rparr>,
          Inr \<lparr>rl_status = (if changes = [] then Unchanged else Published), rl_current = sn_generation base,
               rl_candidate = sp_generation plan, rl_resulting = resulting, rl_changes = changes\<rparr>))"

definition reload_commit ::
    "reload_packages \<Rightarrow> string list option option \<Rightarrow> string \<Rightarrow> nat \<Rightarrow> routing_state \<Rightarrow> routing_snapshot \<Rightarrow> reload_request \<Rightarrow>
     app_config \<Rightarrow> routing_state \<times> (reload_failure + reload_result)" where
  "reload_commit pk stored uuid now st base req candidate =
     (if sn_generation (rt_head st) \<noteq> sn_generation base then (st, Inl GenerationConflict)
      else case reload_validate pk (sn_config base) candidate of
        Inl e \<Rightarrow> (st, Inl e)
      | Inr _ \<Rightarrow>
          (case check_owners stored (sn_config base) candidate of
             Inl e \<Rightarrow> (st, Inl e)
           | Inr _ \<Rightarrow>
               if rr_dry_run req then stage_candidate uuid now st base candidate
               else case rt_staged st of
                      None \<Rightarrow> (st, Inl CandidateConflict)
                    | Some plan \<Rightarrow>
                        if plan_matches req base candidate now plan then publish_plan st base candidate plan
                        else (st, Inl CandidateConflict)))"

text \<open>A reload that nothing interrupts; \<open>loaded\<close> is what reading the file gives.\<close>

definition reload ::
    "reload_packages \<Rightarrow> string list option option \<Rightarrow> string \<Rightarrow> nat \<Rightarrow> reload_failure + app_config \<Rightarrow> routing_state \<Rightarrow>
     reload_request \<Rightarrow> routing_state \<times> (reload_failure + reload_result)" where
  "reload pk stored uuid now loaded st req =
     (case reload_begin st req of
        Inl e \<Rightarrow> (st, Inl e)
      | Inr base \<Rightarrow>
          (case loaded of
             Inl e \<Rightarrow> (st, Inl e)
           | Inr candidate \<Rightarrow> reload_commit pk stored uuid now st base req candidate))"


subsection \<open>Equality of configurations\<close>

lemma f64_eq_trans: "f64_eq a b \<Longrightarrow> f64_eq b c \<Longrightarrow> f64_eq a c"
  by (auto simp: f64_eq_def intro: f64_ge_trans)

lemma cost_eq_trans: "cost_eq a b \<Longrightarrow> cost_eq b c \<Longrightarrow> cost_eq a c"
  by (auto simp: cost_eq_def intro: f64_eq_trans)

lemma model_eq_trans: "model_eq a b \<Longrightarrow> model_eq b c \<Longrightarrow> model_eq a c"
  by (auto simp: model_eq_def intro: cost_eq_trans)

lemma hash_maps_eqD:
  assumes "hash_maps_eq eq a b" and "(k, v) \<in> set a"
  obtains w where "map_of b k = Some w" and "eq v w"
  using assms unfolding hash_maps_eq_def list_all_iff
  by (cases "map_of b k") auto

lemma hash_maps_eq_trans:
  assumes "hash_maps_eq eq a b" and "hash_maps_eq eq b c"
    and trans: "\<And>u v w. eq u v \<Longrightarrow> eq v w \<Longrightarrow> eq u w"
  shows "hash_maps_eq eq a c"
  unfolding hash_maps_eq_def list_all_iff
proof (intro conjI ballI)
  show "length a = length c" using assms(1,2) by (simp add: hash_maps_eq_def)
next
  fix x assume x: "x \<in> set a"
  obtain k v where kv: "x = (k, v)" by (cases x)
  with assms(1) x obtain w where w: "map_of b k = Some w" "eq v w" by (auto elim: hash_maps_eqD)
  then have "(k, w) \<in> set b" by (auto dest: map_of_SomeD)
  with assms(2) obtain u where "map_of c k = Some u" "eq w u" by (auto elim: hash_maps_eqD)
  with w kv show "case x of (k, v) \<Rightarrow> case map_of c k of None \<Rightarrow> False | Some w \<Rightarrow> eq v w"
    by (auto intro: trans)
qed

lemma provider_eq_trans: "provider_eq a b \<Longrightarrow> provider_eq b c \<Longrightarrow> provider_eq a c"
  unfolding provider_eq_def
  by (auto intro: hash_maps_eq_trans list_all2_trans [of model_eq, OF model_eq_trans])

lemma config_eq_fixed:
  "config_eq (fixed_part a) (fixed_part b) \<Longrightarrow> ac_network b = ac_network a \<and> ac_rest b = ac_rest a"
  by (simp add: config_eq_def fixed_part_def)

subsection \<open>What the checks of a candidate establish\<close>

text \<open>
  A configuration that publications lead to from another: the part that needs a restart is the
  same, native job providers are as declared, prices are those of the start or zero, destinations
  are those of the start or allowed, and names are valid and different up to case.
\<close>

definition same_declaration :: "provider_declaration \<Rightarrow> provider_declaration \<Rightarrow> bool" where
  "same_declaration q p \<longleftrightarrow> q = p \<or> provider_eq q p"

definition price_from :: "app_config \<Rightarrow> string \<Rightarrow> model_declaration \<Rightarrow> bool" where
  "price_from start name m \<longleftrightarrow>
     (\<forall>v \<in> set (model_costs m). f64_eq v (Fin 0)) \<or>
     (\<exists>p \<in> {p. (name, p) \<in> set (ac_providers start)}. \<exists>m' \<in> set (pd_models p).
        md_id m' = md_id m \<and> (md_cost m' = md_cost m \<or> cost_eq (md_cost m') (md_cost m)))"

definition destination_from :: "reload_packages \<Rightarrow> app_config \<Rightarrow> string \<Rightarrow> provider_declaration \<Rightarrow> bool" where
  "destination_from pk start name p \<longleftrightarrow>
     try_from_str (pd_type p) = Some Mock \<or>
     (\<exists>q. (name, q) \<in> set (ac_providers start) \<and> pd_type q = pd_type p \<and> pd_base_url q = pd_base_url p) \<or>
     (\<exists>kind address. try_from_str (pd_type p) = Some kind \<and>
        address = (if pd_base_url p = [] then pi_base_url (type_info kind) else Some (pd_base_url p)) \<and>
        (case address of None \<Rightarrow> False | Some a \<Rightarrow> url_acceptable pk (ac_network start) a))"

definition descends :: "reload_packages \<Rightarrow> app_config \<Rightarrow> app_config \<Rightarrow> bool" where
  "descends pk start c \<longleftrightarrow>
     ac_network c = ac_network start \<and> ac_rest c = ac_rest start \<and>
     (\<forall>(name, p) \<in> set (ac_providers start). native_job_type p \<longrightarrow>
        (\<exists>q. (name, q) \<in> set (ac_providers c) \<and> same_declaration q p)) \<and>
     (\<forall>(name, p) \<in> set (ac_providers c). \<forall>m \<in> set (pd_models p). price_from start name m) \<and>
     (\<forall>(name, p) \<in> set (ac_providers c). destination_from pk start name p)"

definition names_ok :: "app_config \<Rightarrow> bool" where
  "names_ok c \<longleftrightarrow>
     (\<forall>name \<in> set (map fst (ac_providers c)). valid_name name) \<and>
     distinct (map (\<lambda>(name, _). to_lower name) (ac_providers c))"

lemma descends_refl: "descends pk c c"
  by (auto simp: descends_def same_declaration_def price_from_def destination_from_def)

lemma check_models_ok:
  assumes "check_models old seen ms = Inr ()" and "m \<in> set ms"
  shows "check_model old m = Inr ()"
  using assms by (induction ms arbitrary: seen) (auto split: if_splits sum.splits)

lemma check_providers_ok:
  assumes "check_providers pk before network seen ps = Inr ()"
  shows "(\<forall>(name, p) \<in> set ps. valid_name name \<and> to_lower name \<notin> set seen \<and>
            check_provider pk network (map_of (ac_providers before) name) p = Inr ()) \<and>
         distinct (map (\<lambda>(name, _). to_lower name) ps)"
  using assms by (induction ps arbitrary: seen) (fastforce split: if_splits sum.splits)+

lemma check_model_price:
  assumes "check_model (map_of (ac_providers before) name) m = Inr ()"
    and before: "\<forall>(name, p) \<in> set (ac_providers before). \<forall>m \<in> set (pd_models p). price_from start name m"
  shows "price_from start name m"
proof (cases "Option.bind (map_of (ac_providers before) name) (\<lambda>p. find (\<lambda>m'. md_id m' = md_id m) (pd_models p))")
  case None
  with assms(1) have "\<forall>v \<in> set (model_costs m). f64_eq v (Fin 0)"
    by (auto simp: check_model_def list_ex_iff split: if_splits)
  then show ?thesis by (simp add: price_from_def)
next
  case (Some m')
  with assms(1) have eq: "cost_eq (md_cost m') (md_cost m)" by (auto simp: check_model_def split: if_splits)
  from Some obtain p where p: "(name, p) \<in> set (ac_providers before)" and m': "m' \<in> set (pd_models p)" "md_id m' = md_id m"
    by (auto simp: bind_eq_Some_conv find_Some_iff dest: map_of_SomeD)
  with before have "price_from start name m'" by auto
  then show ?thesis
  proof (unfold price_from_def [of start name m'], elim disjE bexE)
    assume "\<forall>v \<in> set (model_costs m'). f64_eq v (Fin 0)"
    with eq have "\<forall>v \<in> set (model_costs m). f64_eq v (Fin 0)"
      by (auto simp: model_costs_def Let_def cost_eq_def f64_eq_def intro: f64_ge_trans)
    then show ?thesis by (simp add: price_from_def)
  next
    fix q m0 assume q: "q \<in> {p. (name, p) \<in> set (ac_providers start)}" and m0: "m0 \<in> set (pd_models q)"
      and same: "md_id m0 = md_id m' \<and> (md_cost m0 = md_cost m' \<or> cost_eq (md_cost m0) (md_cost m'))"
    from same eq have "cost_eq (md_cost m0) (md_cost m)" by (auto intro: cost_eq_trans)
    with same m'(2) have "md_id m0 = md_id m \<and> (md_cost m0 = md_cost m \<or> cost_eq (md_cost m0) (md_cost m))" by simp
    with q m0 show ?thesis unfolding price_from_def by blast
  qed
qed

lemma check_provider_destination:
  assumes "check_provider pk (ac_network start) (map_of (ac_providers before) name) p = Inr ()"
    and before: "\<forall>(name, p) \<in> set (ac_providers before). destination_from pk start name p"
  shows "destination_from pk start name p"
proof -
  obtain kind where kind: "try_from_str (pd_type p) = Some kind"
    and dest: "(case map_of (ac_providers before) name of None \<Rightarrow> True
        | Some q \<Rightarrow> pd_base_url q \<noteq> pd_base_url p \<or> pd_type q \<noteq> pd_type p) \<Longrightarrow>
      check_destination pk (ac_network start) kind (pd_base_url p) = Inr ()"
    using assms(1) by (auto simp: check_provider_def split: option.splits if_splits sum.splits)
  show ?thesis
  proof (cases "\<exists>q. map_of (ac_providers before) name = Some q \<and> pd_base_url q = pd_base_url p \<and> pd_type q = pd_type p")
    case True
    then obtain q where "(name, q) \<in> set (ac_providers before)" and q: "pd_base_url q = pd_base_url p" "pd_type q = pd_type p"
      by (auto dest: map_of_SomeD)
    with before have "destination_from pk start name q" by auto
    with q show ?thesis unfolding destination_from_def by metis
  next
    case False
    with dest have "check_destination pk (ac_network start) kind (pd_base_url p) = Inr ()"
      by (auto split: option.splits)
    with kind show ?thesis
      by (auto simp: destination_from_def check_destination_def split: if_splits option.splits)
  qed
qed


lemma reload_validate_descends:
  assumes ok: "reload_validate pk before after = Inr ()" and before: "descends pk start before"
  shows "descends pk start after" and "names_ok after"
proof -
  have fixed: "config_eq (fixed_part before) (fixed_part after)"
    and ps: "check_providers pk before (ac_network after) [] (ac_providers after) = Inr ()"
    and native: "\<And>name p. (name, p) \<in> set (ac_providers before) \<Longrightarrow> native_job_type p \<Longrightarrow>
      \<exists>q. map_of (ac_providers after) name = Some q \<and> provider_eq q p"
    using ok by (fastforce simp: reload_validate_def list_ex_iff split: if_splits sum.splits option.splits)+
  from config_eq_fixed [OF fixed] before
  have same: "ac_network after = ac_network start" "ac_rest after = ac_rest start"
    by (auto simp: descends_def)
  from check_providers_ok [OF ps] have
    names: "\<And>name p. (name, p) \<in> set (ac_providers after) \<Longrightarrow> valid_name name"
      "distinct (map (\<lambda>(name, _). to_lower name) (ac_providers after))" and
    checked: "\<And>name p. (name, p) \<in> set (ac_providers after) \<Longrightarrow>
      check_provider pk (ac_network start) (map_of (ac_providers before) name) p = Inr ()"
    by (auto simp: same)
  from names show "names_ok after" by (auto simp: names_ok_def)
  have "\<exists>q. (name, q) \<in> set (ac_providers after) \<and> same_declaration q p"
    if p: "(name, p) \<in> set (ac_providers start)" "native_job_type p" for name p
  proof -
    from before p obtain q where q: "(name, q) \<in> set (ac_providers before)" "same_declaration q p"
      by (fastforce simp: descends_def)
    with p(2) have "native_job_type q" by (auto simp: same_declaration_def provider_eq_def native_job_type_def)
    with native q(1) obtain r where r: "map_of (ac_providers after) name = Some r" "provider_eq r q" by blast
    with q(2) have "provider_eq r p" by (auto simp: same_declaration_def intro: provider_eq_trans)
    with r(1) show ?thesis by (auto simp: same_declaration_def dest: map_of_SomeD)
  qed
  moreover have "price_from start name m"
    if p: "(name, p) \<in> set (ac_providers after)" "m \<in> set (pd_models p)" for name p m
  proof -
    from checked [OF p(1)] have "check_models (map_of (ac_providers before) name) [] (pd_models p) = Inr ()"
      by (auto simp: check_provider_def split: option.splits if_splits sum.splits)
    with p(2) have "check_model (map_of (ac_providers before) name) m = Inr ()" by (rule check_models_ok [rotated])
    with before show ?thesis by (auto simp: descends_def elim: check_model_price [rotated])
  qed
  moreover have "destination_from pk start name p" if "(name, p) \<in> set (ac_providers after)" for name p
    using checked [OF that] before by (auto simp: descends_def elim: check_provider_destination)
  ultimately show "descends pk start after" unfolding descends_def using same by blast
qed

subsection \<open>Reloads that interleave\<close>

text \<open>
  The events of a run: a dry run that staged a candidate over a snapshot, a publication over a
  snapshot, and a publication without changes. A reload between its halves has its snapshot, its
  request and what it read. \<open>rs_used\<close> are the generations drawn so far; a random generation is new.
\<close>

datatype reload_event =
    Previewed string routing_snapshot app_config
  | Applied string routing_snapshot routing_snapshot
  | Confirmed string routing_snapshot

record reload_system =
  rs_state :: routing_state
  rs_running :: "(routing_snapshot \<times> reload_request \<times> app_config) list"
  rs_used :: "string set"
  rs_log :: "reload_event list"

definition event_of :: "routing_snapshot \<Rightarrow> app_config \<Rightarrow> routing_state \<Rightarrow> reload_failure + reload_result \<Rightarrow> reload_event list" where
  "event_of base candidate st' r =
     (case r of
        Inl _ \<Rightarrow> []
      | Inr res \<Rightarrow>
          (case rl_status res of
             Planned \<Rightarrow> [Previewed (rl_candidate res) base candidate]
           | Published \<Rightarrow> [Applied (rl_candidate res) base (rt_head st')]
           | Unchanged \<Rightarrow> [Confirmed (rl_candidate res) base]))"

inductive reload_step :: "reload_packages \<Rightarrow> reload_system \<Rightarrow> reload_system \<Rightarrow> bool" for pk where
  begins: "reload_begin (rs_state s) req = Inr base \<Longrightarrow>
     reload_step pk s (s\<lparr>rs_running := (base, req, candidate) # rs_running s\<rparr>)"
| commits: "(base, req, candidate) \<in> set (rs_running s) \<Longrightarrow> uuid \<notin> rs_used s \<Longrightarrow>
     reload_commit pk stored uuid now (rs_state s) base req candidate = (st', r) \<Longrightarrow>
     reload_step pk s (s\<lparr>rs_state := st', rs_running := remove1 (base, req, candidate) (rs_running s),
       rs_used := insert uuid (rs_used s), rs_log := rs_log s @ event_of base candidate st' r\<rparr>)"

inductive_cases reload_step_cases [consumes 1, case_names begins commits]: "reload_step pk s s'"

definition reload_start :: "string \<Rightarrow> app_config \<Rightarrow> reload_system" where
  "reload_start uuid c =
     \<lparr>rs_state = (routing_new uuid c)\<lparr>rt_configured := True\<rparr>, rs_running = [], rs_used = {uuid}, rs_log = []\<rparr>"

inductive reload_reachable :: "reload_packages \<Rightarrow> string \<Rightarrow> app_config \<Rightarrow> reload_system \<Rightarrow> bool" for pk uuid c where
  start: "reload_reachable pk uuid c (reload_start uuid c)"
| step: "reload_reachable pk uuid c s \<Longrightarrow> reload_step pk s s' \<Longrightarrow> reload_reachable pk uuid c s'"

text \<open>The events replayed one after another, each over the snapshot the previous ones left.\<close>

fun replay :: "routing_snapshot \<Rightarrow> reload_event list \<Rightarrow> routing_snapshot option" where
  "replay h [] = Some h"
| "replay h (Previewed g b c # es) = (if b = h then replay h es else None)"
| "replay h (Confirmed g b # es) = (if b = h then replay h es else None)"
| "replay h (Applied g b h' # es) = (if b = h then replay h' es else None)"

fun consumed_by :: "reload_event \<Rightarrow> string list" where
  "consumed_by (Previewed g b c) = []"
| "consumed_by (Confirmed g b) = [g]"
| "consumed_by (Applied g b h) = [g]"

definition consumed :: "reload_event list \<Rightarrow> string list" where
  "consumed es = concat (map consumed_by es)"

lemma consumed_append [simp]: "consumed (es @ fs) = consumed es @ consumed fs"
  by (simp add: consumed_def)

lemma consumed_single [simp]: "consumed [] = []" "consumed [e] = consumed_by e"
  by (simp_all add: consumed_def)

lemma events_replay_append: "replay h (es @ fs) = Option.bind (replay h es) (\<lambda>h'. replay h' fs)"
  by (induction h es rule: replay.induct) auto

text \<open>The outcomes of the second half.\<close>

lemma reload_commit_cases:
  assumes "reload_commit pk stored uuid now st base req candidate = (st', r)"
  obtains (failed) e where "st' = st" and "r = Inl e"
  | (staged) "rr_dry_run req" and "reload_validate pk (sn_config base) candidate = Inr ()"
      and "sn_generation (rt_head st) = sn_generation base"
      and "stage_candidate uuid now st base candidate = (st', r)"
  | (published) plan where "\<not> rr_dry_run req" and "reload_validate pk (sn_config base) candidate = Inr ()"
      and "sn_generation (rt_head st) = sn_generation base"
      and "rt_staged st = Some plan" and "plan_matches req base candidate now plan"
      and "publish_plan st base candidate plan = (st', r)"
  using assms unfolding reload_commit_def by (auto split: if_splits sum.splits option.splits)

lemma publish_plan_eq:
  "publish_plan st base candidate plan = (st', r) \<Longrightarrow>
     rt_staged st' = None \<and>
     (event_of base candidate st' r = [Confirmed (sp_generation plan) base] \<and> rt_head st' = rt_head st \<or>
      event_of base candidate st' r = [Applied (sp_generation plan) base (rt_head st')] \<and>
        sn_generation (rt_head st') = sp_generation plan \<and> sn_config (rt_head st') = candidate)"
  by (cases "config_diff (sn_config base) candidate = []") (auto simp: publish_plan_def event_of_def Let_def)

lemma stage_candidate_eq:
  "stage_candidate uuid now st base candidate = (st', r) \<Longrightarrow>
     rt_head st' = rt_head st \<and> event_of base candidate st' r = [Previewed uuid base candidate] \<and>
     rt_staged st' = Some \<lparr>sp_generation = uuid, sp_base = sn_generation base, sp_config = candidate, sp_created = now\<rparr>"
  by (auto simp: stage_candidate_def event_of_def)


definition staged_ok :: "reload_system \<Rightarrow> staged_plan \<Rightarrow> bool" where
  "staged_ok s plan \<longleftrightarrow>
     sp_generation plan \<in> rs_used s \<and>
     sp_generation plan \<noteq> sn_generation (rt_head (rs_state s)) \<and>
     sp_generation plan \<notin> set (consumed (rs_log s)) \<and>
     (\<forall>(base, _, _) \<in> set (rs_running s). sn_generation base \<noteq> sp_generation plan) \<and>
     (\<exists>b. Previewed (sp_generation plan) b (sp_config plan) \<in> set (rs_log s) \<and>
          (sp_base plan = sn_generation (rt_head (rs_state s)) \<longrightarrow> b = rt_head (rs_state s)))"

definition previewed_as_applied :: "reload_event list \<Rightarrow> bool" where
  "previewed_as_applied es \<longleftrightarrow>
     (\<forall>g b h. Applied g b h \<in> set es \<longrightarrow>
        sn_generation h = g \<and> (\<exists>c. Previewed g b c \<in> set es \<and> config_eq c (sn_config h)))"

definition reload_inv :: "reload_packages \<Rightarrow> string \<Rightarrow> app_config \<Rightarrow> reload_system \<Rightarrow> bool" where
  "reload_inv pk uuid c s \<longleftrightarrow>
     sn_generation (rt_head (rs_state s)) \<in> rs_used s \<and>
     set (consumed (rs_log s)) \<subseteq> rs_used s \<and>
     (\<forall>(base, _, _) \<in> set (rs_running s). sn_generation base \<in> rs_used s \<and>
        (sn_generation base = sn_generation (rt_head (rs_state s)) \<longrightarrow> base = rt_head (rs_state s))) \<and>
     (\<forall>plan. rt_staged (rs_state s) = Some plan \<longrightarrow> staged_ok s plan) \<and>
     distinct (consumed (rs_log s)) \<and>
     previewed_as_applied (rs_log s) \<and>
     replay (rt_head (routing_new uuid c)) (rs_log s) = Some (rt_head (rs_state s)) \<and>
     descends pk c (sn_config (rt_head (rs_state s))) \<and>
     (sn_config (rt_head (rs_state s)) = c \<or> names_ok (sn_config (rt_head (rs_state s))))"

lemma reload_invD:
  assumes "reload_inv pk uuid c s"
  shows "sn_generation (rt_head (rs_state s)) \<in> rs_used s"
    and "set (consumed (rs_log s)) \<subseteq> rs_used s"
    and "(base, req, candidate) \<in> set (rs_running s) \<Longrightarrow> sn_generation base \<in> rs_used s"
    and "(base, req, candidate) \<in> set (rs_running s) \<Longrightarrow>
      sn_generation base = sn_generation (rt_head (rs_state s)) \<Longrightarrow> base = rt_head (rs_state s)"
    and "rt_staged (rs_state s) = Some plan \<Longrightarrow> staged_ok s plan"
    and "distinct (consumed (rs_log s))" and "previewed_as_applied (rs_log s)"
    and "replay (rt_head (routing_new uuid c)) (rs_log s) = Some (rt_head (rs_state s))"
    and "descends pk c (sn_config (rt_head (rs_state s)))"
    and "sn_config (rt_head (rs_state s)) = c \<or> names_ok (sn_config (rt_head (rs_state s)))"
  using assms unfolding reload_inv_def by auto

lemma previewed_as_applied_append:
  assumes "previewed_as_applied es"
    and "\<And>g b h. Applied g b h \<in> set fs \<Longrightarrow>
      sn_generation h = g \<and> (\<exists>c. Previewed g b c \<in> set es \<and> config_eq c (sn_config h))"
  shows "previewed_as_applied (es @ fs)"
  using assms unfolding previewed_as_applied_def by (auto; blast)

lemma inv_begins:
  assumes inv: "reload_inv pk uuid c s" and "reload_begin (rs_state s) req = Inr base"
  shows "reload_inv pk uuid c (s\<lparr>rs_running := (base, req, candidate) # rs_running s\<rparr>)"
proof -
  have base: "base = rt_head (rs_state s)" using assms(2) by (auto simp: reload_begin_def split: if_splits)
  have "staged_ok (s\<lparr>rs_running := (base, req, candidate) # rs_running s\<rparr>) plan"
    if "rt_staged (rs_state s) = Some plan" for plan
    using reload_invD(5) [OF inv that] base by (auto simp: staged_ok_def)
  with inv base show ?thesis by (auto simp: reload_inv_def)
qed

text \<open>What a step under the lock may leave: less running, more generations drawn.\<close>

lemma inv_commits_failed:
  assumes inv: "reload_inv pk uuid c s"
  shows "reload_inv pk uuid c (s\<lparr>rs_running := remove1 x (rs_running s), rs_used := insert u (rs_used s)\<rparr>)"
proof -
  have sub: "set (remove1 x (rs_running s)) \<subseteq> set (rs_running s)" by (rule set_remove1_subset)
  have "staged_ok (s\<lparr>rs_running := remove1 x (rs_running s), rs_used := insert u (rs_used s)\<rparr>) plan"
    if "rt_staged (rs_state s) = Some plan" for plan
    using reload_invD(5) [OF inv that] sub by (fastforce simp: staged_ok_def)
  with inv sub show ?thesis unfolding reload_inv_def by fastforce
qed

lemma inv_commits_staged:
  assumes inv: "reload_inv pk uuid c s" and new: "u \<notin> rs_used s"
    and st': "rt_head st' = rt_head (rs_state s)"
      "rt_staged st' = Some \<lparr>sp_generation = u, sp_base = sn_generation (rt_head (rs_state s)), sp_config = candidate, sp_created = now\<rparr>"
  shows "reload_inv pk uuid c (s\<lparr>rs_state := st', rs_running := remove1 x (rs_running s), rs_used := insert u (rs_used s),
    rs_log := rs_log s @ [Previewed u (rt_head (rs_state s)) candidate]\<rparr>)" (is "reload_inv pk uuid c ?s")
proof -
  note D = reload_invD [OF inv]
  have sub: "set (remove1 x (rs_running s)) \<subseteq> set (rs_running s)" by (rule set_remove1_subset)
  have "staged_ok ?s \<lparr>sp_generation = u, sp_base = sn_generation (rt_head (rs_state s)), sp_config = candidate, sp_created = now\<rparr>"
    using new D(1,2,3) sub st'(1) by (fastforce simp: staged_ok_def)
  moreover have "previewed_as_applied (rs_log s @ [Previewed u (rt_head (rs_state s)) candidate])"
    by (rule previewed_as_applied_append [OF D(7)]) simp
  moreover have "\<forall>(base, _, _) \<in> set (remove1 x (rs_running s)). sn_generation base \<in> insert u (rs_used s) \<and>
     (sn_generation base = sn_generation (rt_head (rs_state s)) \<longrightarrow> base = rt_head (rs_state s))"
    using D(3,4) sub by blast
  ultimately show ?thesis
    unfolding reload_inv_def using D(1,2,6,8,9,10) st' by (auto simp: events_replay_append)
qed

lemma inv_commits_published:
  assumes inv: "reload_inv pk uuid c s" and plan: "rt_staged (rs_state s) = Some plan"
    and base: "sp_base plan = sn_generation (rt_head (rs_state s))"
    and e: "e = Confirmed (sp_generation plan) (rt_head (rs_state s)) \<and> rt_head st' = rt_head (rs_state s) \<or>
      e = Applied (sp_generation plan) (rt_head (rs_state s)) (rt_head st') \<and>
      sn_generation (rt_head st') = sp_generation plan \<and> config_eq (sp_config plan) (sn_config (rt_head st')) \<and>
      descends pk c (sn_config (rt_head st')) \<and> names_ok (sn_config (rt_head st'))"
    and st': "rt_staged st' = None"
  shows "reload_inv pk uuid c (s\<lparr>rs_state := st', rs_running := remove1 x (rs_running s), rs_used := insert u (rs_used s),
    rs_log := rs_log s @ [e]\<rparr>)"
proof -
  note D = reload_invD [OF inv]
  have sub: "set (remove1 x (rs_running s)) \<subseteq> set (rs_running s)" by (rule set_remove1_subset)
  from D(5) [OF plan] base obtain
    g: "sp_generation plan \<in> rs_used s" "sp_generation plan \<notin> set (consumed (rs_log s))"
      "\<forall>(base, _, _) \<in> set (rs_running s). sn_generation base \<noteq> sp_generation plan" and
    b: "Previewed (sp_generation plan) (rt_head (rs_state s)) (sp_config plan) \<in> set (rs_log s)"
    by (auto simp: staged_ok_def)
  have "previewed_as_applied (rs_log s @ [e])"
    by (rule previewed_as_applied_append [OF D(7)]) (use e b in auto)
  moreover have "\<forall>(base, _, _) \<in> set (remove1 x (rs_running s)). sn_generation base \<in> insert u (rs_used s) \<and>
     (sn_generation base = sn_generation (rt_head st') \<longrightarrow> base = rt_head st')"
    using D(3,4) sub e g(3) by fastforce
  moreover have "replay (rt_head (routing_new uuid c)) (rs_log s @ [e]) = Some (rt_head st')"
    using D(8) e by (auto simp: events_replay_append)
  moreover have "distinct (consumed (rs_log s @ [e]))" "set (consumed (rs_log s @ [e])) \<subseteq> insert u (rs_used s)"
    using D(2,6) e g(1,2) by auto
  moreover have "sn_generation (rt_head st') \<in> insert u (rs_used s)" using D(1) e g(1) by auto
  moreover have "descends pk c (sn_config (rt_head st'))" "sn_config (rt_head st') = c \<or> names_ok (sn_config (rt_head st'))"
    using D(9,10) e by auto
  ultimately show ?thesis unfolding reload_inv_def using st' by simp
qed

lemma reload_inv_step:
  assumes inv: "reload_inv pk uuid c s" and "reload_step pk s s'"
  shows "reload_inv pk uuid c s'"
  using assms(2)
proof (cases rule: reload_step_cases)
  case (begins req base candidate)
  then show ?thesis using inv_begins [OF inv] by simp
next
  case (commits base req candidate u stored now st' r)
  note D = reload_invD [OF inv]
  from commits(4) show ?thesis
  proof (cases rule: reload_commit_cases)
    case (failed e)
    with commits(1) inv_commits_failed [OF inv] show ?thesis by (simp add: event_of_def)
  next
    case staged
    from D(4) [OF commits(2)] staged(3) have "base = rt_head (rs_state s)" by simp
    with stage_candidate_eq [OF staged(4)] commits(1) inv_commits_staged [OF inv commits(3)] show ?thesis by simp
  next
    case (published plan)
    from D(4) [OF commits(2)] published(3) have base: "base = rt_head (rs_state s)" by simp
    with D(9) have "descends pk c (sn_config base)" by simp
    with reload_validate_descends [OF published(2)] have ok: "descends pk c candidate" "names_ok candidate" by blast+
    from published(5) base have plan: "sp_base plan = sn_generation (rt_head (rs_state s))" "config_eq (sp_config plan) candidate"
      by (simp_all add: plan_matches_def)
    from publish_plan_eq [OF published(6)] obtain e where e: "event_of base candidate st' r = [e]"
      "e = Confirmed (sp_generation plan) (rt_head (rs_state s)) \<and> rt_head st' = rt_head (rs_state s) \<or>
       e = Applied (sp_generation plan) (rt_head (rs_state s)) (rt_head st') \<and>
       sn_generation (rt_head st') = sp_generation plan \<and> config_eq (sp_config plan) (sn_config (rt_head st')) \<and>
       descends pk c (sn_config (rt_head st')) \<and> names_ok (sn_config (rt_head st'))"
      and "rt_staged st' = None"
      using base ok plan(2) by auto
    with inv_commits_published [OF inv published(4) plan(1) e(2)] commits(1) show ?thesis by simp
  qed
qed

lemma reload_inv_reachable: "reload_reachable pk uuid c s \<Longrightarrow> reload_inv pk uuid c s"
proof (induction rule: reload_reachable.induct)
  case start
  show ?case
    by (simp add: reload_inv_def reload_start_def routing_new_def descends_refl previewed_as_applied_def)
next
  case (step s s')
  then show ?case by (blast intro: reload_inv_step)
qed


subsection \<open>The input of a reload\<close>

text \<open>
  Before the file is decoded its keys are checked. The allowed keys of a declaration are those of a
  default value written as JSON, which lacks the fields that are only written when they are set.
  \<open>env_set\<close> says whether an environment variable exists. All failures are the same error.
\<close>

definition root_keys :: "string list" where
  "root_keys =
     [''server'', ''inference'', ''providers'', ''upstream'', ''logging'', ''analysis'', ''policy'', ''delegated_fetch'',
      ''state'', ''keys'', ''capture'', ''transform'', ''network'', ''egress'', ''mock_responses'', ''native_pricing'',
      ''auth_token'', ''fleet'', ''program_status'', ''pools'']"

definition provider_schema :: "string list" where
  "provider_schema =
     [''type'', ''api_key'', ''base_url'', ''api_version'', ''compat'', ''headers'', ''aws_region'',
      ''aws_access_key_id'', ''aws_secret_access_key'', ''aws_session_token'', ''aws_service'', ''deployment'',
      ''gcp_project'', ''gcp_location'', ''test_model'', ''models'']"

definition compat_schema :: "string list" where
  "compat_schema = [''supports_store'', ''supports_developer_role'', ''max_tokens_field'', ''supports_stream_options'']"

definition model_schema :: "string list" where
  "model_schema = [''id'', ''name'', ''reasoning'', ''input'', ''context_window'', ''max_tokens'', ''cost'', ''compat'']"

definition cost_schema :: "string list" where
  "cost_schema = [''input'', ''output'', ''cache_read'', ''cache_write'']"

definition upper_char :: "char \<Rightarrow> char" where
  "upper_char c = (if CHR ''a'' \<le> c \<and> c \<le> CHR ''z'' then char_of (of_char c - 32 :: nat) else c)"

definition keys_known :: "string list \<Rightarrow> json \<Rightarrow> bool" where
  "keys_known schema v = (case as_object v of None \<Rightarrow> False | Some m \<Rightarrow> list_all (\<lambda>(k, _). k \<in> set schema) m)"

definition if_present :: "json \<Rightarrow> string \<Rightarrow> (json \<Rightarrow> bool) \<Rightarrow> bool" where
  "if_present v k P = (case jget v k of None \<Rightarrow> True | Some w \<Rightarrow> P w)"

definition model_input_ok :: "json \<Rightarrow> bool" where
  "model_input_ok m \<longleftrightarrow> keys_known model_schema m \<and> if_present m ''cost'' (keys_known cost_schema)"

definition provider_input_ok :: "json \<Rightarrow> bool" where
  "provider_input_ok p \<longleftrightarrow>
     keys_known provider_schema p \<and> if_present p ''compat'' (keys_known compat_schema) \<and>
     if_present p ''models'' (\<lambda>ms. case as_array ms of None \<Rightarrow> False | Some xs \<Rightarrow> list_all model_input_ok xs)"

definition validate_input :: "(string \<Rightarrow> bool) \<Rightarrow> json \<Rightarrow> reload_failure + unit" where
  "validate_input env_set input =
     (case as_object input of
        None \<Rightarrow> Inl InvalidConfiguration
      | Some entries \<Rightarrow>
          if list_all (\<lambda>(k, _). k \<in> set root_keys \<or> env_set (''EAVS_'' @ map upper_char k)) entries \<and>
             list_all (\<lambda>table. if_present input table (\<lambda>ps. case as_object ps of
               None \<Rightarrow> False | Some m \<Rightarrow> list_all (\<lambda>(_, p). provider_input_ok p) m)) [''providers'', ''upstream'']
          then Inr () else Inl InvalidConfiguration)"

text \<open>
  A declaration that sets its own user agent, a documented field of a provider that the
  start accepts, is refused by every reload.
\<close>

theorem documented_field_refused:
  "validate_input (\<lambda>_. False)
     (JObj [(''providers'', JObj [(''local'', JObj [(''type'', JStr ''ollama''), (''user_agent'', JStr ''{eavs}'')])])]) =
   Inl InvalidConfiguration"
  by (simp add: validate_input_def root_keys_def if_present_def provider_input_ok_def keys_known_def provider_schema_def)

subsection \<open>Properties\<close>

text \<open>
  Claim C39. However many reloads interleave, the published configurations form one line: each preview and
  each publication was made over exactly the snapshot the previous one left, none is lost; what is
  published under a generation is what was previewed under it, over the same snapshot; and a
  previewed generation is used at most once.
\<close>

theorem reloads_serialized:
  assumes "reload_reachable pk uuid c s"
  shows "replay (rt_head (routing_new uuid c)) (rs_log s) = Some (rt_head (rs_state s)) \<and>
    distinct (consumed (rs_log s)) \<and>
    (\<forall>g b h. Applied g b h \<in> set (rs_log s) \<longrightarrow>
       sn_generation h = g \<and> (\<exists>cand. Previewed g b cand \<in> set (rs_log s) \<and> config_eq cand (sn_config h)))"
  using reload_invD(6,7,8) [OF reload_inv_reachable [OF assms]] unfolding previewed_as_applied_def by blast


text \<open>
  A refused reload changes nothing, a dry run does not change what is published, and without the
  two generations of a preview nothing is published.
\<close>

theorem reload_refusal_keeps_state:
  assumes "reload pk stored uuid now loaded st req = (st', r)"
  shows "(case r of
      Inl e \<Rightarrow> st' = st
    | Inr res \<Rightarrow> if rr_dry_run req then rt_head st' = rt_head st
        else rr_expected_generation req = Some (sn_generation (rt_head st)) \<and>
          rr_expected_candidate req = Some (rl_candidate res))"
  using assms unfolding reload_def
  by (auto simp: reload_begin_def plan_matches_def publish_plan_def stage_candidate_def Let_def split: if_splits sum.splits
      elim!: reload_commit_cases)

text \<open>A run with a dry run and a publication.\<close>

definition any_packages :: reload_packages where
  "any_packages = \<lparr>rp_header_name = (\<lambda>_. True), rp_header_value = (\<lambda>_. True), rp_parse_url = (\<lambda>_. None)\<rparr>"

definition network_open :: network_config where
  "network_open = \<lparr>allow_domains = [], deny_domains = [], trusted_private_endpoints = [], block_private_ips = True\<rparr>"

definition no_providers :: app_config where
  "no_providers = \<lparr>ac_network = network_open, ac_job_prices = [], ac_rest = JNull, ac_providers = [], ac_upstream = []\<rparr>"

definition mock_provider :: provider_declaration where
  "mock_provider = \<lparr>pd_type = ''mock'', pd_base_url = [], pd_max_tokens_field = None, pd_headers = [], pd_models = [],
     pd_rest = JNull\<rparr>"

definition one_provider :: app_config where
  "one_provider = no_providers\<lparr>ac_providers := [(''test'', mock_provider)]\<rparr>"

definition dry_request :: reload_request where
  "dry_request = \<lparr>rr_dry_run = True, rr_expected_generation = None, rr_expected_candidate = None\<rparr>"

definition apply_request :: reload_request where
  "apply_request = \<lparr>rr_dry_run = False, rr_expected_generation = Some ''g0'', rr_expected_candidate = Some ''g1''\<rparr>"

definition first_snapshot :: routing_snapshot where
  "first_snapshot = \<lparr>sn_generation = ''g0'', sn_config = no_providers, sn_default_hint = None\<rparr>"

definition second_snapshot :: routing_snapshot where
  "second_snapshot = \<lparr>sn_generation = ''g1'', sn_config = one_provider, sn_default_hint = None\<rparr>"

definition published_log :: "reload_event list" where
  "published_log = [Previewed ''g1'' first_snapshot one_provider, Applied ''g1'' first_snapshot second_snapshot]"

definition published_system :: reload_system where
  "published_system =
     \<lparr>rs_state = \<lparr>rt_head = second_snapshot, rt_configured = True, rt_staged = None\<rparr>, rs_running = [],
      rs_used = {''g2'', ''g1'', ''g0''}, rs_log = published_log\<rparr>"


lemma one_provider_ok: "reload_validate any_packages no_providers one_provider = Inr ()"
  by (simp add: reload_validate_def config_eq_def fixed_part_def hash_maps_eq_def one_provider_def no_providers_def
      mock_provider_def valid_name_def name_byte_def check_provider_def check_destination_def try_from_str_def
      provider_type_names_def to_lower_def ascii_lower_char_def)

lemma one_provider_eq: "config_eq one_provider one_provider"
  by (simp add: config_eq_def hash_maps_eq_def one_provider_def no_providers_def provider_eq_def mock_provider_def)

lemma one_provider_change: "config_diff no_providers one_provider = [(''test'', Added)]"
  by (simp add: config_diff_def sorted_names_def change_of_def one_provider_def no_providers_def map_filter_def)

lemma no_default: "resolved_name one_provider ''default'' = None" "resolved_name no_providers ''default'' = None"
  by (simp_all add: resolved_name_def config_resolve_provider_def one_provider_def no_providers_def to_lower_def ascii_lower_char_def)

lemma no_file_providers: "ac_providers no_providers = []"
  by (simp add: no_providers_def)

lemma published_system_reachable: "reload_reachable any_packages ''g0'' no_providers published_system"
proof -
  define s0 where "s0 = reload_start ''g0'' no_providers"
  have s0: "s0 = \<lparr>rs_state = \<lparr>rt_head = first_snapshot, rt_configured = True, rt_staged = None\<rparr>, rs_running = [],
      rs_used = {''g0''}, rs_log = []\<rparr>"
    by (simp add: s0_def reload_start_def routing_new_def first_snapshot_def no_default or_else_def no_file_providers)
  define s1 where "s1 = s0\<lparr>rs_running := [(first_snapshot, dry_request, one_provider)]\<rparr>"
  have b1: "reload_step any_packages s0 s1"
    using reload_step.begins [of s0 dry_request first_snapshot any_packages one_provider]
    by (simp add: s0 s1_def reload_begin_def dry_request_def)
  define st2 where "st2 = (rs_state s1)\<lparr>rt_staged := Some \<lparr>sp_generation = ''g1'', sp_base = ''g0'', sp_config = one_provider,
    sp_created = 0\<rparr>\<rparr>"
  define s2 where "s2 = s1\<lparr>rs_state := st2, rs_running := [], rs_used := {''g1'', ''g0''},
    rs_log := [Previewed ''g1'' first_snapshot one_provider]\<rparr>"
  have "reload_commit any_packages None ''g1'' 0 (rs_state s1) first_snapshot dry_request one_provider =
      (st2, Inr \<lparr>rl_status = Planned, rl_current = ''g0'', rl_candidate = ''g1'', rl_resulting = ''g0'',
         rl_changes = [(''test'', Added)]\<rparr>)"
    by (simp add: reload_commit_def s0 s1_def st2_def first_snapshot_def one_provider_ok check_owners_def dry_request_def
        stage_candidate_def one_provider_change)
  from reload_step.commits [OF _ _ this] have b2: "reload_step any_packages s1 s2"
    by (simp add: s0 s1_def s2_def event_of_def)
  define s3 where "s3 = s2\<lparr>rs_running := [(first_snapshot, apply_request, one_provider)]\<rparr>"
  have b3: "reload_step any_packages s2 s3"
    using reload_step.begins [of s2 apply_request first_snapshot any_packages one_provider]
    by (simp add: s0 s1_def s2_def st2_def s3_def reload_begin_def apply_request_def first_snapshot_def)
  have "reload_commit any_packages None ''g2'' 0 (rs_state s3) first_snapshot apply_request one_provider =
      (rs_state published_system, Inr \<lparr>rl_status = Published, rl_current = ''g0'', rl_candidate = ''g1'',
         rl_resulting = ''g1'', rl_changes = [(''test'', Added)]\<rparr>)"
    by (simp add: reload_commit_def s0 s1_def s2_def s3_def st2_def first_snapshot_def second_snapshot_def one_provider_ok
        check_owners_def apply_request_def plan_matches_def publish_plan_def one_provider_change published_system_def
        one_provider_eq next_hint_def no_default or_else_def Let_def)
  from reload_step.commits [OF _ _ this] have b4: "reload_step any_packages s3 published_system"
    by (simp add: s0 s1_def s2_def s3_def st2_def event_of_def published_system_def published_log_def)
  show ?thesis
    using reload_reachable.start [of any_packages "''g0''" no_providers] b1 b2 b3 b4 unfolding s0_def [symmetric]
    by (blast intro: reload_reachable.step)
qed

theorem reloads_serialized_witness:
  "replay (rt_head (routing_new ''g0'' no_providers)) published_log = Some second_snapshot \<and>
   sn_generation second_snapshot = ''g1''"
  using reloads_serialized [OF published_system_reachable] by (simp add: published_system_def published_log_def)


theorem reload_refusal_keeps_state_witness:
  "fst (reload any_packages None ''g1'' 0 (Inr one_provider) \<lparr>rt_head = first_snapshot, rt_configured = True, rt_staged = None\<rparr>
     apply_request) = \<lparr>rt_head = first_snapshot, rt_configured = True, rt_staged = None\<rparr>"
proof -
  let ?st = "\<lparr>rt_head = first_snapshot, rt_configured = True, rt_staged = None\<rparr>"
  have "reload any_packages None ''g1'' 0 (Inr one_provider) ?st apply_request = (?st, Inl CandidateConflict)"
    by (simp add: reload_def reload_begin_def apply_request_def first_snapshot_def reload_commit_def one_provider_ok
        check_owners_def)
  from reload_refusal_keeps_state [OF this] this show ?thesis by simp
qed

end
