(* ===== verification/Management.thy ===== *)
theory Management
  imports Key_Validation Provider_Settings Availability Network_Acl
begin

section \<open>The management interface (src/src/api.rs)\<close>

text \<open>
  Who may reach the interface, the operations on virtual keys, and the announcement of which models
  a provider serves. A handler returns a status with an error code, or its answer.
\<close>

subsection \<open>Credentials of the listener\<close>

text \<open>The comparison that takes the same time for all texts of a length.\<close>

definition constant_time_eq :: "string \<Rightarrow> string \<Rightarrow> bool" where
  "constant_time_eq a b =
     (if length a \<noteq> length b then False
      else foldl (\<lambda>diff (x, y). or diff (xor (of_char x) (of_char y))) (0 :: u8) (zip a b) = 0)"

definition bearer_of :: "headers \<Rightarrow> string option" where
  "bearer_of hs = Option.bind (get_header ''authorization'' hs) (strip_prefix ''Bearer '')"

definition listener_token_from_headers :: "headers \<Rightarrow> string option" where
  "listener_token_from_headers hs = or_else (get_header ''x-eavs-token'' hs) (bearer_of hs)"

definition listener_request_is_authorized :: "headers \<Rightarrow> string \<Rightarrow> bool" where
  "listener_request_is_authorized hs expected =
     (case listener_token_from_headers hs of Some provided \<Rightarrow> constant_time_eq provided expected | None \<Rightarrow> False)"

definition console_assets :: "string list" where
  "console_assets = [''/admin'', ''/admin/app'', ''/admin/manifest.webmanifest'', ''/admin/sw.js'', ''/admin/icon.svg'']"

text \<open>
  What a request for the store needs besides it: the hash, the clock, the random bytes and the
  readable id of a new key, whether the database answers, and the stored usage history of a key.
\<close>

record key_world =
  kw_sha256 :: "string \<Rightarrow> u8 list"
  kw_now :: instant
  kw_random :: "u8 list"
  kw_human_id :: string
  kw_db_ok :: bool
  kw_history :: "string \<Rightarrow> json option"

definition maintenance_actor :: "key_world \<Rightarrow> key_store option \<Rightarrow> headers \<Rightarrow> string option \<times> key_store option" where
  "maintenance_actor w store hs =
     (case map_option trim (bearer_of hs) of
        None \<Rightarrow> (None, store)
      | Some token \<Rightarrow>
          if \<not> is_virtual_key token then (None, store)
          else case store of
                 None \<Rightarrow> (None, None)
               | Some st \<Rightarrow>
                   (case lookup_for_auth (kw_sha256 w) (kw_db_ok w) token st of
                      (Inr (Some key), st') \<Rightarrow>
                        (if maintenance (permissions key) \<and> is_valid (kw_now w) key then Some (key_id key) else None, Some st')
                    | (_, st') \<Rightarrow> (None, Some st')))"

text \<open>The request goes on, with the key of a maintenance client if that let it in, or it is refused.\<close>

datatype listener_verdict = Proceeds "string option" | Refused string

record listener_request =
  lq_method :: string
  lq_path :: string
  lq_headers :: headers

text \<open>\<open>with_app\<close>: maintenance keys are accepted by this listener.\<close>

definition require_listener_auth ::
    "string \<Rightarrow> bool \<Rightarrow> key_world \<Rightarrow> key_store option \<Rightarrow> listener_request \<Rightarrow> listener_verdict \<times> key_store option" where
  "require_listener_auth token with_app w store q =
     (if listener_request_is_authorized (lq_headers q) token then (Proceeds None, store)
      else if lq_method q = ''GET'' \<and> lq_path q \<in> set console_assets then (Proceeds None, store)
      else if with_app \<and> starts_with ''/eavs/maintenance/'' (lq_path q)
      then if lq_method q = ''OPTIONS'' then (Proceeds None, store)
           else (case maintenance_actor w store (lq_headers q) of
                   (Some actor, store') \<Rightarrow> (Proceeds (Some actor), store')
                 | (None, store') \<Rightarrow> (Refused ''maintenance_unauthorized'', store'))
      else (Refused ''listener_unauthorized'', store))"

subsection \<open>The master key\<close>

record keys_config =
  kc_enabled :: bool
  kc_master_key :: "string option"
  kc_self_provisioning :: bool
  kc_default_rpm :: "u32 option"
  kc_default_budget :: "f64 option"

definition resolved_master_key :: "host \<Rightarrow> keys_config \<Rightarrow> string option" where
  "resolved_master_key h kc =
     (case Option.bind (kc_master_key kc) (get_api_key h) of
        Some key \<Rightarrow> if trim key = [] then None else Some key
      | None \<Rightarrow> None)"

type_synonym api_error = "nat \<times> string"

definition check_master_key :: "host \<Rightarrow> keys_config \<Rightarrow> headers \<Rightarrow> api_error + unit" where
  "check_master_key h kc hs =
     (case resolved_master_key h kc of
        None \<Rightarrow> Inl (403, ''admin_disabled'')
      | Some expected \<Rightarrow>
          (case bearer_of hs of
             Some key \<Rightarrow> if constant_time_eq key expected then Inr () else Inl (401, ''unauthorized'')
           | None \<Rightarrow> Inl (401, ''unauthorized'')))"

definition check_keys_enabled :: "keys_config \<Rightarrow> api_error + unit" where
  "check_keys_enabled kc = (if kc_enabled kc then Inr () else Inl (503, ''keys_disabled''))"

subsection \<open>Operations on keys\<close>

record 'g managed =
  mg_store :: "key_store option"
  mg_limiter :: "'g rate_limiter"

record create_key_payload =
  cp_name :: "string option"
  cp_expires_at :: "instant option"
  cp_permissions :: "key_permissions option"
  cp_metadata :: "json option"
  cp_owner :: "string option"
  cp_oauth_user :: "string option"
  cp_oauth_account :: "string option"

record provision_payload =
  pp_name :: "string option"
  pp_metadata :: "json option"
  pp_owner :: "string option"
  pp_oauth_user :: "string option"

datatype key_reply =
    CreatedKey string virtual_key
  | KeyList "key_info list"
  | KeyDetails key_info
  | NoContent
  | KeyHistory json
  | KeyOwner string "string option"

definition opened_store :: "'g managed \<Rightarrow> api_error + key_store" where
  "opened_store st = (case mg_store st of Some s \<Rightarrow> Inr s | None \<Rightarrow> Inl (500, ''internal_error''))"

definition master_store :: "host \<Rightarrow> keys_config \<Rightarrow> headers \<Rightarrow> 'g managed \<Rightarrow> api_error + key_store" where
  "master_store h kc hs st =
     (case check_keys_enabled kc of
        Inl e \<Rightarrow> Inl e
      | Inr _ \<Rightarrow> (case check_master_key h kc hs of Inl e \<Rightarrow> Inl e | Inr _ \<Rightarrow> opened_store st))"

definition insert_new_key ::
    "key_world \<Rightarrow> create_key_request \<Rightarrow> key_store \<Rightarrow> 'g managed \<Rightarrow> (api_error + key_reply) \<times> 'g managed" where
  "insert_new_key w req s st =
     (case create_key (kw_sha256 w) (kw_now w) (kw_random w) (kw_human_id w) (kw_db_ok w) req s of
        (Inl _, s') \<Rightarrow> (Inl (500, ''create_failed''), st\<lparr>mg_store := Some s'\<rparr>)
      | (Inr (token, key), s') \<Rightarrow> (Inr (CreatedKey token key), st\<lparr>mg_store := Some s'\<rparr>))"

definition with_default_limits :: "keys_config \<Rightarrow> key_permissions \<Rightarrow> key_permissions" where
  "with_default_limits kc p =
     (let p1 = (if rpm_limit p = None then p\<lparr>rpm_limit := kc_default_rpm kc\<rparr> else p)
      in if max_budget_usd p1 = None then p1\<lparr>max_budget_usd := kc_default_budget kc\<rparr> else p1)"

definition metadata_or_null :: "json option \<Rightarrow> json" where
  "metadata_or_null m = (case m of Some v \<Rightarrow> v | None \<Rightarrow> JNull)"

definition create_key_handler ::
    "host \<Rightarrow> keys_config \<Rightarrow> key_world \<Rightarrow> headers \<Rightarrow> create_key_payload \<Rightarrow> 'g managed \<Rightarrow>
     (api_error + key_reply) \<times> 'g managed" where
  "create_key_handler h kc w hs p st =
     (case master_store h kc hs st of
        Inl e \<Rightarrow> (Inl e, st)
      | Inr s \<Rightarrow>
          insert_new_key w
            \<lparr>req_name = cp_name p, req_expires_at = cp_expires_at p,
             req_permissions = with_default_limits kc
               (case cp_permissions p of Some q \<Rightarrow> q | None \<Rightarrow> key_permissions_default),
             req_metadata = metadata_or_null (cp_metadata p), req_owner = cp_owner p,
             req_oauth_user = cp_oauth_user p, req_oauth_account = cp_oauth_account p\<rparr> s st)"

definition provision_key_handler ::
    "keys_config \<Rightarrow> key_world \<Rightarrow> provision_payload \<Rightarrow> 'g managed \<Rightarrow> (api_error + key_reply) \<times> 'g managed" where
  "provision_key_handler kc w p st =
     (case check_keys_enabled kc of
        Inl e \<Rightarrow> (Inl e, st)
      | Inr _ \<Rightarrow>
          if \<not> kc_self_provisioning kc then (Inl (403, ''provisioning_disabled''), st)
          else case opened_store st of
                 Inl e \<Rightarrow> (Inl e, st)
               | Inr s \<Rightarrow>
                   insert_new_key w
                     \<lparr>req_name = pp_name p, req_expires_at = None,
                      req_permissions = key_permissions_default
                        \<lparr>rpm_limit := kc_default_rpm kc, max_budget_usd := kc_default_budget kc\<rparr>,
                      req_metadata = metadata_or_null (pp_metadata p), req_owner = pp_owner p,
                      req_oauth_user = pp_oauth_user p, req_oauth_account = None\<rparr> s st)"

text \<open>\<open>order\<close> is the order in which the cache iterates.\<close>

definition list_keys_handler ::
    "host \<Rightarrow> keys_config \<Rightarrow> string list \<Rightarrow> headers \<Rightarrow> 'g managed \<Rightarrow> api_error + key_reply" where
  "list_keys_handler h kc order hs st =
     (case master_store h kc hs st of
        Inl e \<Rightarrow> Inl e
      | Inr s \<Rightarrow> Inr (KeyList (list_keys (List.map_filter (cache s) order))))"

definition get_key_handler :: "host \<Rightarrow> keys_config \<Rightarrow> headers \<Rightarrow> string \<Rightarrow> 'g managed \<Rightarrow> api_error + key_reply" where
  "get_key_handler h kc hs id_or_hash st =
     (case master_store h kc hs st of
        Inl e \<Rightarrow> Inl e
      | Inr s \<Rightarrow>
          (case or_else (get_by_human_id id_or_hash s) (get_by_hash id_or_hash s) of
             Some key \<Rightarrow> Inr (KeyDetails (to_info key))
           | None \<Rightarrow> Inl (404, ''not_found'')))"

definition resolve_key_hash :: "string \<Rightarrow> key_store \<Rightarrow> string" where
  "resolve_key_hash id_or_hash s = (case get_by_human_id id_or_hash s of Some key \<Rightarrow> key_hash key | None \<Rightarrow> id_or_hash)"

definition delete_key_handler ::
    "host \<Rightarrow> keys_config \<Rightarrow> key_world \<Rightarrow> headers \<Rightarrow> string \<Rightarrow> 'g managed \<Rightarrow> (api_error + key_reply) \<times> 'g managed" where
  "delete_key_handler h kc w hs id_or_hash st =
     (case master_store h kc hs st of
        Inl e \<Rightarrow> (Inl e, st)
      | Inr s \<Rightarrow>
          let hash = resolve_key_hash id_or_hash s in
          (case disable_key (kw_db_ok w) hash s of
             (Inl _, s') \<Rightarrow> (Inl (500, ''delete_failed''), st\<lparr>mg_store := Some s'\<rparr>)
           | (Inr False, s') \<Rightarrow> (Inl (404, ''not_found''), st\<lparr>mg_store := Some s'\<rparr>)
           | (Inr True, s') \<Rightarrow>
               (Inr NoContent, st\<lparr>mg_store := Some s', mg_limiter := clear_key hash (mg_limiter st)\<rparr>)))"

definition key_usage_handler ::
    "host \<Rightarrow> keys_config \<Rightarrow> key_world \<Rightarrow> headers \<Rightarrow> string \<Rightarrow> 'g managed \<Rightarrow> api_error + key_reply" where
  "key_usage_handler h kc w hs id_or_hash st =
     (case master_store h kc hs st of
        Inl e \<Rightarrow> Inl e
      | Inr s \<Rightarrow>
          (case kw_history w (resolve_key_hash id_or_hash s) of
             Some records \<Rightarrow> Inr (KeyHistory records)
           | None \<Rightarrow> Inl (500, ''usage_failed'')))"

definition update_key_owner_handler ::
    "host \<Rightarrow> keys_config \<Rightarrow> key_world \<Rightarrow> headers \<Rightarrow> string \<Rightarrow> string option \<Rightarrow> 'g managed \<Rightarrow>
     (api_error + key_reply) \<times> 'g managed" where
  "update_key_owner_handler h kc w hs id_or_hash new_owner st =
     (case master_store h kc hs st of
        Inl e \<Rightarrow> (Inl e, st)
      | Inr s \<Rightarrow>
          let hash = resolve_key_hash id_or_hash s in
          (case update_owner (kw_db_ok w) hash new_owner s of
             (Inl _, s') \<Rightarrow> (Inl (500, ''update_failed''), st\<lparr>mg_store := Some s'\<rparr>)
           | (Inr False, s') \<Rightarrow> (Inl (404, ''not_found''), st\<lparr>mg_store := Some s'\<rparr>)
           | (Inr True, s') \<Rightarrow> (Inr (KeyOwner hash new_owner), st\<lparr>mg_store := Some s'\<rparr>)))"

datatype key_request =
    CreateKey create_key_payload
  | ProvisionKey provision_payload
  | ListKeys "string list"
  | GetKey string
  | DeleteKey string
  | UsageOfKey string
  | SetOwnerOf string "string option"

fun manage_keys ::
    "host \<Rightarrow> keys_config \<Rightarrow> key_world \<Rightarrow> headers \<Rightarrow> key_request \<Rightarrow> 'g managed \<Rightarrow> (api_error + key_reply) \<times> 'g managed" where
  "manage_keys h kc w hs (CreateKey p) st = create_key_handler h kc w hs p st"
| "manage_keys h kc w hs (ProvisionKey p) st = provision_key_handler kc w p st"
| "manage_keys h kc w hs (ListKeys order) st = (list_keys_handler h kc order hs st, st)"
| "manage_keys h kc w hs (GetKey k) st = (get_key_handler h kc hs k st, st)"
| "manage_keys h kc w hs (DeleteKey k) st = delete_key_handler h kc w hs k st"
| "manage_keys h kc w hs (UsageOfKey k) st = (key_usage_handler h kc w hs k st, st)"
| "manage_keys h kc w hs (SetOwnerOf k label) st = update_key_owner_handler h kc w hs k label st"

text \<open>The dimensions of a usage report: by model, by provider.\<close>

definition parse_owner_breakdown :: "string option \<Rightarrow> bool \<times> bool" where
  "parse_owner_breakdown value =
     (case value of
        None \<Rightarrow> (False, False)
      | Some v \<Rightarrow>
          let tokens = map (\<lambda>tok. to_lower (trim tok)) (split_at CHR '','' v)
          in (''model'' \<in> set tokens, ''provider'' \<in> set tokens))"

subsection \<open>Announcing what a provider serves\<close>

text \<open>
  A duration in seconds, minutes and hours. A number that does not fit in 64 bits is refused; sums
  and products wrap around, as in the release build.
\<close>

definition parse_u64 :: "string \<Rightarrow> u64 option" where
  "parse_u64 s =
     (case span_digits dec_digit s of (ns, r) \<Rightarrow>
        if ns = [] \<or> r \<noteq> [] \<or> 2 ^ 64 \<le> digits_value 10 ns then None
        else Some (of_nat (digits_value 10 ns)))"

fun duration_seconds :: "string \<Rightarrow> string \<Rightarrow> u64 \<Rightarrow> u64 option" where
  "duration_seconds [] num acc =
     (if num = [] then Some acc else map_option (\<lambda>n. acc + n) (parse_u64 num))"
| "duration_seconds (c # cs) num acc =
     (if dec_digit c \<noteq> None then duration_seconds cs (num @ [c]) acc
      else case parse_u64 num of
             None \<Rightarrow> None
           | Some n \<Rightarrow>
               if c = CHR ''s'' then duration_seconds cs [] (acc + n)
               else if c = CHR ''m'' then duration_seconds cs [] (acc + n * 60)
               else if c = CHR ''h'' then duration_seconds cs [] (acc + n * 3600)
               else None)"

definition parse_duration_string :: "string \<Rightarrow> u64 option" where
  "parse_duration_string s =
     (case duration_seconds (to_lower (trim s)) [] 0 of
        Some secs \<Rightarrow> if 0 < secs then Some secs else None
      | None \<Rightarrow> None)"

record availability_request =
  ar_provider :: string
  ar_models :: "string list"
  ar_available :: bool
  ar_mode :: "string option"
  ar_reason :: "string option"
  ar_ttl :: "string option"

definition valid_model_id :: "string \<Rightarrow> bool" where
  "valid_model_id v \<longleftrightarrow> v \<noteq> [] \<and> length v \<le> 256 \<and> \<not> has_control v"

text \<open>
  A duration the clock package cannot represent counts as zero; an instant after \<open>latest\<close>, the last
  one it can represent, is a panic.
\<close>

datatype 'a checked = Accepted 'a | Rejected string | Panics

definition after_ttl :: "time \<Rightarrow> time \<Rightarrow> u64 \<Rightarrow> time option checked" where
  "after_ttl latest now secs =
     (let d = (if int (unat secs) \<le> (2 ^ 63 - 1) div 1000 then int (unat secs) * 10 ^ 9 else 0)
      in if latest < now + d then Panics else Accepted (Some (now + d)))"

definition validated_maintenance_request ::
    "time \<Rightarrow> time \<Rightarrow> availability_request \<Rightarrow> time option checked" where
  "validated_maintenance_request latest now q =
     (if 512 < length (ar_models q) \<or> list_ex (\<lambda>m. \<not> valid_model_id m) (ar_models q)
      then Rejected ''invalid_models''
      else if (case ar_reason q of Some r \<Rightarrow> 512 < length r | None \<Rightarrow> False) then Rejected ''invalid_reason''
      else case ar_ttl q of
             None \<Rightarrow> Accepted None
           | Some ttl \<Rightarrow>
               (case parse_duration_string ttl of
                  Some secs \<Rightarrow> after_ttl latest now secs
                | None \<Rightarrow> Rejected ''invalid_ttl''))"

definition maintenance_universe ::
    "provider_tables \<Rightarrow> time \<Rightarrow> availability \<Rightarrow> string \<Rightarrow> string list \<Rightarrow> string list" where
  "maintenance_universe tables now av provider active =
     (let configured = (case resolve_provider tables provider of
                          Some (_, pc) \<Rightarrow> map me_id (pc_models pc) | None \<Rightarrow> [])
      in if configured \<noteq> [] then configured
         else remdups_adj (sort (concat (map (\<lambda>(p, ms). if p = provider then map fst ms else []) (snapshot now av)) @ active)))"

datatype announcement_reply = Announced nat entries | NotAnnounced string | AnnouncementPanics

definition set_by_actor :: "string option \<Rightarrow> string" where
  "set_by_actor actor = (case actor of Some kid \<Rightarrow> kid | None \<Rightarrow> ''operator'')"

definition apply_announcement ::
    "provider_tables \<Rightarrow> bool \<Rightarrow> time \<Rightarrow> string \<Rightarrow> string \<Rightarrow> time option \<Rightarrow> availability_request \<Rightarrow> availability \<Rightarrow>
     nat \<times> availability" where
  "apply_announcement tables io_ok now set_by resolved until q av =
     (if ar_mode q = Some ''replace''
      then replace_active io_ok now (ar_provider q) (ar_models q)
             (maintenance_universe tables now av resolved (ar_models q)) (ar_reason q) until set_by av
      else if ar_available q
      then activate io_ok (ar_provider q) (if ar_models q = [] then None else Some (ar_models q)) av
      else deactivate io_ok now (ar_provider q) (ar_models q) (ar_reason q) until set_by av)"

definition maintenance_availability_handler ::
    "provider_tables \<Rightarrow> bool \<Rightarrow> time \<Rightarrow> time \<Rightarrow> string option \<Rightarrow> availability_request \<Rightarrow> availability \<Rightarrow>
     announcement_reply \<times> availability" where
  "maintenance_availability_handler tables io_ok latest now actor q av =
     (case validated_maintenance_request latest now q of
        Panics \<Rightarrow> (AnnouncementPanics, av)
      | Rejected code \<Rightarrow> (NotAnnounced code, av)
      | Accepted until \<Rightarrow>
          (case resolve_provider tables (ar_provider q) of
             None \<Rightarrow> (NotAnnounced ''unknown_provider'', av)
           | Some (resolved, _) \<Rightarrow>
               if ar_models q = [] \<and> (ar_mode q = Some ''replace'' \<or> \<not> ar_available q)
               then (NotAnnounced ''invalid_models'', av)
               else (case apply_announcement tables io_ok now (set_by_actor actor) resolved until q av of
                       (changed, av') \<Rightarrow> (Announced changed (snapshot now av'), av'))))"


subsection \<open>The comparison of credentials\<close>

unbundle bit_operations_syntax

lemma or_eq_zero: "or a b = (0 :: u8) \<longleftrightarrow> a = 0 \<and> b = 0"
  by (auto simp: bit_eq_iff bit_or_iff)

lemma xor_eq_zero: "xor a b = (0 :: u8) \<longleftrightarrow> a = b"
  by (auto simp: bit_eq_iff bit_xor_iff)

lemma of_char_u8_eq: "(of_char c :: u8) = of_char d \<longleftrightarrow> c = d"
proof
  assume eq: "(of_char c :: u8) = of_char d"
  have "unat (of_nat (of_char x) :: u8) = of_char x" for x :: char
    by (simp add: unat_of_nat nat_of_char_less_256)
  then have "(of_char c :: nat) = of_char d" using eq by (metis of_nat_of_char)
  then show "c = d" by simp
qed simp

lemma constant_time_eq_iff: "constant_time_eq a b \<longleftrightarrow> a = b"
proof -
  have zero: "foldl (\<lambda>diff (x, y). or diff (xor (of_char x) (of_char y))) d zs = (0 :: u8) \<longleftrightarrow>
      d = 0 \<and> (\<forall>(x, y) \<in> set zs. x = y)" for d and zs :: "(char \<times> char) list"
  proof (induction zs arbitrary: d)
    case (Cons z zs)
    obtain x y where z: "z = (x, y)" by (cases z)
    have "xor (of_char x) (of_char y) = (0 :: u8) \<longleftrightarrow> x = y"
      by (simp add: xor_eq_zero of_char_u8_eq)
    with Cons z show ?case by (auto simp: or_eq_zero)
  qed simp
  show ?thesis
  proof (cases "length a = length b")
    case True
    then have "constant_time_eq a b \<longleftrightarrow> (\<forall>(x, y) \<in> set (zip a b). x = y)"
      by (simp add: constant_time_eq_def zero)
    also have "\<dots> \<longleftrightarrow> a = b"
      using True by (induction a b rule: list_induct2) auto
    finally show ?thesis .
  next
    case False
    then show ?thesis by (auto simp: constant_time_eq_def)
  qed
qed

subsection \<open>Who may change the keys\<close>

lemma master_store_ok:
  assumes "master_store h kc hs st = Inr s"
  shows "kc_enabled kc \<and> mg_store st = Some s \<and>
    (\<exists>m. resolved_master_key h kc = Some m \<and> bearer_of hs = Some m)"
  using assms
  by (auto simp: master_store_def check_keys_enabled_def check_master_key_def opened_store_def constant_time_eq_iff
      split: sum.splits option.splits if_splits)

lemma master_store_cases:
  obtains (no) e where "master_store h kc hs st = Inl e"
  | (yes) s m where "master_store h kc hs st = Inr s" and "kc_enabled kc" and "resolved_master_key h kc = Some m"
      and "bearer_of hs = Some m"
  using master_store_ok [of h kc hs st] by (cases "master_store h kc hs st") auto

text \<open>What a provisioned key may do: the operator's default limits, and no maintenance.\<close>

definition provisioned_only :: "keys_config \<Rightarrow> key_world \<Rightarrow> provision_payload \<Rightarrow> 'g managed \<Rightarrow> 'g managed \<Rightarrow> bool" where
  "provisioned_only kc w p st st' \<longleftrightarrow>
     mg_limiter st' = mg_limiter st \<and>
     (\<exists>s s' key. mg_store st = Some s \<and> mg_store st' = Some s' \<and> rows s (key_hash key) = None \<and>
        rows s' = (rows s)(key_hash key \<mapsto> Some key) \<and>
        rpm_limit (permissions key) = kc_default_rpm kc \<and> max_budget_usd (permissions key) = kc_default_budget kc \<and>
        \<not> maintenance (permissions key) \<and> oauth_user key = pp_oauth_user p)"

lemma insert_new_key_cases:
  assumes "insert_new_key w req s st = (r, st')" and "mg_store st = Some s"
  obtains (failed) "st' = st" and "r = Inl (500, ''create_failed'')"
  | (created) token key s' where "st' = st\<lparr>mg_store := Some s'\<rparr>" and "r = Inr (CreatedKey token key)"
      and "rows s (key_hash key) = None" and "rows s' = (rows s)(key_hash key \<mapsto> Some key)"
      and "permissions key = req_permissions req" and "oauth_user key = req_oauth_user req"
proof -
  have "st\<lparr>mg_store := Some s\<rparr> = st" using assms(2) by (cases st) simp
  with assms(1) show ?thesis
    by (auto simp: insert_new_key_def create_key_def Let_def split: if_splits intro: that)
qed


text \<open>
  A caller of the provisioning endpoint, which asks for no credential, chooses whose provider login
  the new key uses.
\<close>

theorem provisioned_key_takes_any_login:
  assumes "kc_enabled kc" and "kc_self_provisioning kc" and "mg_store st = Some s" and "kw_db_ok w"
    and "rows s (hash_key (kw_sha256 w) (generate_key (kw_random w))) = None"
  shows "\<exists>token key. fst (provision_key_handler kc w p st) = Inr (CreatedKey token key) \<and>
    oauth_user key = pp_oauth_user p"
  using assms
  by (simp add: provision_key_handler_def check_keys_enabled_def opened_store_def insert_new_key_def create_key_def Let_def)


subsection \<open>Who may reach the interface\<close>

text \<open>A key that the database row of the token makes a maintenance key.\<close>

definition maintenance_row :: "key_world \<Rightarrow> key_store \<Rightarrow> string \<Rightarrow> string \<Rightarrow> bool" where
  "maintenance_row w st token actor \<longleftrightarrow>
     is_virtual_key token \<and> kw_db_ok w \<and>
     (\<exists>row. rows st (hash_key (kw_sha256 w) token) = Some (Some row) \<and> \<not> disabled row \<and>
        maintenance (permissions row) \<and> is_valid (kw_now w) row \<and> key_id row = actor)"

lemma is_valid_usage [simp]: "is_valid now (k\<lparr>usage := u\<rparr>) = is_valid now k"
  by (simp add: is_valid_def)

lemma is_valid_enabled: "is_valid now k \<Longrightarrow> \<not> disabled k"
  by (auto simp: is_valid_def)

lemma maintenance_actor_row:
  assumes "maintenance_actor w store hs = (Some actor, store')"
  shows "\<exists>token st. bearer_of hs \<noteq> None \<and> token = trim (the (bearer_of hs)) \<and> store = Some st \<and>
    maintenance_row w st token actor"
  using assms
  by (fastforce simp: maintenance_actor_def maintenance_row_def lookup_for_auth_def Let_def is_valid_enabled
      split: option.splits if_splits prod.splits sum.splits)


subsection \<open>Announcements\<close>

text \<open>A duration in days, which the error text gives as an example, is refused.\<close>

theorem ttl_in_days_refused:
  "validated_maintenance_request latest now
     \<lparr>ar_provider = p, ar_models = [], ar_available = False, ar_mode = m, ar_reason = None, ar_ttl = Some ''7d''\<rparr> =
   Rejected ''invalid_ttl''"
proof -
  have "parse_duration_string ''7d'' = None"
    by (simp add: parse_duration_string_def trim_def trim_start_def is_space_def to_lower_def ascii_lower_char_def
        dec_digit_def parse_u64_def digits_value_def)
  then show ?thesis by (simp add: validated_maintenance_request_def)
qed

lemma entries_other:
  "provider \<noteq> p \<Longrightarrow> map_of (av_entries (snd (deactivate io now p ms reason until by av))) provider = map_of (av_entries av) provider"
  "provider \<noteq> p \<Longrightarrow> map_of (av_entries (snd (activate io p acts av))) provider = map_of (av_entries av) provider"
  by (auto simp: deactivate_def activate_def persist_def Let_def split: prod.splits option.splits)

lemma replace_other:
  "provider \<noteq> p \<Longrightarrow>
   map_of (av_entries (snd (replace_active io now p ms whole reason until by av))) provider = map_of (av_entries av) provider"
  using entries_other(1) [of provider p io now "filter (\<lambda>m. m \<notin> set ms) whole" reason until "by" av]
  by (auto simp: replace_active_def persist_def Let_def split: prod.splits option.splits)

text \<open>
  An announcement changes the answers for the name it gives and no other. The provider is looked up
  without regard to case, but the requests of clients are answered under the configured name, so an
  announcement that writes the name differently is acknowledged and has no effect.
\<close>

theorem announcement_by_other_case_lost:
  assumes "maintenance_availability_handler tables io_ok latest now actor q av = (r, av')"
    and "resolve_provider tables (ar_provider q) = Some (resolved, pc)" and "resolved \<noteq> ar_provider q"
  shows "unavailable later resolved model av' = unavailable later resolved model av"
proof -
  have same: "map_of (av_entries (snd (apply_announcement tables io_ok now set_by name until q av))) resolved =
      map_of (av_entries av) resolved" for set_by name until
    using entries_other [OF assms(3)] replace_other [OF assms(3)] by (simp add: apply_announcement_def)
  show ?thesis
  proof (cases "av' = av")
    case False
    with assms(1,2) obtain until changed where
      "apply_announcement tables io_ok now (set_by_actor actor) resolved until q av = (changed, av')"
      unfolding maintenance_availability_handler_def by (auto split: checked.splits if_splits prod.splits)
    with same [of "set_by_actor actor" resolved until] show ?thesis by (simp add: unavailable_def)
  qed simp
qed

subsection \<open>The properties at concrete inputs\<close>

definition plain_host :: host where
  "plain_host = \<lparr>env_var = (\<lambda>_. None), keychain = (\<lambda>_. None)\<rparr>"

definition open_keys :: keys_config where
  "open_keys = \<lparr>kc_enabled = True, kc_master_key = Some ''mk'', kc_self_provisioning = True, kc_default_rpm = Some 60,
     kc_default_budget = Some (Fin 5)\<rparr>"

definition fixed_world :: key_world where
  "fixed_world = \<lparr>kw_sha256 = digest_of, kw_now = 5, kw_random = [], kw_human_id = ''cold-lamp'', kw_db_ok = True,
     kw_history = (\<lambda>_. None)\<rparr>"

definition empty_managed :: "unit managed" where
  "empty_managed = \<lparr>mg_store = Some store_empty, mg_limiter = rl_new\<rparr>"

definition anonymous_wish :: provision_payload where
  "anonymous_wish = \<lparr>pp_name = None, pp_metadata = None, pp_owner = None, pp_oauth_user = Some ''alice''\<rparr>"


theorem provisioned_key_takes_any_login_witness:
  "\<exists>token key. fst (provision_key_handler open_keys fixed_world anonymous_wish empty_managed) = Inr (CreatedKey token key) \<and>
     oauth_user key = Some ''alice''"
  using provisioned_key_takes_any_login [of open_keys empty_managed store_empty fixed_world anonymous_wish]
  by (simp add: open_keys_def empty_managed_def fixed_world_def store_empty_def anonymous_wish_def)

definition upkeep_token :: string where
  "upkeep_token = key_prefix @ replicate 40 (CHR ''a'')"

definition upkeep_row :: virtual_key where
  "upkeep_row = \<lparr>key_id = ''u'', key_hash = hash_key digest_of (upkeep_token), key_name = None, created_at = 0,
     expires_at = None, valid_after = None, disabled = False, permissions = key_permissions_default\<lparr>maintenance := True\<rparr>,
     usage = key_usage_default, metadata = JNull, owner = None, oauth_user = None, oauth_account = None\<rparr>"

definition upkeep_store :: key_store where
  "upkeep_store = store_empty\<lparr>rows := (\<lambda>_. None)(hash_key digest_of (upkeep_token) \<mapsto> Some upkeep_row)\<rparr>"

definition upkeep_request :: listener_request where
  "upkeep_request = \<lparr>lq_method = ''POST'', lq_path = ''/eavs/maintenance/availability'',
     lq_headers = [(''authorization'', ''Bearer '' @ upkeep_token)]\<rparr>"

lemma upkeep_token: "trim (upkeep_token) = upkeep_token" "is_virtual_key (upkeep_token)"
  "upkeep_token \<noteq> ''mk''"
  by (simp_all add: upkeep_token_def key_prefix_def is_virtual_key_def trim_def trim_start_def is_space_def)


definition gpu_tables :: provider_tables where
  "gpu_tables = \<lparr>file_providers = [(''gpu'', \<lparr>pc_type = ''vllm'', pc_models = []\<rparr>)], stored_providers = None\<rparr>"

definition gpu_announcement :: availability_request where
  "gpu_announcement = \<lparr>ar_provider = ''GPU'', ar_models = [''qwen''], ar_available = False, ar_mode = None, ar_reason = None,
     ar_ttl = None\<rparr>"

lemma lower_gpu: "to_lower ''GPU'' = ''gpu''" "to_lower ''gpu'' = ''gpu''"
  by code_simp+

theorem announcement_by_other_case_lost_witness:
  "(\<exists>av'. maintenance_availability_handler gpu_tables True 100 5 None gpu_announcement (load None) =
      (Announced 1 (snapshot 5 av'), av') \<and> unavailable 6 ''gpu'' ''qwen'' av' = None)"
proof -
  let ?d = "\<lparr>da_reason = None, da_until = None, da_set_by = ''operator'', da_set_at = 5\<rparr>"
  let ?av = "(load None)\<lparr>av_entries := [(''GPU'', [(''qwen'', ?d)])]\<rparr>"
  have res: "resolve_provider gpu_tables (ar_provider gpu_announcement) = Some (''gpu'', \<lparr>pc_type = ''vllm'', pc_models = []\<rparr>)"
    by (simp add: resolve_provider_def config_resolve_provider_def gpu_tables_def gpu_announcement_def lower_gpu)
  have run: "maintenance_availability_handler gpu_tables True 100 5 None gpu_announcement (load None) =
      (Announced 1 (snapshot 5 ?av), ?av)"
    unfolding maintenance_availability_handler_def res
    by (simp add: validated_maintenance_request_def gpu_announcement_def valid_model_id_def apply_announcement_def
        deactivate_def deactivate_one_def slot_def load_def set_by_actor_def persist_def)
  from announcement_by_other_case_lost [OF run res, of 6 "''qwen''"] run show ?thesis
    by (simp add: gpu_announcement_def unavailable_def load_def)
qed

end
