(* ===== verification/Jobs.thy ===== *)
theory Jobs
  imports Key_Validation Provider_Settings Network_Acl Delegated_Fetch
begin

section \<open>Asynchronous jobs (src/src/jobs.rs)\<close>

text \<open>
  Jobs run at two providers under the gateway's credential, so the id of a job at the provider must
  not by itself give access to it. A client gets a handle that is authenticated with the provider's
  secret and names the key it belongs to. JSON with base64, the MAC, hexadecimal, the URL parser
  and the provider's answers are arguments.
\<close>

record job_handle =
  jh_provider :: string
  jh_owner :: string
  jh_model :: string
  jh_job_id :: string
  jh_reserved :: f64
  jh_expires :: int

record job_tools =
  jt_encode :: "job_handle \<Rightarrow> string"
  jt_decode :: "string \<Rightarrow> job_handle option"
  jt_mac :: "string \<Rightarrow> string \<Rightarrow> string"
  jt_hex :: "string \<Rightarrow> string"
  jt_unhex :: "string \<Rightarrow> string option"

definition component_byte :: "char \<Rightarrow> bool" where
  "component_byte c \<longleftrightarrow>
     (CHR ''a'' \<le> c \<and> c \<le> CHR ''z'') \<or> (CHR ''A'' \<le> c \<and> c \<le> CHR ''Z'') \<or> (CHR ''0'' \<le> c \<and> c \<le> CHR ''9'') \<or>
     c \<in> {CHR ''-'', CHR ''_''}"

definition safe_component :: "string \<Rightarrow> bool" where
  "safe_component v \<longleftrightarrow> v \<noteq> [] \<and> length v \<le> 128 \<and> list_all component_byte v"

definition safe_fal_model :: "string \<Rightarrow> bool" where
  "safe_fal_model v \<longleftrightarrow> length v \<le> 256 \<and> list_all safe_component (split_at (CHR ''/'') v)"

definition seal_handle :: "job_tools \<Rightarrow> string \<Rightarrow> job_handle \<Rightarrow> string" where
  "seal_handle jt secret h = ''v1.'' @ jt_encode jt h @ ''.'' @ jt_hex jt (jt_mac jt secret (jt_encode jt h))"

text \<open>The signed part of a token, when its signature is the one of the secret.\<close>

definition verified_payload :: "job_tools \<Rightarrow> string \<Rightarrow> string \<Rightarrow> string option" where
  "verified_payload jt secret token =
     (if 2048 < length token then None
      else case split_at (CHR ''.'') token of
             [version, encoded, signature] \<Rightarrow>
               if version = ''v1'' \<and> jt_unhex jt signature = Some (jt_mac jt secret encoded) then Some encoded else None
           | _ \<Rightarrow> None)"

definition open_handle :: "job_tools \<Rightarrow> int \<Rightarrow> string \<Rightarrow> string \<Rightarrow> string \<Rightarrow> string \<Rightarrow> job_handle option" where
  "open_handle jt now_secs token secret provider hash =
     (case Option.bind (verified_payload jt secret token) (jt_decode jt) of
        None \<Rightarrow> None
      | Some h \<Rightarrow>
          if jh_provider h \<noteq> provider \<or> jh_owner h \<noteq> hash \<or> jh_expires h < now_secs \<or>
             \<not> safe_component (jh_job_id h) \<or> \<not> safe_fal_model (jh_model h)
          then None else Some h)"

fun contains_webhook :: "json \<Rightarrow> bool" where
  "contains_webhook (JObj m) =
     list_ex (\<lambda>(k, v). k \<in> {''webhook'', ''webhook_url'', ''webhook_events_filter''} \<or> contains_webhook v) m"
| "contains_webhook (JArr vs) = list_ex contains_webhook vs"
| "contains_webhook _ = False"

definition remote_text :: "string \<Rightarrow> bool" where
  "remote_text s =
     (let v = to_lower (trim_start s) in starts_with ''http://'' v \<or> starts_with ''https://'' v \<or> starts_with ''//'' v)"

fun contains_remote_url :: "json \<Rightarrow> bool" where
  "contains_remote_url (JStr s) = remote_text s"
| "contains_remote_url (JObj m) = list_ex (\<lambda>(k, v). contains_remote_url v) m"
| "contains_remote_url (JArr vs) = list_ex contains_remote_url vs"
| "contains_remote_url _ = False"

subsection \<open>The gateway around a job request\<close>

text \<open>
  The configuration and the packages, the clocks in nanoseconds and in seconds, whether the database
  answers, and the provider: the chunks of its answer with their status, \<open>None\<close> for a chunk that
  fails, or nothing when the request fails.
\<close>

record job_request =
  jr_method :: string
  jr_url :: string
  jr_headers :: headers
  jr_body :: "json option"

record 'g job_world =
  jw_sha256 :: "string \<Rightarrow> u8 list"
  jw_glob :: "string \<Rightarrow> string \<Rightarrow> bool"
  jw_rpm_new :: "u32 \<Rightarrow> 'g"
  jw_rpm_check :: "u64 \<Rightarrow> 'g \<Rightarrow> bool \<times> 'g"
  jw_now :: instant
  jw_secs :: u64
  jw_db_ok :: bool
  jw_host :: host
  jw_lookup :: "string \<Rightarrow> (string \<times> provider_settings) option"
  jw_network :: network_config
  jw_url_host :: "string \<Rightarrow> string option option"
  jw_value_ok :: "string \<Rightarrow> bool"
  jw_fetch :: delegated_fetch_policy
  jw_max_body :: nat
  jw_tools :: job_tools
  jw_parse :: "string \<Rightarrow> json option"
  jw_send :: "job_request \<Rightarrow> (nat \<times> string option list) option"

datatype job_reply =
    JobError nat string
  | JobPassed nat json
  | JobAccepted job_handle string string
  | JobState string job_handle string json

record job_context =
  jc_kind :: provider_type
  jc_provider :: string
  jc_api_key :: string
  jc_base :: string
  jc_owner :: validated_key

definition job_token :: "headers \<Rightarrow> string option" where
  "job_token hs =
     (case Option.bind (get_header ''authorization'' hs) (strip_prefix ''Bearer '') of
        Some key \<Rightarrow> if is_virtual_key key then Some key else None
      | None \<Rightarrow> None)"

definition trim_slashes :: "string \<Rightarrow> string" where
  "trim_slashes s = rev (dropWhile (\<lambda>c. c = CHR ''/'') (rev s))"

definition job_context_of ::
    "'g job_world \<Rightarrow> string \<Rightarrow> headers \<Rightarrow> string \<Rightarrow> bool \<Rightarrow> 'g validator option \<Rightarrow>
     (job_reply + job_context) \<times> 'g validator option" where
  "job_context_of w provider hs model skip_budget v =
     (case jw_lookup w provider of
        None \<Rightarrow> (Inl (JobError 400 ''Unknown job provider''), v)
      | Some (resolved, ps) \<Rightarrow>
          if settings_type ps \<notin> {Fal, Replicate} then (Inl (JobError 400 ''Provider does not support Eavs jobs''), v)
          else case job_token hs of
            None \<Rightarrow> (Inl (JobError 401 ''A virtual Eavs key is required for jobs''), v)
          | Some key \<Rightarrow>
              (case v of
                 None \<Rightarrow> (Inl (JobError 503 ''Virtual keys are unavailable''), v)
               | Some vd \<Rightarrow>
                   (case (if skip_budget
                          then validate_skip_budget (jw_sha256 w) (jw_glob w) (jw_rpm_new w) (jw_rpm_check w)
                                 (jw_now w) (jw_secs w) (jw_db_ok w) key model resolved vd
                          else validate (jw_sha256 w) (jw_glob w) (jw_rpm_new w) (jw_rpm_check w)
                                 (jw_now w) (jw_secs w) (jw_db_ok w) key model resolved (Some 0) vd) of
                      (Inl _, vd') \<Rightarrow> (Inl (JobError 403 ''Job key or model is not authorized''), Some vd')
                    | (Inr vk, vd') \<Rightarrow>
                        if \<not> skip_budget \<and> (max_budget_usd (vk_permissions vk) \<noteq> None \<or> tpm_limit (vk_permissions vk) \<noteq> None)
                        then (Inl (JobError 400 ''Jobs cannot enforce this virtual key's budget or token limit yet''), Some vd')
                        else if resolved_api_key (jw_host w) ps = []
                        then (Inl (JobError 503 ''Provider credential is not configured''), Some vd')
                        else (Inr \<lparr>jc_kind = settings_type ps, jc_provider = resolved,
                                   jc_api_key = resolved_api_key (jw_host w) ps,
                                   jc_base = trim_slashes (resolved_base_url (jw_host w) ps), jc_owner = vk\<rparr>,
                              Some vd'))))"

subsection \<open>The call to the provider\<close>

definition max_reply :: nat where
  "max_reply = 2 * 1024 * 1024"

fun collect_reply :: "string \<Rightarrow> string option list \<Rightarrow> job_reply + string" where
  "collect_reply got [] = Inr got"
| "collect_reply got (None # cs) = Inl (JobError 502 ''Job response stream failed'')"
| "collect_reply got (Some c # cs) =
     (if max_reply < length got + length c then Inl (JobError 502 ''Job response exceeds size limit'')
      else collect_reply (got @ c) cs)"

definition job_headers :: "job_context \<Rightarrow> json option \<Rightarrow> headers" where
  "job_headers ctx body =
     (''authorization'', (if jc_kind ctx = Fal then ''Key '' else ''Bearer '') @ jc_api_key ctx)
       # (if body = None then [] else [(''content-type'', ''application/json'')])"

text \<open>The answer and the request that left, if one did.\<close>

definition call_upstream ::
    "'g job_world \<Rightarrow> job_context \<Rightarrow> string \<Rightarrow> string \<Rightarrow> json option \<Rightarrow> (job_reply + json) \<times> job_request list" where
  "call_upstream w ctx meth path body =
     (let url = jc_base ctx @ path in
      if check_url_allowed (jw_url_host w) (jw_network w) url \<noteq> Inr ()
      then (Inl (JobError 403 ''Job upstream blocked by network policy''), [])
      else if \<not> jw_value_ok w ((if jc_kind ctx = Fal then ''Key '' else ''Bearer '') @ jc_api_key ctx)
      then (Inl (JobError 400 ''Invalid provider credential''), [])
      else
        let q = \<lparr>jr_method = meth, jr_url = url, jr_headers = job_headers ctx body, jr_body = body\<rparr>
        in (case jw_send w q of
              None \<Rightarrow> Inl (JobError 502 ''Job upstream failed'')
            | Some (status, chunks) \<Rightarrow>
                (case collect_reply [] chunks of
                   Inl e \<Rightarrow> Inl e
                 | Inr bytes \<Rightarrow>
                     (case jw_parse w bytes of
                        None \<Rightarrow> Inl (JobError 502 ''Invalid upstream job response'')
                      | Some v \<Rightarrow> if status < 200 \<or> 300 \<le> status then Inl (JobPassed status v) else Inr v)),
            [q]))"

subsection \<open>Submitting\<close>

definition submit_fields_ok :: "json \<Rightarrow> bool" where
  "submit_fields_ok request \<longleftrightarrow>
     \<not> contains_webhook request \<and>
     (case as_object request of
        None \<Rightarrow> False | Some m \<Rightarrow> list_all (\<lambda>(k, _). k \<in> {''model'', ''input'', ''version''}) m)"

definition version_byte :: "char \<Rightarrow> bool" where
  "version_byte c \<longleftrightarrow> component_byte c \<or> c \<in> {CHR '':'', CHR ''/''}"

definition replicate_version :: "json \<Rightarrow> string option" where
  "replicate_version request =
     (case str_field request ''version'' of
        Some v \<Rightarrow> if v \<noteq> [] \<and> length v < 256 \<and> list_all version_byte v then Some v else None
      | None \<Rightarrow> None)"

definition submit_request ::
    "job_context \<Rightarrow> json \<Rightarrow> string \<Rightarrow> json \<Rightarrow> job_reply + string \<times> json" where
  "submit_request ctx request model input =
     (if jc_kind ctx = Fal
      then if \<not> safe_fal_model model \<or> jget request ''version'' \<noteq> None
           then Inl (JobError 400 ''Invalid fal model or unsupported version field'')
           else Inr (''/'' @ model, input)
      else case replicate_version request of
             None \<Rightarrow> Inl (JobError 400 ''Replicate version is required'')
           | Some version \<Rightarrow>
               if (allowed_models (vk_permissions (jc_owner ctx)) \<noteq> None \<or>
                   blocked_models (vk_permissions (jc_owner ctx)) \<noteq> None) \<and>
                  \<not> starts_with (model @ '':'') version
               then Inl (JobError 400 ''Scoped Replicate keys require a model-qualified version (owner/model:hash)'')
               else Inr (''/predictions'', JObj [(''input'', input), (''version'', JStr version)]))"

definition normalized_status :: "string \<Rightarrow> string" where
  "normalized_status s =
     (if s \<in> {''IN_QUEUE'', ''starting''} then ''queued''
      else if s \<in> {''IN_PROGRESS'', ''processing''} then ''running''
      else if s \<in> {''COMPLETED'', ''succeeded''} then ''completed''
      else if s \<in> {''failed'', ''ERROR''} then ''failed''
      else if s \<in> {''canceled'', ''cancelled'', ''CANCELLATION_REQUESTED''} then ''cancelled''
      else s)"

definition status_of :: "json \<Rightarrow> string \<Rightarrow> string" where
  "status_of v otherwise = normalized_status (case str_field v ''status'' of Some s \<Rightarrow> s | None \<Rightarrow> otherwise)"

definition now_secs :: "'g job_world \<Rightarrow> int" where
  "now_secs w = timestamp (jw_now w)"

text \<open>What is made of the provider's answer to a submission.\<close>

definition accept_job :: "'g job_world \<Rightarrow> job_context \<Rightarrow> string \<Rightarrow> json \<Rightarrow> job_reply" where
  "accept_job w ctx model v =
     (if jc_kind ctx = Replicate \<and> (case str_field v ''model'' of Some actual \<Rightarrow> actual \<noteq> model | None \<Rightarrow> False)
      then JobError 502 ''Replicate returned a different model than requested''
      else case str_field v (if jc_kind ctx = Fal then ''request_id'' else ''id'') of
             None \<Rightarrow> JobError 502 ''Job upstream returned no safe job ID''
           | Some job_id \<Rightarrow>
               if \<not> safe_component job_id then JobError 502 ''Job upstream returned no safe job ID''
               else
                 let h = \<lparr>jh_provider = jc_provider ctx, jh_owner = vk_key_hash (jc_owner ctx), jh_model = model,
                          jh_job_id = job_id, jh_reserved = Fin 0, jh_expires = now_secs w + 7 * 24 * 3600\<rparr>
                 in JobAccepted h (seal_handle (jw_tools w) (jc_api_key ctx) h) (status_of v ''queued''))"

definition submit_checked ::
    "'g job_world \<Rightarrow> job_context \<Rightarrow> json \<Rightarrow> string \<Rightarrow> json \<Rightarrow> job_reply \<times> job_request list" where
  "submit_checked w ctx request model input =
     (if \<not> submit_fields_ok request then (JobError 400 ''Webhook and unknown job fields are not supported'', [])
      else if \<not> allow_remote_content (policy_for_key_metadata (jw_fetch w) (Some (vk_metadata (jc_owner ctx)))) \<and>
              contains_remote_url input
      then (JobError 403 ''Remote input URLs require delegated fetch permission'', [])
      else case submit_request ctx request model input of
             Inl e \<Rightarrow> (e, [])
           | Inr (path, body) \<Rightarrow>
               (case call_upstream w ctx ''POST'' path (Some body) of
                  (Inl e, sent) \<Rightarrow> (e, sent)
                | (Inr v, sent) \<Rightarrow> (accept_job w ctx model v, sent)))"

definition submit_limit :: "'g job_world \<Rightarrow> nat" where
  "submit_limit w = (if jw_max_body w = 0 then 1024 * 1024 else min (jw_max_body w) (1024 * 1024))"

definition submit_job ::
    "'g job_world \<Rightarrow> string \<Rightarrow> headers \<Rightarrow> string \<Rightarrow> 'g validator option \<Rightarrow>
     job_reply \<times> job_request list \<times> 'g validator option" where
  "submit_job w provider hs body v =
     (if submit_limit w < length body then (JobError 413 ''Job request exceeds 1 MiB'', [], v)
      else case jw_parse w body of
        None \<Rightarrow> (JobError 400 ''Invalid JSON job request'', [], v)
      | Some request \<Rightarrow>
          (case str_field request ''model'' of
             None \<Rightarrow> (JobError 400 ''Job model must be a safe model identifier'', [], v)
           | Some model \<Rightarrow>
               if \<not> safe_fal_model model then (JobError 400 ''Job model must be a safe model identifier'', [], v)
               else case jget request ''input'' of
                 None \<Rightarrow> (JobError 400 ''Job input must be an object'', [], v)
               | Some input \<Rightarrow>
                   if \<not> is_object input then (JobError 400 ''Job input must be an object'', [], v)
                   else case job_context_of w provider hs model False v of
                     (Inl e, v') \<Rightarrow> (e, [], v')
                   | (Inr ctx, v') \<Rightarrow>
                       (case submit_checked w ctx request model input of (reply, sent) \<Rightarrow> (reply, sent, v'))))"

subsection \<open>Status, result and cancellation\<close>

datatype job_action = StatusOf | ResultOf | CancelOf

definition lifecycle_target :: "job_action \<Rightarrow> provider_type \<Rightarrow> job_handle \<Rightarrow> string \<times> string" where
  "lifecycle_target action kind h =
     (if kind = Fal then
        let stem = ''/'' @ jh_model h @ ''/requests/'' @ jh_job_id h in
        (case action of
           StatusOf \<Rightarrow> (''GET'', stem @ ''/status'') | ResultOf \<Rightarrow> (''GET'', stem) | CancelOf \<Rightarrow> (''PUT'', stem @ ''/cancel''))
      else
        let stem = ''/predictions/'' @ jh_job_id h in
        (case action of CancelOf \<Rightarrow> (''POST'', stem @ ''/cancel'') | _ \<Rightarrow> (''GET'', stem)))"

definition job_output :: "job_action \<Rightarrow> provider_type \<Rightarrow> json \<Rightarrow> json" where
  "job_output action kind v =
     (if action \<noteq> ResultOf then JNull
      else if kind = Fal then (case jget v ''payload'' of Some p \<Rightarrow> p | None \<Rightarrow> v)
      else (case jget v ''output'' of Some p \<Rightarrow> p | None \<Rightarrow> JNull))"

definition act_checked ::
    "'g job_world \<Rightarrow> job_context \<Rightarrow> job_action \<Rightarrow> string \<Rightarrow> job_handle \<Rightarrow> job_reply \<times> job_request list" where
  "act_checked w ctx action token h =
     (if vk_key_hash (jc_owner ctx) \<noteq> jh_owner h then (JobError 403 ''Job owner mismatch'', [])
      else case lifecycle_target action (jc_kind ctx) h of
        (meth, path) \<Rightarrow>
          (case call_upstream w ctx meth path None of
             (Inl e, sent) \<Rightarrow> (e, sent)
           | (Inr v, sent) \<Rightarrow>
               (JobState token h (status_of v (if action = ResultOf then ''completed'' else ''unknown''))
                  (job_output action (jc_kind ctx) v), sent)))"

definition job_lifecycle ::
    "'g job_world \<Rightarrow> string \<Rightarrow> string \<Rightarrow> headers \<Rightarrow> job_action \<Rightarrow> 'g validator option \<Rightarrow>
     job_reply \<times> job_request list \<times> 'g validator option" where
  "job_lifecycle w provider token hs action v =
     (case jw_lookup w provider of
        None \<Rightarrow> (JobError 400 ''Unknown job provider'', [], v)
      | Some (resolved, ps) \<Rightarrow>
          if settings_type ps \<notin> {Fal, Replicate} then (JobError 400 ''Unknown job provider'', [], v)
          else
            let secret = resolved_api_key (jw_host w) ps in
            if secret = [] then (JobError 503 ''Provider credential is not configured'', [], v)
            else case job_token hs of
              None \<Rightarrow> (JobError 401 ''A virtual Eavs key is required for jobs'', [], v)
            | Some key \<Rightarrow>
                if v = None then (JobError 503 ''Virtual keys are unavailable'', [], v)
                else case open_handle (jw_tools w) (now_secs w) token secret resolved (hash_key (jw_sha256 w) key) of
                  None \<Rightarrow>
                    (JobError 403
                       (if Option.bind (verified_payload (jw_tools w) secret token) (jt_decode (jw_tools w)) = None
                        then ''Invalid job handle'' else ''Job handle is not valid for this key/provider''), [], v)
                | Some h \<Rightarrow>
                    (case job_context_of w provider hs (jh_model h) True v of
                       (Inl e, v') \<Rightarrow> (e, [], v')
                     | (Inr ctx, v') \<Rightarrow>
                         (case act_checked w ctx action token h of (reply, sent) \<Rightarrow> (reply, sent, v'))))"


subsection \<open>What the parts let through\<close>

lemma call_upstream_sent:
  assumes "call_upstream w ctx meth path body = (r, sent)" and "q \<in> set sent"
  shows "q = \<lparr>jr_method = meth, jr_url = jc_base ctx @ path, jr_headers = job_headers ctx body, jr_body = body\<rparr>"
    and "check_url_allowed (jw_url_host w) (jw_network w) (jc_base ctx @ path) = Inr ()"
  using assms by (auto simp: call_upstream_def Let_def split: if_splits)

text \<open>The validation of a job request; both kinds are the inner validation, with or without the budget.\<close>

lemma job_context_ok:
  assumes "job_context_of w provider hs model skip v = (Inr ctx, v')"
  obtains key st rl st' rl' resolved ps where "job_token hs = Some key" and "v = Some (st, rl)" and "v' = Some (st', rl')"
    and "jw_lookup w provider = Some (resolved, ps)"
    and "\<exists>est. validate_inner (jw_sha256 w) (jw_glob w) (jw_rpm_new w) (jw_rpm_check w) (jw_now w) (jw_secs w) (jw_db_ok w)
      key model resolved est (\<not> skip) (st, rl) = (Inr (jc_owner ctx), (st', rl'))"
    and "\<not> skip \<longrightarrow> max_budget_usd (vk_permissions (jc_owner ctx)) = None \<and> tpm_limit (vk_permissions (jc_owner ctx)) = None"
    and "jc_kind ctx = settings_type ps" and "jc_provider ctx = resolved" and "jc_api_key ctx = resolved_api_key (jw_host w) ps"
    and "jc_base ctx = trim_slashes (resolved_base_url (jw_host w) ps)" and "settings_type ps \<in> {Fal, Replicate}"
proof -
  from assms obtain resolved ps key vd vd' vk where
    look: "jw_lookup w provider = Some (resolved, ps)" "settings_type ps \<in> {Fal, Replicate}" and
    key: "job_token hs = Some key" and v: "v = Some vd" "v' = Some vd'" and
    ok: "(if skip
          then validate_skip_budget (jw_sha256 w) (jw_glob w) (jw_rpm_new w) (jw_rpm_check w)
                 (jw_now w) (jw_secs w) (jw_db_ok w) key model resolved vd
          else validate (jw_sha256 w) (jw_glob w) (jw_rpm_new w) (jw_rpm_check w)
                 (jw_now w) (jw_secs w) (jw_db_ok w) key model resolved (Some 0) vd) = (Inr vk, vd')" and
    caps: "\<not> skip \<longrightarrow> max_budget_usd (vk_permissions vk) = None \<and> tpm_limit (vk_permissions vk) = None" and
    ctx: "ctx = \<lparr>jc_kind = settings_type ps, jc_provider = resolved, jc_api_key = resolved_api_key (jw_host w) ps,
      jc_base = trim_slashes (resolved_base_url (jw_host w) ps), jc_owner = vk\<rparr>"
    unfolding job_context_of_def by (auto split: option.splits prod.splits sum.splits if_splits)
  obtain st rl st' rl' where vd: "vd = (st, rl)" "vd' = (st', rl')" by (cases vd, cases vd') auto
  from ok vd have "\<exists>est. validate_inner (jw_sha256 w) (jw_glob w) (jw_rpm_new w) (jw_rpm_check w) (jw_now w) (jw_secs w)
      (jw_db_ok w) key model resolved est (\<not> skip) (st, rl) = (Inr vk, (st', rl'))"
    by (auto simp: validate_skip_budget_def validate_def split: if_splits)
  with that look key v vd caps ctx show ?thesis by auto
qed

lemma lookup_row:
  assumes "lookup_for_auth sha ok key st = (Inr (Some k), st')"
  shows "\<exists>row. rows st (hash_key sha key) = Some (Some row) \<and> k = row\<lparr>usage := usage k\<rparr>"
  using assms by (auto simp: lookup_for_auth_def Let_def split: if_splits option.splits)

lemma validated_hash:
  assumes "validate_inner sha gm rn rc now secs ok key model provider est enforce (st, rl) = (Inr vk, (st', rl'))"
    and "store_wf st"
  shows "vk_key_hash vk = hash_key sha key"
proof -
  from assms(1) obtain k where k: "lookup_for_auth sha ok key st = (Inr (Some k), st')" "vk = validated_of k"
    by (rule validate_inner_Inr)
  from k(1) obtain row where "rows st (hash_key sha key) = Some (Some row)" "key_hash k = key_hash row"
    by (auto simp: lookup_for_auth_def Let_def split: if_splits option.splits)
  with assms(2) k(2) show ?thesis by (simp add: store_wf_def validated_of_def)
qed

lemma validate_inner_wf:
  assumes "validate_inner sha gm rn rc now secs ok key model provider est enforce (st, rl) = (r, (st', rl'))" and "store_wf st"
  shows "store_wf st'"
  using assms lookup_wf by (fastforce simp: validate_inner_def Let_def split: validate_cases)

definition validator_wf :: "'g validator option \<Rightarrow> bool" where
  "validator_wf v \<longleftrightarrow> (\<forall>st rl. v = Some (st, rl) \<longrightarrow> store_wf st)"

lemma job_context_wf:
  assumes "job_context_of w provider hs model skip v = (r, v')" and "validator_wf v"
  shows "validator_wf v'"
proof (cases v)
  case None
  with assms(1) show ?thesis by (auto simp: job_context_of_def validator_wf_def split: option.splits if_splits prod.splits)
next
  case (Some vd)
  obtain st rl where vd: "vd = (st, rl)" by (cases vd)
  with Some assms(2) have wf: "store_wf st" by (simp add: validator_wf_def)
  have inner: "store_wf (fst v1)" if "validate_inner sha gm rn rc now secs ok key m p est enforce (st, rl) = (r1, v1)"
    for sha gm and rn :: "u32 \<Rightarrow> 'a" and rc now secs ok key m p est enforce r1 v1
    using validate_inner_wf [of sha gm rn rc now secs ok key m p est enforce st rl r1 "fst v1" "snd v1"] that wf by simp
  show ?thesis
    using assms(1) wf inner unfolding Some vd job_context_of_def validate_def validate_skip_budget_def validator_wf_def
    by (fastforce split: option.splits if_splits prod.splits sum.splits)
qed


subsection \<open>Paths and bodies\<close>

definition path_byte :: "char \<Rightarrow> bool" where
  "path_byte c \<longleftrightarrow> component_byte c \<or> c = CHR ''/''"

lemma split_at_covers: "c \<in> set s \<Longrightarrow> c = d \<or> (\<exists>p \<in> set (split_at d s). c \<in> set p)"
  by (induction s) (auto split: list.splits if_splits)

lemma safe_fal_model_path: "safe_fal_model m \<Longrightarrow> list_all path_byte m"
  using split_at_covers [of _ m "CHR ''/''"]
  by (fastforce simp: safe_fal_model_def safe_component_def list_all_iff path_byte_def)

lemma safe_component_path: "safe_component m \<Longrightarrow> list_all path_byte m"
  by (auto simp: safe_component_def list_all_iff path_byte_def)

lemma literal_paths: "list_all path_byte ''/predictions''" "list_all path_byte ''/predictions/''"
  "list_all path_byte ''/requests/''" "list_all path_byte ''/status''" "list_all path_byte ''/cancel''" "path_byte (CHR ''/'')"
  by (simp_all add: path_byte_def component_byte_def)

lemma lifecycle_path:
  assumes "lifecycle_target action kind h = (meth, path)" and "safe_component (jh_job_id h)" and "safe_fal_model (jh_model h)"
  shows "list_all path_byte path"
  using assms literal_paths safe_fal_model_path safe_component_path
  by (auto simp: lifecycle_target_def Let_def split: if_splits job_action.splits)

lemma webhook_of_input: "\<not> contains_webhook request \<Longrightarrow> jget request ''input'' = Some input \<Longrightarrow> \<not> contains_webhook input"
  by (cases request) (auto simp: list_ex_iff dest: map_of_SomeD)



subsection \<open>Jobs of different keys\<close>

text \<open>
  A run of the gateway: submissions and lifecycle requests by any clients, and anything else that
  keeps the key store well formed. The log has the handles given out, under the key that submitted,
  and the requests that lifecycle calls sent. A signature that a client presents is one that the
  gateway made, over the encoding of a handle it gave out, and that encoding reads back: this is
  what the MAC and the encoding are relied on for.
\<close>

datatype job_event =
    Submitted string job_handle
  | Acted string job_action "job_request list"

record 'g job_system =
  js_validator :: "'g validator option"
  js_log :: "job_event list"

definition genuine :: "job_tools \<Rightarrow> job_event list \<Rightarrow> string \<Rightarrow> bool" where
  "genuine jt events token \<longleftrightarrow>
     (\<forall>secret payload. verified_payload jt secret token = Some payload \<longrightarrow>
        (\<exists>k h. Submitted k h \<in> set events \<and> payload = jt_encode jt h \<and> jt_decode jt payload = Some h))"

inductive job_step :: "(string \<Rightarrow> u8 list) \<Rightarrow> job_tools \<Rightarrow> 'g job_system \<Rightarrow> 'g job_system \<Rightarrow> bool" for sha jt where
  submits: "jw_sha256 w = sha \<Longrightarrow> jw_tools w = jt \<Longrightarrow>
     submit_job w provider hs body (js_validator s) = (reply, sent, v') \<Longrightarrow>
     job_step sha jt s
       (s\<lparr>js_validator := v',
          js_log := js_log s @ (case (reply, job_token hs) of
            (JobAccepted h token status, Some key) \<Rightarrow> [Submitted (hash_key sha key) h] | _ \<Rightarrow> [])\<rparr>)"
| acts: "jw_sha256 w = sha \<Longrightarrow> jw_tools w = jt \<Longrightarrow> genuine jt (js_log s) token \<Longrightarrow>
     job_lifecycle w provider token hs action (js_validator s) = (reply, sent, v') \<Longrightarrow>
     job_step sha jt s
       (s\<lparr>js_validator := v',
          js_log := js_log s @ (case job_token hs of Some key \<Rightarrow> [Acted (hash_key sha key) action sent] | None \<Rightarrow> [])\<rparr>)"
| elsewhere: "validator_wf v' \<Longrightarrow> job_step sha jt s (s\<lparr>js_validator := v'\<rparr>)"

inductive job_reachable :: "(string \<Rightarrow> u8 list) \<Rightarrow> job_tools \<Rightarrow> 'g job_system \<Rightarrow> bool" for sha jt where
  start: "validator_wf v \<Longrightarrow> job_reachable sha jt \<lparr>js_validator = v, js_log = []\<rparr>"
| step: "job_reachable sha jt s \<Longrightarrow> job_step sha jt s s' \<Longrightarrow> job_reachable sha jt s'"

text \<open>A request about the job of a handle, at the address of a provider.\<close>

definition request_about :: "job_handle \<Rightarrow> job_action \<Rightarrow> job_request \<Rightarrow> bool" where
  "request_about h action q \<longleftrightarrow>
     (\<exists>base kind path. lifecycle_target action kind h = (jr_method q, path) \<and> jr_url q = base @ path \<and>
        list_all path_byte path)"

definition owned_events :: "job_event list \<Rightarrow> bool" where
  "owned_events es \<longleftrightarrow>
     (\<forall>k h. Submitted k h \<in> set es \<longrightarrow> jh_owner h = k \<and> jh_reserved h = Fin 0)"

definition own_jobs_only :: "job_event list \<Rightarrow> bool" where
  "own_jobs_only es \<longleftrightarrow>
     (\<forall>i k action sent q. i < length es \<longrightarrow> es ! i = Acted k action sent \<longrightarrow> q \<in> set sent \<longrightarrow>
        (\<exists>h. Submitted k h \<in> set (take i es) \<and> request_about h action q))"

lemma own_jobs_only_snoc:
  assumes "own_jobs_only es"
    and "\<And>k action sent q. e = Acted k action sent \<Longrightarrow> q \<in> set sent \<Longrightarrow>
      \<exists>h. Submitted k h \<in> set es \<and> request_about h action q"
  shows "own_jobs_only (es @ [e])"
  unfolding own_jobs_only_def
proof (intro allI impI)
  fix i k action sent q
  assume i: "i < length (es @ [e])" and e: "(es @ [e]) ! i = Acted k action sent" and q: "q \<in> set sent"
  show "\<exists>h. Submitted k h \<in> set (take i (es @ [e])) \<and> request_about h action q"
  proof (cases "i < length es")
    case True
    with assms(1) e q show ?thesis by (auto simp: own_jobs_only_def nth_append)
  next
    case False
    with i have "i = length es" by simp
    with assms(2) e q show ?thesis by simp
  qed
qed

lemma context_error: "job_context_of w provider hs model skip v = (Inl e, v') \<Longrightarrow> \<exists>n m. e = JobError n m"
  unfolding job_context_of_def by (auto split: option.splits prod.splits sum.splits if_splits)

lemma collect_error: "collect_reply got cs = Inl e \<Longrightarrow> \<exists>n m. e = JobError n m"
  by (induction got cs rule: collect_reply.induct) (auto split: if_splits)

lemma call_error: "call_upstream w ctx meth path body = (Inl e, sent) \<Longrightarrow> e \<noteq> JobAccepted h token status"
  by (auto simp: call_upstream_def Let_def split: if_splits option.splits sum.splits prod.splits dest: collect_error)

lemma submit_request_error: "submit_request ctx request model input = Inl e \<Longrightarrow> \<exists>n m. e = JobError n m"
  by (auto simp: submit_request_def split: if_splits option.splits)

lemma accepted_handle:
  assumes "submit_job w provider hs body v = (JobAccepted h token status, sent, v')" and "validator_wf v"
  shows "\<exists>key. job_token hs = Some key \<and> jh_owner h = hash_key (jw_sha256 w) key \<and> jh_reserved h = Fin 0"
proof -
  from assms(1) obtain request model input ctx where
    ctx: "job_context_of w provider hs model False v = (Inr ctx, v')" and
    chk: "submit_checked w ctx request model input = (JobAccepted h token status, sent)"
    unfolding submit_job_def by (auto split: if_splits option.splits prod.splits sum.splits dest: context_error)
  from ctx obtain key st rl st' rl' resolved est where key: "job_token hs = Some key" "v = Some (st, rl)"
    "validate_inner (jw_sha256 w) (jw_glob w) (jw_rpm_new w) (jw_rpm_check w) (jw_now w) (jw_secs w) (jw_db_ok w)
      key model resolved est True (st, rl) = (Inr (jc_owner ctx), (st', rl'))"
    by (elim job_context_ok) auto
  from key(2) assms(2) have "store_wf st" by (simp add: validator_wf_def)
  with validated_hash [OF key(3)] have "vk_key_hash (jc_owner ctx) = hash_key (jw_sha256 w) key" by simp
  moreover from chk have "jh_owner h = vk_key_hash (jc_owner ctx) \<and> jh_reserved h = Fin 0"
    by (auto simp: submit_checked_def accept_job_def Let_def split: if_splits option.splits sum.splits prod.splits
        dest: submit_request_error call_error)
  ultimately show ?thesis using key(1) by simp
qed


lemma lifecycle_parts:
  assumes "job_lifecycle w provider token hs action v = (reply, sent, v')" and "q \<in> set sent"
  obtains key h secret resolved ctx payload meth path where "job_token hs = Some key"
    and "verified_payload (jw_tools w) secret token = Some payload" and "jt_decode (jw_tools w) payload = Some h"
    and "jh_owner h = hash_key (jw_sha256 w) key" and "safe_component (jh_job_id h)" and "safe_fal_model (jh_model h)"
    and "lifecycle_target action (jc_kind ctx) h = (meth, path)"
    and "q = \<lparr>jr_method = meth, jr_url = jc_base ctx @ path, jr_headers = job_headers ctx None, jr_body = None\<rparr>"
proof -
  from assms obtain key h secret resolved ctx where
    key: "job_token hs = Some key" and
    h: "open_handle (jw_tools w) (now_secs w) token secret resolved (hash_key (jw_sha256 w) key) = Some h" and
    act: "act_checked w ctx action token h = (reply, sent)"
    unfolding job_lifecycle_def Let_def by (auto split: if_splits option.splits prod.splits sum.splits)
  obtain meth path where target: "lifecycle_target action (jc_kind ctx) h = (meth, path)"
    by (cases "lifecycle_target action (jc_kind ctx) h")
  with act assms(2) have "sent = snd (call_upstream w ctx meth path None)"
    by (auto simp: act_checked_def split: if_splits sum.splits prod.splits)
  with call_upstream_sent(1) [of w ctx meth path None "fst (call_upstream w ctx meth path None)" sent q] assms(2)
  have "q = \<lparr>jr_method = meth, jr_url = jc_base ctx @ path, jr_headers = job_headers ctx None, jr_body = None\<rparr>" by simp
  with key h target that show ?thesis
    by (auto simp: open_handle_def bind_eq_Some_conv split: option.splits if_splits)
qed

lemma lifecycle_owned:
  assumes run: "job_lifecycle w provider token hs action v = (reply, sent, v')" and q: "q \<in> set sent"
    and genuine: "genuine (jw_tools w) events token" and owned: "owned_events events"
  shows "\<exists>key h. job_token hs = Some key \<and> Submitted (hash_key (jw_sha256 w) key) h \<in> set events \<and> request_about h action q"
proof -
  from run q obtain key h secret ctx payload meth path where parts: "job_token hs = Some key"
    "verified_payload (jw_tools w) secret token = Some payload" "jt_decode (jw_tools w) payload = Some h"
    "jh_owner h = hash_key (jw_sha256 w) key" "safe_component (jh_job_id h)" "safe_fal_model (jh_model h)"
    "lifecycle_target action (jc_kind ctx) h = (meth, path)"
    "q = \<lparr>jr_method = meth, jr_url = jc_base ctx @ path, jr_headers = job_headers ctx None, jr_body = None\<rparr>"
    by (rule lifecycle_parts)
  from genuine parts(2) obtain k h0 where h0: "Submitted k h0 \<in> set events" "jt_decode (jw_tools w) payload = Some h0"
    unfolding genuine_def by blast
  with owned have "jh_owner h0 = k" by (auto simp: owned_events_def)
  from parts(3) h0(2) have "h0 = h" by simp
  with h0(1) \<open>jh_owner h0 = k\<close> parts(4) have "Submitted (hash_key (jw_sha256 w) key) h \<in> set events" by simp
  moreover have "request_about h action q"
    unfolding request_about_def using parts(7,8) lifecycle_path [OF parts(7,5,6)] by auto
  ultimately show ?thesis using parts(1) by blast
qed

lemma submit_wf: "submit_job w provider hs body v = (reply, sent, v') \<Longrightarrow> validator_wf v \<Longrightarrow> validator_wf v'"
  unfolding submit_job_def
  by (auto split: if_splits option.splits prod.splits sum.splits dest: job_context_wf)

lemma lifecycle_wf: "job_lifecycle w provider token hs action v = (reply, sent, v') \<Longrightarrow> validator_wf v \<Longrightarrow> validator_wf v'"
  unfolding job_lifecycle_def Let_def
  by (auto split: if_splits option.splits prod.splits sum.splits dest: job_context_wf)

definition job_inv :: "'g job_system \<Rightarrow> bool" where
  "job_inv s \<longleftrightarrow> validator_wf (js_validator s) \<and> owned_events (js_log s) \<and> own_jobs_only (js_log s)"

lemma job_inv_step:
  assumes step: "job_step sha jt s s'" and inv: "job_inv s"
  shows "job_inv s'"
  using step
proof (cases rule: job_step.cases)
  case (submits w provider hs body reply sent v')
  from inv have pre: "validator_wf (js_validator s)" "owned_events (js_log s)" "own_jobs_only (js_log s)"
    by (auto simp: job_inv_def)
  from submit_wf [OF submits(4) pre(1)] have wf: "validator_wf v'" .
  show ?thesis
  proof (cases "\<exists>h token status key. reply = JobAccepted h token status \<and> job_token hs = Some key")
    case True
    then obtain h token status key where acc: "reply = JobAccepted h token status" "job_token hs = Some key" by blast
    from accepted_handle [OF submits(4) [unfolded acc(1)] pre(1)] acc(2) submits(2) have
      "jh_owner h = hash_key sha key \<and> jh_reserved h = Fin 0" by auto
    with pre acc submits(1) wf show ?thesis
      by (auto simp: job_inv_def owned_events_def intro!: own_jobs_only_snoc)
  next
    case False
    with pre submits(1) wf show ?thesis by (auto simp: job_inv_def split: job_reply.splits option.splits)
  qed
next
  case (acts w token provider hs action reply sent v')
  from inv have pre: "validator_wf (js_validator s)" "owned_events (js_log s)" "own_jobs_only (js_log s)"
    by (auto simp: job_inv_def)
  from lifecycle_wf [OF acts(5) pre(1)] have wf: "validator_wf v'" .
  have own: "own_jobs_only (js_log s @ [Acted (hash_key sha key) action sent])" if key: "job_token hs = Some key" for key
  proof (rule own_jobs_only_snoc [OF pre(3)])
    fix k a sn q assume e: "Acted (hash_key sha key) action sent = Acted k a sn" and q: "q \<in> set sn"
    then have "q \<in> set sent" by simp
    from lifecycle_owned [OF acts(5) this _ pre(2)] acts(2,3,4) key e
    show "\<exists>h. Submitted k h \<in> set (js_log s) \<and> request_about h a q" by auto
  qed
  with pre acts(1) wf show ?thesis by (auto simp: job_inv_def owned_events_def split: option.splits)
next
  case (elsewhere v')
  with inv show ?thesis by (auto simp: job_inv_def)
qed

text \<open>
  Claim C9. Tenants see and cancel their own jobs only. Whatever clients submit and ask, and in whatever
  order, each request that a status, result or cancel call sends to the provider concerns a job that
  the same key submitted before, with a path of letters, digits, dashes and slashes.
\<close>

theorem jobs_tenant_isolated:
  assumes "job_reachable sha jt s"
    and "i < length (js_log s)" and "js_log s ! i = Acted k action sent" and "q \<in> set sent"
  shows "\<exists>h. Submitted k h \<in> set (take i (js_log s)) \<and> jh_owner h = k \<and> request_about h action q"
proof -
  have "job_inv s"
    using assms(1)
  proof (induction rule: job_reachable.induct)
    case (start v)
    then show ?case by (simp add: job_inv_def owned_events_def own_jobs_only_def)
  next
    case (step s s')
    then show ?case by (blast intro: job_inv_step)
  qed
  then have "own_jobs_only (js_log s)" and owned: "owned_events (js_log s)" by (auto simp: job_inv_def)
  with assms(2-4) obtain h where h: "Submitted k h \<in> set (take i (js_log s))" "request_about h action q"
    unfolding own_jobs_only_def by blast
  from h(1) have "Submitted k h \<in> set (js_log s)" by (rule in_set_takeD)
  with owned h show ?thesis by (auto simp: owned_events_def)
qed

text \<open>
  The handle of a submission opens for the key that submitted, at the provider it was submitted to,
  until it expires, and for no other key.
\<close>

theorem handle_roundtrip:
  assumes decode: "jt_decode jt (jt_encode jt h) = Some h"
    and unhex: "jt_unhex jt (jt_hex jt (jt_mac jt secret (jt_encode jt h))) = Some (jt_mac jt secret (jt_encode jt h))"
    and dots: "CHR ''.'' \<notin> set (jt_encode jt h)" "CHR ''.'' \<notin> set (jt_hex jt (jt_mac jt secret (jt_encode jt h)))"
    and "length (seal_handle jt secret h) \<le> 2048" and "safe_component (jh_job_id h)" and "safe_fal_model (jh_model h)"
  shows "open_handle jt now (seal_handle jt secret h) secret provider hash =
    (if jh_provider h = provider \<and> jh_owner h = hash \<and> now \<le> jh_expires h then Some h else None)"
proof -
  have "split_at (CHR ''.'') (seal_handle jt secret h) =
      [''v1'', jt_encode jt h, jt_hex jt (jt_mac jt secret (jt_encode jt h))]"
    using split_at_append [of "CHR ''.''" "''v1''"] split_at_append [OF dots(1)] split_at_none [OF dots(2)]
    by (simp add: seal_handle_def)
  then have "verified_payload jt secret (seal_handle jt secret h) = Some (jt_encode jt h)"
    using assms(5) unhex by (simp add: verified_payload_def)
  with assms(6,7) decode show ?thesis by (auto simp: open_handle_def)
qed

subsection \<open>The properties at concrete inputs\<close>

definition plain_key :: virtual_key where
  "plain_key = fresh_key\<lparr>permissions := key_permissions_default\<rparr>"

definition first_job :: job_handle where
  "first_job = \<lparr>jh_provider = ''fal'', jh_owner = [], jh_model = ''m'', jh_job_id = ''r1'', jh_reserved = Fin 0,
     jh_expires = 604800\<rparr>"

definition plain_tools :: job_tools where
  "plain_tools = \<lparr>jt_encode = (\<lambda>_. ''e''), jt_decode = (\<lambda>_. Some first_job), jt_mac = (\<lambda>_ _. ''s''), jt_hex = (\<lambda>s. s),
     jt_unhex = Some\<rparr>"

definition fal_settings :: provider_settings where
  "fal_settings = \<lparr>ps_type = ''fal'', ps_api_key = ''k'', ps_base_url = [], ps_api_version = None, ps_compat = no_compat,
     ps_headers = [], ps_aws_region = [], ps_aws_service = [], ps_deployment = [], ps_gcp_project = [], ps_gcp_location = []\<rparr>"

definition job_body :: json where
  "job_body = JObj [(''input'', JObj []), (''model'', JStr ''m'')]"

definition plain_world :: "unit job_world" where
  "plain_world = \<lparr>jw_sha256 = spent_digest, jw_glob = (=), jw_rpm_new = open_new, jw_rpm_check = open_check, jw_now = 5,
     jw_secs = 5, jw_db_ok = True, jw_host = \<lparr>env_var = (\<lambda>_. None), keychain = (\<lambda>_. None)\<rparr>,
     jw_lookup = (\<lambda>_. Some (''fal'', fal_settings)),
     jw_network = \<lparr>allow_domains = [], deny_domains = [], trusted_private_endpoints = [], block_private_ips = False\<rparr>,
     jw_url_host = (\<lambda>_. Some (Some ''queue.fal.run'')), jw_value_ok = (\<lambda>_. True),
     jw_fetch = \<lparr>allow_remote_content = False, allowed_server_tools = []\<rparr>, jw_max_body = 0, jw_tools = plain_tools,
     jw_parse = (\<lambda>s. if s = ''q'' then Some job_body else Some (JObj [(''request_id'', JStr ''r1'')])),
     jw_send = (\<lambda>_. Some (200, [Some ''a'']))\<rparr>"

definition client_headers :: headers where
  "client_headers = [(''authorization'', ''Bearer '' @ long_token)]"

definition first_validator :: "unit validator option" where
  "first_validator = Some (holding plain_key, rl_new)"


definition sent_submission :: job_request where
  "sent_submission = \<lparr>jr_method = ''POST'', jr_url = ''https://queue.fal.run/m'',
     jr_headers = [(''authorization'', ''Key k''), (''content-type'', ''application/json'')], jr_body = Some (JObj [])\<rparr>"

definition sent_status :: job_request where
  "sent_status = \<lparr>jr_method = ''GET'', jr_url = ''https://queue.fal.run/m/requests/r1/status'',
     jr_headers = [(''authorization'', ''Key k'')], jr_body = None\<rparr>"

lemma client_token: "job_token client_headers = Some long_token"
  by code_simp

lemma plain_context:
  "\<exists>ctx v'. job_context_of plain_world ''fal'' client_headers ''m'' skip first_validator = (Inr ctx, v') \<and>
     jc_kind ctx = Fal \<and> jc_api_key ctx = ''k'' \<and> jc_provider ctx = ''fal'' \<and> jc_base ctx = ''https://queue.fal.run'' \<and>
     vk_key_hash (jc_owner ctx) = [] \<and> vk_metadata (jc_owner ctx) = JNull"
proof -
  have "case job_context_of plain_world ''fal'' client_headers ''m'' b first_validator of
      (Inr ctx, v') \<Rightarrow> jc_kind ctx = Fal \<and> jc_api_key ctx = ''k'' \<and> jc_provider ctx = ''fal'' \<and>
        jc_base ctx = ''https://queue.fal.run'' \<and> vk_key_hash (jc_owner ctx) = [] \<and> vk_metadata (jc_owner ctx) = JNull
    | _ \<Rightarrow> False" if "b = True \<or> b = False" for b
    using that by (elim disjE) (hypsubst, code_simp)+
  from this [of skip] show ?thesis by (auto split: prod.splits sum.splits)
qed

lemma plain_call:
  assumes "jc_kind ctx = Fal" and "jc_api_key ctx = ''k''" and "jc_base ctx = ''https://queue.fal.run''"
  shows "call_upstream plain_world ctx meth path body =
    (Inr (JObj [(''request_id'', JStr ''r1'')]),
     [\<lparr>jr_method = meth, jr_url = ''https://queue.fal.run'' @ path, jr_headers = job_headers ctx body, jr_body = body\<rparr>])"
  using assms
  by (simp add: call_upstream_def Let_def plain_world_def check_url_allowed_def check_host_allowed_def max_reply_def)

lemma plain_submit:
  "\<exists>v' token status. submit_job plain_world ''fal'' client_headers ''q'' first_validator =
     (JobAccepted first_job token status, [sent_submission], v')"
proof -
  obtain ctx v' where ctx: "job_context_of plain_world ''fal'' client_headers ''m'' False first_validator = (Inr ctx, v')"
    and c: "jc_kind ctx = Fal" "jc_api_key ctx = ''k''" "jc_provider ctx = ''fal''" "jc_base ctx = ''https://queue.fal.run''"
      "vk_key_hash (jc_owner ctx) = []" "vk_metadata (jc_owner ctx) = JNull"
    using plain_context by blast
  have model: "safe_fal_model ''m''" "safe_component ''r1''" by code_simp+
  have "submit_checked plain_world ctx job_body ''m'' (JObj []) = (JobAccepted first_job
      (seal_handle plain_tools ''k'' first_job) (status_of (JObj [(''request_id'', JStr ''r1'')]) ''queued''), [sent_submission])"
    using c model plain_call [of ctx]
    by (simp add: submit_checked_def submit_fields_ok_def job_body_def policy_for_key_metadata_def submit_request_def
        accept_job_def Let_def str_field_def first_job_def now_secs_def timestamp_def plain_world_def
        sent_submission_def job_headers_def)
  moreover have "\<not> submit_limit plain_world < length ''q''" "jw_parse plain_world ''q'' = Some job_body"
    "str_field job_body ''model'' = Some ''m''" "jget job_body ''input'' = Some (JObj [])"
    by (simp_all add: submit_limit_def plain_world_def job_body_def str_field_def)
  ultimately show ?thesis using ctx model by (simp add: submit_job_def)
qed

lemma plain_status:
  "\<exists>v' reply. job_lifecycle plain_world ''fal'' ''v1.e.s'' client_headers StatusOf first_validator = (reply, [sent_status], v')"
proof -
  obtain ctx v' where ctx: "job_context_of plain_world ''fal'' client_headers ''m'' True first_validator = (Inr ctx, v')"
    and c: "jc_kind ctx = Fal" "jc_api_key ctx = ''k''" "jc_base ctx = ''https://queue.fal.run''" "vk_key_hash (jc_owner ctx) = []"
    using plain_context by blast
  have opened: "open_handle plain_tools 0 ''v1.e.s'' ''k'' ''fal'' [] = Some first_job"
    by (simp add: open_handle_def verified_payload_def plain_tools_def first_job_def safe_component_def safe_fal_model_def
        component_byte_def)
  have world: "jw_lookup plain_world ''fal'' = Some (''fal'', fal_settings)" "jw_tools plain_world = plain_tools" "first_validator \<noteq> None"
    by (simp_all add: plain_world_def first_validator_def)
  have look: "settings_type fal_settings = Fal"
    "resolved_api_key (jw_host plain_world) fal_settings = ''k''"
    "now_secs plain_world = 0" "hash_key (jw_sha256 plain_world) long_token = []"
    by code_simp+
  have "act_checked plain_world ctx StatusOf ''v1.e.s'' first_job =
      (JobState ''v1.e.s'' first_job (status_of (JObj [(''request_id'', JStr ''r1'')]) ''unknown'') JNull, [sent_status])"
    using c plain_call [of ctx]
    by (simp add: act_checked_def lifecycle_target_def Let_def first_job_def sent_status_def job_headers_def job_output_def)
  with ctx opened world look show ?thesis by (simp add: job_lifecycle_def Let_def client_token first_job_def)
qed

lemma first_validator_wf: "validator_wf first_validator"
  by (simp add: validator_wf_def first_validator_def store_wf_def holding_def store_empty_def plain_key_def fresh_key_def)


theorem jobs_tenant_isolated_witness:
  "\<exists>h. Submitted [] h \<in> set [Submitted [] first_job] \<and> jh_owner h = [] \<and> request_about h StatusOf sent_status"
proof -
  obtain v1 token status where sub: "submit_job plain_world ''fal'' client_headers ''q'' first_validator =
     (JobAccepted first_job token status, [sent_submission], v1)" using plain_submit by blast
  obtain v2 reply where act: "job_lifecycle plain_world ''fal'' ''v1.e.s'' client_headers StatusOf first_validator =
     (reply, [sent_status], v2)" using plain_status by blast
  have hash: "hash_key spent_digest long_token = []" by code_simp
  let ?start = "\<lparr>js_validator = first_validator, js_log = []\<rparr>"
  let ?s1 = "\<lparr>js_validator = v1, js_log = [Submitted [] first_job]\<rparr>"
  let ?s2 = "\<lparr>js_validator = first_validator, js_log = [Submitted [] first_job]\<rparr>"
  let ?s3 = "\<lparr>js_validator = v2, js_log = [Submitted [] first_job, Acted [] StatusOf [sent_status]]\<rparr>"
  have w: "jw_sha256 plain_world = spent_digest" "jw_tools plain_world = plain_tools" by (simp_all add: plain_world_def)
  have genuine: "genuine plain_tools [Submitted [] first_job] ''v1.e.s''"
    by (auto simp: genuine_def verified_payload_def plain_tools_def split: if_splits list.splits)
  have "job_step spent_digest plain_tools ?start ?s1"
    using job_step.submits [OF w, of "''fal''" client_headers "''q''" ?start] sub by (simp add: client_token hash)
  moreover have "job_step spent_digest plain_tools ?s1 ?s2"
    using job_step.elsewhere [OF first_validator_wf, of spent_digest plain_tools ?s1] by simp
  moreover have "job_step spent_digest plain_tools ?s2 ?s3"
    using job_step.acts [OF w, of ?s2 "''v1.e.s''" "''fal''" client_headers StatusOf] act genuine by (simp add: client_token hash)
  ultimately have reach: "job_reachable spent_digest plain_tools ?s3"
    using job_reachable.start [OF first_validator_wf, of spent_digest plain_tools] by (blast intro: job_reachable.step)
  from jobs_tenant_isolated [OF reach, of 1 "[]" StatusOf "[sent_status]" sent_status] show ?thesis by simp
qed

theorem handle_roundtrip_witness:
  "open_handle plain_tools 0 (seal_handle plain_tools ''k'' first_job) ''k'' ''fal'' [] = Some first_job \<and>
   open_handle plain_tools 0 (seal_handle plain_tools ''k'' first_job) ''k'' ''fal'' ''other'' = None"
  using handle_roundtrip [of plain_tools first_job "''k''" 0 "''fal''"]
  by (simp add: plain_tools_def first_job_def seal_handle_def safe_component_def safe_fal_model_def component_byte_def)

end
