(* ===== verification/Model_Catalog.thy ===== *)
theory Model_Catalog
  imports Pricing Adjustment_Retry
begin

section \<open>The public catalogue of models (src/src/model_catalog.rs)\<close>

text \<open>
  The catalogue of models.dev, as far as the gateway decides something with it: the formats and
  reasoning efforts of a model, the models of a provider without a list of its own, and prices. Hash
  maps are listed in the order in which they are iterated. Reading the cache file and the download
  are their outcomes.
\<close>

record cost_rates =
  mc_input :: f64
  mc_output :: f64
  mc_cache_read :: f64
  mc_cache_write :: f64

record shortlist_entry =
  sl_id :: string
  sl_name :: string
  sl_reasoning :: bool
  sl_input :: "string list"
  sl_context :: u64
  sl_max_tokens :: u64
  sl_cost :: cost_rates
  sl_compat :: "(string \<times> json) list"
  sl_efforts :: "string list"
  sl_api :: "string option"

text \<open>What the retry and the adjustments read of an entry.\<close>

definition entry_of :: "shortlist_entry \<Rightarrow> model_entry" where
  "entry_of e =
     \<lparr>me_id = sl_id e, me_efforts = sl_efforts e, me_force_adaptive = map_of (sl_compat e) ''forceAdaptiveThinking''\<rparr>"

text \<open>The npm package is the one of the model's own \<open>provider\<close> field.\<close>

record catalog_model =
  cm_id :: string
  cm_name :: string
  cm_reasoning :: bool
  cm_tool_call :: bool
  cm_inputs :: "string list"
  cm_outputs :: "string list"
  cm_cost :: cost_rates
  cm_context :: u64
  cm_limit_input :: u64
  cm_limit_output :: u64
  cm_release_date :: string
  cm_npm :: "string option"
  cm_reasoning_options :: "json list"

record catalog_provider =
  cp_id :: string
  cp_models :: "(string \<times> catalog_model) list"

type_synonym catalog = "(string \<times> catalog_provider) list"

definition api_for_npm :: "string \<Rightarrow> string option" where
  "api_for_npm =
     map_of [(''@ai-sdk/anthropic'', ''anthropic-messages''), (''@ai-sdk/openai'', ''openai-responses''),
             (''@ai-sdk/openai-compatible'', ''openai-completions'')]"

definition effort_values :: "json list \<Rightarrow> string list" where
  "effort_values options =
     List.map_filter as_str
       (concat (List.map_filter (\<lambda>opt. Option.bind (jget opt ''values'') as_array)
         (filter (\<lambda>opt. str_field opt ''type'' = Some ''effort'') options)))"

definition text_or_image :: "string \<Rightarrow> bool" where
  "text_or_image v \<longleftrightarrow> v = ''text'' \<or> v = ''image''"

definition to_shortlist_entry :: "catalog_model \<Rightarrow> shortlist_entry" where
  "to_shortlist_entry m =
     \<lparr>sl_id = cm_id m,
      sl_name = (if cm_name m = [] then cm_id m else cm_name m),
      sl_reasoning = cm_reasoning m,
      sl_input = (if cm_inputs m = [] then [''text''] else filter text_or_image (cm_inputs m)),
      sl_context = (if cm_context m > 0 then cm_context m else 128000),
      sl_max_tokens = (if cm_limit_output m > 0 then cm_limit_output m else 16384),
      sl_cost = cm_cost m,
      sl_compat = [],
      sl_efforts = effort_values (cm_reasoning_options m),
      sl_api = Option.bind (cm_npm m) api_for_npm\<rparr>"

definition model_of_catalog :: "catalog \<Rightarrow> string \<Rightarrow> string \<Rightarrow> shortlist_entry option" where
  "model_of_catalog c provider model =
     Option.bind (map_of c provider) (\<lambda>p. map_option to_shortlist_entry (map_of (cp_models p) model))"

text \<open>
  The stable sort by descending release date, as the stable ascending sort of the reversed list read
  from its end.
\<close>

definition newest_first :: "catalog_model list \<Rightarrow> catalog_model list" where
  "newest_first ms = rev (sort_key cm_release_date (rev ms))"

definition catalog_models :: "catalog \<Rightarrow> string \<Rightarrow> catalog_model list" where
  "catalog_models c provider =
     (case map_of c provider of Some p \<Rightarrow> newest_first (map snd (cp_models p)) | None \<Rightarrow> [])"

definition models_for_provider :: "catalog \<Rightarrow> string \<Rightarrow> shortlist_entry list \<Rightarrow> shortlist_entry list" where
  "models_for_provider c provider config_models =
     (if config_models \<noteq> [] then config_models
      else (case map_of c provider of
              Some p \<Rightarrow> map to_shortlist_entry (newest_first (map snd (cp_models p)))
            | None \<Rightarrow> []))"

definition eavs_to_catalog_id :: "string \<Rightarrow> string \<Rightarrow> string" where
  "eavs_to_catalog_id eavs_name eavs_type =
     (if eavs_type \<in> {''openai'', ''openai-responses'', ''openai-codex''} then ''openai''
      else if eavs_type = ''anthropic'' then ''anthropic''
      else if eavs_type \<in> {''google'', ''google-vertex''} then ''google''
      else if eavs_type = ''mistral'' then ''mistral''
      else if eavs_type = ''groq'' then ''groq''
      else if eavs_type = ''xai'' then ''xai''
      else if eavs_type = ''openrouter'' then ''openrouter''
      else if eavs_type = ''azure'' then ''azure''
      else if eavs_type \<in> {''bedrock'', ''aws-bedrock''} then ''bedrock''
      else if eavs_type = ''cerebras'' then ''cerebras''
      else if eavs_type = ''github-copilot'' then ''github-copilot''
      else eavs_name)"

text \<open>The efforts published for a model of a provider of the given type.\<close>

definition published_efforts :: "catalog option \<Rightarrow> string \<Rightarrow> string \<Rightarrow> string \<Rightarrow> string list option" where
  "published_efforts catalog type provider model =
     Option.bind catalog (\<lambda>c. map_option sl_efforts (model_of_catalog c (eavs_to_catalog_id provider type) model))"

subsection \<open>Prices\<close>

fun f64_div :: "f64 \<Rightarrow> f64 \<Rightarrow> f64" where
  "f64_div (Fin a) (Fin b) = (if b \<noteq> 0 then round64 (a / b) else if a = 0 then NaN else Inf (a < 0))"
| "f64_div (Inf s) (Fin b) = Inf (s \<noteq> (b < 0))"
| "f64_div (Fin a) (Inf t) = Fin 0"
| "f64_div _ _ = NaN"

definition per_token :: "f64 \<Rightarrow> f64" where
  "per_token v = f64_div v (Fin 1000000)"

definition priced :: "f64 \<Rightarrow> f64 option" where
  "priced v = (if f64_gt v (Fin 0) then Some (per_token v) else None)"

definition as_u32 :: "u64 \<Rightarrow> nat option" where
  "as_u32 n = (if n > 0 then Some (unat (ucast n :: u32)) else None)"

definition pricing_entry :: "string \<Rightarrow> catalog_model \<Rightarrow> model_pricing option" where
  "pricing_entry provider m =
     (if f64_ge (Fin 0) (mc_input (cm_cost m)) \<and> f64_ge (Fin 0) (mc_output (cm_cost m)) then None
      else Some
        \<lparr>mp_model = cm_id m, mp_provider = provider,
         mp_input = per_token (mc_input (cm_cost m)),
         mp_output = per_token (mc_output (cm_cost m)),
         mp_cached = priced (mc_cache_read (cm_cost m)),
         mp_cache_write = priced (mc_cache_write (cm_cost m)),
         mp_max_input = as_u32 (cm_limit_input m),
         mp_max_output = as_u32 (cm_limit_output m),
         mp_vision = (''image'' \<in> set (cm_inputs m)),
         mp_functions = cm_tool_call m\<rparr>)"

definition pricing_entries :: "catalog \<Rightarrow> model_pricing list" where
  "pricing_entries c =
     concat (map (\<lambda>(_, p). List.map_filter (pricing_entry (cp_id p)) (map snd (cp_models p))) c)"

subsection \<open>Loading\<close>

text \<open>
  \<open>cached\<close> is the cache file's content when it is readable and less than a day old. The second
  component is what is written to the cache file.
\<close>

definition load_catalog :: "catalog option \<Rightarrow> catalog option \<Rightarrow> catalog \<times> catalog option" where
  "load_catalog cached fetched =
     (case cached of
        Some c \<Rightarrow> (c, None)
      | None \<Rightarrow> (case fetched of Some c \<Rightarrow> (c, Some c) | None \<Rightarrow> ([], None)))"

definition refresh_catalog :: "catalog option \<Rightarrow> bool \<Rightarrow> catalog option \<times> catalog option" where
  "refresh_catalog fetched written =
     (case fetched of
        None \<Rightarrow> (None, None)
      | Some c \<Rightarrow> if written then (Some c, Some c) else (None, None))"

subsection \<open>Facts about the catalogue\<close>

lemma newest_first_set [simp]: "set (newest_first ms) = set ms"
  by (simp add: newest_first_def)

lemma newest_first_sorted: "sorted_wrt (\<lambda>a b. cm_release_date b \<le> cm_release_date a) (newest_first ms)"
  using sorted_sort_key [of cm_release_date "rev ms"]
  by (simp add: newest_first_def sorted_wrt_rev sorted_map)

lemma filter_sort_key: "filter (\<lambda>x. f x = k) (sort_key f xs) = filter (\<lambda>x. f x = k) xs"
  using sort_key_stable [of f k xs] by (simp add: eq_commute)

lemma newest_first_stable:
  "filter (\<lambda>m. cm_release_date m = d) (newest_first ms) = filter (\<lambda>m. cm_release_date m = d) ms"
  by (simp add: newest_first_def rev_filter [symmetric] filter_sort_key)

text \<open>What the catalogue offers for a provider without a list of its own are its models, newest first.\<close>

lemma models_for_provider_unlisted:
  "models_for_provider c provider [] = map to_shortlist_entry (catalog_models c provider)"
  by (simp add: models_for_provider_def catalog_models_def split: option.split)

text \<open>An entry taken from the catalogue has a window and an output limit, whatever was published.\<close>

lemma to_shortlist_entry_bounds: "sl_context (to_shortlist_entry m) > 0 \<and> sl_max_tokens (to_shortlist_entry m) > 0"
  by (simp add: to_shortlist_entry_def word_neq_0_conv)

definition cost_ok :: "f64 \<Rightarrow> bool" where
  "cost_ok v \<longleftrightarrow> (case v of Fin x \<Rightarrow> 0 \<le> x \<and> x \<le> pow2 800 | _ \<Rightarrow> False)"

definition model_cost_ok :: "cost_rates \<Rightarrow> bool" where
  "model_cost_ok c \<longleftrightarrow>
     cost_ok (mc_input c) \<and> cost_ok (mc_output c) \<and> cost_ok (mc_cache_read c) \<and> cost_ok (mc_cache_write c)"

lemma per_token_ok: "cost_ok v \<Longrightarrow> rate_ok (per_token v)"
  by (cases v) (auto simp: cost_ok_def per_token_def intro!: rate_round elim: order_trans [rotated])

lemma priced_ok: "cost_ok v \<Longrightarrow> pred_option amount_ok (priced v)"
  by (simp add: priced_def per_token_ok rate_amount)

lemma pricing_entry_ok: "model_cost_ok (cm_cost m) \<Longrightarrow> pricing_entry provider m = Some p \<Longrightarrow> pricing_ok p"
  by (auto simp: pricing_entry_def pricing_ok_def model_cost_ok_def per_token_ok priced_ok rate_amount
      split: if_splits)

lemma pricing_entries_ok:
  assumes "\<forall>(_, p) \<in> set c. \<forall>(_, m) \<in> set (cp_models p). model_cost_ok (cm_cost m)"
  shows "\<forall>p \<in> set (pricing_entries c). pricing_ok p"
  using assms by (fastforce simp: pricing_entries_def map_filter_def dest: pricing_entry_ok)

end
