(* ===== verification/Serving_Catalog.thy ===== *)
theory Serving_Catalog
  imports Model_Catalog Provider_Settings Policy Availability Key_Validation Upstream_Headers
begin

section \<open>The serving catalogue (src/src/api/serving_catalog.rs)\<close>

text \<open>
  The list of chat models that a key may use, from which its client chooses. The catalogue is read
  with the key alone: the key is looked up, the candidates are gathered from the file, the provider
  database and the public catalogue, and the key is looked up again, since other requests run while
  the database is read; what is offered is decided by the second look. Arguments are the databases,
  the clock at each look, and the length of the catalogue's JSON text.
\<close>

definition max_providers :: nat where "max_providers = 256"
definition max_models :: nat where "max_models = 4096"
definition max_bytes :: nat where "max_bytes = 4 * 1024 * 1024"

record serving_config =
  sv_settings :: provider_settings
  sv_models :: "shortlist_entry list"

text \<open>
  The providers of the file and those of the database with the models stored for each (\<open>None\<close> when
  that query fails).
\<close>

record serving_tables =
  st_file :: "(string \<times> serving_config) list"
  st_stored :: "(string \<times> serving_config option) list option"
  st_models :: "string \<Rightarrow> shortlist_entry list option"
  st_catalog :: "catalog option"

datatype catalog_failure = CatalogUnauthorized | CatalogUnavailable | CatalogTooLarge

definition failure_response :: "catalog_failure \<Rightarrow> nat \<times> string" where
  "failure_response f =
     (case f of
        CatalogUnauthorized \<Rightarrow> (401, ''catalog_unauthorized'')
      | CatalogUnavailable \<Rightarrow> (503, ''catalog_unavailable'')
      | CatalogTooLarge \<Rightarrow> (503, ''catalog_limit_exceeded''))"

text \<open>\<open>AppState::resolve_provider\<close>.\<close>

definition serving_resolve :: "serving_tables \<Rightarrow> string \<Rightarrow> (string \<times> serving_config) option" where
  "serving_resolve t name =
     (case config_resolve_provider (st_file t) name of
        Some found \<Rightarrow> Some found
      | None \<Rightarrow>
          (case Option.bind (st_stored t) (find (\<lambda>(k, _). eq_ignore_case k name)) of
             None \<Rightarrow> None
           | Some (k, decoded) \<Rightarrow>
               (case decoded of
                  None \<Rightarrow> None
                | Some c \<Rightarrow> if try_from_str (ps_type (sv_settings c)) = None then None else Some (k, c))))"

text \<open>When a key is looked up: the clock, and whether its database answers.\<close>

record moment =
  mo_now :: instant
  mo_db_ok :: bool

definition catalog_permissions ::
    "bool \<Rightarrow> (string \<Rightarrow> u8 list) \<Rightarrow> moment \<Rightarrow> string \<Rightarrow> key_store option \<Rightarrow>
     (catalog_failure + key_permissions) \<times> key_store option" where
  "catalog_permissions keys_enabled sha256 t token store =
     (if \<not> keys_enabled then (Inl CatalogUnavailable, store)
      else case store of
             None \<Rightarrow> (Inl CatalogUnavailable, None)
           | Some ks \<Rightarrow>
               if \<not> is_virtual_key token then (Inl CatalogUnauthorized, Some ks)
               else (case lookup_for_auth sha256 (mo_db_ok t) token ks of
                       (Inl _, ks') \<Rightarrow> (Inl CatalogUnavailable, Some ks')
                     | (Inr None, ks') \<Rightarrow> (Inl CatalogUnauthorized, Some ks')
                     | (Inr (Some key), ks') \<Rightarrow>
                         (if is_valid (mo_now t) key then Inr (permissions key) else Inl CatalogUnauthorized, Some ks')))"

subsection \<open>Formats and texts\<close>

definition completions_types :: "provider_type set" where
  "completions_types =
     {Mistral, Groq, Cerebras, XAI, OpenRouter, Bedrock, OpenAICompatible, OpenCode, OpenCodeGo, Mock}"

definition catalog_route :: "string \<Rightarrow> (string \<times> string) option" where
  "catalog_route type =
     Option.bind (try_from_str type) (\<lambda>t.
       if t \<in> {OpenAI, OpenAIResponses, Azure, GithubCopilot} then Some (''openai-responses'', ''/v1/responses'')
       else if t = OpenAICodex then Some (''openai-codex-responses'', ''/v1/responses'')
       else if t = Anthropic then Some (''anthropic-messages'', ''/v1/messages'')
       else if t \<in> completions_types then Some (''openai-completions'', ''/v1/chat/completions'')
       else None)"

definition route_for_api :: "string \<Rightarrow> (string \<times> string) option" where
  "route_for_api api =
     (if api = ''openai-completions'' then Some (''openai-completions'', ''/v1/chat/completions'')
      else if api = ''openai-responses'' then Some (''openai-responses'', ''/v1/responses'')
      else if api = ''anthropic-messages'' then Some (''anthropic-messages'', ''/v1/messages'')
      else None)"

definition serves_all_formats :: "string \<Rightarrow> bool" where
  "serves_all_formats type \<longleftrightarrow> try_from_str type \<in> {Some OpenCode, Some OpenCodeGo}"

definition public_text :: "nat \<Rightarrow> string \<Rightarrow> bool" where
  "public_text limit v \<longleftrightarrow> v \<noteq> [] \<and> length v \<le> limit \<and> \<not> has_control v"

definition id_byte :: "char \<Rightarrow> bool" where
  "id_byte c \<longleftrightarrow>
     (CHR ''a'' \<le> c \<and> c \<le> CHR ''z'') \<or> (CHR ''A'' \<le> c \<and> c \<le> CHR ''Z'') \<or> (CHR ''0'' \<le> c \<and> c \<le> CHR ''9'') \<or>
     c \<in> {CHR ''-'', CHR ''_'', CHR ''.''}"

definition catalog_provider_id :: "string \<Rightarrow> bool" where
  "catalog_provider_id v \<longleftrightarrow>
     public_text 128 v \<and> v \<notin> {''.'', ''..'', ''v1'', ''v1beta'', ''v1alpha''} \<and> list_all id_byte v"

definition estimate :: "cost_rates \<Rightarrow> cost_rates option" where
  "estimate c =
     (let rates = [mc_input c, mc_output c, mc_cache_read c, mc_cache_write c]
      in if list_all (\<lambda>v. f64_finite v \<and> f64_ge v (Fin 0)) rates \<and> list_ex (\<lambda>v. f64_gt v (Fin 0)) rates
         then Some c else None)"

definition compat_names :: "string list" where
  "compat_names =
     [''supportsStore'', ''supportsDeveloperRole'', ''supportsReasoningEffort'', ''supportsUsageInStreaming'',
      ''supportsStrictMode'', ''requiresToolResultName'', ''requiresAssistantAfterToolResult'',
      ''requiresThinkingAsText'', ''forceAdaptiveThinking'']"

definition tokens_field_ok :: "string \<Rightarrow> bool" where
  "tokens_field_ok v \<longleftrightarrow> v = ''max_tokens'' \<or> v = ''max_completion_tokens''"

definition model_compat :: "(string \<times> json) list \<Rightarrow> (string \<times> json) list" where
  "model_compat values =
     (let flags = foldl (\<lambda>m name.
            case Option.bind (map_of values name) as_bool of Some b \<Rightarrow> obj_insert name (JBool b) m | None \<Rightarrow> m)
            [] compat_names
      in case Option.bind (map_of values ''maxTokensField'') as_str of
           Some v \<Rightarrow> if tokens_field_ok v then obj_insert ''maxTokensField'' (JStr v) flags else flags
         | None \<Rightarrow> flags)"

definition add_field :: "string \<Rightarrow> json option \<Rightarrow> (string \<times> json) list \<Rightarrow> (string \<times> json) list" where
  "add_field name v m = (case v of Some j \<Rightarrow> obj_insert name j m | None \<Rightarrow> m)"

definition provider_compat_json :: "compat_settings \<Rightarrow> (string \<times> json) list option" where
  "provider_compat_json cs =
     (let m = add_field ''supports_stream_options'' (map_option JBool (cs_stream_options cs))
            (add_field ''max_tokens_field'' (map_option JStr (cs_max_tokens_field cs))
              (add_field ''supports_developer_role'' (map_option JBool (cs_developer_role cs))
                (add_field ''supports_store'' (map_option JBool (cs_store cs)) [])))
      in if m = [] then None else Some m)"

definition provider_compat :: "host \<Rightarrow> provider_settings \<Rightarrow> (string \<times> json) list option" where
  "provider_compat h ps =
     map_option (\<lambda>m.
       case Option.bind (map_of m ''max_tokens_field'') as_str of
         Some v \<Rightarrow> if tokens_field_ok v then m else filter (\<lambda>(k, _). k \<noteq> ''max_tokens_field'') m
       | None \<Rightarrow> filter (\<lambda>(k, _). k \<noteq> ''max_tokens_field'') m)
     (provider_compat_json (resolved_compat h ps))"

subsection \<open>Candidates\<close>

datatype metadata_source = OperatorDeclaration | CatalogCandidate

record candidate =
  ca_id :: string
  ca_config :: serving_config
  ca_models :: "shortlist_entry list"
  ca_source :: metadata_source

definition provider_names :: "serving_tables \<Rightarrow> string list" where
  "provider_names t =
     sorted_set (map fst (st_file t) @ (case st_stored t of Some entries \<Rightarrow> map fst entries | None \<Rightarrow> []))"

definition tool_text_models :: "catalog option \<Rightarrow> string \<Rightarrow> shortlist_entry list" where
  "tool_text_models catalog provider =
     (case catalog of
        None \<Rightarrow> []
      | Some c \<Rightarrow>
          map to_shortlist_entry
            (filter (\<lambda>m. cm_tool_call m \<and> ''text'' \<in> set (cm_outputs m)) (catalog_models c provider)))"

text \<open>
  The models of a provider and where they come from: the file's list, for a provider of the database
  the stored one if there is any, and without a list the public catalogue's tool-calling text models.
\<close>

definition declared_models :: "serving_tables \<Rightarrow> string \<Rightarrow> serving_config \<Rightarrow> catalog_failure + shortlist_entry list" where
  "declared_models t name c =
     (if config_resolve_provider (st_file t) name = None \<and> st_stored t \<noteq> None
      then case st_models t name of
             None \<Rightarrow> Inl CatalogUnavailable
           | Some stored \<Rightarrow> Inr (if stored \<noteq> [] then stored else sv_models c)
      else Inr (sv_models c))"

definition candidate_models ::
    "serving_tables \<Rightarrow> string \<Rightarrow> serving_config \<Rightarrow> catalog_failure + shortlist_entry list \<times> metadata_source" where
  "candidate_models t name c =
     (case declared_models t name c of
        Inl e \<Rightarrow> Inl e
      | Inr [] \<Rightarrow> Inr (tool_text_models (st_catalog t) (eavs_to_catalog_id name (ps_type (sv_settings c))), CatalogCandidate)
      | Inr ms \<Rightarrow> Inr (ms, OperatorDeclaration))"

text \<open>The loop over the names, with the lower-case ids seen and the number of models so far.\<close>

fun collect_names ::
    "serving_tables \<Rightarrow> string list \<Rightarrow> string list \<Rightarrow> nat \<Rightarrow> catalog_failure + candidate list" where
  "collect_names t [] seen count = Inr []"
| "collect_names t (name # names) seen count =
     (case serving_resolve t name of
        None \<Rightarrow> collect_names t names seen count
      | Some (cid, c) \<Rightarrow>
          if \<not> catalog_provider_id cid \<or> to_lower cid \<in> set seen then collect_names t names seen count
          else if catalog_route (ps_type (sv_settings c)) = None then collect_names t names (to_lower cid # seen) count
          else
            (case candidate_models t cid c of
               Inl e \<Rightarrow> Inl e
             | Inr (ms, source) \<Rightarrow>
                 if max_models < count + length ms then Inl CatalogTooLarge
                 else
                   (case collect_names t names (to_lower cid # seen) (count + length ms) of
                      Inl e \<Rightarrow> Inl e
                    | Inr rest \<Rightarrow>
                        Inr (\<lparr>ca_id = cid, ca_config = c, ca_models = ms, ca_source = source\<rparr> # rest))))"

definition collect_candidates :: "serving_tables \<Rightarrow> catalog_failure + candidate list" where
  "collect_candidates t =
     (if max_providers < length (provider_names t) then Inl CatalogTooLarge
      else collect_names t (provider_names t) [] 0)"

subsection \<open>What is offered\<close>

record serving_model =
  sm_id :: string
  sm_name :: string
  sm_reasoning :: bool
  sm_input :: "string list"
  sm_context :: u64
  sm_max_tokens :: u64
  sm_compat :: "(string \<times> json) list"
  sm_pricing :: "cost_rates option"
  sm_api :: "string option"
  sm_request_path :: "string option"
  sm_efforts :: "string list"

record serving_provider =
  sp_id :: string
  sp_api :: string
  sp_base_path :: string
  sp_request_path :: string
  sp_source :: metadata_source
  sp_compat :: "(string \<times> json) list option"
  sp_models :: "serving_model list"

text \<open>
  The gateway around a projection: the glob matcher of the keys and that of the policy's package, the
  policy, what was learned of models, and the deactivations with the clock when a model of a provider
  is looked at.
\<close>

record serving_world =
  sw_host :: host
  sw_key_glob :: "string \<Rightarrow> string \<Rightarrow> bool"
  sw_glob :: "string \<Rightarrow> string \<Rightarrow> bool"
  sw_policy :: policy_config
  sw_learned :: upstream_state
  sw_live :: "string \<Rightarrow> string \<Rightarrow> time \<times> availability"

text \<open>The route of a model with an API of its own.\<close>

definition model_route :: "candidate \<Rightarrow> string \<Rightarrow> shortlist_entry \<Rightarrow> (string \<times> string) option" where
  "model_route c api m =
     Option.bind
       (if ca_source c = OperatorDeclaration \<or> serves_all_formats (ps_type (sv_settings (ca_config c)))
        then sl_api m else None)
       (\<lambda>own. case route_for_api own of
          Some (model_api, path) \<Rightarrow> if model_api \<noteq> api then Some (model_api, path) else None
        | None \<Rightarrow> None)"

definition policy_keeps_model :: "serving_world \<Rightarrow> string \<Rightarrow> string \<Rightarrow> string \<Rightarrow> bool" where
  "policy_keeps_model w provider path model =
     (case policy_apply (sw_glob w) (sw_policy w) provider path (JObj [(''model'', JStr model)]) of
        Applied body \<Rightarrow> str_field body ''model'' = Some model
      | _ \<Rightarrow> False)"

definition deactivated_now :: "serving_world \<Rightarrow> string \<Rightarrow> string \<Rightarrow> bool" where
  "deactivated_now w provider model =
     (case sw_live w provider model of (now, av) \<Rightarrow> unavailable now provider model av \<noteq> None)"

definition serving_entry :: "serving_world \<Rightarrow> serving_tables \<Rightarrow> candidate \<Rightarrow> string \<Rightarrow> shortlist_entry \<Rightarrow> serving_model" where
  "serving_entry w t c api m =
     (let type = ps_type (sv_settings (ca_config c));
          entries = map entry_of (sv_models (ca_config c));
          efforts = reasoning_efforts_for (published_efforts (st_catalog t) type) (sw_learned w) entries (ca_id c) (sl_id m);
          compat = model_compat (sl_compat m)
      in \<lparr>sm_id = sl_id m,
          sm_name = (if public_text 512 (sl_name m) then sl_name m else sl_id m),
          sm_reasoning = sl_reasoning m,
          sm_input = filter text_or_image (sl_input m),
          sm_context = sl_context m,
          sm_max_tokens = sl_max_tokens m,
          sm_compat = (if requires_adaptive_thinking (sw_learned w) entries (ca_id c) (sl_id m)
                       then obj_insert ''forceAdaptiveThinking'' (JBool True) compat else compat),
          sm_pricing = estimate (sl_cost m),
          sm_api = map_option fst (model_route c api m),
          sm_request_path = map_option (\<lambda>(_, path). ''/'' @ ca_id c @ path) (model_route c api m),
          sm_efforts = (case efforts of Some es \<Rightarrow> es | None \<Rightarrow> [])\<rparr>)"

definition project_model ::
    "serving_world \<Rightarrow> serving_tables \<Rightarrow> key_permissions \<Rightarrow> candidate \<Rightarrow> string \<Rightarrow> string \<Rightarrow> shortlist_entry \<Rightarrow> serving_model option" where
  "project_model w t scope c api path m =
     (if \<not> public_text 512 (sl_id m) \<or> \<not> is_model_allowed (sw_key_glob w) scope (sl_id m) then None
      else if deactivated_now w (ca_id c) (sl_id m) then None
      else if \<not> policy_keeps_model w (ca_id c) (case model_route c api m of Some (_, p) \<Rightarrow> p | None \<Rightarrow> path) (sl_id m) then None
      else if ''text'' \<notin> set (filter text_or_image (sl_input m)) then None
      else Some (serving_entry w t c api m))"

definition projected_models ::
    "serving_world \<Rightarrow> serving_tables \<Rightarrow> key_permissions \<Rightarrow> candidate \<Rightarrow> string \<Rightarrow> string \<Rightarrow> serving_model list" where
  "projected_models w t scope c api path =
     map snd (foldl (\<lambda>ms m. obj_insert (sm_id m) m ms) []
       (List.map_filter (project_model w t scope c api path) (ca_models c)))"

definition project_candidate ::
    "serving_world \<Rightarrow> serving_tables \<Rightarrow> key_permissions \<Rightarrow> candidate \<Rightarrow> serving_provider option" where
  "project_candidate w t scope c =
     (if \<not> is_provider_allowed scope (ca_id c) then None
      else Option.bind (catalog_route (ps_type (sv_settings (ca_config c)))) (\<lambda>(api, path).
        let ms = projected_models w t scope c api path
        in if ms = [] then None
           else Some
             \<lparr>sp_id = ca_id c, sp_api = api, sp_base_path = ''/'' @ ca_id c @ ''/v1'',
              sp_request_path = ''/'' @ ca_id c @ path, sp_source = ca_source c,
              sp_compat = provider_compat (sw_host w) (sv_settings (ca_config c)), sp_models = ms\<rparr>))"

definition project :: "serving_world \<Rightarrow> serving_tables \<Rightarrow> key_permissions \<Rightarrow> candidate list \<Rightarrow> serving_provider list" where
  "project w t scope candidates = sort_key sp_id (List.map_filter (project_candidate w t scope) candidates)"

subsection \<open>Building the catalogue\<close>

text \<open>
  The key lookups happen at the moments \<open>t1\<close> and \<open>t2\<close>; \<open>meanwhile\<close> is what other requests do to the
  keys in between, and \<open>size\<close> the length of the JSON text, \<open>None\<close> if it cannot be written.
\<close>

record catalog_env =
  ce_keys_enabled :: bool
  ce_sha256 :: "string \<Rightarrow> u8 list"
  ce_t1 :: moment
  ce_t2 :: moment
  ce_meanwhile :: "key_store \<Rightarrow> key_store"
  ce_tables :: serving_tables
  ce_world :: serving_world
  ce_size :: "serving_provider list \<Rightarrow> nat option"

definition build_catalog ::
    "catalog_env \<Rightarrow> string \<Rightarrow> key_store option \<Rightarrow> (catalog_failure + serving_provider list) \<times> key_store option" where
  "build_catalog e token store =
     (case catalog_permissions (ce_keys_enabled e) (ce_sha256 e) (ce_t1 e) token store of
        (Inl f, st1) \<Rightarrow> (Inl f, st1)
      | (Inr _, st1) \<Rightarrow>
          (case collect_candidates (ce_tables e) of
             Inl f \<Rightarrow> (Inl f, st1)
           | Inr candidates \<Rightarrow>
               (case catalog_permissions (ce_keys_enabled e) (ce_sha256 e) (ce_t2 e) token
                       (map_option (ce_meanwhile e) st1) of
                  (Inl f, st2) \<Rightarrow> (Inl f, st2)
                | (Inr scope, st2) \<Rightarrow>
                    let providers = project (ce_world e) (ce_tables e) scope candidates
                    in (case ce_size e providers of
                          None \<Rightarrow> (Inl CatalogUnavailable, st2)
                        | Some n \<Rightarrow> (if max_bytes < n then Inl CatalogTooLarge else Inr providers, st2)))))"

definition catalog_handler ::
    "catalog_env \<Rightarrow> string option \<Rightarrow> key_store option \<Rightarrow> (nat \<times> string + serving_provider list) \<times> key_store option" where
  "catalog_handler e authorization store =
     (case Option.bind authorization (strip_prefix ''Bearer '') of
        None \<Rightarrow> (Inl (failure_response CatalogUnauthorized), store)
      | Some token \<Rightarrow>
          (case build_catalog e token store of
             (Inl f, st) \<Rightarrow> (Inl (failure_response f), st)
           | (Inr providers, st) \<Rightarrow> (Inr providers, st)))"

subsection \<open>What a catalogue contains\<close>

lemma auth_lookup_row:
  assumes "lookup_for_auth sha256 ok token ks = (Inr (Some key), ks')"
  obtains row where "rows ks (hash_key sha256 token) = Some (Some row)" "permissions key = permissions row"
    "\<And>now. is_valid now key = is_valid now row" "rows ks' = rows ks"
proof -
  from assms obtain row where r: "rows ks (hash_key sha256 token) = Some (Some row)" "rows ks' = rows ks"
    and k: "key = (case cache ks (hash_key sha256 token) of
      Some cached \<Rightarrow> row\<lparr>usage := usage cached\<rparr> | None \<Rightarrow> row)"
    by (auto simp: lookup_for_auth_def Let_def split: if_splits option.splits)
  have "permissions key = permissions row" "\<And>now. is_valid now key = is_valid now row"
    unfolding k by (auto simp: is_valid_def split: option.split)
  with r that show thesis by blast
qed

lemma catalog_permissions_row:
  assumes "catalog_permissions keys_enabled sha256 t token store = (Inr scope, store')"
  obtains ks row where "store = Some ks" "keys_enabled" "is_virtual_key token"
    "rows ks (hash_key sha256 token) = Some (Some row)" "is_valid (mo_now t) row" "scope = permissions row"
proof -
  from assms obtain ks key ks' where *: "store = Some ks" "keys_enabled" "is_virtual_key token"
    "lookup_for_auth sha256 (mo_db_ok t) token ks = (Inr (Some key), ks')" "is_valid (mo_now t) key"
    "scope = permissions key"
    by (auto simp: catalog_permissions_def split: if_splits option.splits prod.splits sum.splits)
  from auth_lookup_row [OF *(4)] * that show thesis by metis
qed

lemma build_catalog_cases:
  assumes "build_catalog e token store = (Inr providers, store')"
  obtains scope1 st1 scope candidates n where
    "catalog_permissions (ce_keys_enabled e) (ce_sha256 e) (ce_t1 e) token store = (Inr scope1, st1)"
    "collect_candidates (ce_tables e) = Inr candidates"
    "catalog_permissions (ce_keys_enabled e) (ce_sha256 e) (ce_t2 e) token (map_option (ce_meanwhile e) st1) = (Inr scope, store')"
    "providers = project (ce_world e) (ce_tables e) scope candidates"
    "ce_size e providers = Some n" "n \<le> max_bytes"
  using assms that by (auto simp: build_catalog_def Let_def split: prod.splits sum.splits option.splits if_splits)

lemma in_map_filter: "y \<in> set (List.map_filter f xs) \<longleftrightarrow> (\<exists>x \<in> set xs. f x = Some y)"
  by (force simp: map_filter_def)

lemma in_project:
  "p \<in> set (project w t scope cs) \<longleftrightarrow> (\<exists>c \<in> set cs. project_candidate w t scope c = Some p)"
  by (simp add: project_def in_map_filter)

lemma project_candidateE:
  assumes "project_candidate w t scope c = Some p"
  obtains path where "is_provider_allowed scope (sp_id p)" "sp_id p = ca_id c"
    "catalog_route (ps_type (sv_settings (ca_config c))) = Some (sp_api p, path)"
    "sp_models p = projected_models w t scope c (sp_api p) path" "sp_request_path p = ''/'' @ ca_id c @ path"
  using assms that by (auto simp: project_candidate_def Let_def bind_eq_Some_conv split: if_splits)

lemma set_obj_insert: "set (obj_insert k v m) \<subseteq> insert (k, v) (set m)"
  by (induction m) (auto split: if_splits)

lemma set_fold_by_id:
  "set (foldl (\<lambda>ms m. obj_insert (sm_id m) m ms) acc xs) \<subseteq> (\<lambda>m. (sm_id m, m)) ` set xs \<union> set acc"
proof (induction xs arbitrary: acc)
  case (Cons x xs)
  show ?case using Cons [of "obj_insert (sm_id x) x acc"] set_obj_insert [of "sm_id x" x acc] by auto
qed simp

lemma fold_by_id_sorted:
  "sorted_wrt (<) (map fst acc) \<Longrightarrow> sorted_wrt (<) (map fst (foldl (\<lambda>ms m. obj_insert (sm_id m) m ms) acc xs))"
  by (induction xs arbitrary: acc) (simp_all add: obj_insert_sorted)

lemma projected_models_in:
  assumes "m \<in> set (projected_models w t scope c api path)"
  shows "\<exists>x \<in> set (ca_models c). project_model w t scope c api path x = Some m"
proof -
  let ?xs = "List.map_filter (project_model w t scope c api path) (ca_models c)"
  have "m \<in> set ?xs" using assms set_fold_by_id [of "[]" ?xs] by (auto simp: projected_models_def)
  then show ?thesis by (simp add: in_map_filter)
qed

lemma projected_models_distinct: "distinct (map sm_id (projected_models w t scope c api path))"
proof -
  let ?r = "foldl (\<lambda>ms m. obj_insert (sm_id m) m ms) [] (List.map_filter (project_model w t scope c api path) (ca_models c))"
  have "sorted_wrt (<) (map fst ?r)" by (rule fold_by_id_sorted) simp
  then have "distinct (map fst ?r)" by (simp add: strict_sorted_iff)
  moreover have "sm_id (snd x) = fst x" if "x \<in> set ?r" for x
    using subsetD [OF set_fold_by_id that] by auto
  then have "map sm_id (map snd ?r) = map fst ?r" by simp
  ultimately show ?thesis unfolding projected_models_def by (simp only:)
qed

lemma project_modelE:
  assumes "project_model w t scope c api path x = Some m"
  obtains p where "is_model_allowed (sw_key_glob w) scope (sm_id m)" "\<not> deactivated_now w (ca_id c) (sm_id m)"
    "(case sm_request_path m of Some r \<Rightarrow> r | None \<Rightarrow> ''/'' @ ca_id c @ path) = ''/'' @ ca_id c @ p"
    "policy_keeps_model w (ca_id c) p (sm_id m)" "''text'' \<in> set (sm_input m)" "public_text 512 (sm_id m)"
proof
  let ?p = "case model_route c api x of Some (_, p) \<Rightarrow> p | None \<Rightarrow> path"
  show "(case sm_request_path m of Some r \<Rightarrow> r | None \<Rightarrow> ''/'' @ ca_id c @ path) = ''/'' @ ca_id c @ ?p"
    using assms by (auto simp: project_model_def serving_entry_def Let_def split: if_splits option.split)
qed (use assms in \<open>auto simp: project_model_def serving_entry_def Let_def split: if_splits\<close>)

lemma declared_or_catalog_count:
  "collect_names t names seen count = Inr cs \<Longrightarrow>
   (count \<le> max_models \<longrightarrow> count + sum_list (map (length \<circ> ca_models) cs) \<le> max_models) \<and>
   distinct (map (to_lower \<circ> ca_id) cs) \<and>
   (\<forall>c \<in> set cs. catalog_provider_id (ca_id c) \<and> to_lower (ca_id c) \<notin> set seen)"
proof (induction t names seen count arbitrary: cs rule: collect_names.induct)
  case (2 t name names seen count)
  show ?case
  proof (cases "serving_resolve t name")
    case None
    with 2 show ?thesis by simp
  next
    case (Some found)
    obtain cid c where f: "found = (cid, c)" by (cases found)
    consider (skip) "\<not> catalog_provider_id cid \<or> to_lower cid \<in> set seen"
      | (no_route) "\<not> (\<not> catalog_provider_id cid \<or> to_lower cid \<in> set seen)" "catalog_route (ps_type (sv_settings c)) = None"
      | (kept) "\<not> (\<not> catalog_provider_id cid \<or> to_lower cid \<in> set seen)" "catalog_route (ps_type (sv_settings c)) \<noteq> None"
      by blast
    then show ?thesis
    proof cases
      case skip
      with "2.IH"(2) [OF Some f [symmetric] skip] "2.prems" Some f show ?thesis by simp
    next
      case no_route
      with "2.IH"(3) [OF Some f [symmetric] no_route] "2.prems" Some f show ?thesis by simp
    next
      case kept
      with "2.prems" Some f obtain ms source rest where r: "candidate_models t cid c = Inr (ms, source)"
        "count + length ms \<le> max_models" "collect_names t names (to_lower cid # seen) (count + length ms) = Inr rest"
        "cs = \<lparr>ca_id = cid, ca_config = c, ca_models = ms, ca_source = source\<rparr> # rest"
        by (auto split: sum.splits if_splits)
      have "\<not> max_models < count + length ms" using r(2) by simp
      from "2.IH"(4) [OF Some f [symmetric] kept r(1) refl this r(3)] r kept show ?thesis by auto
    qed
  qed
qed simp

lemma project_ids:
  "distinct (map (to_lower \<circ> ca_id) cs) \<Longrightarrow>
   distinct (map (to_lower \<circ> sp_id) (List.map_filter (project_candidate w t scope) cs))"
proof (induction cs)
  case (Cons c cs)
  show ?case
  proof (cases "project_candidate w t scope c")
    case (Some p)
    then have "sp_id p = ca_id c" by (elim project_candidateE)
    moreover have "to_lower (ca_id c) \<noteq> to_lower (sp_id q)"
      if "q \<in> set (List.map_filter (project_candidate w t scope) cs)" for q
    proof -
      from that obtain d where "d \<in> set cs" "project_candidate w t scope d = Some q" by (auto simp: in_map_filter)
      then show ?thesis using Cons.prems by (auto elim!: project_candidateE)
    qed
    ultimately show ?thesis using Cons Some by (auto simp: map_filter_simps)
  qed (use Cons in \<open>simp add: map_filter_simps\<close>)
qed (simp add: map_filter_simps)

lemma projected_models_length: "length (projected_models w t scope c api path) \<le> length (ca_models c)"
proof -
  have "length (foldl (\<lambda>ms m. obj_insert (sm_id m) m ms) acc xs) \<le> length acc + length xs" for acc xs
  proof (induction xs arbitrary: acc)
    case (Cons x xs)
    have "length (obj_insert (sm_id x) x acc) \<le> Suc (length acc)" by (induction acc) auto
    with Cons [of "obj_insert (sm_id x) x acc"] show ?case by simp
  qed simp
  from this [of "[]"] have "length (projected_models w t scope c api path)
      \<le> length (List.map_filter (project_model w t scope c api path) (ca_models c))"
    by (simp add: projected_models_def)
  also have "\<dots> \<le> length (ca_models c)" by (simp add: map_filter_def)
  finally show ?thesis .
qed

lemma sum_list_sort_key: "sum_list (map g (sort_key f xs)) = (sum_list (map g xs) :: nat)"
proof (induction xs)
  case (Cons x xs)
  have "sum_list (map g (insort_key f x ys)) = g x + sum_list (map g ys)" for ys by (induction ys) auto
  with Cons show ?case by simp
qed simp

lemma project_count: "sum_list (map (length \<circ> sp_models) (project w t scope cs)) \<le> sum_list (map (length \<circ> ca_models) cs)"
proof -
  have "sum_list (map (length \<circ> sp_models) (List.map_filter (project_candidate w t scope) cs))
      \<le> sum_list (map (length \<circ> ca_models) cs)"
  proof (induction cs)
    case (Cons c cs)
    show ?case
    proof (cases "project_candidate w t scope c")
      case (Some p)
      then have "length (sp_models p) \<le> length (ca_models c)"
        by (elim project_candidateE) (simp add: projected_models_length)
      with Cons Some show ?thesis by (simp add: map_filter_simps)
    qed (use Cons in \<open>simp add: map_filter_simps\<close>)
  qed (simp add: map_filter_simps)
  then show ?thesis by (simp add: project_def sum_list_sort_key)
qed

lemma id_byte_slash: "\<not> id_byte (CHR ''/'')"
  by code_simp

lemma build_catalog_scope:
  assumes "build_catalog e token store = (Inr providers, store')"
    and "p \<in> set providers" and "m \<in> set (sp_models p)"
  shows "\<exists>ks row path.
    map_option (ce_meanwhile e)
      (snd (catalog_permissions (ce_keys_enabled e) (ce_sha256 e) (ce_t1 e) token store)) = Some ks \<and>
    rows ks (hash_key (ce_sha256 e) token) = Some (Some row) \<and> is_valid (mo_now (ce_t2 e)) row \<and>
    is_provider_allowed (permissions row) (sp_id p) \<and>
    is_model_allowed (sw_key_glob (ce_world e)) (permissions row) (sm_id m) \<and>
    \<not> deactivated_now (ce_world e) (sp_id p) (sm_id m) \<and>
    (case sm_request_path m of Some r \<Rightarrow> r | None \<Rightarrow> sp_request_path p) = ''/'' @ sp_id p @ path \<and>
    policy_keeps_model (ce_world e) (sp_id p) path (sm_id m)"
proof -
  from assms(1) obtain scope1 st1 scope candidates n where
    b: "catalog_permissions (ce_keys_enabled e) (ce_sha256 e) (ce_t1 e) token store = (Inr scope1, st1)"
      "catalog_permissions (ce_keys_enabled e) (ce_sha256 e) (ce_t2 e) token (map_option (ce_meanwhile e) st1) = (Inr scope, store')"
      "providers = project (ce_world e) (ce_tables e) scope candidates"
    by (rule build_catalog_cases)
  from b(2) obtain ks row where k: "map_option (ce_meanwhile e) st1 = Some ks"
    "rows ks (hash_key (ce_sha256 e) token) = Some (Some row)" "is_valid (mo_now (ce_t2 e)) row" "scope = permissions row"
    by (rule catalog_permissions_row)
  from assms(2) b(3) obtain c where c: "project_candidate (ce_world e) (ce_tables e) scope c = Some p"
    by (auto simp: in_project)
  then obtain path where p: "is_provider_allowed scope (sp_id p)" "sp_id p = ca_id c"
    "sp_models p = projected_models (ce_world e) (ce_tables e) scope c (sp_api p) path"
    "sp_request_path p = ''/'' @ ca_id c @ path"
    by (rule project_candidateE)
  from assms(3) p(3) obtain x where "project_model (ce_world e) (ce_tables e) scope c (sp_api p) path x = Some m"
    using projected_models_in by metis
  then obtain own where "is_model_allowed (sw_key_glob (ce_world e)) scope (sm_id m)"
    "\<not> deactivated_now (ce_world e) (ca_id c) (sm_id m)"
    "(case sm_request_path m of Some r \<Rightarrow> r | None \<Rightarrow> ''/'' @ ca_id c @ path) = ''/'' @ ca_id c @ own"
    "policy_keeps_model (ce_world e) (ca_id c) own (sm_id m)"
    by (rule project_modelE)
  then have "is_model_allowed (sw_key_glob (ce_world e)) (permissions row) (sm_id m)"
    "\<not> deactivated_now (ce_world e) (sp_id p) (sm_id m)"
    "(case sm_request_path m of Some r \<Rightarrow> r | None \<Rightarrow> sp_request_path p) = ''/'' @ sp_id p @ own"
    "policy_keeps_model (ce_world e) (sp_id p) own (sm_id m)"
    using p(2,4) k(4) by (simp_all split: option.splits)
  with b(1) k p(1) show ?thesis by auto
qed

lemma build_catalog_shape:
  assumes "build_catalog e token store = (Inr providers, store')"
  shows "sum_list (map (length \<circ> sp_models) providers) \<le> max_models \<and>
    (\<exists>n \<le> max_bytes. ce_size e providers = Some n) \<and>
    distinct (map (to_lower \<circ> sp_id) providers) \<and>
    (\<forall>p \<in> set providers. CHR ''/'' \<notin> set (sp_id p) \<and> distinct (map sm_id (sp_models p)))"
proof (intro conjI ballI)
  from assms obtain scope candidates n where
    b: "collect_candidates (ce_tables e) = Inr candidates"
      "providers = project (ce_world e) (ce_tables e) scope candidates"
      "ce_size e providers = Some n" "n \<le> max_bytes"
    by (rule build_catalog_cases)
  from b(1) have c: "sum_list (map (length \<circ> ca_models) candidates) \<le> max_models"
    "distinct (map (to_lower \<circ> ca_id) candidates)" "\<forall>c \<in> set candidates. catalog_provider_id (ca_id c)"
    using declared_or_catalog_count [of _ _ "[]" 0 candidates]
    by (force simp: collect_candidates_def split: if_splits)+
  show "sum_list (map (length \<circ> sp_models) providers) \<le> max_models"
    using project_count c(1) unfolding b(2) by (rule order_trans)
  show "\<exists>n \<le> max_bytes. ce_size e providers = Some n" using b(3,4) by blast
  have "distinct (map (to_lower \<circ> sp_id) (List.map_filter (project_candidate (ce_world e) (ce_tables e) scope) candidates))"
    using c(2) by (rule project_ids)
  then show "distinct (map (to_lower \<circ> sp_id) providers)"
    unfolding b(2) project_def by (simp add: distinct_map)
  fix p assume "p \<in> set providers"
  then obtain d where d: "d \<in> set candidates" "project_candidate (ce_world e) (ce_tables e) scope d = Some p"
    unfolding b(2) by (auto simp: in_project)
  from d(2) have "sp_id p = ca_id d" "distinct (map sm_id (sp_models p))"
    by (elim project_candidateE; simp add: projected_models_distinct)+
  with c(3) d(1) show "CHR ''/'' \<notin> set (sp_id p)" "distinct (map sm_id (sp_models p))"
    using id_byte_slash by (auto simp: catalog_provider_id_def list_all_iff)
qed


text \<open>
  Claim C2. Everything a catalogue offers is within the scope of its key at the second look: the database
  holds a valid row for it, whose permissions admit the provider and the model, the model is not
  deactivated when it is looked at, and the policy neither refuses it nor replaces it at the path that
  is published for it.
\<close>

theorem catalog_in_scope:
  assumes "build_catalog e token store = (Inr providers, store')"
    and "p \<in> set providers" and "m \<in> set (sp_models p)"
  shows "\<exists>ks row path.
    map_option (ce_meanwhile e)
      (snd (catalog_permissions (ce_keys_enabled e) (ce_sha256 e) (ce_t1 e) token store)) = Some ks \<and>
    rows ks (hash_key (ce_sha256 e) token) = Some (Some row) \<and> is_valid (mo_now (ce_t2 e)) row \<and>
    is_provider_allowed (permissions row) (sp_id p) \<and>
    is_model_allowed (sw_key_glob (ce_world e)) (permissions row) (sm_id m) \<and>
    \<not> deactivated_now (ce_world e) (sp_id p) (sm_id m) \<and>
    (case sm_request_path m of Some r \<Rightarrow> r | None \<Rightarrow> sp_request_path p) = ''/'' @ sp_id p @ path \<and>
    policy_keeps_model (ce_world e) (sp_id p) path (sm_id m)"
  using assms by (rule build_catalog_scope)

text \<open>
  A catalogue is bounded and unambiguous: it has at most 4096 models and its text at most four
  mebibytes, no two of its providers have the same id up to case, a provider id contains no slash,
  and no two models of a provider have the same id.
\<close>

theorem catalog_unambiguous:
  assumes "build_catalog e token store = (Inr providers, store')"
  shows "sum_list (map (length \<circ> sp_models) providers) \<le> max_models \<and>
    (\<exists>n \<le> max_bytes. ce_size e providers = Some n) \<and>
    distinct (map (to_lower \<circ> sp_id) providers) \<and>
    (\<forall>p \<in> set providers. CHR ''/'' \<notin> set (sp_id p) \<and> distinct (map sm_id (sp_models p)))"
  using assms by (rule build_catalog_shape)

text \<open>A gateway with one provider of two models, of which the operator has taken one out.\<close>

definition open_key :: virtual_key where
  "open_key = fresh_key\<lparr>permissions := key_permissions_default\<rparr>"

definition free_cost :: cost_rates where
  "free_cost = \<lparr>mc_input = Fin 0, mc_output = Fin 0, mc_cache_read = Fin 0, mc_cache_write = Fin 0\<rparr>"

definition listed :: "string \<Rightarrow> shortlist_entry" where
  "listed m = \<lparr>sl_id = m, sl_name = m, sl_reasoning = False, sl_input = [''text''], sl_context = 8000, sl_max_tokens = 1000,
     sl_cost = free_cost, sl_compat = [], sl_efforts = [], sl_api = None\<rparr>"

definition acme_settings :: provider_settings where
  "acme_settings = \<lparr>ps_type = ''openai'', ps_api_key = [], ps_base_url = ''https://acme.test'', ps_api_version = None,
     ps_compat = no_compat, ps_headers = [], ps_aws_region = [], ps_aws_service = [], ps_deployment = [],
     ps_gcp_project = [], ps_gcp_location = []\<rparr>"

definition acme_tables :: serving_tables where
  "acme_tables = \<lparr>st_file = [(''acme'', \<lparr>sv_settings = acme_settings, sv_models = [listed ''m2'', listed ''m1'']\<rparr>)],
     st_stored = None, st_models = (\<lambda>_. None), st_catalog = None\<rparr>"

definition m2_down :: availability where
  "m2_down = snd (deactivate True 0 ''acme'' [''m2''] None None ''operator'' (load (Some None)))"

definition acme_world :: serving_world where
  "acme_world = \<lparr>sw_host = \<lparr>env_var = (\<lambda>_. None), keychain = (\<lambda>_. None)\<rparr>, sw_key_glob = (=), sw_glob = (=),
     sw_policy = \<lparr>policy_enabled = False, policy_rules = []\<rparr>,
     sw_learned = \<lparr>us_efforts = learned_load True None, us_adaptive = learned_load True None\<rparr>,
     sw_live = (\<lambda>_ _. (5, m2_down))\<rparr>"

definition acme_env :: catalog_env where
  "acme_env = \<lparr>ce_keys_enabled = True, ce_sha256 = spent_digest, ce_t1 = \<lparr>mo_now = 5, mo_db_ok = True\<rparr>,
     ce_t2 = \<lparr>mo_now = 6, mo_db_ok = True\<rparr>, ce_meanwhile = (\<lambda>ks. ks), ce_tables = acme_tables, ce_world = acme_world,
     ce_size = (\<lambda>ps. Some (length ps))\<rparr>"

definition acme_m1 :: serving_model where
  "acme_m1 = \<lparr>sm_id = ''m1'', sm_name = ''m1'', sm_reasoning = False, sm_input = [''text''], sm_context = 8000,
     sm_max_tokens = 1000, sm_compat = [], sm_pricing = None, sm_api = None, sm_request_path = None, sm_efforts = []\<rparr>"

definition acme :: serving_provider where
  "acme = \<lparr>sp_id = ''acme'', sp_api = ''openai-responses'', sp_base_path = ''/acme/v1'',
     sp_request_path = ''/acme/v1/responses'', sp_source = OperatorDeclaration, sp_compat = None, sp_models = [acme_m1]\<rparr>"

definition acme_candidate :: candidate where
  "acme_candidate = \<lparr>ca_id = ''acme'', ca_config = \<lparr>sv_settings = acme_settings, sv_models = [listed ''m2'', listed ''m1'']\<rparr>,
     ca_models = [listed ''m2'', listed ''m1''], ca_source = OperatorDeclaration\<rparr>"

lemma acme_collect: "collect_candidates acme_tables = Inr [acme_candidate]"
proof -
  have r: "serving_resolve acme_tables ''acme'' = Some (''acme'', ca_config acme_candidate)" by code_simp
  have n: "provider_names acme_tables = [''acme'']" by code_simp
  have i: "catalog_provider_id ''acme''"
    by (simp add: catalog_provider_id_def public_text_def id_byte_def less_eq_char_def)
  have "catalog_route (ps_type (sv_settings (ca_config acme_candidate))) \<noteq> None" by code_simp
  moreover have "candidate_models acme_tables ''acme'' (ca_config acme_candidate)
      = Inr ([listed ''m2'', listed ''m1''], OperatorDeclaration)" by code_simp
  ultimately show ?thesis
    by (simp add: collect_candidates_def n r i max_providers_def max_models_def acme_candidate_def)
qed

lemma acme_project: "project acme_world acme_tables (permissions open_key) [acme_candidate] = [acme]"
  by code_simp

lemma acme_permissions:
  "\<exists>ks. catalog_permissions True spent_digest \<lparr>mo_now = 5, mo_db_ok = True\<rparr> long_token (Some (holding open_key))
     = (Inr (permissions open_key), Some ks) \<and>
     (\<exists>ks'. catalog_permissions True spent_digest \<lparr>mo_now = 6, mo_db_ok = True\<rparr> long_token (Some ks)
        = (Inr (permissions open_key), Some ks'))"
proof -
  let ?r = "catalog_permissions True spent_digest \<lparr>mo_now = 5, mo_db_ok = True\<rparr> long_token (Some (holding open_key))"
  have "fst ?r = Inr (permissions open_key) \<and> snd ?r \<noteq> None \<and>
    fst (catalog_permissions True spent_digest \<lparr>mo_now = 6, mo_db_ok = True\<rparr> long_token (snd ?r)) = Inr (permissions open_key) \<and>
    snd (catalog_permissions True spent_digest \<lparr>mo_now = 6, mo_db_ok = True\<rparr> long_token (snd ?r)) \<noteq> None"
    by code_simp
  then show ?thesis by (metis option.collapse prod.collapse)
qed

lemma acme_catalog: "\<exists>ks. build_catalog acme_env long_token (Some (holding open_key)) = (Inr [acme], Some ks)"
proof -
  obtain ks ks' where
    "catalog_permissions True spent_digest \<lparr>mo_now = 5, mo_db_ok = True\<rparr> long_token (Some (holding open_key))
       = (Inr (permissions open_key), Some ks)"
    "catalog_permissions True spent_digest \<lparr>mo_now = 6, mo_db_ok = True\<rparr> long_token (Some ks) = (Inr (permissions open_key), Some ks')"
    using acme_permissions by blast
  then show ?thesis
    by (simp add: build_catalog_def acme_env_def acme_collect acme_project max_bytes_def)
qed

lemma catalog_permissions_rows:
  "snd (catalog_permissions enabled sha256 t token (Some ks)) = Some ks' \<Longrightarrow> rows ks' = rows ks"
  by (auto simp: catalog_permissions_def lookup_for_auth_def Let_def split: if_splits option.splits)

theorem catalog_in_scope_witness:
  "\<exists>row. rows (holding open_key) [] = Some (Some row) \<and> is_provider_allowed (permissions row) ''acme'' \<and>
     is_model_allowed (=) (permissions row) ''m1'' \<and> \<not> deactivated_now acme_world ''acme'' ''m1''"
proof -
  obtain store' where b: "build_catalog acme_env long_token (Some (holding open_key)) = (Inr [acme], store')"
    using acme_catalog by blast
  have hash: "hash_key spent_digest long_token = []" by code_simp
  have env: "ce_sha256 acme_env = spent_digest" "ce_world acme_env = acme_world" "ce_meanwhile acme_env = (\<lambda>ks. ks)"
    "sw_key_glob acme_world = (=)" "ce_keys_enabled acme_env"
    by (simp_all add: acme_env_def acme_world_def)
  have m: "acme_m1 \<in> set (sp_models acme)" "sp_id acme = ''acme''" "sm_id acme_m1 = ''m1''"
    by (simp_all add: acme_def acme_m1_def)
  from catalog_in_scope [OF b _ m(1)] m show ?thesis
    by (auto simp: env hash dest!: catalog_permissions_rows)
qed

theorem catalog_unambiguous_witness:
  "distinct (map sm_id (sp_models acme)) \<and> CHR ''/'' \<notin> set (sp_id acme) \<and> length (sp_models acme) \<le> max_models"
proof -
  obtain store' where b: "build_catalog acme_env long_token (Some (holding open_key)) = (Inr [acme], store')"
    using acme_catalog by blast
  from catalog_unambiguous [OF b] show ?thesis by simp
qed

text \<open>The look-up is the one of the routing component, on what that reads of a configuration.\<close>

definition routing_config :: "serving_config \<Rightarrow> provider_config" where
  "routing_config c = \<lparr>pc_type = ps_type (sv_settings c), pc_models = map entry_of (sv_models c)\<rparr>"

definition routing_tables :: "serving_tables \<Rightarrow> provider_tables" where
  "routing_tables t =
     \<lparr>file_providers = map (map_prod (\<lambda>k. k) routing_config) (st_file t),
      stored_providers = map_option (map (map_prod (\<lambda>k. k) (map_option routing_config))) (st_stored t)\<rparr>"

lemma find_map_prod:
  "find (\<lambda>(k, _). P k) (map (map_prod (\<lambda>k. k) g) xs) = map_option (map_prod (\<lambda>k. k) g) (find (\<lambda>(k, _). P k) xs)"
  by (induction xs) auto

lemma map_of_map_prod: "map_of (map (map_prod (\<lambda>k. k) g) xs) k = map_option g (map_of xs k)"
  by (induction xs) auto

lemma config_resolve_routing:
  "config_resolve_provider (map (map_prod (\<lambda>k. k) g) xs) name = map_option (map_prod (\<lambda>k. k) g) (config_resolve_provider xs name)"
  by (auto simp: config_resolve_provider_def find_map_prod map_of_map_prod option.map_comp comp_def split: option.split)

lemma serving_resolve_routing:
  "resolve_provider (routing_tables t) name = map_option (map_prod (\<lambda>k. k) routing_config) (serving_resolve t name)"
  by (cases "st_stored t")
    (auto simp: resolve_provider_def serving_resolve_def routing_tables_def config_resolve_routing find_map_prod
      routing_config_def split: option.split)

text \<open>A key that is revoked while the inventories are read gets nothing.\<close>

lemma revoked_meanwhile:
  assumes "rows (ce_meanwhile e ks) (hash_key (ce_sha256 e) token) = None"
    and "snd (catalog_permissions (ce_keys_enabled e) (ce_sha256 e) (ce_t1 e) token store) = Some ks"
  shows "\<exists>f. fst (build_catalog e token store) = Inl f"
proof (rule ccontr)
  assume "\<nexists>f. fst (build_catalog e token store) = Inl f"
  then obtain providers where "fst (build_catalog e token store) = Inr providers"
    by (cases "fst (build_catalog e token store)") auto
  then have b: "build_catalog e token store = (Inr providers, snd (build_catalog e token store))"
    by (metis prod.collapse)
  from b obtain scope1 st1 scope where
    "catalog_permissions (ce_keys_enabled e) (ce_sha256 e) (ce_t1 e) token store = (Inr scope1, st1)"
    "catalog_permissions (ce_keys_enabled e) (ce_sha256 e) (ce_t2 e) token (map_option (ce_meanwhile e) st1)
       = (Inr scope, snd (build_catalog e token store))"
    by (rule build_catalog_cases)
  with assms show False by (auto elim!: catalog_permissions_row)
qed

end
