(* ===== verification/Inference_Ingress.thy ===== *)
theory Inference_Ingress
  imports Serving_Catalog Pools Proxy_Admission Network_Acl
begin

section \<open>The inference ingress (src/src/inference_ingress.rs, inference_routes.rs, cors.rs)\<close>

text \<open>
  A listener of its own for ordinary keys, which the operator's credentials do not open. It
  authenticates, takes from a request everything by which a caller could choose a route or a
  credential, resolves the public name of a model in the serving catalogue, and hands the request to a
  pool or to the proxy handler. Arguments are JSON, the HTTP package's test of header values, the URL
  parser, and what other requests do to the keys while this one waits.
\<close>

subsection \<open>The address of the listener\<close>

definition read_number :: "nat \<Rightarrow> string \<Rightarrow> (nat \<times> string) option" where
  "read_number bound s =
     (case span_digits dec_digit s of (ns, r) \<Rightarrow>
        if ns = [] \<or> bound < digits_value 10 ns then None else Some (digits_value 10 ns, r))"

definition read_port :: "string \<Rightarrow> (u16 \<times> string) option" where
  "read_port s = Option.bind (read_char (CHR '':'') s) (\<lambda>r. map_option (map_prod of_nat (\<lambda>t. t)) (read_number 65535 r))"

definition read_socket_v4 :: "string \<Rightarrow> (socket_addr \<times> string) option" where
  "read_socket_v4 s =
     Option.bind (read_octets 0 4 s) (\<lambda>(os, r).
     map_option (\<lambda>(port, r'). (\<lparr>sa_ip = V4 (os ! 0) (os ! 1) (os ! 2) (os ! 3), sa_port = port\<rparr>, r')) (read_port r))"

definition skip_scope_id :: "string \<Rightarrow> string" where
  "skip_scope_id s =
     (case Option.bind (read_char (CHR ''%'') s) (read_number 4294967295) of Some (_, r) \<Rightarrow> r | None \<Rightarrow> s)"

definition read_socket_v6 :: "string \<Rightarrow> (socket_addr \<times> string) option" where
  "read_socket_v6 s =
     Option.bind (read_char (CHR ''['') s) (\<lambda>r1.
     Option.bind (read_ipv6 r1) (\<lambda>(ip, r2).
     Option.bind (read_char (CHR '']'') (skip_scope_id r2)) (\<lambda>r3.
     map_option (\<lambda>(port, r'). (\<lparr>sa_ip = ip, sa_port = port\<rparr>, r')) (read_port r3))))"

text \<open>\<open>SocketAddr::from_str\<close>.\<close>

definition parse_socket_addr :: "string \<Rightarrow> socket_addr option" where
  "parse_socket_addr s =
     (case (case read_socket_v4 s of Some a \<Rightarrow> Some a | None \<Rightarrow> read_socket_v6 s) of
        Some (a, []) \<Rightarrow> Some a
      | _ \<Rightarrow> None)"

fun is_loopback :: "ip_addr \<Rightarrow> bool" where
  "is_loopback (V4 a b c d) = (a = 127)"
| "is_loopback (V6 a b c d e f g h) = (V6 a b c d e f g h = V6 0 0 0 0 0 0 0 1)"

definition ingress_address :: "string option \<Rightarrow> string + socket_addr option" where
  "ingress_address listen =
     (case listen of
        None \<Rightarrow> Inr None
      | Some value \<Rightarrow>
          (case parse_socket_addr value of
             None \<Rightarrow> Inl ''inference.listen requires loopback IP:port''
           | Some a \<Rightarrow>
               if \<not> is_loopback (sa_ip a) \<or> sa_port a = 0
               then Inl ''inference.listen requires nonzero loopback IP:port'' else Inr (Some a)))"

subsection \<open>Origins of browsers\<close>

text \<open>What the URL parser says of an origin: its scheme, whether it has a host, and its origin written out.\<close>

record parsed_origin =
  po_scheme :: string
  po_has_host :: bool
  po_origin :: string

definition cors_origin :: "(string \<Rightarrow> parsed_origin option) \<Rightarrow> (string \<Rightarrow> bool) \<Rightarrow> string \<Rightarrow> string + string" where
  "cors_origin url value_ok origin =
     (case url origin of
        None \<Rightarrow> Inl ''Invalid server.cors_allowed_origins''
      | Some u \<Rightarrow>
          if CHR ''*'' \<in> set origin \<or> po_scheme u \<notin> {''http'', ''https''} \<or> \<not> po_has_host u \<or> po_origin u \<noteq> origin
          then Inl ''server.cors_allowed_origins must contain exact HTTP(S) origins without paths''
          else if value_ok origin then Inr origin else Inl ''Invalid CORS origin header'')"

fun cors_origins :: "(string \<Rightarrow> parsed_origin option) \<Rightarrow> (string \<Rightarrow> bool) \<Rightarrow> string list \<Rightarrow> string + string list" where
  "cors_origins url value_ok [] = Inr []"
| "cors_origins url value_ok (x # xs) =
     (case cors_origin url value_ok x of
        Inl e \<Rightarrow> Inl e
      | Inr allowed \<Rightarrow> (case cors_origins url value_ok xs of Inl e \<Rightarrow> Inl e | Inr rest \<Rightarrow> Inr (allowed # rest)))"

record ingress_config =
  ic_listen :: "string option"
  ic_origins :: "string list"

text \<open>The conditions under which the router is built, and its allowed origins.\<close>

definition ingress_router ::
    "bool \<Rightarrow> bool \<Rightarrow> bool \<Rightarrow> (string \<Rightarrow> parsed_origin option) \<Rightarrow> (string \<Rightarrow> bool) \<Rightarrow> ingress_config \<Rightarrow> string + string list" where
  "ingress_router keys_enabled has_store has_validator url value_ok c =
     (if \<not> keys_enabled \<or> \<not> has_store \<or> \<not> has_validator
      then Inl ''Inference ingress requires enabled initialized KeyStore and validator''
      else case ingress_address (ic_listen c) of
             Inl e \<Rightarrow> Inl e
           | Inr _ \<Rightarrow> cors_origins url value_ok (ic_origins c))"

subsection \<open>Routes\<close>

definition route_api_path :: "string \<Rightarrow> string" where
  "route_api_path path =
     (if starts_with ''/v1/'' path \<or> starts_with ''/v2/'' path then path
      else case strip_prefix ''/'' path of
             None \<Rightarrow> []
           | Some p \<Rightarrow> dropWhile (\<lambda>c. c \<noteq> CHR ''/'') p)"

definition chat_paths :: "string list" where
  "chat_paths =
     [''/v1/models'', ''/v1/chat/completions'', ''/v1/completions'', ''/v1/messages'', ''/v1/v1/messages'',
      ''/v1/messages/count_tokens'', ''/v1/v1/messages/count_tokens'', ''/v1/complete'', ''/v1/responses'',
      ''/v1/pi/messages'']"

definition google_action :: "string \<Rightarrow> bool" where
  "google_action path \<longleftrightarrow>
     google_model_from_path path \<noteq> None \<and>
     list_ex (\<lambda>action. ends_with action path) ['':generateContent'', '':streamGenerateContent'', '':countTokens'']"

text \<open>The gate in front of the general routes: anything else is an unknown endpoint.\<close>

definition inference_path_only :: "string \<Rightarrow> bool" where
  "inference_path_only uri_path =
     (let path = route_api_path uri_path
      in is_inference_path path \<or> path \<in> set chat_paths \<or> starts_with ''/v1/models/'' path \<or> google_action path)"

subsection \<open>Authentication\<close>

definition visible_text :: "string \<Rightarrow> bool" where
  "visible_text v = list_all (\<lambda>c. c = CHR 0x09 \<or> (CHR '' '' \<le> c \<and> c \<le> CHR ''~'')) v"

text \<open>A header value read as text.\<close>

definition text_header :: "string \<Rightarrow> headers \<Rightarrow> string option" where
  "text_header n hs = Option.bind (get_header n hs) (\<lambda>v. if visible_text v then Some v else None)"

definition ingress_token :: "headers \<Rightarrow> string option" where
  "ingress_token hs =
     (if get_header ''x-eavs-token'' hs \<noteq> None then None
      else case (Option.bind (text_header ''authorization'' hs) (strip_prefix ''Bearer ''), text_header ''x-api-key'' hs) of
             (Some a, Some b) \<Rightarrow> if a = b then Some a else None
           | (Some a, None) \<Rightarrow> Some a
           | (None, Some b) \<Rightarrow> if get_header ''authorization'' hs = None then Some b else None
           | _ \<Rightarrow> None)"

record ingress =
  ig_env :: catalog_env
  ig_forbidden :: "string list"
  ig_value_ok :: "string \<Rightarrow> bool"
  ig_max_body :: nat
  ig_pools :: bool
  ig_parse :: "string \<Rightarrow> json option"
  ig_render :: "json \<Rightarrow> string option"

definition ingress_sha256 :: "ingress \<Rightarrow> string \<Rightarrow> u8 list" where
  "ingress_sha256 ig = ce_sha256 (ig_env ig)"

definition not_enrollment :: "virtual_key \<Rightarrow> bool" where
  "not_enrollment key \<longleftrightarrow> str_field (metadata key) ''kind'' \<noteq> Some ''device_enrollment''"

definition authenticate_ingress ::
    "ingress \<Rightarrow> moment \<Rightarrow> headers \<Rightarrow> key_store option \<Rightarrow> virtual_key option \<times> key_store option" where
  "authenticate_ingress ig t hs store =
     (case ingress_token hs of
        None \<Rightarrow> (None, store)
      | Some token \<Rightarrow>
          if hash_key (ingress_sha256 ig) token \<in> set (ig_forbidden ig) \<or> \<not> is_virtual_key token then (None, store)
          else case store of
                 None \<Rightarrow> (None, None)
               | Some ks \<Rightarrow>
                   (case lookup_for_auth (ingress_sha256 ig) (mo_db_ok t) token ks of
                      (Inr (Some key), ks') \<Rightarrow>
                        (if is_valid (mo_now t) key \<and> not_enrollment key then Some key else None, Some ks')
                    | (_, ks') \<Rightarrow> (None, Some ks')))"

text \<open>The text whose hash stands for a caller's idempotency key.\<close>

definition idempotency_text :: "string \<Rightarrow> string \<Rightarrow> string" where
  "idempotency_text owner_hash v =
     ''eavs-inference-idempotency-v1'' @ [CHR 0x00] @ owner_hash @ [CHR 0x00] @ v"

definition semantic_headers :: "ingress \<Rightarrow> string \<Rightarrow> headers \<Rightarrow> headers" where
  "semantic_headers ig owner_hash hs =
     (let h1 = (case get_header ''idempotency-key'' hs of
                  None \<Rightarrow> []
                | Some v \<Rightarrow>
                    let hashed = ''eavs-'' @ hex_encode (ingress_sha256 ig (idempotency_text owner_hash v))
                    in if ig_value_ok ig hashed then set_header ''idempotency-key'' hashed [] else [])
      in case get_header ''x-client-request-id'' hs of
           Some v \<Rightarrow> set_header ''x-client-request-id'' v h1
         | None \<Rightarrow> h1)"

text \<open>A request, with the headers for the provider and the body limit that the ingress attaches to it.\<close>

record ingress_request =
  iq_method :: string
  iq_path :: string
  iq_headers :: headers
  iq_body :: "string option"
  iq_native :: "headers option"
  iq_limit :: "nat option"

definition public_body_limit :: "ingress \<Rightarrow> nat" where
  "public_body_limit ig = (if ig_max_body ig = 0 then 10 * 1024 * 1024 else ig_max_body ig)"

definition metadata_request :: "ingress_request \<Rightarrow> bool" where
  "metadata_request q =
     (let path = route_api_path (iq_path q)
      in (iq_method q = ''GET'' \<or> iq_method q = ''HEAD'') \<and>
         (path \<in> {''/v1/models'', ''/v1/eavs/catalog'', ''/v1/eavs/pools''} \<or> starts_with ''/v1/models/'' path))"

definition lifecycle_request :: "ingress_request \<Rightarrow> bool" where
  "lifecycle_request q =
     (let path = route_api_path (iq_path q)
      in starts_with ''/v1/eavs/jobs/'' path \<and>
         (iq_method q = ''GET'' \<or> (iq_method q = ''POST'' \<and> ends_with ''/cancel'' path)))"

definition capped :: "key_permissions \<Rightarrow> bool" where
  "capped perms \<longleftrightarrow> max_budget_usd perms \<noteq> None \<or> tpm_limit perms \<noteq> None"

definition ingress_auth ::
    "ingress \<Rightarrow> moment \<Rightarrow> ingress_request \<Rightarrow> key_store option \<Rightarrow> (nat \<times> string + ingress_request) \<times> key_store option" where
  "ingress_auth ig t q store =
     (case authenticate_ingress ig t (iq_headers q) store of
        (None, store') \<Rightarrow> (Inl (401, ''invalid_api_key''), store')
      | (Some key, store') \<Rightarrow>
          (if \<not> metadata_request q \<and> \<not> lifecycle_request q \<and> capped (permissions key)
           then Inl (403, ''durable_accounting_required'')
           else case ingress_token (iq_headers q) of
                  None \<Rightarrow> Inl (401, ''invalid_api_key'')
                | Some token \<Rightarrow>
                    if \<not> ig_value_ok ig (''Bearer '' @ token) then Inl (401, ''invalid_api_key'')
                    else Inr (q\<lparr>iq_headers := remove_header ''x-api-key''
                                  (set_header ''authorization'' (''Bearer '' @ token) (iq_headers q)),
                                iq_native := Some (semantic_headers ig (key_hash key) (iq_headers q)),
                                iq_limit := Some (public_body_limit ig)\<rparr>),
           store'))"

text \<open>Nothing that the ingress answers may be kept by a cache.\<close>

definition private_response :: "response \<Rightarrow> response" where
  "private_response r =
     r\<lparr>rs_headers := append_header ''vary'' ''Authorization, X-Api-Key''
         (set_header ''cache-control'' ''private, no-store'' (rs_headers r))\<rparr>"

subsection \<open>Models and their public names\<close>

definition public_id :: "string \<Rightarrow> string \<Rightarrow> string" where
  "public_id provider model = provider @ ''/'' @ model"

definition supports :: "serving_provider \<Rightarrow> string \<Rightarrow> bool" where
  "supports p path \<longleftrightarrow>
     (if sp_api p = ''anthropic-messages'' then path = ''/v1/messages''
      else if sp_api p = ''openai-completions'' then path = ''/v1/chat/completions''
      else if sp_api p = ''openai-responses'' then path = ''/v1/chat/completions'' \<or> path = ''/v1/responses''
      else False)"

definition catalog_error :: "catalog_failure \<Rightarrow> nat \<times> string" where
  "catalog_error f =
     (case f of CatalogUnauthorized \<Rightarrow> (401, ''invalid_api_key'') | _ \<Rightarrow> (503, ''catalog_unavailable''))"

definition chat_path_list :: "string list" where
  "chat_path_list = [''/v1/chat/completions'', ''/v1/messages'', ''/v1/responses'']"

text \<open>The model list: public id, owner and API of each model.\<close>

definition listed_models :: "serving_provider list \<Rightarrow> (string \<times> string \<times> string) list" where
  "listed_models providers =
     concat (map (\<lambda>p. map (\<lambda>m. (public_id (sp_id p) (sm_id m), sp_id p, sp_api p)) (sp_models p))
       (filter (\<lambda>p. list_ex (supports p) chat_path_list) providers))"

definition ingress_models ::
    "ingress \<Rightarrow> headers \<Rightarrow> key_store option \<Rightarrow> (nat \<times> string + (string \<times> string \<times> string) list) \<times> key_store option" where
  "ingress_models ig hs store =
     (case ingress_token hs of
        None \<Rightarrow> (Inl (401, ''invalid_api_key''), store)
      | Some token \<Rightarrow>
          (case build_catalog (ig_env ig) token store of
             (Inl f, st) \<Rightarrow> (Inl (catalog_error f), st)
           | (Inr providers, st) \<Rightarrow> (Inr (listed_models providers), st)))"

definition select_route :: "serving_provider list \<Rightarrow> string \<Rightarrow> string \<Rightarrow> (string \<times> string) option" where
  "select_route providers path model_id =
     find_map (\<lambda>p. map_option (\<lambda>m. (sp_id p, sm_id m)) (find (\<lambda>m. public_id (sp_id p) (sm_id m) = model_id) (sp_models p)))
       (filter (\<lambda>p. supports p path) providers)"

subsection \<open>Forwarding\<close>

definition dropped_headers :: "string list" where
  "dropped_headers =
     [''x-provider'', ''x-original-host'', ''x-api-key'', ''x-eavs-token'', ''content-length'', ''content-encoding'']"

definition drop_headers :: "headers \<Rightarrow> headers" where
  "drop_headers hs = foldl (\<lambda>hs n. remove_header n hs) hs dropped_headers"

text \<open>The headers of the forwarded request and those for the provider, or the rejection.\<close>

definition prepare_forward ::
    "ingress \<Rightarrow> string \<Rightarrow> virtual_key \<Rightarrow> string option \<Rightarrow> headers \<Rightarrow> nat \<times> string + headers \<times> headers" where
  "prepare_forward ig token key provider hs =
     (if capped (permissions key) then Inl (403, ''durable_accounting_required'')
      else if \<not> ig_value_ok ig (''Bearer '' @ token) then Inl (401, ''invalid_api_key'')
      else
        let h1 = set_header ''authorization'' (''Bearer '' @ token) (drop_headers hs)
        in case (case provider of
                   None \<Rightarrow> Some h1
                 | Some p \<Rightarrow> if ig_value_ok ig p then Some (set_header ''x-provider'' p h1) else None) of
             None \<Rightarrow> Inl (503, ''catalog_unavailable'')
           | Some h2 \<Rightarrow>
               let h3 = set_header ''content-type'' ''application/json'' h2
               in Inr (h3, semantic_headers ig (key_hash key) h3))"

text \<open>What the ingress does with an inference request: refuse it, or pass it on with a body.\<close>

datatype ingress_outcome =
    IngressError "nat \<times> string"
  | ToPool ingress_request string
  | ToNative ingress_request string

definition forwarded :: "ingress_request \<Rightarrow> headers \<times> headers \<Rightarrow> ingress_request" where
  "forwarded q hs = q\<lparr>iq_headers := fst hs, iq_native := Some (snd hs)\<rparr>"

text \<open>The body within the public limit, as JSON with the model it asks for.\<close>

definition read_inference :: "ingress \<Rightarrow> ingress_request \<Rightarrow> nat \<times> string + string \<times> json \<times> string" where
  "read_inference ig q =
     (case iq_body q of
        None \<Rightarrow> Inl (413, ''request_too_large'')
      | Some bytes \<Rightarrow>
          if public_body_limit ig < length bytes then Inl (413, ''request_too_large'')
          else case ig_parse ig bytes of
                 None \<Rightarrow> Inl (400, ''invalid_json'')
               | Some v \<Rightarrow>
                   (case str_field v ''model'' of
                      None \<Rightarrow> Inl (400, ''model_required'')
                    | Some model \<Rightarrow> Inr (bytes, v, model)))"

definition pool_inference ::
    "ingress \<Rightarrow> moment \<Rightarrow> string \<Rightarrow> ingress_request \<Rightarrow> string \<Rightarrow> key_store option \<Rightarrow> ingress_outcome \<times> key_store option" where
  "pool_inference ig t token q bytes store =
     (case authenticate_ingress ig t (iq_headers q) store of
        (None, st) \<Rightarrow> (IngressError (401, ''invalid_api_key''), st)
      | (Some key, st) \<Rightarrow>
          (case prepare_forward ig token key None (iq_headers q) of
             Inl e \<Rightarrow> IngressError e
           | Inr hs \<Rightarrow> ToPool (forwarded q hs) bytes, st))"

definition catalog_inference ::
    "ingress \<Rightarrow> moment \<Rightarrow> (key_store \<Rightarrow> key_store) \<Rightarrow> string \<Rightarrow> ingress_request \<Rightarrow> json \<Rightarrow> string \<Rightarrow> key_store option \<Rightarrow>
     ingress_outcome \<times> key_store option" where
  "catalog_inference ig t later token q v model_id store =
     (case build_catalog (ig_env ig) token store of
        (Inl f, st) \<Rightarrow> (IngressError (catalog_error f), st)
      | (Inr providers, st) \<Rightarrow>
          (case select_route providers (iq_path q) model_id of
             None \<Rightarrow> (IngressError (403, ''model_not_allowed''), st)
           | Some (provider, model) \<Rightarrow>
               (case authenticate_ingress ig t (iq_headers q) (map_option later st) of
                  (None, st') \<Rightarrow> (IngressError (401, ''invalid_api_key''), st')
                | (Some key, st') \<Rightarrow>
                    (case prepare_forward ig token key (Some provider) (iq_headers q) of
                       Inl e \<Rightarrow> IngressError e
                     | Inr hs \<Rightarrow>
                         (case Option.bind (index_set v ''model'' (JStr model)) (ig_render ig) of
                            None \<Rightarrow> IngressError (400, ''invalid_json'')
                          | Some body \<Rightarrow> ToNative (forwarded q hs) body), st'))))"

definition ingress_inference ::
    "ingress \<Rightarrow> moment \<Rightarrow> (key_store \<Rightarrow> key_store) \<Rightarrow> ingress_request \<Rightarrow> key_store option \<Rightarrow>
     ingress_outcome \<times> key_store option" where
  "ingress_inference ig t later q store =
     (case ingress_token (iq_headers q) of
        None \<Rightarrow> (IngressError (401, ''invalid_api_key''), store)
      | Some token \<Rightarrow>
          (case read_inference ig q of
             Inl e \<Rightarrow> (IngressError e, store)
           | Inr (bytes, v, model_id) \<Rightarrow>
               if requested None model_id \<noteq> None \<and> ig_pools ig then pool_inference ig t token q bytes store
               else catalog_inference ig t later token q v model_id store))"

subsection \<open>Public names are unambiguous\<close>

lemma public_id_inject:
  assumes "public_id p m = public_id p' m'" and "CHR ''/'' \<notin> set p" and "CHR ''/'' \<notin> set p'"
  shows "p = p' \<and> m = m'"
proof -
  have t: "takeWhile (\<lambda>c. c \<noteq> CHR ''/'') (public_id a b) = a" if "CHR ''/'' \<notin> set a" for a b
    using that by (auto simp: public_id_def takeWhile_append)
  from t [OF assms(2)] t [OF assms(3)] assms(1) have "p = p'" by metis
  with assms(1) show ?thesis by (simp add: public_id_def)
qed

lemma select_route_listed:
  assumes "select_route providers path model_id = Some (provider, model)"
  obtains p m where "p \<in> set providers" "supports p path" "m \<in> set (sp_models p)" "sp_id p = provider" "sm_id m = model"
    "public_id provider model = model_id"
  using assms that by (fastforce simp: select_route_def dest!: find_map_Some find_SomeD)

text \<open>The entries a catalogue has under one public name.\<close>

definition named_entries :: "serving_provider list \<Rightarrow> string \<Rightarrow> (serving_provider \<times> serving_model) set" where
  "named_entries providers model_id =
     {(p, m). p \<in> set providers \<and> m \<in> set (sp_models p) \<and> public_id (sp_id p) (sm_id m) = model_id}"

lemma named_entries_unique:
  assumes "build_catalog e token store = (Inr providers, store')"
    and "(p, m) \<in> named_entries providers model_id" and "(p', m') \<in> named_entries providers model_id"
  shows "(p, m) = (p', m')"
proof -
  have d: "distinct (map (to_lower \<circ> sp_id) providers)"
    and s: "\<And>p. p \<in> set providers \<Longrightarrow> CHR ''/'' \<notin> set (sp_id p) \<and> distinct (map sm_id (sp_models p))"
    using build_catalog_shape [OF assms(1)] by auto
  from assms(2,3) s have "sp_id p = sp_id p' \<and> sm_id m = sm_id m'"
    by (intro public_id_inject) (auto simp: named_entries_def)
  moreover from this d assms(2,3) have "p = p'"
    using inj_onD [of "to_lower \<circ> sp_id" "set providers" p p'] by (auto simp: named_entries_def distinct_map)
  ultimately show ?thesis using assms(2,3) s by (auto simp: named_entries_def distinct_map dest: inj_onD)
qed

subsection \<open>Who is let in, and what is forwarded\<close>

lemma authenticate_ingress_row:
  assumes "authenticate_ingress ig t hs store = (Some key, store')"
  obtains token ks row where "ingress_token hs = Some token" "store = Some ks" "is_virtual_key token"
    "hash_key (ingress_sha256 ig) token \<notin> set (ig_forbidden ig)"
    "rows ks (hash_key (ingress_sha256 ig) token) = Some (Some row)" "is_valid (mo_now t) row"
    "permissions key = permissions row" "not_enrollment key"
proof -
  from assms obtain token ks ks' where *: "ingress_token hs = Some token" "store = Some ks" "is_virtual_key token"
    "hash_key (ingress_sha256 ig) token \<notin> set (ig_forbidden ig)"
    "lookup_for_auth (ingress_sha256 ig) (mo_db_ok t) token ks = (Inr (Some key), ks')" "is_valid (mo_now t) key"
    "not_enrollment key"
    by (auto simp: authenticate_ingress_def split: if_splits option.splits prod.splits sum.splits)
  from auth_lookup_row [OF *(5)] * that show thesis by metis
qed

text \<open>
  A request gets past the ingress only with an ordinary key: its token is no operator credential and
  its row in the database is valid; a key with a budget or a token limit gets past only for reading
  model lists or for following a job. It goes on with the key as its only credential.
\<close>

theorem ingress_admits_ordinary_keys:
  assumes "ingress_auth ig t q store = (Inr q', store')"
  shows "\<exists>token ks row. ingress_token (iq_headers q) = Some token \<and> store = Some ks \<and>
    hash_key (ingress_sha256 ig) token \<notin> set (ig_forbidden ig) \<and>
    rows ks (hash_key (ingress_sha256 ig) token) = Some (Some row) \<and> is_valid (mo_now t) row \<and>
    (\<not> capped (permissions row) \<or> metadata_request q \<or> lifecycle_request q) \<and>
    get_header ''authorization'' (iq_headers q') = Some (''Bearer '' @ token) \<and>
    get_header ''x-api-key'' (iq_headers q') = None \<and> get_header ''x-eavs-token'' (iq_headers q') = None \<and>
    iq_body q' = iq_body q \<and> iq_path q' = iq_path q"
proof -
  obtain key where a: "authenticate_ingress ig t (iq_headers q) store = (Some key, store')"
    using assms by (auto simp: ingress_auth_def split: prod.splits option.splits)
  then obtain token ks row where r: "ingress_token (iq_headers q) = Some token" "store = Some ks"
    "hash_key (ingress_sha256 ig) token \<notin> set (ig_forbidden ig)"
    "rows ks (hash_key (ingress_sha256 ig) token) = Some (Some row)" "is_valid (mo_now t) row"
    "permissions key = permissions row"
    by (rule authenticate_ingress_row)
  from r(1) have "get_header ''x-eavs-token'' (iq_headers q) = None" by (auto simp: ingress_token_def split: if_splits)
  moreover have "\<not> capped (permissions row) \<or> metadata_request q \<or> lifecycle_request q"
    "q' = q\<lparr>iq_headers := remove_header ''x-api-key'' (set_header ''authorization'' (''Bearer '' @ token) (iq_headers q)),
        iq_native := Some (semantic_headers ig (key_hash key) (iq_headers q)), iq_limit := Some (public_body_limit ig)\<rparr>"
    using assms a r(1,6) by (auto simp: ingress_auth_def split: if_splits)
  ultimately show ?thesis using r by auto
qed

lemma get_drop_headers: "get_header n (drop_headers hs) = (if n \<in> set dropped_headers then None else get_header n hs)"
  by (simp add: drop_headers_def dropped_headers_def)

lemma prepare_forwardE:
  assumes "prepare_forward ig token key provider hs = Inr (h, native)"
  shows "\<not> capped (permissions key) \<and> get_header ''authorization'' h = Some (''Bearer '' @ token) \<and>
    get_header ''x-provider'' h = provider \<and> get_header ''x-api-key'' h = None \<and> get_header ''x-eavs-token'' h = None \<and>
    get_header ''x-original-host'' h = None \<and> get_header ''content-encoding'' h = None"
  using assms
  by (auto simp: prepare_forward_def Let_def get_drop_headers dropped_headers_def split: if_splits option.splits)

lemma catalog_inference_native:
  assumes "catalog_inference ig t later token q v model_id store = (ToNative q' body, store')"
  obtains providers st provider model key st' hs where
    "build_catalog (ig_env ig) token store = (Inr providers, st)"
    "select_route providers (iq_path q) model_id = Some (provider, model)"
    "authenticate_ingress ig t (iq_headers q) (map_option later st) = (Some key, st')"
    "prepare_forward ig token key (Some provider) (iq_headers q) = Inr hs"
    "Option.bind (index_set v ''model'' (JStr model)) (ig_render ig) = Some body" "q' = forwarded q hs"
  using assms that
  by (auto simp: catalog_inference_def split: sum.splits prod.splits option.splits)

text \<open>
  Claim C1. A request that the ingress hands to the proxy handler names a model by its public name, and that
  name stands for exactly one entry of the catalogue of the key, whose provider speaks the format of the path.
  The request carries the key as its only credential, that provider and no route of the caller's, and
  the body the caller sent, with the public name replaced by the provider's name of that model; the
  key, looked up once more, has neither a budget nor a token limit.
\<close>

theorem ingress_forwards_catalog_entry:
  assumes "ingress_inference ig t later q store = (ToNative q' body, store')"
  shows "\<exists>token v model_id providers st p m. ingress_token (iq_headers q) = Some token \<and>
    Option.bind (iq_body q) (ig_parse ig) = Some v \<and> str_field v ''model'' = Some model_id \<and>
    build_catalog (ig_env ig) token store = (Inr providers, st) \<and>
    named_entries providers model_id = {(p, m)} \<and> supports p (iq_path q) \<and>
    Option.bind (index_set v ''model'' (JStr (sm_id m))) (ig_render ig) = Some body \<and>
    get_header ''authorization'' (iq_headers q') = Some (''Bearer '' @ token) \<and>
    get_header ''x-provider'' (iq_headers q') = Some (sp_id p) \<and>
    get_header ''x-api-key'' (iq_headers q') = None \<and> get_header ''x-eavs-token'' (iq_headers q') = None \<and>
    get_header ''x-original-host'' (iq_headers q') = None \<and>
    (\<exists>ks row. map_option later st = Some ks \<and> rows ks (hash_key (ingress_sha256 ig) token) = Some (Some row) \<and>
      is_valid (mo_now t) row \<and> \<not> capped (permissions row))"
proof -
  from assms obtain token bytes v model_id where tok: "ingress_token (iq_headers q) = Some token"
    and rd: "read_inference ig q = Inr (bytes, v, model_id)"
    and cat: "catalog_inference ig t later token q v model_id store = (ToNative q' body, store')"
    by (auto simp: ingress_inference_def pool_inference_def split: option.splits sum.splits if_splits prod.splits)
  from rd have b: "Option.bind (iq_body q) (ig_parse ig) = Some v" "str_field v ''model'' = Some model_id"
    by (auto simp: read_inference_def split: option.splits if_splits)
  from cat obtain providers st provider model key st' hs where
    bld: "build_catalog (ig_env ig) token store = (Inr providers, st)"
    and sel: "select_route providers (iq_path q) model_id = Some (provider, model)"
    and au: "authenticate_ingress ig t (iq_headers q) (map_option later st) = (Some key, st')"
    and fwd: "prepare_forward ig token key (Some provider) (iq_headers q) = Inr hs"
    and rnd: "Option.bind (index_set v ''model'' (JStr model)) (ig_render ig) = Some body" and q': "q' = forwarded q hs"
    by (rule catalog_inference_native)
  from sel obtain p m where pm: "p \<in> set providers" "supports p (iq_path q)" "m \<in> set (sp_models p)" "sp_id p = provider"
    "sm_id m = model" "public_id provider model = model_id"
    by (rule select_route_listed)
  then have "(p, m) \<in> named_entries providers model_id" by (simp add: named_entries_def)
  then have one: "named_entries providers model_id = {(p, m)}" by (auto dest: named_entries_unique [OF bld])
  from au tok obtain ks row where row: "map_option later st = Some ks"
    "rows ks (hash_key (ingress_sha256 ig) token) = Some (Some row)" "is_valid (mo_now t) row"
    "permissions key = permissions row"
    by (auto elim!: authenticate_ingress_row)
  have "prepare_forward ig token key (Some provider) (iq_headers q) = Inr (fst hs, snd hs)" using fwd by simp
  note hd = prepare_forwardE [OF this]
  show ?thesis
    using tok b bld one pm rnd row hd q' by (auto simp: forwarded_def)
qed

text \<open>
  Idempotency keys of different owners or with different values reach the provider as hashes of
  different texts, so two tenants share an idempotency key only where the hash collides.
\<close>

theorem idempotency_keys_separate:
  assumes "CHR 0x00 \<notin> set h1" and "CHR 0x00 \<notin> set h2" and "(h1, v1) \<noteq> (h2, v2)"
    and "get_header ''idempotency-key'' hs1 = Some v1" and "get_header ''idempotency-key'' hs2 = Some v2"
    and "get_header ''idempotency-key'' (semantic_headers ig h1 hs1) = Some k"
    and "get_header ''idempotency-key'' (semantic_headers ig h2 hs2) = Some k"
  shows "idempotency_text h1 v1 \<noteq> idempotency_text h2 v2 \<and>
    ingress_sha256 ig (idempotency_text h1 v1) = ingress_sha256 ig (idempotency_text h2 v2)"
proof
  have t: "takeWhile (\<lambda>c. c \<noteq> CHR 0x00) (h @ CHR 0x00 # v) = h" if "CHR 0x00 \<notin> set h" for h v
    using that by (auto simp: takeWhile_append)
  show "idempotency_text h1 v1 \<noteq> idempotency_text h2 v2"
  proof
    assume "idempotency_text h1 v1 = idempotency_text h2 v2"
    then have eq: "h1 @ CHR 0x00 # v1 = h2 @ CHR 0x00 # v2" by (simp add: idempotency_text_def)
    from t [OF assms(1)] t [OF assms(2)] have "h1 = h2" by (metis eq)
    with eq assms(3) show False by simp
  qed
  have "''eavs-'' @ hex_encode (ingress_sha256 ig (idempotency_text h v)) = k"
    if "get_header ''idempotency-key'' hs = Some v" "get_header ''idempotency-key'' (semantic_headers ig h hs) = Some k" for h v hs
    using that by (auto simp: semantic_headers_def Let_def get_header_def set_header_def split: option.splits if_splits)
  from this [OF assms(4,6)] this [OF assms(5,7)]
  have "hex_encode (ingress_sha256 ig (idempotency_text h1 v1)) = hex_encode (ingress_sha256 ig (idempotency_text h2 v2))"
    by (metis same_append_eq)
  then show "ingress_sha256 ig (idempotency_text h1 v1) = ingress_sha256 ig (idempotency_text h2 v2)"
    by (metis unhex_hex_encode)
qed

text \<open>Every model of the list is found again by its public name at a path its provider speaks.\<close>

lemma listed_model_selected:
  assumes "build_catalog e token store = (Inr providers, st)"
    and "p \<in> set providers" and "supports p path" and "m \<in> set (sp_models p)"
  shows "select_route providers path (public_id (sp_id p) (sm_id m)) = Some (sp_id p, sm_id m)"
proof (cases "select_route providers path (public_id (sp_id p) (sm_id m))")
  case None
  with assms(2-4) show ?thesis by (auto simp: select_route_def find_map_None find_None_iff)
next
  case (Some r)
  obtain provider model where r: "r = (provider, model)" by (cases r)
  with Some obtain p' m' where "p' \<in> set providers" "m' \<in> set (sp_models p')" "sp_id p' = provider" "sm_id m' = model"
    "public_id provider model = public_id (sp_id p) (sm_id m)"
    by (auto elim!: select_route_listed)
  then have "(p', m') \<in> named_entries providers (public_id (sp_id p) (sm_id m))"
    by (simp add: named_entries_def)
  moreover have "(p, m) \<in> named_entries providers (public_id (sp_id p) (sm_id m))"
    using assms(2,4) by (simp add: named_entries_def)
  ultimately show ?thesis
    using named_entries_unique [OF assms(1)] Some r \<open>sp_id p' = provider\<close> \<open>sm_id m' = model\<close> by blast
qed

subsection \<open>A concrete ingress\<close>

definition acme_body :: json where
  "acme_body = JObj [(''model'', JStr ''acme/m1'')]"

definition acme_ingress :: ingress where
  "acme_ingress = \<lparr>ig_env = acme_env, ig_forbidden = [], ig_value_ok = (\<lambda>_. True), ig_max_body = 100, ig_pools = False,
     ig_parse = (\<lambda>b. if b = ''b'' then Some acme_body else None),
     ig_render = (\<lambda>j. str_field j ''model'')\<rparr>"

definition acme_call :: ingress_request where
  "acme_call = \<lparr>iq_method = ''POST'', iq_path = ''/v1/responses'',
     iq_headers = [(''x-api-key'', long_token), (''x-provider'', ''other'')], iq_body = Some ''b'', iq_native = None,
     iq_limit = None\<rparr>"

definition acme_moment :: moment where
  "acme_moment = \<lparr>mo_now = 7, mo_db_ok = True\<rparr>"

definition acme_forwarded :: ingress_request where
  "acme_forwarded = acme_call\<lparr>iq_headers := [(''authorization'', ''Bearer '' @ long_token), (''x-provider'', ''acme''),
     (''content-type'', ''application/json'')], iq_native := Some []\<rparr>"

lemma acme_token: "ingress_token (iq_headers acme_call) = Some long_token"
  by code_simp

lemma acme_authenticated:
  "\<exists>store' key. authenticate_ingress acme_ingress acme_moment (iq_headers acme_call) (Some (holding open_key)) = (Some key, store') \<and>
     \<not> capped (permissions key)"
proof -
  let ?a = "authenticate_ingress acme_ingress acme_moment (iq_headers acme_call) (Some (holding open_key))"
  have "fst ?a \<noteq> None \<and> \<not> capped (permissions (the (fst ?a)))" by code_simp
  then show ?thesis by (metis option.collapse prod.collapse)
qed

lemma acme_inference:
  "\<exists>store'. ingress_inference acme_ingress acme_moment (\<lambda>_. holding open_key) acme_call (Some (holding open_key))
     = (ToNative acme_forwarded ''m1'', store')"
proof -
  obtain ks where b: "build_catalog acme_env long_token (Some (holding open_key)) = (Inr [acme], Some ks)"
    using acme_catalog by blast
  obtain store' key where a: "authenticate_ingress acme_ingress acme_moment (iq_headers acme_call) (Some (holding open_key)) = (Some key, store')"
    "\<not> capped (permissions key)" using acme_authenticated by blast
  have s: "select_route [acme] ''/v1/responses'' ''acme/m1'' = Some (''acme'', ''m1'')" by code_simp
  have r: "read_inference acme_ingress acme_call = Inr (''b'', acme_body, ''acme/m1'')"
    by (simp add: read_inference_def acme_ingress_def acme_call_def public_body_limit_def acme_body_def str_field_def)
  have i: "requested None ''acme/m1'' = None" by code_simp
  have e: "ig_env acme_ingress = acme_env" "iq_path acme_call = ''/v1/responses''" by (simp_all add: acme_ingress_def acme_call_def)
  have o: "Option.bind (index_set acme_body ''model'' (JStr ''m1'')) (ig_render acme_ingress) = Some ''m1''" by code_simp
  have p: "prepare_forward acme_ingress long_token key (Some ''acme'') (iq_headers acme_call)
      = Inr (iq_headers acme_forwarded, [])"
    using a(2)
    by (simp add: prepare_forward_def acme_ingress_def acme_call_def acme_forwarded_def drop_headers_def dropped_headers_def
        remove_header_def set_header_def semantic_headers_def get_header_def)
  show ?thesis
    by (simp add: ingress_inference_def acme_token r i catalog_inference_def e b s a(1) p o forwarded_def)
      (simp add: acme_forwarded_def)
qed

theorem ingress_forwards_catalog_entry_witness:
  "get_header ''x-provider'' (iq_headers acme_forwarded) = Some ''acme'' \<and>
   get_header ''x-api-key'' (iq_headers acme_forwarded) = None \<and>
   (\<exists>row. rows (holding open_key) [] = Some (Some row) \<and> \<not> capped (permissions row))"
proof -
  obtain store' where run: "ingress_inference acme_ingress acme_moment (\<lambda>_. holding open_key) acme_call (Some (holding open_key))
     = (ToNative acme_forwarded ''m1'', store')" using acme_inference by blast
  have hash: "hash_key (ingress_sha256 acme_ingress) long_token = []" by code_simp
  from ingress_forwards_catalog_entry [OF run] show ?thesis
    by (auto simp: acme_token hash) (simp_all add: acme_forwarded_def get_header_def)
qed

theorem ingress_admits_ordinary_keys_witness:
  "\<exists>q' :: ingress_request. get_header ''authorization'' (iq_headers q') = Some (''Bearer '' @ long_token) \<and>
     get_header ''x-api-key'' (iq_headers q') = None \<and>
     (\<exists>row. rows (holding open_key) [] = Some (Some row) \<and> is_valid 7 row)"
proof -
  obtain store' key where a: "authenticate_ingress acme_ingress acme_moment (iq_headers acme_call) (Some (holding open_key)) = (Some key, store')"
    "\<not> capped (permissions key)" using acme_authenticated by blast
  then obtain q' where run: "ingress_auth acme_ingress acme_moment acme_call (Some (holding open_key)) = (Inr q', store')"
    by (simp add: ingress_auth_def acme_token acme_ingress_def)
  have hash: "hash_key (ingress_sha256 acme_ingress) long_token = []" "mo_now acme_moment = 7" by code_simp+
  from ingress_admits_ordinary_keys [OF run]
  have "get_header ''authorization'' (iq_headers q') = Some (''Bearer '' @ long_token) \<and>
    get_header ''x-api-key'' (iq_headers q') = None \<and>
    (\<exists>row. rows (holding open_key) [] = Some (Some row) \<and> is_valid 7 row)"
    by (auto simp: acme_token hash)
  then show ?thesis by blast
qed

theorem idempotency_keys_separate_witness:
  "idempotency_text ''a'' ''k'' \<noteq> idempotency_text ''b'' ''k''"
proof -
  have "get_header ''idempotency-key'' (semantic_headers acme_ingress h [(''idempotency-key'', ''k'')]) = Some ''eavs-''" for h
    by (simp add: semantic_headers_def acme_ingress_def ingress_sha256_def acme_env_def spent_digest_def hex_encode_def
        get_header_def set_header_def)
  note s = this
  have g: "get_header ''idempotency-key'' [(''idempotency-key'', ''k'')] = Some ''k''" by (simp add: get_header_def)
  from idempotency_keys_separate [OF _ _ _ g g s s, of "''a''" "''b''"] show ?thesis by simp
qed

end
