(* ===== verification/Canonical.thy ===== *)
theory Canonical
  imports Json Provider_Settings Float64
begin

section \<open>Canonical messages and the OpenAI format (src/src/types.rs, src/src/transform/openai.rs)\<close>

text \<open>
  A chat completion for a provider of another format is first read into a common form, translated, and
  the answer's events are written in the OpenAI format again. Reading and writing JSON texts is an
  argument. Timestamps, which are always 0 here, the provider's name in an assistant message and the texts of
  error messages are left out. A number \<open>NegInt n\<close> is negative, in two's complement.
\<close>

subsection \<open>Messages\<close>

datatype api_type = OpenAICompletionsApi | OpenAIResponsesApi | AnthropicMessagesApi | GoogleGenerativeApi

datatype canon_stop = EndTurn | StopSequence | MaxTokens | ToolUse | ContentFilter | OtherStop

record canon_usage =
  us_prompt :: u32
  us_completion :: u32
  us_total :: u32
  us_cache_read :: "u32 option"
  us_cache_creation :: "u32 option"

record tool_call =
  tc_id :: string
  tc_name :: string
  tc_arguments :: json

datatype canon_block =
    TextPart string
  | ThinkingPart string "string option"
  | ImagePart string string bool
  | CallPart tool_call
  | ResultPart string string bool

record assistant_message =
  an_content :: "canon_block list"
  an_api :: api_type
  an_model :: string
  an_usage :: canon_usage
  an_stop :: canon_stop
  an_error :: "string option"

record tool_result =
  tr_call_id :: string
  tr_name :: string
  tr_content :: "canon_block list"
  tr_is_error :: bool

datatype canon_message =
    UserMsg "canon_block list"
  | AssistantMsg assistant_message
  | ToolMsg tool_result
  | SystemMsg string

record tool_decl =
  td_name :: string
  td_description :: string
  td_parameters :: json

record canon_context =
  cx_system :: "string option"
  cx_messages :: "canon_message list"
  cx_tools :: "tool_decl list option"
  cx_model :: string
  cx_max_tokens :: "u32 option"
  cx_temperature :: "f64 option"
  cx_top_p :: "f64 option"
  cx_stop :: "string list option"
  cx_stream :: bool
  cx_original :: json

datatype transform_error = InvalidJson | MissingField string | Unsupported string

definition no_usage :: canon_usage where
  "no_usage = \<lparr>us_prompt = 0, us_completion = 0, us_total = 0, us_cache_read = None, us_cache_creation = None\<rparr>"

definition assistant_default :: assistant_message where
  "assistant_default =
     \<lparr>an_content = [], an_api = OpenAICompletionsApi, an_model = [], an_usage = no_usage, an_stop = EndTurn, an_error = None\<rparr>"

datatype stream_event =
    StartEvent assistant_message
  | TextStart nat
  | TextDelta nat string
  | TextEnd nat string
  | ThinkingStart nat
  | ThinkingDelta nat string
  | ThinkingEnd nat string "string option"
  | ToolCallStart nat string string
  | ToolCallDelta nat string
  | ToolCallEnd nat tool_call
  | UsageEvent canon_usage
  | DoneEvent canon_stop assistant_message
  | ErrorEvent canon_stop assistant_message

datatype block_type = TextType | ThinkingType | ToolCallType

record block_state =
  bk_type :: block_type
  bk_text :: string
  bk_tool_id :: "string option"
  bk_tool_name :: "string option"

definition block_default :: block_state where
  "block_default = \<lparr>bk_type = TextType, bk_text = [], bk_tool_id = None, bk_tool_name = None\<rparr>"

record stream_state =
  ss_message :: assistant_message
  ss_blocks :: "block_state list"
  ss_started :: bool
  ss_provider :: json

definition stream_state_default :: stream_state where
  "stream_state_default = \<lparr>ss_message = assistant_default, ss_blocks = [], ss_started = False, ss_provider = JNull\<rparr>"

subsection \<open>Reading JSON values\<close>

text \<open>Indexing a value that is only read: what is not there is \<open>null\<close>.\<close>

definition jindex :: "json \<Rightarrow> string \<Rightarrow> json" where
  "jindex v k = (case jget v k of Some x \<Rightarrow> x | None \<Rightarrow> JNull)"

definition text_at :: "json \<Rightarrow> string \<Rightarrow> string option" where
  "text_at v k = as_str (jindex v k)"

definition text_or_empty :: "json \<Rightarrow> string \<Rightarrow> string" where
  "text_or_empty v k = (case text_at v k of Some s \<Rightarrow> s | None \<Rightarrow> [])"

definition jobj :: "(string \<times> json) list \<Rightarrow> json" where
  "jobj entries = JObj (foldl (\<lambda>m (k, v). obj_insert k v m) [] entries)"

text \<open>\<open>request[field] = value\<close> on a value that is an object.\<close>

definition put :: "string \<Rightarrow> json \<Rightarrow> json \<Rightarrow> json" where
  "put k v j = (case index_set j k v of Some j' \<Rightarrow> j' | None \<Rightarrow> j)"

definition put_some :: "string \<Rightarrow> json option \<Rightarrow> json \<Rightarrow> json" where
  "put_some k v j = (case v of Some x \<Rightarrow> put k x j | None \<Rightarrow> j)"

fun as_f64 :: "json \<Rightarrow> f64 option" where
  "as_f64 (JNum (PosInt n)) = Some (round64 (of_nat (unat n)))"
| "as_f64 (JNum (NegInt n)) = Some (round64 (of_int (sint n)))"
| "as_f64 (JNum (FloatNum r)) = Some (Fin r)"
| "as_f64 _ = None"

text \<open>The cast to single precision: 24 significant bits, ties to even.\<close>

definition round32 :: "rat \<Rightarrow> f64" where
  "round32 x =
     (if x = 0 then Fin 0
      else let e = max (rat_log2 \<bar>x\<bar> - 23) (- 149);
               y = of_int (round_even (x / pow2 e)) * pow2 e
           in if 128 \<le> rat_log2 \<bar>y\<bar> then Inf (y < 0) else Fin y)"

definition as_f32 :: "f64 \<Rightarrow> f64" where
  "as_f32 v = (case v of Fin x \<Rightarrow> round32 x | _ \<Rightarrow> v)"

text \<open>A number that is not finite is written as \<open>null\<close>.\<close>

definition float_json :: "f64 \<Rightarrow> json" where
  "float_json v = (case v of Fin x \<Rightarrow> JNum (FloatNum x) | _ \<Rightarrow> JNull)"

definition nat_json :: "nat \<Rightarrow> json" where
  "nat_json n = JNum (PosInt (of_nat n))"

definition u32_json :: "u32 \<Rightarrow> json" where
  "u32_json n = JNum (PosInt (ucast n))"

definition truncated :: "u64 \<Rightarrow> u32" where
  "truncated n = ucast n"

fun traverse :: "('a \<Rightarrow> 'e + 'b) \<Rightarrow> 'a list \<Rightarrow> 'e + 'b list" where
  "traverse f [] = Inr []"
| "traverse f (x # xs) =
     (case f x of Inl e \<Rightarrow> Inl e | Inr y \<Rightarrow> (case traverse f xs of Inl e \<Rightarrow> Inl e | Inr ys \<Rightarrow> Inr (y # ys)))"

lemma traverse_Inr: "traverse f xs = Inr ys \<longleftrightarrow> list_all2 (\<lambda>x y. f x = Inr y) xs ys"
proof (induction xs arbitrary: ys)
  case (Cons x xs)
  show ?case
    by (cases "f x"; cases "traverse f xs") (auto simp: list_all2_Cons1 Cons.IH [symmetric])
qed auto

subsection \<open>An OpenAI request\<close>

definition strip_suffix :: "string \<Rightarrow> string \<Rightarrow> string option" where
  "strip_suffix suffix s = (if ends_with suffix s then Some (take (length s - length suffix) s) else None)"

definition parse_data_url :: "string \<Rightarrow> (string \<times> string) option" where
  "parse_data_url url =
     Option.bind (strip_prefix ''data:'' url) (\<lambda>rest.
     map_option (\<lambda>(meta, data). (case strip_suffix '';base64'' meta of Some m \<Rightarrow> m | None \<Rightarrow> meta, data))
       (split_once (CHR '','') rest))"

definition parse_user_part :: "json \<Rightarrow> canon_block list" where
  "parse_user_part part =
     (let type = (case text_at part ''type'' of Some t \<Rightarrow> t | None \<Rightarrow> ''text'')
      in if type = ''text'' then [TextPart (text_or_empty part ''text'')]
         else if type = ''image_url''
         then let url = text_or_empty (jindex part ''image_url'') ''url''
              in if starts_with ''data:'' url
                 then (case parse_data_url url of Some (mime, data) \<Rightarrow> [ImagePart data mime False] | None \<Rightarrow> [])
                 else [ImagePart url [] True]
         else [])"

definition parse_user_message :: "json \<Rightarrow> canon_block list" where
  "parse_user_message msg =
     (case jindex msg ''content'' of
        JStr s \<Rightarrow> [TextPart s]
      | JArr parts \<Rightarrow> concat (map parse_user_part parts)
      | _ \<Rightarrow> [])"

definition parse_call :: "(string \<Rightarrow> json option) \<Rightarrow> json \<Rightarrow> tool_call" where
  "parse_call parse tc =
     \<lparr>tc_id = text_or_empty tc ''id'', tc_name = text_or_empty (jindex tc ''function'') ''name'',
      tc_arguments =
        (case Option.bind (text_at (jindex tc ''function'') ''arguments'') parse of Some v \<Rightarrow> v | None \<Rightarrow> JNull)\<rparr>"

definition parse_assistant_message :: "(string \<Rightarrow> json option) \<Rightarrow> json \<Rightarrow> assistant_message" where
  "parse_assistant_message parse msg =
     assistant_default\<lparr>an_content :=
       (case text_at msg ''content'' of Some s \<Rightarrow> [TextPart s] | None \<Rightarrow> []) @
       (case as_array (jindex msg ''tool_calls'') of
          Some calls \<Rightarrow> map (CallPart \<circ> parse_call parse) calls | None \<Rightarrow> [])\<rparr>"

definition parse_tool_message :: "json \<Rightarrow> transform_error + tool_result" where
  "parse_tool_message msg =
     (case text_at msg ''tool_call_id'' of
        None \<Rightarrow> Inl (MissingField ''tool_call_id'')
      | Some cid \<Rightarrow>
          Inr \<lparr>tr_call_id = cid, tr_name = [], tr_content = [TextPart (text_or_empty msg ''content'')],
               tr_is_error = False\<rparr>)"

definition parse_tool_decl :: "json \<Rightarrow> transform_error + tool_decl" where
  "parse_tool_decl tool =
     (let fn = jindex tool ''function''
      in case text_at fn ''name'' of
           None \<Rightarrow> Inl (MissingField ''function.name'')
         | Some n \<Rightarrow> Inr \<lparr>td_name = n, td_description = text_or_empty fn ''description'', td_parameters = jindex fn ''parameters''\<rparr>)"

text \<open>One message: a system prompt, or a message of the conversation, or nothing for an unknown role.\<close>

datatype parsed_message = SystemPrompt string | Talk canon_message | UnknownRole

definition parse_message :: "(string \<Rightarrow> json option) \<Rightarrow> json \<Rightarrow> transform_error + parsed_message" where
  "parse_message parse msg =
     (case text_at msg ''role'' of
        None \<Rightarrow> Inl (MissingField ''role'')
      | Some role \<Rightarrow>
          if role \<in> {''system'', ''developer''} then Inr (SystemPrompt (text_or_empty msg ''content''))
          else if role = ''user'' then Inr (Talk (UserMsg (parse_user_message msg)))
          else if role = ''assistant'' then Inr (Talk (AssistantMsg (parse_assistant_message parse msg)))
          else if role = ''tool'' then map_sum (\<lambda>e. e) (\<lambda>t. Talk (ToolMsg t)) (parse_tool_message msg)
          else Inr UnknownRole)"

fun talk_of :: "parsed_message \<Rightarrow> canon_message list" where
  "talk_of (Talk m) = [m]"
| "talk_of _ = []"

fun prompt_of :: "parsed_message \<Rightarrow> string option" where
  "prompt_of (SystemPrompt s) = Some s"
| "prompt_of _ = None"

text \<open>Each system message replaces the prompt of those before it.\<close>

definition last_prompt :: "parsed_message list \<Rightarrow> string option" where
  "last_prompt ps = find_map prompt_of (rev ps)"

definition parse_stop :: "json \<Rightarrow> string list option" where
  "parse_stop stop =
     (case stop of
        JArr vs \<Rightarrow> Some (List.map_filter as_str vs)
      | JStr s \<Rightarrow> Some [s]
      | _ \<Rightarrow> None)"

definition parse_max_tokens :: "json \<Rightarrow> u32 option" where
  "parse_max_tokens body =
     map_option truncated
       (case as_u64 (jindex body ''max_tokens'') of
          Some n \<Rightarrow> Some n | None \<Rightarrow> as_u64 (jindex body ''max_completion_tokens''))"

definition parse_openai_request :: "(string \<Rightarrow> json option) \<Rightarrow> json \<Rightarrow> transform_error + canon_context" where
  "parse_openai_request parse body =
     (case text_at body ''model'' of
        None \<Rightarrow> Inl (MissingField ''model'')
      | Some model \<Rightarrow>
          (case as_array (jindex body ''messages'') of
             None \<Rightarrow> Inl (MissingField ''messages'')
           | Some msgs \<Rightarrow>
               (case traverse (parse_message parse) msgs of
                  Inl e \<Rightarrow> Inl e
                | Inr parsed \<Rightarrow>
                    (case (case as_array (jindex body ''tools'') of
                             None \<Rightarrow> Inr None
                           | Some tools \<Rightarrow> map_sum (\<lambda>e. e) Some (traverse parse_tool_decl tools)) of
                       Inl e \<Rightarrow> Inl e
                     | Inr tools \<Rightarrow>
                         Inr \<lparr>cx_system = last_prompt parsed,
                              cx_messages = concat (map talk_of parsed),
                              cx_tools = tools, cx_model = model, cx_max_tokens = parse_max_tokens body,
                              cx_temperature = map_option as_f32 (as_f64 (jindex body ''temperature'')),
                              cx_top_p = map_option as_f32 (as_f64 (jindex body ''top_p'')),
                              cx_stop = parse_stop (jindex body ''stop''),
                              cx_stream = (case as_bool (jindex body ''stream'') of Some b \<Rightarrow> b | None \<Rightarrow> False),
                              cx_original = body\<rparr>))))"

subsection \<open>Writing the OpenAI format\<close>

text \<open>
  What every chunk says besides its choices: the id of the request, the model and the clock in seconds.
\<close>

record chunk_frame =
  cf_id :: string
  cf_model :: string
  cf_created :: u64

definition chunk_with :: "chunk_frame \<Rightarrow> (string \<times> json) list \<Rightarrow> json" where
  "chunk_with f extra =
     jobj ([(''id'', JStr (cf_id f)), (''object'', JStr ''chat.completion.chunk''),
            (''created'', JNum (PosInt (cf_created f))), (''model'', JStr (cf_model f))] @ extra)"

definition delta_chunk :: "chunk_frame \<Rightarrow> json \<Rightarrow> json \<Rightarrow> json" where
  "delta_chunk f delta finish_reason =
     chunk_with f [(''choices'', JArr [jobj [(''index'', nat_json 0), (''delta'', delta), (''finish_reason'', finish_reason)]])]"

definition usage_object :: "canon_usage \<Rightarrow> json" where
  "usage_object u =
     jobj [(''prompt_tokens'', u32_json (us_prompt u)), (''completion_tokens'', u32_json (us_completion u)),
           (''total_tokens'', u32_json (us_total u))]"

fun finish_reason_of :: "canon_stop \<Rightarrow> string" where
  "finish_reason_of EndTurn = ''stop''"
| "finish_reason_of StopSequence = ''stop''"
| "finish_reason_of OtherStop = ''stop''"
| "finish_reason_of MaxTokens = ''length''"
| "finish_reason_of ToolUse = ''tool_calls''"
| "finish_reason_of ContentFilter = ''content_filter''"

definition call_start_delta :: "nat \<Rightarrow> string \<Rightarrow> string \<Rightarrow> json" where
  "call_start_delta i cid name =
     jobj [(''tool_calls'', JArr [jobj [(''index'', nat_json i), (''id'', JStr cid), (''type'', JStr ''function''),
       (''function'', jobj [(''name'', JStr name), (''arguments'', JStr [])])]])]"

definition call_delta :: "nat \<Rightarrow> string \<Rightarrow> json" where
  "call_delta i arguments =
     jobj [(''tool_calls'', JArr [jobj [(''index'', nat_json i), (''function'', jobj [(''arguments'', JStr arguments)])]])]"

text \<open>The chunk for an event, if it has one.\<close>

fun openai_chunk :: "chunk_frame \<Rightarrow> stream_event \<Rightarrow> json option" where
  "openai_chunk f (StartEvent m) = Some (delta_chunk f (jobj [(''role'', JStr ''assistant'')]) JNull)"
| "openai_chunk f (TextDelta i d) = Some (delta_chunk f (jobj [(''content'', JStr d)]) JNull)"
| "openai_chunk f (ThinkingDelta i d) = Some (delta_chunk f (jobj [(''content'', JStr d)]) JNull)"
| "openai_chunk f (ToolCallStart i cid name) = Some (delta_chunk f (call_start_delta i cid name) JNull)"
| "openai_chunk f (ToolCallDelta i d) = Some (delta_chunk f (call_delta i d) JNull)"
| "openai_chunk f (UsageEvent u) = Some (chunk_with f [(''choices'', JArr []), (''usage'', usage_object u)])"
| "openai_chunk f (DoneEvent r m) = Some (delta_chunk f (jobj []) (JStr (finish_reason_of r)))"
| "openai_chunk f (ErrorEvent r m) =
     Some (jobj [(''error'', jobj [(''message'', JStr (case an_error m of Some e \<Rightarrow> e | None \<Rightarrow> ''Unknown error'')),
                                   (''type'', JStr ''server_error'')])])"
| "openai_chunk f _ = None"

definition newline :: string where "newline = [CHR 0x0A]"

definition sse_data :: "string \<Rightarrow> string" where
  "sse_data payload = ''data: '' @ payload @ newline @ newline"

fun is_done :: "stream_event \<Rightarrow> bool" where
  "is_done (DoneEvent r m) = True"
| "is_done _ = False"

definition build_openai_sse :: "(json \<Rightarrow> string) \<Rightarrow> chunk_frame \<Rightarrow> stream_event \<Rightarrow> string" where
  "build_openai_sse render f e =
     (case openai_chunk f e of
        None \<Rightarrow> []
      | Some c \<Rightarrow> sse_data (render c) @ (if is_done e then sse_data ''[DONE]'' else []))"

subsection \<open>Whole answers\<close>

definition thinking_text :: "string \<Rightarrow> string" where
  "thinking_text t = ''<thinking>'' @ newline @ t @ newline @ ''</thinking>''"

definition call_json :: "(json \<Rightarrow> string) \<Rightarrow> tool_call \<Rightarrow> json" where
  "call_json render tc =
     jobj [(''id'', JStr (tc_id tc)), (''type'', JStr ''function''),
           (''function'', jobj [(''name'', JStr (tc_name tc)), (''arguments'', JStr (render (tc_arguments tc)))])]"

fun text_of_block :: "canon_block \<Rightarrow> string" where
  "text_of_block (TextPart s) = s"
| "text_of_block (ThinkingPart t sig) = thinking_text t"
| "text_of_block _ = []"

fun call_of_block :: "canon_block \<Rightarrow> tool_call option" where
  "call_of_block (CallPart tc) = Some tc"
| "call_of_block _ = None"

fun done_message :: "stream_event \<Rightarrow> assistant_message option" where
  "done_message (DoneEvent r m) = Some m"
| "done_message _ = None"

text \<open>The message of the last event that ends the answer.\<close>

definition final_message :: "stream_event list \<Rightarrow> assistant_message" where
  "final_message events = (case find_map done_message (rev events) of Some m \<Rightarrow> m | None \<Rightarrow> assistant_default)"

definition message_json :: "(json \<Rightarrow> string) \<Rightarrow> assistant_message \<Rightarrow> json" where
  "message_json render m =
     (let calls = map (call_json render) (List.map_filter call_of_block (an_content m));
          obj = jobj [(''role'', JStr ''assistant''), (''content'', JStr (concat (map text_of_block (an_content m))))]
      in if calls \<noteq> [] then put ''tool_calls'' (JArr calls) obj else obj)"

definition build_openai_chat_completion_from_events :: "(json \<Rightarrow> string) \<Rightarrow> chunk_frame \<Rightarrow> stream_event list \<Rightarrow> json" where
  "build_openai_chat_completion_from_events render f events =
     (let m = final_message events
      in jobj [(''id'', JStr (cf_id f)), (''object'', JStr ''chat.completion''), (''created'', JNum (PosInt (cf_created f))),
               (''model'', JStr (cf_model f)),
               (''choices'', JArr [jobj [(''index'', nat_json 0), (''message'', message_json render m),
                                         (''finish_reason'', JStr (finish_reason_of (an_stop m)))]]),
               (''usage'', usage_object (an_usage m))])"

text \<open>A whole answer as the events of a stream, for a client that asked for one.\<close>

fun ending :: "stream_event \<Rightarrow> (canon_stop \<times> assistant_message) option" where
  "ending (DoneEvent r m) = Some (r, m)"
| "ending (ErrorEvent r m) = Some (r, m)"
| "ending _ = None"

fun fake_events :: "(json \<Rightarrow> string) \<Rightarrow> nat \<Rightarrow> canon_block list \<Rightarrow> stream_event list" where
  "fake_events render n [] = []"
| "fake_events render n (TextPart s # bs) = (if s \<noteq> [] then [TextDelta 0 s] else []) @ fake_events render n bs"
| "fake_events render n (ThinkingPart t sig # bs) = (if t \<noteq> [] then [ThinkingDelta 0 t] else []) @ fake_events render n bs"
| "fake_events render n (CallPart tc # bs) =
     [ToolCallStart n (tc_id tc) (tc_name tc), ToolCallDelta n (render (tc_arguments tc))] @ fake_events render (Suc n) bs"
| "fake_events render n (b # bs) = fake_events render n bs"

definition fake_stream_events :: "(json \<Rightarrow> string) \<Rightarrow> string \<Rightarrow> stream_event list \<Rightarrow> stream_event list" where
  "fake_stream_events render model events =
     (let (reason, m) = (case find_map ending (rev events) of Some e \<Rightarrow> e | None \<Rightarrow> (OtherStop, assistant_default))
      in [StartEvent (assistant_default\<lparr>an_model := model\<rparr>)] @ fake_events render 0 (an_content m) @
         [UsageEvent (an_usage m), DoneEvent reason m])"

definition build_fake_openai_sse_from_events :: "(json \<Rightarrow> string) \<Rightarrow> chunk_frame \<Rightarrow> stream_event list \<Rightarrow> string list" where
  "build_fake_openai_sse_from_events render f events =
     map (build_openai_sse render f) (fake_stream_events render (cf_model f) events)"

subsection \<open>Requests that pass through\<close>

definition system_role :: "json \<Rightarrow> json" where
  "system_role msg = (if str_field msg ''role'' = Some ''developer'' then put ''role'' (JStr ''system'') msg else msg)"

definition without_field :: "string \<Rightarrow> json \<Rightarrow> json" where
  "without_field k j = (case j of JObj m \<Rightarrow> JObj (filter (\<lambda>(k', _). k' \<noteq> k) m) | _ \<Rightarrow> j)"

definition rename_field :: "string \<Rightarrow> string \<Rightarrow> json \<Rightarrow> json" where
  "rename_field old new j =
     (case j of
        JObj m \<Rightarrow>
          (case map_of m old of
             None \<Rightarrow> j
           | Some v \<Rightarrow>
               let m' = filter (\<lambda>(k, _). k \<noteq> old) m
               in JObj (if map_of m' new = None then obj_insert new v m' else m'))
      | _ \<Rightarrow> j)"

definition apply_compat_to_passthrough_body :: "compat_settings \<Rightarrow> json \<Rightarrow> json" where
  "apply_compat_to_passthrough_body cs body =
     (let b1 = (if cs_developer_role cs = Some False
                then (case Option.bind (jget body ''messages'') as_array of
                        Some msgs \<Rightarrow> set_field body ''messages'' (JArr (map system_role msgs)) | None \<Rightarrow> body)
                else body);
          b2 = (if cs_store cs = Some False then without_field ''store'' b1 else b1);
          b3 = (if cs_stream_options cs = Some False then without_field ''stream_options'' b2 else b2)
      in case cs_max_tokens_field cs of
           Some field \<Rightarrow>
             if field = ''max_tokens'' then rename_field ''max_completion_tokens'' ''max_tokens'' b3
             else if field = ''max_completion_tokens'' then rename_field ''max_tokens'' ''max_completion_tokens'' b3
             else b3
         | None \<Rightarrow> b3)"

end
