(* ===== verification/Anthropic_Format.thy ===== *)
theory Anthropic_Format
  imports Canonical
begin

section \<open>The Anthropic format (src/src/transform/anthropic.rs)\<close>

text \<open>
  The request for an Anthropic provider from a canonical context, and the events of its answers. A
  structure is read from an object; one written as an array, which the JSON package accepts as well, is taken
  as malformed. Sums of token counts wrap, as they do in a release build.
\<close>

subsection \<open>Requests\<close>

text \<open>A text of white space only: the white space of Unicode in UTF-8.\<close>

fun blank :: "string \<Rightarrow> bool" where
  "blank [] = True"
| "blank (c # cs) =
     (if is_space c then blank cs
      else case cs of
             d # ds \<Rightarrow>
               (if of_char c = (0xC2 :: nat) \<and> (of_char d = (0x85 :: nat) \<or> of_char d = (0xA0 :: nat)) then blank ds
                else case ds of
                       e # es \<Rightarrow>
                         (of_char c, of_char d, of_char e) \<in>
                           {(0xE1 :: nat, 0x9A :: nat, 0x80 :: nat), (0xE2, 0x80, 0xA8), (0xE2, 0x80, 0xA9),
                            (0xE2, 0x80, 0xAF), (0xE2, 0x81, 0x9F), (0xE3, 0x80, 0x80)} \<union>
                           (\<lambda>k. (0xE2, 0x80, k)) ` {0x80..0x8A} \<and> blank es
                     | [] \<Rightarrow> False)
           | [] \<Rightarrow> False)"

definition text_json :: "string \<Rightarrow> json" where
  "text_json s = jobj [(''type'', JStr ''text''), (''text'', JStr s)]"

definition ephemeral :: json where
  "ephemeral = jobj [(''type'', JStr ''ephemeral'')]"

fun user_part :: "canon_block \<Rightarrow> transform_error + json list" where
  "user_part (TextPart s) = Inr (if blank s then [] else [text_json s])"
| "user_part (ImagePart data mime is_url) =
     (if is_url then Inl (Unsupported ''Anthropic does not support URL images; provide a data: URL or base64'')
      else Inr [jobj [(''type'', JStr ''image''),
                      (''source'', jobj [(''type'', JStr ''base64''), (''media_type'', JStr mime), (''data'', JStr data)])]])"
| "user_part (ResultPart cid content is_error) =
     Inr [jobj [(''type'', JStr ''tool_result''), (''tool_use_id'', JStr cid), (''content'', JStr content),
                (''is_error'', JBool is_error)]]"
| "user_part _ = Inr []"

definition build_anthropic_content :: "canon_block list \<Rightarrow> transform_error + json list" where
  "build_anthropic_content blocks = map_sum (\<lambda>e. e) concat (traverse user_part blocks)"

fun assistant_part :: "canon_block \<Rightarrow> json option" where
  "assistant_part (TextPart s) = (if blank s then None else Some (text_json s))"
| "assistant_part (ThinkingPart t sig) =
     Some (put_some ''signature'' (map_option JStr sig) (jobj [(''type'', JStr ''thinking''), (''thinking'', JStr t)]))"
| "assistant_part (CallPart tc) =
     Some (jobj [(''type'', JStr ''tool_use''), (''id'', JStr (tc_id tc)), (''name'', JStr (tc_name tc)),
                 (''input'', tc_arguments tc)])"
| "assistant_part _ = None"

definition build_anthropic_assistant_content :: "canon_block list \<Rightarrow> json list" where
  "build_anthropic_assistant_content blocks = List.map_filter assistant_part blocks"

fun any_content :: "canon_block \<Rightarrow> bool" where
  "any_content (TextPart s) = (\<not> blank s)"
| "any_content (ImagePart data mime is_url) = True"
| "any_content (ResultPart cid content is_error) = True"
| "any_content _ = False"

definition anthropic_message_has_any_content :: "canon_block list \<Rightarrow> bool" where
  "anthropic_message_has_any_content blocks = list_ex any_content blocks"

definition role_message :: "string \<Rightarrow> json list \<Rightarrow> json" where
  "role_message role parts = jobj [(''role'', JStr role), (''content'', JArr parts)]"

definition mark_last :: "json list \<Rightarrow> json list" where
  "mark_last parts = (if parts = [] then [] else butlast parts @ [put ''cache_control'' ephemeral (List.last parts)])"

fun plain_text :: "canon_block \<Rightarrow> string" where
  "plain_text (TextPart s) = s"
| "plain_text _ = []"

definition result_json :: "tool_result \<Rightarrow> json" where
  "result_json tr =
     (let content = JStr (concat (map plain_text (tr_content tr)))
      in if tr_is_error tr
         then jobj [(''type'', JStr ''tool_result''), (''tool_use_id'', JStr (tr_call_id tr)), (''is_error'', JBool True),
                    (''content'', content)]
         else jobj [(''type'', JStr ''tool_result''), (''tool_use_id'', JStr (tr_call_id tr)), (''content'', content)])"

text \<open>One message, marked for the cache or not; messages without content are dropped.\<close>

fun anthropic_message :: "bool \<Rightarrow> canon_message \<Rightarrow> transform_error + json option" where
  "anthropic_message mark (UserMsg blocks) =
     (case build_anthropic_content blocks of
        Inl e \<Rightarrow> Inl e
      | Inr [] \<Rightarrow> Inr None
      | Inr parts \<Rightarrow> Inr (Some (role_message ''user'' (if mark then mark_last parts else parts))))"
| "anthropic_message mark (AssistantMsg m) =
     (case build_anthropic_assistant_content (an_content m) of
        [] \<Rightarrow> Inr None
      | parts \<Rightarrow> Inr (Some (role_message ''assistant'' parts)))"
| "anthropic_message mark (ToolMsg tr) = Inr (Some (role_message ''user'' [result_json tr]))"
| "anthropic_message mark (SystemMsg s) = Inr None"

fun user_with_content :: "canon_message \<Rightarrow> bool" where
  "user_with_content (UserMsg blocks) = anthropic_message_has_any_content blocks"
| "user_with_content _ = False"

definition last_user_index :: "canon_message list \<Rightarrow> nat option" where
  "last_user_index msgs = map_option fst (find (\<lambda>(i, m). user_with_content m) (rev (enumerate 0 msgs)))"

definition build_anthropic_messages :: "bool \<Rightarrow> canon_message list \<Rightarrow> transform_error + json list" where
  "build_anthropic_messages enable_cache msgs =
     map_sum (\<lambda>e. e) (List.map_filter (\<lambda>m. m))
       (traverse (\<lambda>(i, m). anthropic_message (enable_cache \<and> last_user_index msgs = Some i) m) (enumerate 0 msgs))"

definition tool_to_anthropic :: "tool_decl \<Rightarrow> json" where
  "tool_to_anthropic t =
     jobj [(''name'', JStr (td_name t)), (''description'', JStr (td_description t)), (''input_schema'', td_parameters t)]"

datatype tool_choice = OmitTools | SetChoice json | IgnoreChoice

definition named_choice :: "string option \<Rightarrow> tool_choice" where
  "named_choice name =
     (case name of Some n \<Rightarrow> SetChoice (jobj [(''type'', JStr ''tool''), (''name'', JStr n)]) | None \<Rightarrow> IgnoreChoice)"

definition choice_word :: "string \<Rightarrow> tool_choice option" where
  "choice_word s =
     (if s = ''auto'' then Some (SetChoice (jobj [(''type'', JStr ''auto'')]))
      else if s = ''any'' \<or> s = ''required'' then Some (SetChoice (jobj [(''type'', JStr ''any'')]))
      else if s = ''none'' then Some OmitTools else None)"

fun anthropic_tool_choice_from_openai :: "json \<Rightarrow> tool_choice" where
  "anthropic_tool_choice_from_openai (JStr s) = (case choice_word s of Some c \<Rightarrow> c | None \<Rightarrow> IgnoreChoice)"
| "anthropic_tool_choice_from_openai (JObj m) =
     (case Option.bind (map_of m ''type'') as_str of
        None \<Rightarrow> IgnoreChoice
      | Some t \<Rightarrow>
          (case choice_word t of
             Some c \<Rightarrow> c
           | None \<Rightarrow>
               if t = ''function''
               then named_choice (Option.bind (Option.bind (map_of m ''function'') (\<lambda>f. jget f ''name'')) as_str)
               else if t = ''tool'' then named_choice (Option.bind (map_of m ''name'') as_str)
               else IgnoreChoice))"
| "anthropic_tool_choice_from_openai _ = IgnoreChoice"

definition system_json :: "bool \<Rightarrow> string \<Rightarrow> json" where
  "system_json enable_cache s =
     (if enable_cache
      then JArr [jobj [(''type'', JStr ''text''), (''text'', JStr s), (''cache_control'', ephemeral)]]
      else JStr s)"

definition apply_tool_choice :: "json \<Rightarrow> json \<Rightarrow> json" where
  "apply_tool_choice original request =
     (case jget original ''tool_choice'' of
        None \<Rightarrow> request
      | Some tc \<Rightarrow>
          (case anthropic_tool_choice_from_openai tc of
             OmitTools \<Rightarrow> without_field ''tools'' request
           | SetChoice c \<Rightarrow> put ''tool_choice'' c request
           | IgnoreChoice \<Rightarrow> request))"

definition anthropic_transform_request :: "bool \<Rightarrow> canon_context \<Rightarrow> transform_error + json" where
  "anthropic_transform_request enable_cache cx =
     (case build_anthropic_messages enable_cache (cx_messages cx) of
        Inl e \<Rightarrow> Inl e
      | Inr messages \<Rightarrow>
          let r1 = put_some ''system'' (map_option (system_json enable_cache) (cx_system cx))
                     (jobj [(''model'', JStr (cx_model cx)), (''stream'', JBool (cx_stream cx))]);
              r2 = put ''max_tokens'' (u32_json (case cx_max_tokens cx of Some n \<Rightarrow> n | None \<Rightarrow> 4096))
                     (put ''messages'' (JArr messages) r1);
              r3 = put_some ''temperature'' (map_option float_json (cx_temperature cx)) r2;
              r4 = put_some ''top_p'' (map_option float_json (cx_top_p cx)) r3;
              r5 = put_some ''stop_sequences'' (map_option (\<lambda>ss. JArr (map JStr ss)) (cx_stop cx)) r4;
              r6 = put_some ''tools'' (map_option (\<lambda>ts. JArr (map tool_to_anthropic ts)) (cx_tools cx)) r5
          in Inr (apply_tool_choice (cx_original cx) r6))"

subsection \<open>Whole answers\<close>

text \<open>Reading a field of a structure: \<open>None\<close> when the value has another type than the field.\<close>

fun opt_text :: "json \<Rightarrow> string option option" where
  "opt_text JNull = Some None"
| "opt_text (JStr s) = Some (Some s)"
| "opt_text _ = None"

fun u32_of :: "json \<Rightarrow> u32 option" where
  "u32_of (JNum (PosInt n)) = (if n < 2 ^ 32 then Some (ucast n) else None)"
| "u32_of _ = None"

definition field_text :: "(string \<times> json) list \<Rightarrow> string \<Rightarrow> string option option" where
  "field_text m k = (case map_of m k of None \<Rightarrow> Some None | Some v \<Rightarrow> opt_text v)"

definition field_count :: "(string \<times> json) list \<Rightarrow> string \<Rightarrow> u32 option" where
  "field_count m k = (case map_of m k of None \<Rightarrow> Some 0 | Some v \<Rightarrow> u32_of v)"

definition field_opt_count :: "(string \<times> json) list \<Rightarrow> string \<Rightarrow> u32 option option" where
  "field_opt_count m k =
     (case map_of m k of None \<Rightarrow> Some None | Some JNull \<Rightarrow> Some None | Some v \<Rightarrow> map_option Some (u32_of v))"

record anthropic_usage_counts =
  au_input :: u32
  au_output :: u32
  au_cache_read :: "u32 option"
  au_cache_creation :: "u32 option"

record anthropic_content =
  ac_type :: string
  ac_text :: "string option"
  ac_thinking :: "string option"
  ac_signature :: "string option"
  ac_id :: "string option"
  ac_name :: "string option"
  ac_input :: "json option"

record anthropic_response =
  ar_model :: string
  ar_content :: "anthropic_content list"
  ar_stop_reason :: "string option"
  ar_usage :: anthropic_usage_counts

definition decode_usage :: "json \<Rightarrow> anthropic_usage_counts option" where
  "decode_usage j =
     Option.bind (as_object j) (\<lambda>m.
     Option.bind (field_count m ''input_tokens'') (\<lambda>i.
     Option.bind (field_count m ''output_tokens'') (\<lambda>out.
     Option.bind (field_opt_count m ''cache_read_input_tokens'') (\<lambda>r.
     map_option (\<lambda>c. \<lparr>au_input = i, au_output = out, au_cache_read = r, au_cache_creation = c\<rparr>)
       (field_opt_count m ''cache_creation_input_tokens'')))))"

definition decode_content :: "json \<Rightarrow> anthropic_content option" where
  "decode_content j =
     Option.bind (as_object j) (\<lambda>m.
     Option.bind (Option.bind (map_of m ''type'') as_str) (\<lambda>t.
     Option.bind (field_text m ''text'') (\<lambda>text.
     Option.bind (field_text m ''thinking'') (\<lambda>thinking.
     Option.bind (field_text m ''signature'') (\<lambda>sig.
     Option.bind (field_text m ''id'') (\<lambda>cid.
     map_option (\<lambda>name. \<lparr>ac_type = t, ac_text = text, ac_thinking = thinking, ac_signature = sig, ac_id = cid,
                        ac_name = name,
                        ac_input = (case map_of m ''input'' of Some JNull \<Rightarrow> None | v \<Rightarrow> v)\<rparr>)
       (field_text m ''name'')))))))"

fun all_some :: "'a option list \<Rightarrow> 'a list option" where
  "all_some [] = Some []"
| "all_some (x # xs) = Option.bind x (\<lambda>y. map_option ((#) y) (all_some xs))"

definition decode_response :: "json \<Rightarrow> anthropic_response option" where
  "decode_response j =
     Option.bind (as_object j) (\<lambda>m.
     Option.bind (Option.bind (map_of m ''id'') as_str) (\<lambda>_.
     Option.bind (Option.bind (map_of m ''model'') as_str) (\<lambda>model.
     Option.bind (Option.bind (map_of m ''content'') as_array) (\<lambda>cs.
     Option.bind (all_some (map decode_content cs)) (\<lambda>contents.
     Option.bind (field_text m ''stop_reason'') (\<lambda>stop.
     map_option (\<lambda>u. \<lparr>ar_model = model, ar_content = contents, ar_stop_reason = stop, ar_usage = u\<rparr>)
       (Option.bind (map_of m ''usage'') decode_usage)))))))"

definition parse_stop_reason :: "string option \<Rightarrow> canon_stop" where
  "parse_stop_reason reason =
     (if reason = Some ''end_turn'' then EndTurn
      else if reason = Some ''stop_sequence'' then StopSequence
      else if reason = Some ''max_tokens'' then MaxTokens
      else if reason = Some ''tool_use'' then ToolUse
      else OtherStop)"

definition strip_oauth_tool_prefix :: "string \<Rightarrow> string" where
  "strip_oauth_tool_prefix name = (case strip_prefix ''mcp_'' name of Some n \<Rightarrow> n | None \<Rightarrow> name)"

definition text_default :: "string option \<Rightarrow> string" where
  "text_default s = (case s of Some x \<Rightarrow> x | None \<Rightarrow> [])"

text \<open>The block and the event for a content of the answer at a position.\<close>

definition answer_part :: "nat \<Rightarrow> anthropic_content \<Rightarrow> (canon_block \<times> stream_event) option" where
  "answer_part i c =
     (if ac_type c = ''text''
      then Some (TextPart (text_default (ac_text c)), TextEnd i (text_default (ac_text c)))
      else if ac_type c = ''thinking''
      then Some (ThinkingPart (text_default (ac_thinking c)) (ac_signature c),
                 ThinkingEnd i (text_default (ac_thinking c)) (ac_signature c))
      else if ac_type c = ''tool_use''
      then let tc = \<lparr>tc_id = text_default (ac_id c), tc_name = strip_oauth_tool_prefix (text_default (ac_name c)),
                     tc_arguments = (case ac_input c of Some v \<Rightarrow> v | None \<Rightarrow> JNull)\<rparr>
           in Some (CallPart tc, ToolCallEnd i tc)
      else None)"

definition anthropic_parse_response :: "json \<Rightarrow> transform_error + stream_event list" where
  "anthropic_parse_response body =
     (case decode_response body of
        None \<Rightarrow> Inl InvalidJson
      | Some r \<Rightarrow>
          let u = ar_usage r;
              parts = List.map_filter (\<lambda>(i, c). answer_part i c) (enumerate 0 (ar_content r));
              m = assistant_default\<lparr>an_api := AnthropicMessagesApi, an_model := ar_model r,
                    an_usage := \<lparr>us_prompt = au_input u, us_completion = au_output u, us_total = au_input u + au_output u,
                                us_cache_read = au_cache_read u, us_cache_creation = au_cache_creation u\<rparr>,
                    an_stop := parse_stop_reason (ar_stop_reason r), an_content := map fst parts\<rparr>
          in Inr (map snd parts @ [DoneEvent (an_stop m) m]))"

subsection \<open>Streamed answers\<close>

definition index_at :: "json \<Rightarrow> nat" where
  "index_at data = (case as_u64 (jindex data ''index'') of Some n \<Rightarrow> unat n | None \<Rightarrow> 0)"

definition count_at :: "json \<Rightarrow> string \<Rightarrow> u32" where
  "count_at v k = (case as_u64 (jindex v k) of Some n \<Rightarrow> truncated n | None \<Rightarrow> 0)"

definition blocks_up_to :: "nat \<Rightarrow> block_state list \<Rightarrow> block_state list" where
  "blocks_up_to i bs = bs @ replicate (Suc i - length bs) block_default"

definition set_message :: "assistant_message \<Rightarrow> stream_state \<Rightarrow> stream_state" where
  "set_message m st = st\<lparr>ss_message := m\<rparr>"

definition message_start :: "json \<Rightarrow> stream_state \<Rightarrow> stream_event list \<times> stream_state" where
  "message_start data st =
     (let message = jindex data ''message'';
          m1 = (ss_message st)\<lparr>an_model := text_or_empty message ''model'', an_api := AnthropicMessagesApi\<rparr>;
          m2 = (case jget message ''usage'' of
                  Some u \<Rightarrow> m1\<lparr>an_usage := (an_usage m1)\<lparr>us_prompt := count_at u ''input_tokens''\<rparr>\<rparr>
                | None \<Rightarrow> m1)
      in ([StartEvent m2], st\<lparr>ss_started := True, ss_message := m2\<rparr>))"

definition block_start :: "json \<Rightarrow> stream_state \<Rightarrow> stream_event list \<times> stream_state" where
  "block_start data st =
     (let i = index_at data; block = jindex data ''content_block'';
          type = (case text_at block ''type'' of Some t \<Rightarrow> t | None \<Rightarrow> ''text'');
          bs = blocks_up_to i (ss_blocks st)
      in if type = ''text''
         then ([TextStart i], st\<lparr>ss_blocks := bs[i := (bs ! i)\<lparr>bk_type := TextType\<rparr>]\<rparr>)
         else if type = ''thinking''
         then ([ThinkingStart i], st\<lparr>ss_blocks := bs[i := (bs ! i)\<lparr>bk_type := ThinkingType\<rparr>]\<rparr>)
         else if type = ''tool_use''
         then let cid = text_or_empty block ''id''; name = strip_oauth_tool_prefix (text_or_empty block ''name'')
              in ([ToolCallStart i cid name],
                  st\<lparr>ss_blocks := bs[i := (bs ! i)\<lparr>bk_type := ToolCallType, bk_tool_id := Some cid, bk_tool_name := Some name\<rparr>]\<rparr>)
         else ([], st\<lparr>ss_blocks := bs\<rparr>))"

definition append_text :: "nat \<Rightarrow> string \<Rightarrow> stream_state \<Rightarrow> stream_state" where
  "append_text i s st = st\<lparr>ss_blocks := (ss_blocks st)[i := (ss_blocks st ! i)\<lparr>bk_text := bk_text (ss_blocks st ! i) @ s\<rparr>]\<rparr>"

definition block_delta :: "json \<Rightarrow> stream_state \<Rightarrow> stream_event list \<times> stream_state" where
  "block_delta data st =
     (let i = index_at data; delta = jindex data ''delta''; type = text_or_empty delta ''type''
      in if \<not> i < length (ss_blocks st) then ([], st)
         else if type = ''text_delta''
         then ([TextDelta i (text_or_empty delta ''text'')], append_text i (text_or_empty delta ''text'') st)
         else if type = ''thinking_delta''
         then ([ThinkingDelta i (text_or_empty delta ''thinking'')], append_text i (text_or_empty delta ''thinking'') st)
         else if type = ''input_json_delta''
         then ([ToolCallDelta i (text_or_empty delta ''partial_json'')], append_text i (text_or_empty delta ''partial_json'') st)
         else ([], st))"

definition add_part :: "canon_block \<Rightarrow> stream_state \<Rightarrow> stream_state" where
  "add_part b st = set_message ((ss_message st)\<lparr>an_content := an_content (ss_message st) @ [b]\<rparr>) st"

definition streamed_call :: "(string \<Rightarrow> json option) \<Rightarrow> block_state \<Rightarrow> tool_call" where
  "streamed_call parse b =
     \<lparr>tc_id = text_default (bk_tool_id b), tc_name = text_default (bk_tool_name b),
      tc_arguments = (case parse (bk_text b) of Some v \<Rightarrow> v | None \<Rightarrow> JNull)\<rparr>"

definition block_stop :: "(string \<Rightarrow> json option) \<Rightarrow> json \<Rightarrow> stream_state \<Rightarrow> stream_event list \<times> stream_state" where
  "block_stop parse data st =
     (let i = index_at data
      in if \<not> i < length (ss_blocks st) then ([], st)
         else let b = ss_blocks st ! i in
           case bk_type b of
             TextType \<Rightarrow> ([TextEnd i (bk_text b)], add_part (TextPart (bk_text b)) st)
           | ThinkingType \<Rightarrow>
               (let sig = text_at data ''signature''
                in ([ThinkingEnd i (bk_text b) sig], add_part (ThinkingPart (bk_text b) sig) st))
           | ToolCallType \<Rightarrow>
               ([ToolCallEnd i (streamed_call parse b)], add_part (CallPart (streamed_call parse b)) st))"

definition message_delta :: "json \<Rightarrow> stream_state \<Rightarrow> stream_event list \<times> stream_state" where
  "message_delta data st =
     (let m1 = (case Option.bind (jget data ''delta'') (\<lambda>d. text_at d ''stop_reason'') of
                  Some r \<Rightarrow> (ss_message st)\<lparr>an_stop := parse_stop_reason (Some r)\<rparr> | None \<Rightarrow> ss_message st)
      in case jget data ''usage'' of
           None \<Rightarrow> ([], set_message m1 st)
         | Some u \<Rightarrow>
             let out = count_at u ''output_tokens'';
                 us = (an_usage m1)\<lparr>us_completion := out, us_total := us_prompt (an_usage m1) + out\<rparr>
             in ([UsageEvent us], set_message (m1\<lparr>an_usage := us\<rparr>) st))"

definition anthropic_error :: "json \<Rightarrow> stream_state \<Rightarrow> stream_event list \<times> stream_state" where
  "anthropic_error data st =
     (let text = (case text_at (jindex data ''error'') ''message'' of Some t \<Rightarrow> t | None \<Rightarrow> ''Unknown error'');
          m = (ss_message st)\<lparr>an_error := Some text\<rparr>
      in ([ErrorEvent OtherStop m], set_message m st))"

definition process_anthropic_event ::
    "(string \<Rightarrow> json option) \<Rightarrow> string \<Rightarrow> json \<Rightarrow> stream_state \<Rightarrow> stream_event list \<times> stream_state" where
  "process_anthropic_event parse type data st =
     (if type = ''message_start'' then message_start data st
      else if type = ''content_block_start'' then block_start data st
      else if type = ''content_block_delta'' then block_delta data st
      else if type = ''content_block_stop'' then block_stop parse data st
      else if type = ''message_delta'' then message_delta data st
      else if type = ''message_stop'' then ([DoneEvent (an_stop (ss_message st)) (ss_message st)], st)
      else if type = ''error'' then anthropic_error data st
      else ([], st))"

text \<open>One line of a stream; an error ends the chunk, with the state as the line left it.\<close>

definition anthropic_line ::
    "(string \<Rightarrow> json option) \<Rightarrow> string \<Rightarrow> stream_state \<Rightarrow> (transform_error + stream_event list) \<times> stream_state" where
  "anthropic_line parse line st =
     (case strip_prefix ''event: '' line of
        Some type \<Rightarrow> (Inr [], st\<lparr>ss_provider := put ''event_type'' (JStr (trim type)) (ss_provider st)\<rparr>)
      | None \<Rightarrow>
          (case strip_prefix ''data: '' line of
             None \<Rightarrow> (Inr [], st)
           | Some data \<Rightarrow>
               (case parse (trim data) of
                  None \<Rightarrow> (Inl InvalidJson, st)
                | Some v \<Rightarrow>
                    (case process_anthropic_event parse (text_or_empty (ss_provider st) ''event_type'') v st of
                       (events, st') \<Rightarrow> (Inr events, st')))))"

text \<open>
  The lines of a chunk, which has no memory of the chunk before: an event whose line is cut by the network
  is read as two broken lines.
\<close>

fun read_lines ::
    "(string \<Rightarrow> 's \<Rightarrow> ('e + 'v list) \<times> 's) \<Rightarrow> string list \<Rightarrow> 's \<Rightarrow> ('e + 'v list) \<times> 's" where
  "read_lines handle [] st = (Inr [], st)"
| "read_lines handle (l # ls) st =
     (let line = trim l
      in if line = [] then read_lines handle ls st
         else (case handle line st of
                 (Inl e, st') \<Rightarrow> (Inl e, st')
               | (Inr events, st') \<Rightarrow>
                   (case read_lines handle ls st' of
                      (Inl e, st'') \<Rightarrow> (Inl e, st'')
                    | (Inr later, st'') \<Rightarrow> (Inr (events @ later), st''))))"

definition parse_stream_chunk ::
    "(string \<Rightarrow> 's \<Rightarrow> ('e + 'v list) \<times> 's) \<Rightarrow> string \<Rightarrow> 's \<Rightarrow> ('e + 'v list) \<times> 's" where
  "parse_stream_chunk handle chunk st = read_lines handle (split_at (CHR 0x0A) chunk) st"

end
