(* ===== verification/Transform_Relay.thy ===== *)
theory Transform_Relay
  imports Anthropic_Format
begin

section \<open>Translating a conversation (src/src/proxy.rs)\<close>

text \<open>
  The handler around the formats: a client's OpenAI request becomes a request of the provider's format,
  and the provider's answer becomes an OpenAI answer, streamed or whole. The clock is read once for each
  chunk; the reading of bytes as text, which replaces what is not UTF-8, is an argument.
\<close>

subsection \<open>The relay of an answer\<close>

record token_counts =
  tk_input :: u32
  tk_output :: u32
  tk_cached :: u32
  tk_cache_write :: u32

definition no_tokens :: token_counts where
  "no_tokens = \<lparr>tk_input = 0, tk_output = 0, tk_cached = 0, tk_cache_write = 0\<rparr>"

definition count_usage_event :: "canon_usage \<Rightarrow> token_counts" where
  "count_usage_event u =
     \<lparr>tk_input = us_prompt u, tk_output = us_completion u,
      tk_cached = (case us_cache_read u of Some n \<Rightarrow> n | None \<Rightarrow> 0),
      tk_cache_write = (case us_cache_creation u of Some n \<Rightarrow> n | None \<Rightarrow> 0)\<rparr>"

definition track_event :: "token_counts \<Rightarrow> stream_event \<Rightarrow> token_counts" where
  "track_event tk e = (case e of UsageEvent u \<Rightarrow> count_usage_event u | _ \<Rightarrow> tk)"

type_synonym line_handler = "string \<Rightarrow> stream_state \<Rightarrow> (transform_error + stream_event list) \<times> stream_state"

text \<open>A chunk that cannot be read goes to the client as it came.\<close>

definition relay_chunk ::
    "line_handler \<Rightarrow> (string \<Rightarrow> string) \<Rightarrow> (json \<Rightarrow> string) \<Rightarrow> chunk_frame \<Rightarrow> string \<Rightarrow> stream_state \<times> token_counts \<Rightarrow>
     string \<times> stream_state \<times> token_counts" where
  "relay_chunk handle lossy render f chunk s =
     (case s of (st, tk) \<Rightarrow>
        (case parse_stream_chunk handle (lossy chunk) st of
           (Inr events, st') \<Rightarrow> (concat (map (build_openai_sse render f) events), st', foldl track_event tk events)
         | (Inl e, st') \<Rightarrow> (chunk, st', tk)))"

fun relay_stream ::
    "line_handler \<Rightarrow> (string \<Rightarrow> string) \<Rightarrow> (json \<Rightarrow> string) \<Rightarrow> chunk_frame \<Rightarrow> string list \<Rightarrow> stream_state \<times> token_counts \<Rightarrow>
     string \<times> stream_state \<times> token_counts" where
  "relay_stream handle lossy render f [] s = ([], s)"
| "relay_stream handle lossy render f (c # cs) s =
     (case relay_chunk handle lossy render f c s of
        (out, s') \<Rightarrow> (case relay_stream handle lossy render f cs s' of (later, s'') \<Rightarrow> (out @ later, s'')))"

datatype whole_answer = BadGateway string | WholeAnswer json token_counts | FakeStream "string list" token_counts

text \<open>
  A whole answer for a client that asked for one. Its tokens are counted from the JSON that the client gets.
\<close>

definition counted_answer :: "json \<Rightarrow> token_counts" where
  "counted_answer answer =
     (let count = (\<lambda>k. case Option.bind (Option.bind (jget answer ''usage'') (\<lambda>u. jget u k)) as_u64 of
                         Some n \<Rightarrow> truncated n | None \<Rightarrow> 0)
      in no_tokens\<lparr>tk_input := count ''prompt_tokens'', tk_output := count ''completion_tokens''\<rparr>)"

definition answer_whole ::
    "(json \<Rightarrow> transform_error + stream_event list) \<Rightarrow> (string \<Rightarrow> json option) \<Rightarrow> (json \<Rightarrow> string) \<Rightarrow> chunk_frame \<Rightarrow> bool \<Rightarrow>
     string \<Rightarrow> whole_answer" where
  "answer_whole parse_response parse render f fake body =
     (case parse body of
        None \<Rightarrow> BadGateway ''Invalid upstream JSON''
      | Some v \<Rightarrow>
          (case parse_response v of
             Inl e \<Rightarrow> BadGateway ''Failed to parse upstream response''
           | Inr events \<Rightarrow>
               if fake
               then FakeStream (build_fake_openai_sse_from_events render f events)
                      (case find_map done_message events of
                         Some m \<Rightarrow> count_usage_event (an_usage m) | None \<Rightarrow> no_tokens)
               else let answer = build_openai_chat_completion_from_events render f events
                    in WholeAnswer answer (counted_answer answer)))"

subsection \<open>JSON objects of the formats\<close>

lemma jget_foldl_insert: "jget (JObj (foldl (\<lambda>m (k, v). obj_insert k v m) acc xs)) k =
    (case map_of (rev xs) k of Some v \<Rightarrow> Some v | None \<Rightarrow> map_of acc k)"
  by (induction xs arbitrary: acc) (auto simp: map_add_def split: option.splits)

lemma jget_jobj [simp]: "jget (jobj xs) k = map_of (rev xs) k"
  unfolding jobj_def by (subst jget_foldl_insert) (simp split: option.split)

lemma is_object_jobj [simp]: "is_object (jobj xs)"
  by (simp add: jobj_def)

lemma jindex_jobj [simp]: "jindex (jobj xs) k = (case map_of (rev xs) k of Some v \<Rightarrow> v | None \<Rightarrow> JNull)"
  by (simp add: jindex_def)

subsection \<open>What a conversation says\<close>

text \<open>
  The same reading of a conversation in the two formats: the texts with their speakers, the inline
  images, the calls and their results, in order.
\<close>

datatype utterance = Said string string | Shown string string | Called string string json | Returned string string

definition part_trace :: "string \<Rightarrow> json \<Rightarrow> utterance list" where
  "part_trace role p =
     (let type = text_or_empty p ''type''
      in if type = ''text'' then [Said role (text_or_empty p ''text'')]
         else if type = ''image''
         then [Shown (text_or_empty (jindex p ''source'') ''media_type'') (text_or_empty (jindex p ''source'') ''data'')]
         else if type = ''tool_use'' then [Called (text_or_empty p ''id'') (text_or_empty p ''name'') (jindex p ''input'')]
         else if type = ''tool_result'' then [Returned (text_or_empty p ''tool_use_id'') (text_or_empty p ''content'')]
         else [])"

definition parts_of :: "json \<Rightarrow> json list" where
  "parts_of msg = (case as_array (jindex msg ''content'') of Some ps \<Rightarrow> ps | None \<Rightarrow> [])"

definition anthropic_trace :: "json \<Rightarrow> utterance list" where
  "anthropic_trace msg = concat (map (part_trace (text_or_empty msg ''role'')) (parts_of msg))"

text \<open>A content of the OpenAI format as text: a string, or the text parts of a list.\<close>

definition content_text :: "json \<Rightarrow> string" where
  "content_text c =
     (case c of
        JStr s \<Rightarrow> s
      | JArr parts \<Rightarrow> concat (map (\<lambda>p. if text_or_empty p ''type'' = ''text'' then text_or_empty p ''text'' else []) parts)
      | _ \<Rightarrow> [])"

definition user_trace :: "json \<Rightarrow> utterance list" where
  "user_trace part =
     (if text_at part ''type'' \<in> {None, Some ''text''} then [Said ''user'' (text_or_empty part ''text'')]
      else if text_at part ''type'' = Some ''image_url''
      then (case parse_data_url (text_or_empty (jindex part ''image_url'') ''url'') of
              Some (mime, data) \<Rightarrow> [Shown mime data] | None \<Rightarrow> [])
      else [])"

definition call_trace :: "(string \<Rightarrow> json option) \<Rightarrow> json \<Rightarrow> utterance" where
  "call_trace parse tc =
     Called (text_or_empty tc ''id'') (text_or_empty (jindex tc ''function'') ''name'')
       (case Option.bind (text_at (jindex tc ''function'') ''arguments'') parse of Some v \<Rightarrow> v | None \<Rightarrow> JNull)"

definition openai_trace :: "(string \<Rightarrow> json option) \<Rightarrow> json \<Rightarrow> utterance list" where
  "openai_trace parse msg =
     (let role = text_or_empty msg ''role''; content = jindex msg ''content''
      in if role = ''user''
         then (case content of JArr parts \<Rightarrow> concat (map user_trace parts) | _ \<Rightarrow> [Said ''user'' (content_text content)])
         else if role = ''assistant''
         then Said ''assistant'' (content_text content) #
                (case as_array (jindex msg ''tool_calls'') of Some calls \<Rightarrow> map (call_trace parse) calls | None \<Rightarrow> [])
         else if role = ''tool'' then [Returned (text_or_empty msg ''tool_call_id'') (content_text content)]
         else [])"

fun spoken :: "utterance \<Rightarrow> bool" where
  "spoken (Said role s) = (\<not> blank s)"
| "spoken _ = True"

text \<open>The contents that the code reads as a single text are single texts.\<close>

definition single_texts :: "json \<Rightarrow> bool" where
  "single_texts msg \<longleftrightarrow>
     (text_at msg ''role'' \<in> {Some ''assistant'', Some ''tool''} \<longrightarrow> as_array (jindex msg ''content'') = None)"

subsection \<open>The trace of canonical messages\<close>

fun block_trace :: "string \<Rightarrow> canon_block \<Rightarrow> utterance list" where
  "block_trace role (TextPart s) = (if blank s then [] else [Said role s])"
| "block_trace role (ImagePart data mime is_url) = [Shown mime data]"
| "block_trace role (CallPart tc) = [Called (tc_id tc) (tc_name tc) (tc_arguments tc)]"
| "block_trace role (ResultPart cid content is_error) = [Returned cid content]"
| "block_trace role (ThinkingPart t sig) = []"

fun user_block :: "canon_block \<Rightarrow> bool" where
  "user_block (CallPart tc) = False"
| "user_block _ = True"

definition user_blocks :: "canon_block list \<Rightarrow> bool" where
  "user_blocks bs \<longleftrightarrow> list_all user_block bs"

fun assistant_block :: "canon_block \<Rightarrow> bool" where
  "assistant_block (ImagePart data mime is_url) = False"
| "assistant_block (ResultPart cid content is_error) = False"
| "assistant_block _ = True"

definition assistant_blocks :: "canon_block list \<Rightarrow> bool" where
  "assistant_blocks bs \<longleftrightarrow> list_all assistant_block bs"

fun canon_trace :: "canon_message \<Rightarrow> utterance list" where
  "canon_trace (UserMsg bs) = concat (map (block_trace ''user'') bs)"
| "canon_trace (AssistantMsg m) = concat (map (block_trace ''assistant'') (an_content m))"
| "canon_trace (ToolMsg tr) = [Returned (tr_call_id tr) (concat (map plain_text (tr_content tr)))]"
| "canon_trace (SystemMsg s) = []"

fun regular :: "canon_message \<Rightarrow> bool" where
  "regular (UserMsg bs) = user_blocks bs"
| "regular (AssistantMsg m) = assistant_blocks (an_content m)"
| "regular _ = True"

lemma text_or_empty_jobj: "text_or_empty (jobj xs) k = (case map_of (rev xs) k of Some (JStr s) \<Rightarrow> s | _ \<Rightarrow> [])"
  by (auto simp: text_or_empty_def text_at_def split: option.split json.split)

lemma part_trace_text: "part_trace role (text_json s) = [Said role s]"
  by (simp add: part_trace_def Let_def text_json_def text_or_empty_jobj)

lemma part_trace_put: "is_object p \<Longrightarrow> part_trace role (put ''cache_control'' v p) = part_trace role p"
  by (auto simp: is_object_conv part_trace_def Let_def text_or_empty_def text_at_def jindex_def put_def)

lemma user_part_trace:
  "user_part b = Inr ps \<Longrightarrow> user_block b \<Longrightarrow> concat (map (part_trace ''user'') ps) = block_trace ''user'' b"
  by (cases b) (auto simp: text_json_def part_trace_def Let_def text_or_empty_jobj split: if_splits)

lemma user_part_objects: "user_part b = Inr ps \<Longrightarrow> p \<in> set ps \<Longrightarrow> is_object p"
  by (cases b) (auto simp: text_json_def split: if_splits)

lemma assistant_part_trace:
  assumes "assistant_block b"
  shows "concat (map (part_trace ''assistant'') (case assistant_part b of Some p \<Rightarrow> [p] | None \<Rightarrow> [])) =
    block_trace ''assistant'' b"
proof (cases b)
  case (ThinkingPart t sig)
  then show ?thesis
    by (cases sig) (simp_all add: put_some_def part_trace_def Let_def text_or_empty_def text_at_def jindex_def put_def jobj_def)
next
  case (CallPart tc)
  then show ?thesis by (simp add: part_trace_def Let_def text_or_empty_jobj)
qed (use assms in \<open>simp_all add: part_trace_text\<close>)

lemma build_content_trace:
  assumes "build_anthropic_content bs = Inr ps" and "user_blocks bs"
  shows "concat (map (part_trace ''user'') ps) = concat (map (block_trace ''user'') bs) \<and> (\<forall>p \<in> set ps. is_object p)"
proof -
  from assms(1) obtain pss where t: "traverse user_part bs = Inr pss" and ps: "ps = concat pss"
    by (cases "traverse user_part bs") (auto simp: build_anthropic_content_def)
  from t have "list_all2 (\<lambda>b ps. user_part b = Inr ps) bs pss" by (simp add: traverse_Inr)
  then show ?thesis using assms(2) unfolding ps
  proof (induction rule: list_all2_induct)
    case (Cons b bs qs pss)
    from Cons.prems have u: "user_blocks bs" "user_block b" by (simp_all add: user_blocks_def)
    show ?case using Cons.IH [OF u(1)] user_part_trace [OF Cons.hyps(1) u(2)] user_part_objects [OF Cons.hyps(1)] by auto
  qed simp
qed

lemma map_filter_concat: "List.map_filter f xs = concat (map (\<lambda>x. case f x of Some y \<Rightarrow> [y] | None \<Rightarrow> []) xs)"
  by (induction xs) (auto simp: map_filter_simps split: option.split)

lemma build_assistant_trace:
  assumes "assistant_blocks bs"
  shows "concat (map (part_trace ''assistant'') (build_anthropic_assistant_content bs)) =
    concat (map (block_trace ''assistant'') bs)"
  using assms
proof (induction bs)
  case (Cons b bs)
  have "assistant_blocks bs" using Cons.prems by (simp add: assistant_blocks_def)
  moreover have "concat (map (part_trace ''assistant'') (case assistant_part b of Some p \<Rightarrow> [p] | None \<Rightarrow> [])) =
      block_trace ''assistant'' b"
    using Cons.prems by (intro assistant_part_trace) (simp add: assistant_blocks_def)
  ultimately show ?case using Cons.IH by (simp add: build_anthropic_assistant_content_def map_filter_concat)
qed (simp add: build_anthropic_assistant_content_def map_filter_simps)

lemma mark_last_trace:
  assumes "\<forall>p \<in> set ps. is_object p"
  shows "concat (map (part_trace role) (mark_last ps)) = concat (map (part_trace role) ps)"
proof (cases ps rule: rev_cases)
  case (snoc qs p)
  with assms have "is_object p" by simp
  with snoc show ?thesis by (simp add: mark_last_def part_trace_put)
qed (simp add: mark_last_def)

lemma role_message_parts [simp]:
  "parts_of (role_message role ps) = ps" "text_or_empty (role_message role ps) ''role'' = role"
  by (simp_all add: parts_of_def role_message_def text_or_empty_jobj)

lemma anthropic_message_trace:
  assumes "anthropic_message mark m = Inr r" and "regular m"
  shows "(case r of Some j \<Rightarrow> anthropic_trace j | None \<Rightarrow> []) = canon_trace m"
proof (cases m)
  case (UserMsg bs)
  with assms(1) obtain ps where b: "build_anthropic_content bs = Inr ps" by (auto split: sum.splits)
  from assms(2) UserMsg have "user_blocks bs" by simp
  from build_content_trace [OF b this] assms(1) UserMsg b show ?thesis
    by (cases ps) (auto simp: anthropic_trace_def mark_last_trace)
next
  case (AssistantMsg a)
  with assms(2) build_assistant_trace [of "an_content a"] assms(1) show ?thesis
    by (cases "build_anthropic_assistant_content (an_content a)") (auto simp: anthropic_trace_def)
next
  case (ToolMsg tr)
  with assms(1) show ?thesis
    by (auto simp: anthropic_trace_def part_trace_def result_json_def Let_def text_or_empty_jobj)
qed (use assms(1) in simp)

lemma build_messages_trace:
  assumes "build_anthropic_messages cache msgs = Inr out" and "\<forall>m \<in> set msgs. regular m"
  shows "concat (map anthropic_trace out) = concat (map canon_trace msgs)"
proof -
  let ?f = "\<lambda>(i, m). anthropic_message (cache \<and> last_user_index msgs = Some i) m"
  from assms(1) obtain rs where t: "traverse ?f (enumerate 0 msgs) = Inr rs" and out: "out = List.map_filter (\<lambda>m. m) rs"
    by (cases "traverse ?f (enumerate 0 msgs)") (auto simp: build_anthropic_messages_def)
  from t have "list_all2 (\<lambda>x r. ?f x = Inr r) (enumerate 0 msgs) rs" by (simp add: traverse_Inr)
  moreover have "\<forall>x \<in> set (enumerate 0 msgs). regular (snd x)" using assms(2) by (auto simp: in_set_enumerate_eq)
  ultimately have "concat (map anthropic_trace (List.map_filter (\<lambda>m. m) rs)) = concat (map (canon_trace \<circ> snd) (enumerate 0 msgs))"
  proof (induction rule: list_all2_induct)
    case (Cons x xs r rs)
    obtain i m where x: "x = (i, m)" by (cases x)
    from Cons.hyps(1) x have "anthropic_message (cache \<and> last_user_index msgs = Some i) m = Inr r" by simp
    moreover have "regular m" using Cons.prems x by simp
    ultimately have "(case r of Some j \<Rightarrow> anthropic_trace j | None \<Rightarrow> []) = canon_trace m" by (rule anthropic_message_trace)
    with Cons.IH Cons.prems x show ?case by (cases r) (auto simp: map_filter_simps)
  qed (simp add: map_filter_simps)
  then show ?thesis unfolding out by (simp flip: map_map)
qed

subsection \<open>The trace of an OpenAI request\<close>

lemma concat_map_concat: "concat (map g (concat xss)) = concat (map (\<lambda>xs. concat (map g xs)) xss)"
  by (induction xss) auto

fun inline_image :: "canon_block \<Rightarrow> bool" where
  "inline_image (ImagePart data mime is_url) = (\<not> is_url)"
| "inline_image _ = True"

fun inline_images :: "canon_message \<Rightarrow> bool" where
  "inline_images (UserMsg bs) = list_all inline_image bs"
| "inline_images _ = True"

lemma parse_user_part_trace:
  assumes "list_all inline_image (parse_user_part part)"
  shows "concat (map (block_trace ''user'') (parse_user_part part)) = filter spoken (user_trace part)"
proof (cases "text_at part ''type''")
  case (Some t)
  consider "t = ''text''" | "t \<noteq> ''text''" "t = ''image_url''" | "t \<noteq> ''text''" "t \<noteq> ''image_url''" by blast
  then show ?thesis
  proof cases
    case 2
    with Some assms show ?thesis
      by (cases "parse_data_url (text_or_empty (jindex part ''image_url'') ''url'')"; simp add: parse_user_part_def user_trace_def Let_def split: if_splits prod.split)
  qed (use Some in \<open>simp_all add: parse_user_part_def user_trace_def Let_def\<close>)
qed (simp add: parse_user_part_def user_trace_def Let_def)

lemma parse_user_part_blocks: "list_all user_block (parse_user_part part)"
  by (auto simp: parse_user_part_def Let_def split: option.splits)

lemma parse_user_message_blocks: "user_blocks (parse_user_message msg)"
  using parse_user_part_blocks
  by (auto simp: parse_user_message_def user_blocks_def list_all_iff split: json.split)

lemma parse_user_message_trace:
  assumes "text_at msg ''role'' = Some ''user''" and "list_all inline_image (parse_user_message msg)"
  shows "concat (map (block_trace ''user'') (parse_user_message msg)) = filter spoken (openai_trace parse msg)"
proof -
  have role: "text_or_empty msg ''role'' = ''user''" using assms(1) by (simp add: text_or_empty_def)
  show ?thesis
  proof (cases "jindex msg ''content''")
    case (JArr parts)
    then have "\<forall>part \<in> set parts. concat (map (block_trace ''user'') (parse_user_part part)) = filter spoken (user_trace part)"
      using assms(2) by (intro ballI parse_user_part_trace) (auto simp: parse_user_message_def list_all_iff)
    with JArr role show ?thesis
      by (simp add: parse_user_message_def openai_trace_def Let_def concat_map_concat filter_concat comp_def cong: map_cong)
  qed (simp_all add: parse_user_message_def openai_trace_def role Let_def content_text_def)
qed

lemma parse_message_trace:
  assumes "parse_message parse msg = Inr p" and "single_texts msg" and "\<forall>m \<in> set (talk_of p). inline_images m"
  shows "concat (map canon_trace (talk_of p)) = filter spoken (openai_trace parse msg) \<and> (\<forall>m \<in> set (talk_of p). regular m)"
proof -
  from assms(1) obtain role where role: "text_at msg ''role'' = Some role" by (auto simp: parse_message_def split: option.splits)
  then have r: "text_or_empty msg ''role'' = role" by (simp add: text_or_empty_def)
  consider (sys) "role \<in> {''system'', ''developer''}" | (user) "role = ''user''" | (assistant) "role = ''assistant''"
    | (tool) "role = ''tool''" | (other) "role \<notin> {''system'', ''developer'', ''user'', ''assistant'', ''tool''}" by blast
  then show ?thesis
  proof cases
    case sys
    with assms(1) role r show ?thesis by (auto simp: parse_message_def openai_trace_def)
  next
    case user
    with assms(1) role have p: "p = Talk (UserMsg (parse_user_message msg))" by (simp add: parse_message_def)
    from assms(3) p have "list_all inline_image (parse_user_message msg)" by simp
    from parse_user_message_trace [OF _ this] role user p show ?thesis by (simp add: parse_user_message_blocks)
  next
    case assistant
    with assms(1) role have p: "p = Talk (AssistantMsg (parse_assistant_message parse msg))" by (simp add: parse_message_def)
    from assms(2) role assistant have "as_array (jindex msg ''content'') = None" by (simp add: single_texts_def)
    then have "content_text (jindex msg ''content'') = text_or_empty msg ''content''"
      "text_at msg ''content'' = None \<Longrightarrow> text_or_empty msg ''content'' = []"
      by (cases "jindex msg ''content''"; simp add: content_text_def text_or_empty_def text_at_def)+
    with p r assistant show ?thesis
      by (auto simp: openai_trace_def parse_assistant_message_def assistant_blocks_def parse_call_def call_trace_def
          text_or_empty_def comp_def assistant_default_def filter_map list_all_iff split: option.splits)
  next
    case tool
    from assms(2) role tool have "as_array (jindex msg ''content'') = None" by (simp add: single_texts_def)
    then have "content_text (jindex msg ''content'') = text_or_empty msg ''content''"
      by (cases "jindex msg ''content''"; simp add: content_text_def text_or_empty_def text_at_def)
    with assms(1) role r tool show ?thesis
      by (auto simp: parse_message_def parse_tool_message_def openai_trace_def text_or_empty_def split: option.splits)
  next
    case other
    with assms(1) role r show ?thesis by (auto simp: parse_message_def openai_trace_def)
  qed
qed



lemma build_content_inline: "build_anthropic_content bs = Inr ps \<Longrightarrow> list_all inline_image bs"
proof (induction bs arbitrary: ps)
  case (Cons b bs)
  then show ?case
    by (cases b; cases "traverse user_part bs") (auto simp: build_anthropic_content_def split: sum.splits if_splits)
qed simp

lemma anthropic_message_inline: "anthropic_message mark m = Inr r \<Longrightarrow> inline_images m"
  by (cases m) (auto dest: build_content_inline split: sum.splits)

lemma list_all2_left: "list_all2 P xs ys \<Longrightarrow> x \<in> set xs \<Longrightarrow> \<exists>y. P x y"
  by (induction rule: list_all2_induct) auto

lemma build_messages_inline:
  assumes "build_anthropic_messages cache msgs = Inr out"
  shows "\<forall>m \<in> set msgs. inline_images m"
proof
  let ?f = "\<lambda>(i, m). anthropic_message (cache \<and> last_user_index msgs = Some i) m"
  fix m assume "m \<in> set msgs"
  then have "m \<in> snd ` set (enumerate 0 msgs)" by (metis map_snd_enumerate set_map)
  then obtain i where im: "(i, m) \<in> set (enumerate 0 msgs)" by auto
  from assms obtain rs where "traverse ?f (enumerate 0 msgs) = Inr rs"
    by (cases "traverse ?f (enumerate 0 msgs)") (auto simp: build_anthropic_messages_def)
  then have "list_all2 (\<lambda>x r. ?f x = Inr r) (enumerate 0 msgs) rs" by (simp add: traverse_Inr)
  from list_all2_left [OF this im] obtain r where "?f (i, m) = Inr r" by auto
  then show "inline_images m" by (auto dest: anthropic_message_inline)
qed

lemma parsed_messages_trace:
  assumes "traverse (parse_message parse) msgs = Inr parsed" and "list_all single_texts msgs"
    and "\<forall>m \<in> set (concat (map talk_of parsed)). inline_images m"
  shows "concat (map canon_trace (concat (map talk_of parsed))) = filter spoken (concat (map (openai_trace parse) msgs)) \<and>
    (\<forall>m \<in> set (concat (map talk_of parsed)). regular m)"
proof -
  from assms(1) have "list_all2 (\<lambda>x y. parse_message parse x = Inr y) msgs parsed" by (simp add: traverse_Inr)
  then show ?thesis using assms(2,3)
  proof (induction rule: list_all2_induct)
    case (Cons msg msgs p parsed)
    from Cons.prems have one: "single_texts msg" "\<forall>m \<in> set (talk_of p). inline_images m" by auto
    from Cons.IH Cons.prems parse_message_trace [OF Cons.hyps(1) one] show ?case by auto
  qed simp
qed

lemma put_some_object: "is_object j \<Longrightarrow> is_object (put_some k v j)"
  by (cases v) (auto simp: put_some_def put_def is_object_conv)

lemma put_is_object: "is_object j \<Longrightarrow> is_object (put k v j)"
  by (auto simp: put_def is_object_conv)

lemma jget_put_object: "is_object j \<Longrightarrow> jget (put k v j) k' = (if k = k' then Some v else jget j k')"
  by (auto simp: put_def is_object_conv)

lemma jget_put_some_object:
  "is_object j \<Longrightarrow> jget (put_some k v j) k' = (if k = k' \<and> v \<noteq> None then v else jget j k')"
  by (cases v) (auto simp: put_some_def jget_put_object)

lemma map_of_without: "map_of (filter (\<lambda>(k', _). k' \<noteq> k) m) k' = (if k = k' then None else map_of m k')"
  by (induction m) auto

lemma jget_without_field: "k \<noteq> k' \<Longrightarrow> jget (without_field k j) k' = jget j k'"
  by (cases j) (auto simp: without_field_def map_of_without)

lemmas request_object = put_some_object put_is_object jget_put_object jget_put_some_object

lemma apply_tool_choice_messages:
  "is_object j \<Longrightarrow> jget (apply_tool_choice original j) ''messages'' = jget j ''messages''"
  by (auto simp: apply_tool_choice_def request_object jget_without_field split: option.split tool_choice.split)

lemma transform_request_messages:
  assumes "anthropic_transform_request cache cx = Inr req"
  obtains out where "build_anthropic_messages cache (cx_messages cx) = Inr out" and "jget req ''messages'' = Some (JArr out)"
proof -
  from assms obtain out where b: "build_anthropic_messages cache (cx_messages cx) = Inr out"
    by (auto simp: anthropic_transform_request_def split: sum.splits)
  with assms have "jget req ''messages'' = Some (JArr out)"
    by (auto simp: anthropic_transform_request_def Let_def apply_tool_choice_messages request_object)
  with b show thesis by (rule that)
qed

lemma conversation_trace:
  assumes "parse_openai_request parse body = Inr cx" and "anthropic_transform_request cache cx = Inr req"
    and "as_array (jindex body ''messages'') = Some msgs" and "list_all single_texts msgs"
  shows "\<exists>out. jget req ''messages'' = Some (JArr out) \<and>
    concat (map anthropic_trace out) = filter spoken (concat (map (openai_trace parse) msgs))"
proof -
  from assms(2) obtain out where b: "build_anthropic_messages cache (cx_messages cx) = Inr out"
    and req: "jget req ''messages'' = Some (JArr out)" by (rule transform_request_messages)
  from assms(1,3) obtain parsed where t: "traverse (parse_message parse) msgs = Inr parsed"
    and cx: "cx_messages cx = concat (map talk_of parsed)"
    by (auto simp: parse_openai_request_def split: option.splits sum.splits)
  have "\<forall>m \<in> set (concat (map talk_of parsed)). inline_images m" using build_messages_inline [OF b] cx by simp
  from parsed_messages_trace [OF t assms(4) this] have
    "concat (map canon_trace (cx_messages cx)) = filter spoken (concat (map (openai_trace parse) msgs))"
    and "\<forall>m \<in> set (cx_messages cx). regular m" by (simp_all add: cx)
  with build_messages_trace [OF b] req show ?thesis by simp
qed

subsection \<open>Every message says something\<close>

text \<open>A provider refuses a message without content and a blank text.\<close>

definition says_something :: "json \<Rightarrow> bool" where
  "says_something j \<longleftrightarrow>
     text_or_empty j ''role'' \<in> {''user'', ''assistant''} \<and> parts_of j \<noteq> [] \<and>
     list_all (\<lambda>p. text_or_empty p ''type'' = ''text'' \<longrightarrow> \<not> blank (text_or_empty p ''text'')) (parts_of j)"

definition full_part :: "json \<Rightarrow> bool" where
  "full_part p \<longleftrightarrow> is_object p \<and> (text_or_empty p ''type'' = ''text'' \<longrightarrow> \<not> blank (text_or_empty p ''text''))"

lemma user_part_full: "user_part b = Inr ps \<Longrightarrow> list_all full_part ps"
  by (cases b) (auto simp: full_part_def text_json_def text_or_empty_jobj split: if_splits)

lemma assistant_part_full: "assistant_part b = Some p \<Longrightarrow> full_part p"
  by (cases b)
    (auto simp: full_part_def text_json_def text_or_empty_jobj put_some_object text_or_empty_def text_at_def
      jindex_def jget_put_some_object split: if_splits)

lemma build_content_full:
  assumes "build_anthropic_content bs = Inr ps"
  shows "list_all full_part ps"
proof -
  from assms obtain pss where "traverse user_part bs = Inr pss" and ps: "ps = concat pss"
    by (cases "traverse user_part bs") (auto simp: build_anthropic_content_def)
  then have "list_all2 (\<lambda>b ps. user_part b = Inr ps) bs pss" by (simp add: traverse_Inr)
  then show ?thesis unfolding ps
    by (induction rule: list_all2_induct) (auto dest: user_part_full)
qed

lemma build_assistant_full: "list_all full_part (build_anthropic_assistant_content bs)"
  by (induction bs) (auto simp: build_anthropic_assistant_content_def map_filter_simps assistant_part_full split: option.split)

lemma put_cache_full: "full_part p \<Longrightarrow> full_part (put ''cache_control'' v p)"
  by (simp add: full_part_def put_is_object text_or_empty_def text_at_def jindex_def jget_put_object)

lemma mark_last_full: "list_all full_part ps \<Longrightarrow> list_all full_part (mark_last ps)"
  by (cases ps rule: rev_cases) (simp_all add: mark_last_def put_cache_full)

lemma role_message_full:
  "list_all full_part ps \<Longrightarrow> ps \<noteq> [] \<Longrightarrow> role \<in> {''user'', ''assistant''} \<Longrightarrow> says_something (role_message role ps)"
  unfolding says_something_def role_message_parts by (auto simp: full_part_def list_all_iff)

lemma mark_last_nonempty [simp]: "mark_last ps = [] \<longleftrightarrow> ps = []"
  by (simp add: mark_last_def)

lemma anthropic_message_full:
  assumes "anthropic_message mark m = Inr (Some j)"
  shows "says_something j"
proof (cases m)
  case (UserMsg bs)
  with assms obtain ps where b: "build_anthropic_content bs = Inr ps" and ps: "ps \<noteq> []"
    and j: "j = role_message ''user'' (if mark then mark_last ps else ps)" by (auto split: sum.splits list.splits)
  show ?thesis unfolding j using build_content_full [OF b] ps by (intro role_message_full) (auto simp: mark_last_full)
next
  case (AssistantMsg a)
  with assms have ps: "build_anthropic_assistant_content (an_content a) \<noteq> []"
    and j: "j = role_message ''assistant'' (build_anthropic_assistant_content (an_content a))" by (auto split: list.splits)
  show ?thesis unfolding j using ps by (intro role_message_full build_assistant_full) auto
next
  case (ToolMsg tr)
  with assms have j: "j = role_message ''user'' [result_json tr]" by simp
  have "full_part (result_json tr)" by (simp add: full_part_def result_json_def Let_def text_or_empty_jobj)
  then show ?thesis unfolding j by (intro role_message_full) auto
qed (use assms in simp)

lemma build_messages_full:
  assumes "build_anthropic_messages cache msgs = Inr out"
  shows "list_all says_something out"
proof -
  let ?f = "\<lambda>(i, m). anthropic_message (cache \<and> last_user_index msgs = Some i) m"
  from assms obtain rs where t: "traverse ?f (enumerate 0 msgs) = Inr rs" and out: "out = List.map_filter (\<lambda>m. m) rs"
    by (cases "traverse ?f (enumerate 0 msgs)") (auto simp: build_anthropic_messages_def)
  from t have "list_all2 (\<lambda>x r. ?f x = Inr r) (enumerate 0 msgs) rs" by (simp add: traverse_Inr)
  then show ?thesis unfolding out
    by (induction rule: list_all2_induct)
      (auto simp: map_filter_simps dest: anthropic_message_full split: option.split)
qed

subsection \<open>Reading a stream\<close>

text \<open>
  What the relay needs of a format: each line keeps an invariant of the state of the stream, and each of its
  events is one the relay can count on.
\<close>

locale stream_format =
  fixes handle :: line_handler
    and good :: "stream_state \<Rightarrow> bool"
    and fine :: "stream_event \<Rightarrow> bool"
  assumes line_good: "good st \<Longrightarrow> handle line st = (r, st') \<Longrightarrow> good st'"
    and line_fine: "good st \<Longrightarrow> handle line st = (Inr es, st') \<Longrightarrow> list_all fine es"
begin

lemma lines_ok:
  "good st \<Longrightarrow> read_lines handle ls st = (r, st') \<Longrightarrow> good st' \<and> (\<forall>es. r = Inr es \<longrightarrow> list_all fine es)"
proof (induction ls arbitrary: st r st')
  case (Cons l ls)
  show ?case
  proof (cases "trim l = []")
    case False
    obtain r1 st1 where h: "handle (trim l) st = (r1, st1)" by fastforce
    with Cons.prems(1) have g: "good st1" by (rule line_good)
    obtain r2 st2 where rest: "read_lines handle ls st1 = (r2, st2)" by fastforce
    from Cons.IH [OF g rest] g h rest False Cons.prems show ?thesis
      by (cases r1; cases r2) (auto simp: Let_def dest: line_fine)
  qed (use Cons in simp)
qed auto

definition relayed :: "stream_state \<times> token_counts \<Rightarrow> bool" where
  "relayed s \<longleftrightarrow> good (fst s) \<and> (\<exists>es. list_all fine es \<and> snd s = foldl track_event no_tokens es)"

lemma relay_chunk_relayed:
  assumes "relayed s" and "relay_chunk handle lossy render f c s = (out, s')"
  shows "relayed s'"
proof -
  obtain st tk where s: "s = (st, tk)" by fastforce
  from assms(1) s obtain es where g: "good st" and es: "list_all fine es" "tk = foldl track_event no_tokens es"
    by (auto simp: relayed_def)
  obtain r st' where p: "read_lines handle (split_at (CHR 0x0A) (lossy c)) st = (r, st')" by fastforce
  from lines_ok [OF g p] have ok: "good st'" "\<forall>es'. r = Inr es' \<longrightarrow> list_all fine es'" by simp_all
  show ?thesis
  proof (cases r)
    case (Inr es')
    with assms(2) s p have "s' = (st', foldl track_event no_tokens (es @ es'))"
      by (auto simp: relay_chunk_def parse_stream_chunk_def es(2))
    moreover have "list_all fine (es @ es')" using es(1) ok(2) Inr by simp
    ultimately show ?thesis using ok(1) unfolding relayed_def by (metis fst_conv snd_conv)
  qed (use assms(2) s p ok(1) es in \<open>auto simp: relay_chunk_def parse_stream_chunk_def relayed_def\<close>)
qed

lemma relay_stream_relayed: "relayed s \<Longrightarrow> relay_stream handle lossy render f cs s = (out, s') \<Longrightarrow> relayed s'"
proof (induction cs arbitrary: s out)
  case (Cons c cs)
  then show ?case by (auto split: prod.splits dest: relay_chunk_relayed)
qed simp

lemma relayed_start: "good st \<Longrightarrow> relayed (st, no_tokens)"
  by (auto simp: relayed_def intro: exI [of _ "[]"])

end

subsection \<open>The tokens of the cache\<close>

text \<open>The streamed Anthropic answer never fills in the tokens that were read from or written to the cache.\<close>

definition uncached :: "canon_usage \<Rightarrow> bool" where
  "uncached u \<longleftrightarrow> us_cache_read u = None \<and> us_cache_creation u = None"

fun uncached_event :: "stream_event \<Rightarrow> bool" where
  "uncached_event (UsageEvent u) = uncached u"
| "uncached_event _ = True"

definition uncached_state :: "stream_state \<Rightarrow> bool" where
  "uncached_state st \<longleftrightarrow> uncached (an_usage (ss_message st))"

lemmas anthropic_events = message_start_def block_start_def block_delta_def block_stop_def message_delta_def
  anthropic_error_def process_anthropic_event_def

lemma anthropic_event_uncached:
  assumes "uncached_state st" and "process_anthropic_event parse type data st = (es, st')"
  shows "uncached_state st'" and "list_all uncached_event es"
proof -
  have "uncached_state (snd (process_anthropic_event parse type data st)) \<and>
      list_all uncached_event (fst (process_anthropic_event parse type data st))"
    using assms(1)
    by (auto simp: anthropic_events Let_def uncached_state_def uncached_def append_text_def add_part_def set_message_def
        split: option.split block_type.split)
  then show "uncached_state st'" and "list_all uncached_event es" by (simp_all add: assms(2))
qed

interpretation anthropic_tokens: stream_format "anthropic_line parse" uncached_state uncached_event for parse
proof
  fix st line r st'
  assume "uncached_state st" and "anthropic_line parse line st = (r, st')"
  then show "uncached_state st'"
    by (auto simp: anthropic_line_def uncached_state_def split: option.splits prod.splits
        dest: anthropic_event_uncached(1) [unfolded uncached_state_def])
next
  fix st line es st'
  assume "uncached_state st" and "anthropic_line parse line st = (Inr es, st')"
  then show "list_all uncached_event es"
    by (auto simp: anthropic_line_def split: option.splits prod.splits dest: anthropic_event_uncached(2))
qed

lemma uncached_counts:
  "list_all uncached_event es \<Longrightarrow> tk_cached tk = 0 \<and> tk_cache_write tk = 0 \<Longrightarrow>
   tk_cached (foldl track_event tk es) = 0 \<and> tk_cache_write (foldl track_event tk es) = 0"
proof (induction es arbitrary: tk)
  case (Cons e es)
  then have "tk_cached (track_event tk e) = 0 \<and> tk_cache_write (track_event tk e) = 0"
    by (cases e) (auto simp: track_event_def count_usage_event_def uncached_def)
  with Cons show ?case by simp
qed simp

lemma streamed_tokens_of_cache:
  "relay_stream (anthropic_line parse) lossy render f cs (stream_state_default, no_tokens) = (out, st, tk) \<Longrightarrow>
   tk_cached tk = 0 \<and> tk_cache_write tk = 0"
proof -
  assume r: "relay_stream (anthropic_line parse) lossy render f cs (stream_state_default, no_tokens) = (out, st, tk)"
  have "uncached_state stream_state_default"
    by (simp add: uncached_state_def stream_state_default_def assistant_default_def no_usage_def uncached_def)
  from anthropic_tokens.relay_stream_relayed [OF anthropic_tokens.relayed_start [OF this] r]
  show ?thesis by (auto simp: anthropic_tokens.relayed_def no_tokens_def intro!: uncached_counts)
qed

subsection \<open>Where the network cuts a stream\<close>

lemma read_lines_append:
  "read_lines handle (xs @ ys) st =
     (case read_lines handle xs st of
        (Inl e, st') \<Rightarrow> (Inl e, st')
      | (Inr es, st') \<Rightarrow>
          (case read_lines handle ys st' of (Inl e, st'') \<Rightarrow> (Inl e, st'') | (Inr later, st'') \<Rightarrow> (Inr (es @ later), st'')))"
proof (induction xs arbitrary: st)
  case (Cons x xs)
  then show ?case by (simp add: Let_def split: prod.split sum.split)
qed (simp split: prod.split sum.split)

lemma trim_Nil [simp]: "trim [] = []"
  by (simp add: trim_def trim_start_def)

lemma chunk_of_lines:
  assumes "parse_stream_chunk handle (a @ newline) st = (Inr es, st')" and "parse_stream_chunk handle b st' = (Inr later, st'')"
  shows "parse_stream_chunk handle (a @ newline @ b) st = (Inr (es @ later), st'')"
proof -
  have "split_at (CHR 0x0A) (a @ newline) = split_at (CHR 0x0A) a @ [[]]" by (simp add: newline_def split_at_both)
  with assms(1) have "read_lines handle (split_at (CHR 0x0A) a) st = (Inr es, st')"
    by (auto simp: parse_stream_chunk_def read_lines_append Let_def split: prod.splits sum.splits)
  with assms(2) show ?thesis by (simp add: parse_stream_chunk_def newline_def split_at_both read_lines_append)
qed

text \<open>A chunk that ends inside the JSON of an event is not read: the client gets the provider's bytes.\<close>

lemma cut_line:
  assumes "strip_prefix ''event: '' (trim line) = None" and "strip_prefix ''data: '' (trim line) = Some rest"
    and "parse (trim rest) = None" and "CHR 0x0A \<notin> set line"
  shows "parse_stream_chunk (anthropic_line parse) line st = (Inl InvalidJson, st)"
proof -
  have "trim line \<noteq> []" using assms(2) by (metis option.distinct(1) strip_prefix.simps(2))
  with assms show ?thesis
    by (simp add: parse_stream_chunk_def split_at_none Let_def anthropic_line_def)
qed

subsection \<open>Blocks that arrive in pieces\<close>

fun delta_of :: "nat \<Rightarrow> stream_event \<Rightarrow> string" where
  "delta_of i (TextDelta j d) = (if i = j then d else [])"
| "delta_of i (ThinkingDelta j d) = (if i = j then d else [])"
| "delta_of i (ToolCallDelta j d) = (if i = j then d else [])"
| "delta_of i _ = []"

definition so_far :: "nat \<Rightarrow> stream_event list \<Rightarrow> string" where
  "so_far i es = concat (map (delta_of i) es)"

lemma so_far_simps [simp]:
  "so_far i [] = []" "so_far i (es @ es') = so_far i es @ so_far i es'" "so_far i (e # es) = delta_of i e @ so_far i es"
  by (simp_all add: so_far_def)

text \<open>An event that ends a block says what its pieces said, all of them and in order.\<close>

fun ends_with_pieces :: "(string \<Rightarrow> json option) \<Rightarrow> stream_event list \<Rightarrow> stream_event \<Rightarrow> bool" where
  "ends_with_pieces parse before (TextEnd i s) \<longleftrightarrow> s = so_far i before"
| "ends_with_pieces parse before (ThinkingEnd i s sig) \<longleftrightarrow> s = so_far i before"
| "ends_with_pieces parse before (ToolCallEnd i tc) \<longleftrightarrow>
     tc_arguments tc = (case parse (so_far i before) of Some v \<Rightarrow> v | None \<Rightarrow> JNull)"
| "ends_with_pieces parse before _ \<longleftrightarrow> True"

fun part_ended :: "stream_event \<Rightarrow> canon_block list" where
  "part_ended (TextEnd i s) = [TextPart s]"
| "part_ended (ThinkingEnd i s sig) = [ThinkingPart s sig]"
| "part_ended (ToolCallEnd i tc) = [CallPart tc]"
| "part_ended _ = []"

fun pieces_complete :: "(string \<Rightarrow> json option) \<Rightarrow> stream_event list \<Rightarrow> stream_event list \<Rightarrow> bool" where
  "pieces_complete parse before [] \<longleftrightarrow> True"
| "pieces_complete parse before (e # es) \<longleftrightarrow> ends_with_pieces parse before e \<and> pieces_complete parse (before @ [e]) es"

lemma pieces_complete_append:
  "pieces_complete parse before (es @ es') \<longleftrightarrow> pieces_complete parse before es \<and> pieces_complete parse (before @ es) es'"
  by (induction es arbitrary: before) auto

definition tracks :: "stream_event list \<Rightarrow> stream_state \<Rightarrow> bool" where
  "tracks es st \<longleftrightarrow>
     (\<forall>i. so_far i es = (if i < length (ss_blocks st) then bk_text (ss_blocks st ! i) else [])) \<and>
     an_content (ss_message st) = concat (map part_ended es)"

lemma tracks_text: "tracks es st \<Longrightarrow> i < length (ss_blocks st) \<Longrightarrow> bk_text (ss_blocks st ! i) = so_far i es"
  by (simp add: tracks_def)

lemma message_start_tracks:
  "tracks es st \<Longrightarrow> message_start data st = (es', st') \<Longrightarrow> tracks (es @ es') st' \<and> pieces_complete parse es es'"
  by (auto simp: message_start_def Let_def tracks_def split: option.splits)

lemma message_delta_tracks:
  "tracks es st \<Longrightarrow> message_delta data st = (es', st') \<Longrightarrow> tracks (es @ es') st' \<and> pieces_complete parse es es'"
  by (auto simp: message_delta_def Let_def tracks_def set_message_def split: option.splits)

lemma anthropic_error_tracks:
  "tracks es st \<Longrightarrow> anthropic_error data st = (es', st') \<Longrightarrow> tracks (es @ es') st' \<and> pieces_complete parse es es'"
  by (auto simp: anthropic_error_def Let_def tracks_def set_message_def split: option.splits)

text \<open>Starting a block adds empty blocks, or keeps the text of the block that is there.\<close>

definition same_texts :: "block_state list \<Rightarrow> block_state list \<Rightarrow> bool" where
  "same_texts bs bs' \<longleftrightarrow> length bs \<le> length bs' \<and>
     (\<forall>i < length bs'. bk_text (bs' ! i) = (if i < length bs then bk_text (bs ! i) else []))"

lemma blocks_up_to_texts: "same_texts bs (blocks_up_to i bs)"
  by (auto simp: same_texts_def blocks_up_to_def nth_append block_default_def)

lemma length_blocks_up_to: "i < length (blocks_up_to i bs)"
  by (simp add: blocks_up_to_def)

lemma same_texts_update:
  "same_texts bs bs' \<Longrightarrow> i < length bs' \<Longrightarrow> bk_text b = bk_text (bs' ! i) \<Longrightarrow> same_texts bs (bs'[i := b])"
  by (auto simp: same_texts_def nth_list_update)

lemma tracks_same_texts:
  "tracks es st \<Longrightarrow> same_texts (ss_blocks st) bs \<Longrightarrow> (\<forall>i. so_far i es' = []) \<Longrightarrow> concat (map part_ended es') = [] \<Longrightarrow>
   tracks (es @ es') (st\<lparr>ss_blocks := bs\<rparr>)"
  by (auto simp: tracks_def same_texts_def)

lemma block_start_tracks:
  assumes "tracks es st" and "block_start data st = (es', st')"
  shows "tracks (es @ es') st' \<and> pieces_complete parse es es'"
  using assms(2) tracks_same_texts [OF assms(1) blocks_up_to_texts, of "[]"]
  by (auto simp: block_start_def Let_def split: if_splits
      intro!: tracks_same_texts [OF assms(1)] same_texts_update blocks_up_to_texts length_blocks_up_to)

lemma append_text_tracks:
  assumes "tracks es st" and "i < length (ss_blocks st)" and "\<forall>j. delta_of j e = (if j = i then s else [])" and "part_ended e = []"
  shows "tracks (es @ [e]) (append_text i s st)"
  using assms by (auto simp: tracks_def append_text_def nth_list_update)

lemma block_delta_tracks:
  assumes "tracks es st" and "block_delta data st = (es', st')"
  shows "tracks (es @ es') st' \<and> pieces_complete parse es es'"
  using assms(2) assms(1)
  by (auto simp: block_delta_def Let_def split: if_splits intro!: append_text_tracks)

lemma add_part_tracks:
  assumes "tracks es st" and "\<forall>j. delta_of j e = []" and "part_ended e = [b]"
  shows "tracks (es @ [e]) (add_part b st)"
  using assms by (auto simp: tracks_def add_part_def set_message_def)

lemma block_stop_tracks:
  assumes "tracks es st" and "block_stop parse data st = (es', st')"
  shows "tracks (es @ es') st' \<and> pieces_complete parse es es'"
  using assms(2) assms(1)
  by (auto simp: block_stop_def Let_def streamed_call_def tracks_text split: if_splits block_type.splits
      intro!: add_part_tracks)

lemma anthropic_event_tracks:
  assumes "tracks es st" and "process_anthropic_event parse type data st = (es', st')"
  shows "tracks (es @ es') st' \<and> pieces_complete parse es es'"
proof -
  have "tracks (es @ [DoneEvent r m]) st" for r m using assms(1) by (simp add: tracks_def)
  with assms show ?thesis unfolding process_anthropic_event_def
    by (auto split: if_splits
        dest: message_start_tracks [OF assms(1)] block_start_tracks [OF assms(1)] block_delta_tracks [OF assms(1)]
          block_stop_tracks [OF assms(1)] message_delta_tracks [OF assms(1)] anthropic_error_tracks [OF assms(1)])
qed

lemma anthropic_line_tracks:
  assumes "tracks es st" and "anthropic_line parse line st = (Inr es', st')"
  shows "tracks (es @ es') st' \<and> pieces_complete parse es es'"
proof -
  have "tracks es (st\<lparr>ss_provider := v\<rparr>)" for v using assms(1) by (simp add: tracks_def)
  with assms show ?thesis
    by (auto simp: anthropic_line_def split: option.splits prod.splits dest: anthropic_event_tracks [OF assms(1)])
qed

lemma stream_tracks:
  "tracks es st \<Longrightarrow> read_lines (anthropic_line parse) ls st = (Inr es', st') \<Longrightarrow>
   tracks (es @ es') st' \<and> pieces_complete parse es es'"
proof (induction ls arbitrary: es st es')
  case (Cons l ls)
  show ?case
  proof (cases "trim l = []")
    case False
    with Cons.prems(2) obtain e1 st1 e2 where h: "anthropic_line parse (trim l) st = (Inr e1, st1)"
      and rest: "read_lines (anthropic_line parse) ls st1 = (Inr e2, st')" and es': "es' = e1 @ e2"
      by (auto simp: Let_def split: prod.splits sum.splits)
    from anthropic_line_tracks [OF Cons.prems(1) h] have "tracks (es @ e1) st1" "pieces_complete parse es e1" by simp_all
    with Cons.IH [OF this(1) rest] show ?thesis by (simp add: es' pieces_complete_append)
  qed (use Cons in simp)
qed simp

subsection \<open>Properties\<close>

lemma transform_request_ok:
  "build_anthropic_messages cache (cx_messages cx) = Inr out \<Longrightarrow> \<exists>req. anthropic_transform_request cache cx = Inr req"
  by (simp add: anthropic_transform_request_def Let_def)


definition ask_json :: json where
  "ask_json =
     jobj [(''model'', JStr ''m''),
           (''messages'', JArr [jobj [(''role'', JStr ''user''), (''content'', JStr ''hi'')],
                                jobj [(''role'', JStr ''assistant''), (''content'', JStr ''ok'')]])]"


text \<open>
  Claim C20. Every message of an Anthropic request says something: it is the user's or the assistant's, it has a
  part, and no text in it is blank, so that a request is not refused for an empty message that a client
  sent or that translating a message left over.
\<close>

theorem anthropic_messages_say_something:
  assumes "anthropic_transform_request cache cx = Inr req"
  shows "\<exists>out. jget req ''messages'' = Some (JArr out) \<and> list_all says_something out"
proof -
  from assms obtain out where "build_anthropic_messages cache (cx_messages cx) = Inr out"
    and "jget req ''messages'' = Some (JArr out)" by (rule transform_request_messages)
  then show ?thesis by (auto dest: build_messages_full)
qed

definition small_context :: canon_context where
  "small_context =
     \<lparr>cx_system = None, cx_messages = [UserMsg [TextPart '' ''], UserMsg [TextPart ''hi'']], cx_tools = None, cx_model = ''m'',
      cx_max_tokens = None, cx_temperature = None, cx_top_p = None, cx_stop = None, cx_stream = True, cx_original = JNull\<rparr>"

theorem anthropic_messages_say_something_witness:
  "\<exists>req out. anthropic_transform_request True small_context = Inr req \<and>
     jget req ''messages'' = Some (JArr out) \<and> list_all says_something out"
proof -
  have "\<exists>out. build_anthropic_messages True (cx_messages small_context) = Inr out"
    by (simp add: small_context_def build_anthropic_messages_def build_anthropic_content_def is_space_def)
  then obtain req where r: "anthropic_transform_request True small_context = Inr req" by (auto dest: transform_request_ok)
  from anthropic_messages_say_something [OF r] r show ?thesis by auto
qed

text \<open>
  Claim C19. A streamed answer is complete: however the blocks of an Anthropic stream arrive, interleaved or with gaps,
  the event that ends a block says what the pieces sent before said, all of them and in order, the
  arguments of a tool call are the JSON that its pieces make up, and the message at the end holds the blocks
  that were ended, in order.
\<close>

theorem streamed_blocks_complete:
  assumes "read_lines (anthropic_line parse) ls stream_state_default = (Inr es, st)"
  shows "pieces_complete parse [] es \<and> an_content (ss_message st) = concat (map part_ended es)"
proof -
  have "tracks [] stream_state_default" by (simp add: tracks_def stream_state_default_def assistant_default_def)
  from stream_tracks [OF this assms] show ?thesis by (simp add: tracks_def)
qed

text \<open>A reader of four texts, for examples.\<close>

definition sample_parse :: "string \<Rightarrow> json option" where
  "sample_parse s =
     (if s = ''a'' then Some (jobj [(''index'', nat_json 0), (''content_block'', jobj [(''type'', JStr ''tool_use''), (''id'', JStr ''c''), (''name'', JStr ''f'')])])
      else if s = ''b'' then Some (jobj [(''index'', nat_json 0), (''delta'', jobj [(''type'', JStr ''input_json_delta''), (''partial_json'', JStr ''['')])])
      else if s = ''c'' then Some (jobj [(''index'', nat_json 0), (''delta'', jobj [(''type'', JStr ''input_json_delta''), (''partial_json'', JStr '']'')])])
      else if s = ''[]'' then Some (JArr [])
      else None)"

definition sample_lines :: "string list" where
  "sample_lines =
     [''event: content_block_start'', ''data: a'', ''event: content_block_delta'', ''data: b'', ''data: c'',
      ''event: content_block_stop'', ''data: a'']"

lemma sample_stream:
  "fst (read_lines (anthropic_line sample_parse) sample_lines stream_state_default) =
     Inr [ToolCallStart 0 ''c'' ''f'', ToolCallDelta 0 ''['', ToolCallDelta 0 '']'',
          ToolCallEnd 0 \<lparr>tc_id = ''c'', tc_name = ''f'', tc_arguments = JArr []\<rparr>]"
  by code_simp

theorem streamed_blocks_complete_witness:
  "\<exists>es st. read_lines (anthropic_line sample_parse) sample_lines stream_state_default = (Inr es, st) \<and>
     pieces_complete sample_parse [] es \<and> length es = 4 \<and>
     an_content (ss_message st) = [CallPart \<lparr>tc_id = ''c'', tc_name = ''f'', tc_arguments = JArr []\<rparr>]"
proof -
  obtain st where s: "read_lines (anthropic_line sample_parse) sample_lines stream_state_default =
     (Inr [ToolCallStart 0 ''c'' ''f'', ToolCallDelta 0 ''['', ToolCallDelta 0 '']'',
           ToolCallEnd 0 \<lparr>tc_id = ''c'', tc_name = ''f'', tc_arguments = JArr []\<rparr>], st)"
    using sample_stream by (metis prod.collapse)
  from streamed_blocks_complete [OF s] s show ?thesis by auto
qed

text \<open>
  A chunk that ends inside an event is not read at all: it goes to the client of the OpenAI format as the
  provider wrote it, though its other half, or the whole, would have been translated.
\<close>

theorem cut_event_reaches_client:
  assumes "strip_prefix ''data: '' (trim chunk) = Some rest" and "parse (trim rest) = None"
    and "CHR 0x0A \<notin> set chunk" and "lossy chunk = chunk"
  shows "relay_chunk (anthropic_line parse) lossy render f chunk (st, tk) = (chunk, st, tk)"
proof -
  from assms(1) have "trim chunk = ''data: '' @ rest" by (simp add: strip_prefix_Some_iff)
  then have "strip_prefix ''event: '' (trim chunk) = None" by simp
  from cut_line [where parse = parse, OF this assms(1-3)] show ?thesis by (simp add: relay_chunk_def assms(4))
qed

theorem cut_event_reaches_client_witness:
  "relay_chunk (anthropic_line sample_parse) (\<lambda>s. s) (\<lambda>j. []) \<lparr>cf_id = [], cf_model = [], cf_created = 0\<rparr> ''data: ['' (stream_state_default, no_tokens) = (''data: ['', stream_state_default, no_tokens) \<and>
   sample_parse ''[]'' = Some (JArr [])"
proof -
  have "relay_chunk (anthropic_line sample_parse) (\<lambda>s. s) (\<lambda>j. []) \<lparr>cf_id = [], cf_model = [], cf_created = 0\<rparr> ''data: ['' (stream_state_default, no_tokens) = (''data: ['', stream_state_default, no_tokens)"
    by (rule cut_event_reaches_client [where rest = "''[''"])
      (simp_all add: trim_def trim_start_def is_space_def sample_parse_def)
  then show ?thesis by (simp add: sample_parse_def)
qed

text \<open>
  The tokens of the cache are not counted when an Anthropic answer is streamed to a client of the OpenAI
  format: whatever the provider reports, the relay ends with no tokens read from the cache and none written,
  although the gateway marks the requests it translates for the cache.
\<close>

theorem streamed_cache_tokens_lost:
  assumes "relay_stream (anthropic_line parse) lossy render f cs (stream_state_default, no_tokens) = (out, st, tk)"
  shows "tk_cached tk = 0 \<and> tk_cache_write tk = 0"
  using assms by (rule streamed_tokens_of_cache)

definition usage_parse :: "string \<Rightarrow> json option" where
  "usage_parse s =
     Some (jobj [(''usage'', jobj [(''output_tokens'', nat_json 5), (''cache_read_input_tokens'', nat_json 900)])])"

theorem streamed_cache_tokens_lost_witness:
  "\<exists>out st tk. relay_stream (anthropic_line usage_parse) (\<lambda>s. s) (\<lambda>j. []) \<lparr>cf_id = [], cf_model = [], cf_created = 0\<rparr>
     [''event: message_delta'' @ newline @ ''data: {}'' @ newline] (stream_state_default, no_tokens) = (out, st, tk) \<and>
     tk_output tk = 5 \<and> tk_cached tk = 0"
proof -
  let ?r = "relay_stream (anthropic_line usage_parse) (\<lambda>s. s) (\<lambda>j. []) \<lparr>cf_id = [], cf_model = [], cf_created = 0\<rparr>
     [''event: message_delta'' @ newline @ ''data: {}'' @ newline] (stream_state_default, no_tokens)"
  obtain out st tk where r: "?r = (out, st, tk)" by (cases ?r)
  have "tk_output (snd (snd ?r)) = 5" by code_simp
  with streamed_cache_tokens_lost [OF r] r show ?thesis by auto
qed

subsection \<open>A whole answer as a stream\<close>

fun delta_text :: "stream_event \<Rightarrow> string" where
  "delta_text (TextDelta i d) = d"
| "delta_text (ThinkingDelta i d) = d"
| "delta_text _ = []"

definition unthought :: "canon_block \<Rightarrow> bool" where
  "unthought b \<longleftrightarrow> (\<forall>t sig. b \<noteq> ThinkingPart t sig)"

fun call_events :: "(json \<Rightarrow> string) \<Rightarrow> nat \<Rightarrow> tool_call list \<Rightarrow> stream_event list" where
  "call_events render n [] = []"
| "call_events render n (tc # tcs) =
     [ToolCallStart n (tc_id tc) (tc_name tc), ToolCallDelta n (render (tc_arguments tc))] @ call_events render (Suc n) tcs"

fun of_call :: "stream_event \<Rightarrow> bool" where
  "of_call (ToolCallStart i cid name) = True"
| "of_call (ToolCallDelta i d) = True"
| "of_call _ = False"

lemma fake_events_say:
  "list_all unthought bs \<Longrightarrow>
   concat (map delta_text (fake_events render n bs)) = concat (map text_of_block bs) \<and>
   filter of_call (fake_events render n bs) = call_events render n (List.map_filter call_of_block bs)"
proof (induction bs arbitrary: n)
  case (Cons b bs)
  then show ?case by (cases b) (auto simp: unthought_def map_filter_simps)
qed (simp add: map_filter_simps)

text \<open>
  A client that asked for a stream of an answer that the provider gives whole gets what the whole
  answer says: the texts of its pieces together are the content of the message that a client without
  streaming gets, and its tool calls are that message's, in order, with the arguments as written there. This
  is so for answers without thinking, which the whole message wraps in tags and the stream does not.
\<close>

theorem fake_stream_agrees:
  assumes "list_all unthought (an_content m)"
  shows "concat (map delta_text (fake_stream_events render model (es @ [DoneEvent r m]))) =
      text_or_empty (message_json render (final_message (es @ [DoneEvent r m]))) ''content'' \<and>
    filter of_call (fake_stream_events render model (es @ [DoneEvent r m])) =
      call_events render 0 (List.map_filter call_of_block (an_content (final_message (es @ [DoneEvent r m]))))"
proof -
  have m: "final_message (es @ [DoneEvent r m]) = m" by (simp add: final_message_def)
  have "text_or_empty (message_json render m) ''content'' = concat (map text_of_block (an_content m))"
    by (simp add: message_json_def Let_def text_or_empty_def text_at_def jindex_def jget_put_object)
  with m fake_events_say [OF assms] show ?thesis
    by (simp_all add: fake_stream_events_def)
qed

theorem fake_stream_agrees_witness:
  "concat (map delta_text (fake_stream_events (\<lambda>j. []) ''m''
     [DoneEvent EndTurn (assistant_default\<lparr>an_content := [TextPart ''a'', TextPart ''b'']\<rparr>)])) = ''ab''"
proof -
  let ?m = "assistant_default\<lparr>an_content := [TextPart ''a'', TextPart ''b'']\<rparr>"
  have "list_all unthought (an_content ?m)" by (simp add: unthought_def)
  from fake_stream_agrees [OF this, of "\<lambda>j. []" "''m''" "[]" EndTurn] show ?thesis
    by (simp add: final_message_def message_json_def map_filter_simps Let_def text_or_empty_jobj)
qed

end
