(* ===== verification/Spec2Isabelle.thy ===== *)
theory Spec2Isabelle
  imports Json Network_Acl Daily_Concurrent Key_Validation Policy Delegated_Fetch Availability Pools Adjustment_Retry Conversations Provider_Routing Proxy_Admission Image_Fetch Realtime_Frames Client_Identity Pi_Stream Upstream_Headers Usage_Tracking Routing_Reload Management Jobs Inference_Ingress Transform_Relay
begin

text \<open>
  \<^bold>\<open>eavs, a gateway for language model providers\<close>

  The gateway stands between clients and model providers. A client authenticates with a virtual
  key; the gateway checks the key, its permissions, limits and budget, removes from the request
  what the client is not entitled to, applies the operator's policy, sends the request to a
  provider with the provider's own credential, and records the usage. This development models the
  parts of it that decide something, from the sources under src/src/ of the repository, and proves what
  makes them correct, or shows where they are not.

  \<^bold>\<open>Parts and theories\<close>

  \<^item> \<^bold>\<open>Foundations.\<close> \<open>Prelude\<close> has the machine integers (words of the width the code uses), the string
    functions of the standard library, and the interface of a component whose operations keep an
    invariant. \<open>Json\<close> is \<open>serde_json::Value\<close> with its sorted maps; \<open>Http\<close> the header maps;
    \<open>Float64\<close> the rounding of \<open>f64\<close> sums; \<open>Access_List\<close> the contract of a deny and an allow list.
  \<^item> \<^bold>\<open>Network policy.\<close> \<open>Glob\<close> and \<open>Network_Acl\<close>: src/network_acl.rs. The glob loop is a partial
    function with a proof that it returns, and is compared with a declarative meaning; hosts and
    destinations are checked with the address parser of the standard library written out.
  \<^item> \<^bold>\<open>Keys.\<close> \<open>Key_Gen\<close> (src/keys/generation.rs), \<open>Key_Types\<close> (types.rs), \<open>Key_Store\<close> (store.rs: rows,
    cache, index, write-behind), \<open>Rate_Limit\<close> (rate_limit.rs), \<open>Daily_Concurrent\<close> (the same daily
    check as atomic steps of any number of threads), and \<open>Key_Validation\<close> (validation.rs), which
    composes store and limiters.
  \<^item> \<^bold>\<open>Bodies.\<close> \<open>Policy\<close> (src/policy.rs), \<open>Delegated_Fetch\<close> (src/delegated_fetch.rs), \<open>Reasoning_Effort\<close>
    (src/reasoning_effort.rs) and \<open>Adjustment_Retry\<close> (the one retry of src/proxy.rs).
  \<^item> \<^bold>\<open>Choice of the upstream.\<close> \<open>Provider_Routing\<close> (src/provider.rs, \<open>resolve_provider\<close> of src/config.rs
    and src/state.rs), \<open>Availability\<close> (src/availability.rs, src/prober.rs) and \<open>Pools\<close> (src/pools.rs).
  \<^item> \<^bold>\<open>What is offered.\<close> \<open>Model_Catalog\<close> (src/model_catalog.rs), \<open>Serving_Catalog\<close>
    (src/api/serving_catalog.rs: the models a key may use, decided at a second look at the key) and
    \<open>Inference_Ingress\<close> (src/inference_ingress.rs, src/inference_routes.rs, src/cors.rs: the listener that turns
    a public model name into a pinned provider).
  \<^item> \<^bold>\<open>The request path.\<close> \<open>Conversations\<close> (src/state.rs, src/api.rs, src/plugins.rs), \<open>Proxy_Admission\<close>
    (the first half of \<open>proxy_handler_pinned\<close> of src/proxy.rs, over nearly all of the above),
    \<open>Realtime_Frames\<close>, \<open>Image_Fetch\<close> and \<open>Client_Identity\<close> (src/client_identity.rs, src/proxy.rs);
    \<open>Provider_Settings\<close> (src/provider.rs, src/config.rs), \<open>Upstream_Headers\<close> and \<open>Usage_Tracking\<close> (the second half
    of that handler: the headers it sends and the usage it records when the answer ends).
  \<^item> \<^bold>\<open>The Pi bridge.\<close> \<open>Sse_Framing\<close>, \<open>Pi_Wire\<close>, \<open>Pi_Native\<close> and \<open>Pi_Stream\<close>: src/pi_messages/framing.rs,
    wire.rs and signatures.rs, native.rs with its four formats, and stream.rs.
  \<^item> \<^bold>\<open>Translation.\<close> \<open>Canonical\<close> (src/types.rs, src/transform/openai.rs: the common messages, the reading of OpenAI
    requests and the writing of OpenAI answers), \<open>Anthropic_Format\<close> (src/transform/anthropic.rs) and
    \<open>Transform_Relay\<close> (the relay of answers in src/proxy.rs, and what a translation keeps of a conversation).
  \<^item> \<^bold>\<open>Money.\<close> \<open>Pricing\<close>: src/keys/pricing.rs and the cost of a request in src/keys/cost.rs.
  \<^item> \<^bold>\<open>Operation.\<close> \<open>Management\<close> (the gate and the key operations of src/api.rs), \<open>Routing_Reload\<close>
    (src/routing.rs, src/api/routing.rs) and \<open>Jobs\<close> (src/jobs.rs).

  \<^bold>\<open>Conventions\<close>

  A struct is a record with prefixed field names, an enum a datatype, a fallible operation a sum
  whose left side is the error. State is passed explicitly; an operation that reads the clock gets
  its reading as an argument. Strings are lists of bytes. Functions of third-party packages
  (SHA-256, the random generator, the governor bucket, the glob-match package, the URL parser, the
  resolver, JSON reading and writing, zstd, base64, SQLite and the HTTP client) are arguments, and
  what is used of their documented behaviour is a named hypothesis. A panic of the code is a value
  of its own. An \<open>await\<close> point is modelled where other requests can change what the operation
  goes on to use: in \<open>Daily_Concurrent\<close>, in the dispatch loop of \<open>Pools\<close>, between the two looks at a
  key of \<open>Serving_Catalog\<close> and \<open>Inference_Ingress\<close>, and in the step relations of \<open>Routing_Reload\<close> and \<open>Jobs\<close>.

  \<^bold>\<open>What the lemmas show\<close>

  Each component has an invariant kept by all its operations where it has state, a description of
  every branch, and the properties stated as claims: entitlement and confinement of admitted
  requests, isolation of tenants, exact limits, refinement of lookup by the database row, order
  and bounds of failover, round trips of persistence. Properties that show a defect evaluate the
  model at a concrete input.

  \<^bold>\<open>Bounds\<close>

  Nested values are processed to the depth \<open>depth body\<close>, which is the nesting of the value itself, so
  the fuel of \<open>Delegated_Fetch\<close> never runs out (the code recurses as deep as its input). The
  dispatch loop is bounded by the code's own \<open>MAX_ATTEMPTS\<close>, and the body that Pi reads ends because
  each pull consumes input (a measure in \<open>Pi_Stream\<close>). The wildcard loop of \<open>Glob\<close> is a partial function
  with a proof that it returns.

  \<^bold>\<open>Not modelled\<close>

  Command line, set-up, terminal interface, device enrolment, OAuth logins, logging, export, the
  mock provider, the TLS relay and AWS signing are input and output around packages. Of the key store the usage reports and
  the migrations are SQL. Of the transformers (src/transform) the formats of Google, Mistral, Azure, Bedrock and
  the Responses interface are not modelled, nor is the conversion of requests in the Pi bridge.
\<close>

end
